(* ===== verification/PyRegex.thy ===== *)
theory PyRegex
  imports Prelude
begin

section \<open>Regular expressions as Python's \<open>re\<close> runs them\<close>

text \<open>
  The worker's patterns are compiled by Python's \<open>re\<close>, a backtracking matcher: alternatives are
  tried from left to right, repetitions greedily, and the first complete match wins.  \<open>rmatch\<close>
  lists the possible matches of a pattern from a position in that order, so the match \<open>re\<close>
  reports is the head of the list.  \<open>re_search\<close>, \<open>re_fullmatch\<close> and \<open>re_sub\<close> follow the library
  functions of the same name.
\<close>

datatype regex =
    Eps
  | Cls "char \<Rightarrow> bool"
  | Sq regex regex
  | Alt regex regex
  | Star regex
  | Grp nat regex
  | WordBoundary
  | StartOfText
  | EndOfText

type_synonym captures = "(nat \<times> nat \<times> nat) list"

definition word_at :: "string \<Rightarrow> nat \<Rightarrow> bool" where
  "word_at s i \<longleftrightarrow> i < length s \<and> is_word (s ! i)"

definition word_before :: "string \<Rightarrow> nat \<Rightarrow> bool" where
  "word_before s i \<longleftrightarrow> 0 < i \<and> word_at s (i - 1)"

function (sequential) rmatch :: "regex \<Rightarrow> string \<Rightarrow> nat \<times> captures \<Rightarrow> (nat \<times> captures) list"
where
  "rmatch Eps s (i, cs) = [(i, cs)]"
| "rmatch (Cls p) s (i, cs) = (if i < length s \<and> p (s ! i) then [(Suc i, cs)] else [])"
| "rmatch (Sq a b) s (i, cs) = concat (map (rmatch b s) (rmatch a s (i, cs)))"
| "rmatch (Alt a b) s (i, cs) = rmatch a s (i, cs) @ rmatch b s (i, cs)"
| "rmatch (Star a) s (i, cs) =
     concat (map (\<lambda>st. if i < fst st \<and> fst st \<le> length s then rmatch (Star a) s st else [])
       (rmatch a s (i, cs))) @ [(i, cs)]"
| "rmatch (Grp n a) s (i, cs) = map (\<lambda>(j, cs'). (j, (n, i, j) # cs')) (rmatch a s (i, cs))"
| "rmatch WordBoundary s (i, cs) = (if word_before s i \<noteq> word_at s i then [(i, cs)] else [])"
| "rmatch StartOfText s (i, cs) = (if i = 0 then [(i, cs)] else [])"
| "rmatch EndOfText s (i, cs) = (if i = length s then [(i, cs)] else [])"
  by pat_completeness auto
termination
  by (relation "measures [\<lambda>(r, s, st). size r, \<lambda>(r, s, st). length s - fst st]") auto

text \<open>The equation for \<open>Star\<close> calls itself: it is unfolded by hand.\<close>

lemmas rmatch_Star = rmatch.simps(5)
declare rmatch.simps(5) [simp del]

text \<open>The pattern operators the sources use: \<open>+\<close>, \<open>?\<close>, a literal, a bounded repetition and a
  choice.  A case-insensitive literal has one class per character.\<close>

definition Plus :: "regex \<Rightarrow> regex" where
  "Plus r = Sq r (Star r)"

definition Opt :: "regex \<Rightarrow> regex" where
  "Opt r = Alt r Eps"

fun Lit :: "string \<Rightarrow> regex" where
  "Lit [] = Eps"
| "Lit (c # cs) = Sq (Cls (\<lambda>d. d = c)) (Lit cs)"

fun ILit :: "string \<Rightarrow> regex" where
  "ILit [] = Eps"
| "ILit (c # cs) = Sq (Cls (\<lambda>d. lower d = lower c)) (ILit cs)"

fun Alts :: "regex list \<Rightarrow> regex" where
  "Alts [] = Cls (\<lambda>_. False)"
| "Alts [r] = r"
| "Alts (r # rs) = Alt r (Alts rs)"

fun Rep :: "nat \<Rightarrow> regex \<Rightarrow> regex" where
  "Rep 0 r = Eps"
| "Rep (Suc n) r = Sq r (Rep n r)"

fun Sqs :: "regex list \<Rightarrow> regex" where
  "Sqs [] = Eps"
| "Sqs [r] = r"
| "Sqs (r # rs) = Sq r (Sqs rs)"

text \<open>\<open>match.group(n)\<close>: the text of the last capture of group \<open>n\<close>, empty when it did not
  take part.\<close>

definition group :: "nat \<Rightarrow> string \<Rightarrow> captures \<Rightarrow> string" where
  "group n s cs = (case map_of cs n of None \<Rightarrow> [] | Some (i, j) \<Rightarrow> drop i (take j s))"

definition match_at :: "regex \<Rightarrow> string \<Rightarrow> nat \<Rightarrow> (nat \<times> captures) option" where
  "match_at r s i = (case rmatch r s (i, []) of [] \<Rightarrow> None | m # _ \<Rightarrow> Some m)"

definition re_search :: "regex \<Rightarrow> string \<Rightarrow> bool" where
  "re_search r s \<longleftrightarrow> (\<exists>i\<in>set [0..<Suc (length s)]. match_at r s i \<noteq> None)"

definition re_fullmatch :: "regex \<Rightarrow> string \<Rightarrow> bool" where
  "re_fullmatch r s \<longleftrightarrow> (\<exists>m\<in>set (rmatch r s (0, [])). fst m = length s)"

text \<open>\<open>re.sub\<close> from position \<open>i\<close>: copy a character where nothing matches, otherwise write the
  replacement and go on after the match (an empty match also copies one character).\<close>

function re_sub_from :: "regex \<Rightarrow> (string \<Rightarrow> captures \<Rightarrow> string) \<Rightarrow> string \<Rightarrow> nat \<Rightarrow> string" where
  "re_sub_from r f s i =
     (if length s < i then []
      else (case match_at r s i of
          None \<Rightarrow> (if i < length s then s ! i # re_sub_from r f s (Suc i) else [])
        | Some (j, cs) \<Rightarrow> f s cs @
            (if i < j then re_sub_from r f s j
             else if i < length s then s ! i # re_sub_from r f s (Suc i) else [])))"
  by pat_completeness auto
termination
  by (relation "measure (\<lambda>(r, f, s, i). Suc (length s) - i)") auto

declare re_sub_from.simps [simp del]

definition re_sub :: "regex \<Rightarrow> (string \<Rightarrow> captures \<Rightarrow> string) \<Rightarrow> string \<Rightarrow> string" where
  "re_sub r f s = re_sub_from r f s 0"

subsection \<open>Matches stay inside the text and move forward\<close>

definition caps_ok :: "string \<Rightarrow> captures \<Rightarrow> bool" where
  "caps_ok s cs \<longleftrightarrow> (\<forall>(n, i, j)\<in>set cs. i \<le> j \<and> j \<le> length s)"

lemma rmatch_bounds:
  "(j, cs') \<in> set (rmatch r s (i, cs)) \<Longrightarrow> i \<le> length s \<Longrightarrow>
     i \<le> j \<and> j \<le> length s \<and> (caps_ok s cs \<longrightarrow> caps_ok s cs')"
proof (induction r s "(i, cs)" arbitrary: i cs j cs' rule: rmatch.induct)
  case (3 a b s i cs)
  then obtain k ds where k: "(k, ds) \<in> set (rmatch a s (i, cs))"
    and j: "(j, cs') \<in> set (rmatch b s (k, ds))" by auto
  from "3.hyps"(1) [OF k "3.prems"(2)] have "i \<le> k" "k \<le> length s"
    "caps_ok s cs \<longrightarrow> caps_ok s ds" by auto
  moreover from "3.hyps"(2) [OF k j] \<open>k \<le> length s\<close>
  have "k \<le> j" "j \<le> length s" "caps_ok s ds \<longrightarrow> caps_ok s cs'" by auto
  ultimately show ?case by auto
next
  case (5 a s i cs)
  from "5.prems"(1) have "(j, cs') = (i, cs) \<or>
      (\<exists>st\<in>set (rmatch a s (i, cs)). i < fst st \<and> fst st \<le> length s \<and>
        (j, cs') \<in> set (rmatch (Star a) s st))"
    by (subst (asm) rmatch_Star) (auto split: if_splits)
  then consider "(j, cs') = (i, cs)" | k ds where "(k, ds) \<in> set (rmatch a s (i, cs))"
    "i < k" "k \<le> length s" "(j, cs') \<in> set (rmatch (Star a) s (k, ds))"
    by (metis prod.collapse)
  then show ?case
  proof cases
    case 1
    with "5.prems" show ?thesis by simp
  next
    case 2
    from "5.hyps"(1) [OF 2(1) "5.prems"(2)] have "caps_ok s cs \<longrightarrow> caps_ok s ds" by simp
    moreover from "5.hyps"(2) [OF 2(1)] 2
    have "k \<le> j \<and> j \<le> length s \<and> (caps_ok s ds \<longrightarrow> caps_ok s cs')" by simp
    ultimately show ?thesis using 2(2) by simp
  qed
next
  case (6 n a s i cs)
  then obtain ds where "(j, ds) \<in> set (rmatch a s (i, cs))" "cs' = (n, i, j) # ds" by auto
  with "6.hyps"(1) [of j ds] "6.prems"(2) show ?case by (simp add: caps_ok_def)
qed (auto split: if_splits)

lemma match_at_bounds:
  "match_at r s i = Some (j, cs) \<Longrightarrow> i \<le> length s \<Longrightarrow> i \<le> j \<and> j \<le> length s \<and> caps_ok s cs"
  using rmatch_bounds [of j cs r s i "[]"]
  by (auto simp: match_at_def caps_ok_def split: list.splits)

subsection \<open>What substitution can put in the result\<close>

lemma group_subset: "set (group n s cs) \<subseteq> set s"
  unfolding group_def
  by (auto split: option.splits dest!: in_set_dropD in_set_takeD)

lemma re_sub_from_set:
  assumes "\<And>s cs. set s \<subseteq> A \<Longrightarrow> set (f s cs) \<subseteq> A" and "set s \<subseteq> A"
  shows "set (re_sub_from r f s i) \<subseteq> A"
  using assms
proof (induction r f s i rule: re_sub_from.induct)
  case (1 r f s i)
  show ?case
  proof (cases "length s < i")
    case True
    then show ?thesis by (simp add: re_sub_from.simps)
  next
    case False
    have nth: "i < length s \<Longrightarrow> s ! i \<in> A" using "1.prems" nth_mem by blast
    show ?thesis
    proof (cases "match_at r s i")
      case None
      with False "1.IH"(1) [OF False None] "1.prems" nth show ?thesis
        by (subst re_sub_from.simps) auto
    next
      case (Some m)
      obtain j cs where m: "m = (j, cs)" by (cases m)
      have j: "i < j \<Longrightarrow> set (re_sub_from r f s j) \<subseteq> A"
        using "1.IH"(2) [OF False Some m [symmetric]] "1.prems" by blast
      have n: "\<not> i < j \<Longrightarrow> i < length s \<Longrightarrow> set (re_sub_from r f s (Suc i)) \<subseteq> A"
        using "1.IH"(3) [OF False Some m [symmetric]] "1.prems" by blast
      from False Some m j n nth "1.prems"(1) [OF "1.prems"(2), of cs] "1.prems"(2) show ?thesis
        by (subst re_sub_from.simps) auto
    qed
  qed
qed

lemma re_sub_set:
  "(\<And>s cs. set s \<subseteq> A \<Longrightarrow> set (f s cs) \<subseteq> A) \<Longrightarrow> set s \<subseteq> A \<Longrightarrow> set (re_sub r f s) \<subseteq> A"
  unfolding re_sub_def by (rule re_sub_from_set)

lemma re_sub_from_id:
  assumes "\<And>i. i \<le> length s \<Longrightarrow> match_at r s i = None" and "i \<le> length s"
  shows "re_sub_from r f s i = drop i s"
  using assms(2)
proof (induction "length s - i" arbitrary: i)
  case 0
  then show ?case using assms(1) [of i] by (subst re_sub_from.simps) simp
next
  case (Suc n)
  then have "i < length s" by simp
  with Suc.hyps(1) [of "Suc i"] Suc.hyps(2) have "re_sub_from r f s (Suc i) = drop (Suc i) s"
    by simp
  with \<open>i < length s\<close> assms(1) [of i] show ?case
    by (subst re_sub_from.simps) (simp add: Cons_nth_drop_Suc)
qed

text \<open>A pattern that matches nowhere leaves the text alone.\<close>

lemma re_search_None: "\<not> re_search r s \<Longrightarrow> i \<le> length s \<Longrightarrow> match_at r s i = None"
  by (metis re_search_def atLeastLessThan_iff le0 less_Suc_eq_le set_upt)

lemma re_sub_no_match: "\<not> re_search r s \<Longrightarrow> re_sub r f s = s"
  unfolding re_sub_def by (subst re_sub_from_id) (auto dest: re_search_None)

end
