(* ===== verification/Json.thy ===== *)
theory Json
  imports Prelude
begin

section \<open>JSON values: shape limits and encoding\<close>

text \<open>
  The Python values that cross the database and wire boundaries, \<open>json.dumps\<close> on them, and the
  iterative shape check of \<open>contracts.py\<close> (\<open>_validate_json_shape\<close>,
  \<open>bounded_database_payload_json\<close>).  The check walks an explicit stack; it is proved equivalent to a
  recursive description of the shapes it accepts.  A float or \<open>Decimal\<close> is kept as the text JSON
  writes for it, and a dictionary key that is no \<open>str\<close> as the text of its \<open>str()\<close>.
\<close>

datatype pykey = KStr string | KOther string

datatype pyval =
    VNone
  | VBool bool
  | VInt int
  | VFloat string
  | VStr string
  | VList "pyval list"
  | VTuple "pyval list"
  | VDict "(pykey \<times> pyval) list"

subsection \<open>The shape limits\<close>

definition MAX_JOB_WIRE_BYTES :: nat where "MAX_JOB_WIRE_BYTES = 64 * 1024"
definition MAX_JSON_DEPTH :: nat where "MAX_JSON_DEPTH = 10"
definition MAX_JSON_NODES :: nat where "MAX_JSON_NODES = 256"
definition MAX_CONTAINER_ITEMS :: nat where "MAX_CONTAINER_ITEMS = 128"
definition MAX_JSON_STRING :: nat where "MAX_JSON_STRING = 4096"

datatype shape_error =
    NodeLimit
  | DepthLimit
  | StringLimit
  | ContainerLimit
  | InvalidKey

text \<open>The loop over \<open>value.items()\<close>: every key counts as a node, every item is pushed.  The
  stack's top is the head of the list.\<close>

fun push_items ::
  "nat \<Rightarrow> nat \<Rightarrow> (pykey \<times> pyval) list \<Rightarrow> (pyval \<times> nat) list \<Rightarrow>
     shape_error + nat \<times> (pyval \<times> nat) list" where
  "push_items nodes depth [] stack = Inr (nodes, stack)"
| "push_items nodes depth ((key, item) # kvs) stack =
     (case key of
        KOther _ \<Rightarrow> Inl InvalidKey
      | KStr k \<Rightarrow>
          if MAX_JSON_STRING < length k then Inl InvalidKey
          else if MAX_JSON_NODES < Suc nodes then Inl NodeLimit
          else push_items (Suc nodes) depth kvs ((item, Suc depth) # stack))"

fun vsize :: "pyval \<Rightarrow> nat" where
  "vsize (VList vs) = Suc (sum_list (map vsize vs))"
| "vsize (VTuple vs) = Suc (sum_list (map vsize vs))"
| "vsize (VDict kvs) = Suc (sum_list (map (\<lambda>kv. vsize (snd kv)) kvs))"
| "vsize _ = 1"

definition stack_size :: "(pyval \<times> nat) list \<Rightarrow> nat" where
  "stack_size st = sum_list (map (vsize \<circ> fst) st)"

lemma stack_size_simps [simp]:
  "stack_size [] = 0" "stack_size ((v, d) # st) = vsize v + stack_size st"
  "stack_size (xs @ ys) = stack_size xs + stack_size ys"
  by (simp_all add: stack_size_def)

lemma stack_size_list [simp]:
  "stack_size (rev (map (\<lambda>v. (v, d)) vs)) = sum_list (map vsize vs)"
  by (induction vs) simp_all

lemma push_items_size:
  "push_items nodes depth kvs st = Inr (n, st') \<Longrightarrow>
     stack_size st' = stack_size st + sum_list (map (\<lambda>kv. vsize (snd kv)) kvs)"
  by (induction nodes depth kvs st rule: push_items.induct)
     (auto split: pykey.splits if_splits)

function (sequential) shape_loop :: "nat \<Rightarrow> (pyval \<times> nat) list \<Rightarrow> shape_error + unit" where
  "shape_loop nodes [] = Inr ()"
| "shape_loop nodes ((value, depth) # stack) =
     (let nodes = Suc nodes in
      if MAX_JSON_NODES < nodes then Inl NodeLimit
      else if MAX_JSON_DEPTH < depth then Inl DepthLimit
      else (case value of
          VStr s \<Rightarrow>
            if MAX_JSON_STRING < length s then Inl StringLimit else shape_loop nodes stack
        | VDict kvs \<Rightarrow>
            if MAX_CONTAINER_ITEMS < length kvs then Inl ContainerLimit
            else (case push_items nodes depth kvs stack of
                Inl e \<Rightarrow> Inl e
              | Inr (nodes', stack') \<Rightarrow> shape_loop nodes' stack')
        | VList vs \<Rightarrow>
            if MAX_CONTAINER_ITEMS < length vs then Inl ContainerLimit
            else shape_loop nodes (rev (map (\<lambda>v. (v, Suc depth)) vs) @ stack)
        | _ \<Rightarrow> shape_loop nodes stack))"
  by pat_completeness auto
termination
  by (relation "measure (\<lambda>(n, st). stack_size st)") (auto dest: push_items_size)

declare shape_loop.simps(2) [simp del]

definition validate_json_shape :: "pyval \<Rightarrow> shape_error + unit" where
  "validate_json_shape root = shape_loop 0 [(root, 1)]"

subsection \<open>What the loop accepts\<close>

text \<open>The recursive description: the number of nodes a value counts for, its nesting, and the
  size of its strings, keys and containers.\<close>

fun weight :: "pyval \<Rightarrow> nat" where
  "weight (VList vs) = Suc (sum_list (map weight vs))"
| "weight (VDict kvs) = Suc (sum_list (map (\<lambda>kv. Suc (weight (snd kv))) kvs))"
| "weight _ = 1"

definition key_fits :: "pykey \<Rightarrow> bool" where
  "key_fits key = (case key of KStr k \<Rightarrow> length k \<le> MAX_JSON_STRING | KOther _ \<Rightarrow> False)"

fun within :: "nat \<Rightarrow> pyval \<Rightarrow> bool" where
  "within depth (VStr s) = (depth \<le> MAX_JSON_DEPTH \<and> length s \<le> MAX_JSON_STRING)"
| "within depth (VList vs) =
     (depth \<le> MAX_JSON_DEPTH \<and> length vs \<le> MAX_CONTAINER_ITEMS \<and>
      (\<forall>v\<in>set vs. within (Suc depth) v))"
| "within depth (VDict kvs) =
     (depth \<le> MAX_JSON_DEPTH \<and> length kvs \<le> MAX_CONTAINER_ITEMS \<and>
      (\<forall>kv\<in>set kvs. key_fits (fst kv) \<and> within (Suc depth) (snd kv)))"
| "within depth _ = (depth \<le> MAX_JSON_DEPTH)"

definition stack_weight :: "(pyval \<times> nat) list \<Rightarrow> nat" where
  "stack_weight st = sum_list (map (weight \<circ> fst) st)"

lemma stack_weight_simps [simp]:
  "stack_weight [] = 0" "stack_weight ((v, d) # st) = weight v + stack_weight st"
  "stack_weight (xs @ ys) = stack_weight xs + stack_weight ys"
  by (simp_all add: stack_weight_def)

lemma stack_weight_list [simp]:
  "stack_weight (rev (map (\<lambda>v. (v, d)) vs)) = sum_list (map weight vs)"
  by (induction vs) simp_all

definition fits :: "nat \<Rightarrow> (pyval \<times> nat) list \<Rightarrow> bool" where
  "fits nodes st \<longleftrightarrow> nodes + stack_weight st \<le> MAX_JSON_NODES \<and> (\<forall>(v, d)\<in>set st. within d v)"

lemma weight_pos: "1 \<le> weight v"
  by (cases v) auto

lemma push_items_Inr:
  "push_items nodes depth kvs st = Inr (n, st') \<Longrightarrow>
     n = nodes + length kvs \<and> (\<forall>kv\<in>set kvs. key_fits (fst kv)) \<and>
     set st' = set st \<union> (\<lambda>kv. (snd kv, Suc depth)) ` set kvs \<and>
     stack_weight st' = stack_weight st + sum_list (map (weight \<circ> snd) kvs)"
proof (induction nodes depth kvs st rule: push_items.induct)
  case (2 nodes depth key item kvs st)
  then show ?case by (cases key) (auto simp: key_fits_def split: if_splits)
qed simp

lemma push_items_Inl:
  "push_items nodes depth kvs st = Inl e \<Longrightarrow>
     (\<exists>kv\<in>set kvs. \<not> key_fits (fst kv)) \<or> MAX_JSON_NODES < nodes + length kvs"
proof (induction nodes depth kvs st rule: push_items.induct)
  case (2 nodes depth key item kvs st)
  then show ?case by (cases key) (auto simp: key_fits_def split: if_splits)
qed simp

lemma weight_VDict: "weight (VDict kvs) = Suc (length kvs + sum_list (map (weight \<circ> snd) kvs))"
  by (induction kvs) auto

lemma fits_dict:
  assumes "length kvs \<le> MAX_CONTAINER_ITEMS" "depth \<le> MAX_JSON_DEPTH"
    and "push_items (Suc nodes) depth kvs st = Inr (n, st')"
  shows "fits n st' \<longleftrightarrow> fits nodes ((VDict kvs, depth) # st)"
proof -
  note r = push_items_Inr [OF assms(3)]
  have "n + stack_weight st' = nodes + stack_weight ((VDict kvs, depth) # st)"
    using r by (simp only: stack_weight_simps weight_VDict)
  moreover have "(\<forall>(v, d)\<in>set st'. within d v) \<longleftrightarrow>
      (\<forall>(v, d)\<in>set ((VDict kvs, depth) # st). within d v)"
    using r assms(1,2) by auto
  ultimately show ?thesis by (simp add: fits_def)
qed

lemma fits_list:
  assumes "length vs \<le> MAX_CONTAINER_ITEMS" "depth \<le> MAX_JSON_DEPTH"
  shows "fits (Suc nodes) (rev (map (\<lambda>v. (v, Suc depth)) vs) @ st) \<longleftrightarrow>
    fits nodes ((VList vs, depth) # st)"
  using assms by (auto simp: fits_def)

lemma fits_needs:
  assumes "fits nodes ((v, d) # st)"
  shows "nodes < MAX_JSON_NODES" "d \<le> MAX_JSON_DEPTH"
  using assms weight_pos [of v] by (auto simp: fits_def intro: within.elims(2) elim: within.elims)

lemma fits_leaf:
  assumes "nodes < MAX_JSON_NODES" "weight v = 1"
  shows "fits nodes ((v, d) # st) \<longleftrightarrow> within d v \<and> (st = [] \<or> fits (Suc nodes) st)"
  using assms by (auto simp: fits_def)

lemma shape_loop_iff: "shape_loop nodes st = Inr () \<longleftrightarrow> st = [] \<or> fits nodes st"
proof (induction nodes st rule: shape_loop.induct)
  case (2 nodes v d st)
  show ?case
  proof (cases "nodes < MAX_JSON_NODES \<and> d \<le> MAX_JSON_DEPTH")
    case False
    then have "shape_loop nodes ((v, d) # st) \<noteq> Inr ()" by (auto simp: shape_loop.simps)
    with False fits_needs show ?thesis by blast
  next
    case True
    then have lim: "\<not> MAX_JSON_NODES < Suc nodes" "\<not> MAX_JSON_DEPTH < d" by auto
    have leaf: "shape_loop nodes ((v, d) # st) = Inr () \<longleftrightarrow> fits nodes ((v, d) # st)"
      if "shape_loop nodes ((v, d) # st) = shape_loop (Suc nodes) st" "weight v = 1" "within d v"
        "shape_loop (Suc nodes) st = Inr () \<longleftrightarrow> st = [] \<or> fits (Suc nodes) st"
      using that True by (simp add: fits_leaf)
    show ?thesis
    proof (cases v)
      case (VStr s)
      show ?thesis
      proof (cases "MAX_JSON_STRING < length s")
        case True
        with lim VStr show ?thesis by (simp add: shape_loop.simps(2) fits_def)
      next
        case False
        with lim VStr leaf "2.IH"(5) [OF refl lim VStr False] show ?thesis
          by (simp add: shape_loop.simps(2))
      qed
    next
      case (VDict kvs)
      show ?thesis
      proof (cases "MAX_CONTAINER_ITEMS < length kvs")
        case True
        with lim VDict show ?thesis by (simp add: shape_loop.simps(2) fits_def)
      next
        case len: False
        show ?thesis
        proof (cases "push_items (Suc nodes) d kvs st")
          case (Inl e)
          with push_items_Inl [OF this] have "\<not> fits nodes ((VDict kvs, d) # st)"
            by (auto simp: fits_def weight_VDict simp del: weight.simps)
          with lim VDict len Inl show ?thesis by (simp add: shape_loop.simps(2))
        next
          case (Inr r)
          obtain n st' where r: "r = (n, st')" by (cases r)
          have "kvs = [] \<Longrightarrow> st' = st \<and> n = Suc nodes" using Inr r by simp
          moreover have "st' = [] \<Longrightarrow> kvs = [] \<and> st = []"
            using push_items_Inr [of "Suc nodes" d kvs st n st'] Inr r by auto
          moreover have "shape_loop n st' = Inr () \<longleftrightarrow> st' = [] \<or> fits n st'"
            using "2.IH"(8) [OF refl lim VDict len Inr] r by simp
          moreover have "fits n st' \<longleftrightarrow> fits nodes ((VDict kvs, d) # st)"
            using fits_dict [of kvs d nodes st n st'] lim len Inr r by simp
          ultimately show ?thesis using lim VDict len Inr r
            by (auto simp: shape_loop.simps(2) fits_def)
        qed
      qed
    next
      case (VList vs)
      show ?thesis
      proof (cases "MAX_CONTAINER_ITEMS < length vs")
        case True
        with lim VList show ?thesis by (simp add: shape_loop.simps(2) fits_def)
      next
        case False
        with lim VList "2.IH"(6) [OF refl lim VList False] fits_list [of vs d nodes st]
        show ?thesis by (auto simp: shape_loop.simps(2) fits_def)
      qed
    qed (use lim leaf "2.IH" in \<open>auto simp: shape_loop.simps(2)\<close>)
  qed
qed simp

text \<open>The iterative check accepts exactly the values within the limits.\<close>

definition bounded_shape :: "pyval \<Rightarrow> bool" where
  "bounded_shape v \<longleftrightarrow> weight v \<le> MAX_JSON_NODES \<and> within 1 v"

lemma validate_json_shape_iff: "validate_json_shape v = Inr () \<longleftrightarrow> bounded_shape v"
  by (simp add: validate_json_shape_def shape_loop_iff fits_def bounded_shape_def)

subsection \<open>\<open>json.dumps\<close> with \<open>ensure_ascii=True\<close>\<close>

definition digit_char :: "nat \<Rightarrow> char" where
  "digit_char n = char_of (if n < 10 then 48 + n else 87 + n)"

fun nat_str :: "nat \<Rightarrow> string" where
  "nat_str n = (if n < 10 then [digit_char n] else nat_str (n div 10) @ [digit_char (n mod 10)])"

declare nat_str.simps [simp del]

definition int_str :: "int \<Rightarrow> string" where
  "int_str i = (if i < 0 then CHR ''-'' # nat_str (nat (- i)) else nat_str (nat i))"

definition backslash :: char where "backslash = CHR 0x5C"

definition escape_char :: "char \<Rightarrow> string" where
  "escape_char c =
     (if c = CHR 0x22 \<or> c = backslash then [backslash, c]
      else if 32 \<le> code c \<and> code c \<le> 126 then [c]
      else if code c = 10 then [backslash, CHR ''n'']
      else if code c = 13 then [backslash, CHR ''r'']
      else if code c = 9 then [backslash, CHR ''t'']
      else if code c = 12 then [backslash, CHR ''f'']
      else if code c = 8 then [backslash, CHR ''b'']
      else [backslash, CHR ''u'', CHR ''0'', CHR ''0'',
            digit_char (code c div 16), digit_char (code c mod 16)])"

definition escape_body :: "string \<Rightarrow> string" where
  "escape_body s = concat (map escape_char s)"

definition quoted :: "string \<Rightarrow> string" where
  "quoted s = CHR 0x22 # escape_body s @ [CHR 0x22]"

definition key_text :: "pykey \<Rightarrow> string" where
  "key_text key = (case key of KStr k \<Rightarrow> k | KOther k \<Rightarrow> k)"

text \<open>\<open>dumps sort item_sep key_sep\<close>: the keyword arguments \<open>sort_keys\<close> and \<open>separators\<close>.\<close>

fun dumps :: "bool \<Rightarrow> string \<Rightarrow> string \<Rightarrow> pyval \<Rightarrow> string" where
  "dumps srt isep ksep VNone = ''null''"
| "dumps srt isep ksep (VBool b) = (if b then ''true'' else ''false'')"
| "dumps srt isep ksep (VInt i) = int_str i"
| "dumps srt isep ksep (VFloat t) = t"
| "dumps srt isep ksep (VStr s) = quoted s"
| "dumps srt isep ksep (VList vs) = ''['' @ join_with isep (map (dumps srt isep ksep) vs) @ '']''"
| "dumps srt isep ksep (VTuple vs) = ''['' @ join_with isep (map (dumps srt isep ksep) vs) @ '']''"
| "dumps srt isep ksep (VDict kvs) =
     (let members = map (\<lambda>(k, v). (key_text k, quoted (key_text k) @ ksep @ dumps srt isep ksep v)) kvs;
          ordered = (if srt then sort_key fst members else members)
      in ''{'' @ join_with isep (map snd ordered) @ ''}'')"

definition dumps_default :: "pyval \<Rightarrow> string" where
  "dumps_default = dumps False '', '' '': ''"

definition dumps_compact :: "pyval \<Rightarrow> string" where
  "dumps_compact = dumps False '','' '':''"

definition dumps_sorted :: "pyval \<Rightarrow> string" where
  "dumps_sorted = dumps True '','' '':''"

text \<open>The encoded text is ASCII, so its UTF-8 bytes are as many as its characters.\<close>

definition ascii :: "string \<Rightarrow> bool" where
  "ascii s \<longleftrightarrow> (\<forall>c\<in>set s. code c < 127)"

lemma ascii_simps [simp]:
  "ascii []" "ascii (c # s) \<longleftrightarrow> code c < 127 \<and> ascii s" "ascii (s @ t) \<longleftrightarrow> ascii s \<and> ascii t"
  by (auto simp: ascii_def)

lemma ascii_join: "ascii sep \<Longrightarrow> (\<And>p. p \<in> set ps \<Longrightarrow> ascii p) \<Longrightarrow> ascii (join_with sep ps)"
  by (induction sep ps rule: join_with.induct) auto

lemma code_literals [simp]:
  "code CHR 0x22 = 34" "code CHR 0x5C = 92" "code CHR ''n'' = 110" "code CHR ''r'' = 114"
  "code CHR ''t'' = 116" "code CHR ''f'' = 102" "code CHR ''b'' = 98" "code CHR ''u'' = 117"
  "code CHR ''0'' = 48" "code CHR ''-'' = 45" "code CHR ''['' = 91" "code CHR '']'' = 93"
  "code CHR ''{'' = 123" "code CHR ''}'' = 125"
  by (simp_all add: code_def)

lemma code_digit_char: "n < 16 \<Longrightarrow> code (digit_char n) < 127"
  by (auto simp: digit_char_def)

lemma ascii_escape_char: "ascii (escape_char c)"
proof -
  have "code c div 16 < 16" "code c mod 16 < 16" using code_bound [of c] by auto
  then show ?thesis by (simp add: escape_char_def backslash_def code_digit_char)
qed

lemma ascii_concat: "(\<And>p. p \<in> set ps \<Longrightarrow> ascii p) \<Longrightarrow> ascii (concat ps)"
  by (induction ps) auto

lemma ascii_quoted: "ascii (quoted s)"
  unfolding quoted_def escape_body_def
  using ascii_escape_char by (auto intro!: ascii_concat)

lemma ascii_nat_str: "ascii (nat_str n)"
  by (induction n rule: nat_str.induct) (subst nat_str.simps, simp add: code_digit_char)

lemma ascii_int_str: "ascii (int_str i)"
  using ascii_nat_str by (simp add: int_str_def)

fun plain_texts :: "pyval \<Rightarrow> bool" where
  "plain_texts (VFloat t) = ascii t"
| "plain_texts (VList vs) = (\<forall>v\<in>set vs. plain_texts v)"
| "plain_texts (VTuple vs) = (\<forall>v\<in>set vs. plain_texts v)"
| "plain_texts (VDict kvs) = (\<forall>kv\<in>set kvs. plain_texts (snd kv))"
| "plain_texts _ = True"

lemma ascii_dumps:
  "plain_texts v \<Longrightarrow> ascii isep \<Longrightarrow> ascii ksep \<Longrightarrow> ascii (dumps srt isep ksep v)"
proof (induction srt isep ksep v rule: dumps.induct)
  case (8 srt isep ksep kvs)
  let ?m = "map (\<lambda>(k, v). (key_text k, quoted (key_text k) @ ksep @ dumps srt isep ksep v)) kvs"
  have m: "\<forall>p\<in>set ?m. ascii (snd p)"
    using 8 ascii_quoted by fastforce
  have "\<forall>p\<in>set (if srt then sort_key fst ?m else ?m). ascii (snd p)"
    using m by (cases srt) simp_all
  then have "ascii (join_with isep (map snd (if srt then sort_key fst ?m else ?m)))"
    using "8.prems" by (intro ascii_join) auto
  then show ?case by (simp add: Let_def)
qed (auto simp: ascii_quoted ascii_int_str code_def intro!: ascii_join)

subsection \<open>Lengths\<close>

lemma length_quoted: "length (quoted s) = 2 + length (escape_body s)"
  by (simp add: quoted_def)

lemma escape_body_simps:
  "escape_body [] = []" "escape_body (c # s) = escape_char c @ escape_body s"
  by (simp_all add: escape_body_def)

lemma length_nat_str: "n < 10 ^ k \<Longrightarrow> 0 < k \<Longrightarrow> length (nat_str n) \<le> k"
proof (induction n arbitrary: k rule: nat_str.induct)
  case (1 n)
  show ?case
  proof (cases "n < 10")
    case True
    then show ?thesis using "1.prems" by (subst nat_str.simps) simp
  next
    case False
    then have k: "1 < k" using "1.prems" by (cases "k = 1") auto
    then obtain j where j: "k = Suc j" "0 < j" by (cases k) auto
    have "n div 10 < 10 ^ j" using "1.prems"(1) j by (simp add: less_mult_imp_div_less)
    then have "length (nat_str (n div 10)) \<le> j" using "1.IH" [OF False] j by blast
    with False j show ?thesis by (subst nat_str.simps) simp
  qed
qed

lemma length_int_str: "0 \<le> i \<Longrightarrow> i < 10 ^ 50 \<Longrightarrow> length (int_str i) \<le> 50"
  using length_nat_str [of "nat i" 50] by (simp add: int_str_def nat_less_iff)

definition plain_key :: "string \<Rightarrow> bool" where
  "plain_key s \<longleftrightarrow> list_all (\<lambda>c. is_alpha c) s"

lemma length_plain_key: "plain_key s \<Longrightarrow> length (quoted s) = 2 + length s"
proof -
  assume "plain_key s"
  then have "escape_body s = s"
    by (induction s) (auto simp: plain_key_def escape_body_simps escape_char_def is_alpha_def is_lower_def
        is_upper_def backslash_def)
  then show ?thesis by (simp add: length_quoted)
qed

subsection \<open>The bounded database payload\<close>

datatype payload_error = Shape shape_error | WireLimit

definition bounded_database_payload_json :: "pyval \<Rightarrow> payload_error + string" where
  "bounded_database_payload_json payload =
     (case validate_json_shape payload of
        Inl e \<Rightarrow> Inl (Shape e)
      | Inr _ \<Rightarrow>
          (let encoded = dumps_compact payload in
           if MAX_JOB_WIRE_BYTES < length encoded then Inl WireLimit else Inr encoded))"

lemma bounded_database_payload_json_Inr:
  "bounded_database_payload_json v = Inr t \<longleftrightarrow>
     bounded_shape v \<and> t = dumps_compact v \<and> length t \<le> MAX_JOB_WIRE_BYTES"
  using validate_json_shape_iff [of v]
  by (auto simp: bounded_database_payload_json_def Let_def split: sum.splits)

subsection \<open>Property\<close>

text \<open>The payload gate returns text exactly for the values within the shape limits, and that text
  is the compact encoding, no longer than the wire limit.\<close>

theorem payload_gate:
  "(bounded_database_payload_json v = Inr t) =
     (weight v \<le> MAX_JSON_NODES \<and> within 1 v \<and> t = dumps_compact v \<and>
      length (dumps_compact v) \<le> MAX_JOB_WIRE_BYTES)"
  by (auto simp: bounded_database_payload_json_Inr bounded_shape_def)

end
