(* ===== verification/Errors.thy ===== *)
theory Errors
  imports PyRegex Json
begin

section \<open>Error sanitising (\<open>jobs/errors.py\<close>)\<close>

text \<open>
  The four redaction patterns, \<open>sanitize_text\<close>, \<open>sanitize_error\<close> on (groups of) exceptions,
  \<open>sanitize_structure\<close> on log contexts and \<open>contains_exception\<close>.  An exception is its class name
  and its \<open>str()\<close>; a \<open>BaseExceptionGroup\<close> has a message and children.  Sanitised text never
  exceeds its limit and never holds a NUL.
\<close>

definition not_in :: "string \<Rightarrow> char \<Rightarrow> bool" where
  "not_in cs c \<longleftrightarrow> c \<notin> set cs"

definition scheme_char :: "char \<Rightarrow> bool" where
  "scheme_char c \<longleftrightarrow> is_alpha c \<or> is_digit c \<or> c \<in> set ''+.-''"

definition URL_USERINFO :: regex where
  "URL_USERINFO = Sqs [WordBoundary,
     Grp 1 (Sqs [Cls is_alpha, Star (Cls scheme_char), Lit ''://'']),
     Plus (Cls (\<lambda>c. not_in ''/?#@'' c \<and> \<not> is_space c)), Lit ''@'']"

definition dash :: regex where
  "dash = Opt (Cls (\<lambda>c. c = CHR ''_'' \<or> c = CHR ''-''))"

definition QUERY_SECRET :: regex where
  "QUERY_SECRET = Sqs [
     Grp 1 (Sqs [Cls (\<lambda>c. c = CHR ''?'' \<or> c = CHR ''&''),
       Alts [ILit ''password'', ILit ''passwd'', ILit ''pwd'', ILit ''token'',
             ILit ''access_token'', ILit ''refresh_token'',
             Sqs [ILit ''api'', dash, ILit ''key''], ILit ''secret''],
       Lit ''='']),
     Plus (Cls (\<lambda>c. not_in ''&#'' c \<and> \<not> is_space c))]"

definition KEY_VALUE_SECRET :: regex where
  "KEY_VALUE_SECRET = Sqs [WordBoundary,
     Grp 1 (Alts [ILit ''password'', ILit ''passwd'', ILit ''pwd'', ILit ''token'',
       Sqs [ILit ''access'', dash, ILit ''token''], Sqs [ILit ''refresh'', dash, ILit ''token''],
       Sqs [ILit ''api'', dash, ILit ''key''], ILit ''secret'']),
     Star (Cls is_space), Cls (\<lambda>c. c = CHR '':'' \<or> c = CHR ''=''), Star (Cls is_space),
     Alts [
       Sqs [Cls (\<lambda>c. c = CHR 0x22), Star (Cls (\<lambda>c. c \<noteq> CHR 0x22)), Cls (\<lambda>c. c = CHR 0x22)],
       Sqs [Cls (\<lambda>c. c = CHR 0x27), Star (Cls (\<lambda>c. c \<noteq> CHR 0x27)), Cls (\<lambda>c. c = CHR 0x27)],
       Plus (Cls (\<lambda>c. not_in '',;&'' c \<and> \<not> is_space c))]]"

definition bearer_char :: "char \<Rightarrow> bool" where
  "bearer_char c \<longleftrightarrow> is_alpha c \<or> is_digit c \<or> c \<in> set ''._~+/-''"

definition BEARER_SECRET :: regex where
  "BEARER_SECRET = Sqs [WordBoundary, Grp 1 (ILit ''Bearer''), Plus (Cls is_space),
     Plus (Cls bearer_char), Star (Cls (\<lambda>c. c = CHR ''=''))]"

definition NUL :: char where "NUL = CHR 0x00"

definition replace_nul :: "string \<Rightarrow> string" where
  "replace_nul s = map (\<lambda>c. if c = NUL then CHR ''?'' else c) s"

definition sanitize_text :: "string \<Rightarrow> nat \<Rightarrow> string" where
  "sanitize_text value limit =
     (let text = replace_nul value;
          text = re_sub URL_USERINFO (\<lambda>s cs. group 1 s cs @ ''***@'') text;
          text = re_sub QUERY_SECRET (\<lambda>s cs. group 1 s cs @ ''***'') text;
          text = re_sub KEY_VALUE_SECRET (\<lambda>s cs. group 1 s cs @ ''=***'') text;
          text = re_sub BEARER_SECRET (\<lambda>s cs. group 1 s cs @ '' ***'') text
      in take limit text)"

lemma length_sanitize_text: "length (sanitize_text v limit) \<le> limit"
  by (simp add: sanitize_text_def Let_def)

lemma re_sub_group_set:
  assumes "set s \<subseteq> A" "set t \<subseteq> A"
  shows "set (re_sub r (\<lambda>s cs. group 1 s cs @ t) s) \<subseteq> A"
  using assms by (intro re_sub_set) (auto dest: subsetD [OF group_subset])

lemma sanitize_text_no_nul: "NUL \<notin> set (sanitize_text v limit)"
proof -
  let ?A = "- {NUL}"
  have nul: "NUL \<notin> set ''***@''" "NUL \<notin> set ''***''" "NUL \<notin> set ''=***''" "NUL \<notin> set '' ***''"
    by (simp_all add: NUL_def)
  have "set (replace_nul v) \<subseteq> ?A" by (auto simp: replace_nul_def NUL_def)
  then have "set (re_sub BEARER_SECRET (\<lambda>s cs. group 1 s cs @ '' ***'')
      (re_sub KEY_VALUE_SECRET (\<lambda>s cs. group 1 s cs @ ''=***'')
      (re_sub QUERY_SECRET (\<lambda>s cs. group 1 s cs @ ''***'')
      (re_sub URL_USERINFO (\<lambda>s cs. group 1 s cs @ ''***@'') (replace_nul v))))) \<subseteq> ?A"
    using nul by (intro re_sub_group_set) auto
  then show ?thesis unfolding sanitize_text_def Let_def by (blast dest: in_set_takeD)
qed

text \<open>Text with nothing to redact is only cut.\<close>

lemma sanitize_text_clean:
  assumes "NUL \<notin> set v" "\<not> re_search URL_USERINFO v" "\<not> re_search QUERY_SECRET v"
    "\<not> re_search KEY_VALUE_SECRET v" "\<not> re_search BEARER_SECRET v"
  shows "sanitize_text v limit = take limit v"
proof -
  have "replace_nul v = v" using assms(1) by (auto simp: replace_nul_def intro!: map_idI)
  then show ?thesis using assms by (simp add: sanitize_text_def re_sub_no_match)
qed

subsection \<open>Exceptions and exception groups\<close>

datatype py_exn =
    Exn (exn_type: string) (exn_text: string)
  | ExnGroup (exn_type: string) (exn_text: string) "py_exn list"

text \<open>\<open>contains_exception error kind\<close>, with \<open>isinstance(_, kind)\<close> as a test on the class name.\<close>

fun contains_exception :: "py_exn \<Rightarrow> (string \<Rightarrow> bool) \<Rightarrow> bool" where
  "contains_exception (Exn t m) kind = kind t"
| "contains_exception (ExnGroup t m children) kind =
     (kind t \<or> (\<exists>child\<in>set children. contains_exception child kind))"

definition indent :: "nat \<Rightarrow> string" where
  "indent depth = replicate (2 * min depth 8) (CHR '' '')"

definition error_line :: "py_exn \<Rightarrow> nat \<Rightarrow> string" where
  "error_line e depth = indent depth @ exn_type e @ '': '' @ sanitize_text (exn_text e) 2000"

definition lines_size :: "string list \<Rightarrow> nat" where
  "lines_size lines = sum_list (map (\<lambda>l. length l + 1) lines)"

fun children :: "py_exn \<Rightarrow> py_exn list" where
  "children (Exn t m) = []"
| "children (ExnGroup t m cs) = cs"

definition exn_stack_size :: "(py_exn \<times> nat) list \<Rightarrow> nat" where
  "exn_stack_size st = sum_list (map (Suc \<circ> size \<circ> fst) st)"

lemma exn_stack_size_simps [simp]:
  "exn_stack_size [] = 0" "exn_stack_size ((e, d) # st) = Suc (size e) + exn_stack_size st"
  "exn_stack_size (xs @ ys) = exn_stack_size xs + exn_stack_size ys"
  by (simp_all add: exn_stack_size_def)

lemma exn_children_size: "exn_stack_size (map (\<lambda>c. (c, d)) (children e)) \<le> size e"
proof (cases e)
  case (ExnGroup t m cs)
  have "exn_stack_size (map (\<lambda>c. (c, d)) cs) = size_list size cs" by (induction cs) auto
  with ExnGroup show ?thesis by simp
qed simp

text \<open>The loop of \<open>sanitize_error\<close>: the stack's top is the head of the list, and the children of a
  group are pushed so that the first one is popped next.\<close>

function sanitize_lines :: "nat \<Rightarrow> string list \<Rightarrow> (py_exn \<times> nat) list \<Rightarrow> string list" where
  "sanitize_lines limit lines [] = lines"
| "sanitize_lines limit lines ((current, depth) # stack) =
     (let lines = lines @ [error_line current depth];
          stack = map (\<lambda>c. (c, Suc depth)) (children current) @ stack
      in if limit \<le> lines_size lines then lines else sanitize_lines limit lines stack)"
  by pat_completeness auto
termination
  by (relation "measure (\<lambda>(limit, lines, st). exn_stack_size st)") (auto simp: less_Suc_eq_le exn_children_size)

definition sanitize_error :: "py_exn \<Rightarrow> nat \<Rightarrow> string" where
  "sanitize_error e limit =
     sanitize_text (join_with [CHR 0x0A] (sanitize_lines limit [] [(e, 0)])) limit"

lemma sanitize_error_bounded:
  "length (sanitize_error e limit) \<le> limit" "NUL \<notin> set (sanitize_error e limit)"
  by (simp_all add: sanitize_error_def length_sanitize_text sanitize_text_no_nul)

subsection \<open>Structured log contexts\<close>

definition sanitize_key :: "pykey \<Rightarrow> pykey" where
  "sanitize_key key =
     (case key of KStr k \<Rightarrow> KStr (sanitize_text k 200) | KOther k \<Rightarrow> KStr k)"

fun sanitize_structure :: "pyval \<Rightarrow> nat \<Rightarrow> pyval" where
  "sanitize_structure (VStr s) n = VStr (sanitize_text s n)"
| "sanitize_structure (VDict kvs) n =
     VDict (dict_of (map (\<lambda>(k, v). (sanitize_key k, sanitize_structure v n)) kvs))"
| "sanitize_structure (VList vs) n = VList (map (\<lambda>v. sanitize_structure v n) vs)"
| "sanitize_structure (VTuple vs) n = VTuple (map (\<lambda>v. sanitize_structure v n) vs)"
| "sanitize_structure v n = v"

text \<open>Every string inside a value.\<close>

fun strings_of :: "pyval \<Rightarrow> string list" where
  "strings_of (VStr s) = [s]"
| "strings_of (VList vs) = concat (map strings_of vs)"
| "strings_of (VTuple vs) = concat (map strings_of vs)"
| "strings_of (VDict kvs) = concat (map (\<lambda>kv. strings_of (snd kv)) kvs)"
| "strings_of _ = []"

lemma sanitize_structure_strings:
  "t \<in> set (strings_of (sanitize_structure v n)) \<Longrightarrow> length t \<le> n \<and> NUL \<notin> set t"
proof (induction v n rule: sanitize_structure.induct)
  case (1 s n)
  then show ?case by (simp add: length_sanitize_text sanitize_text_no_nul)
next
  case (2 kvs n)
  let ?kvs = "map (\<lambda>(k, v). (sanitize_key k, sanitize_structure v n)) kvs"
  from "2.prems" obtain kv where kv: "kv \<in> set (dict_of ?kvs)" "t \<in> set (strings_of (snd kv))"
    by (simp only: sanitize_structure.simps strings_of.simps set_concat set_map UN_iff bex_simps) blast
  from imageI [OF kv(1), of snd] have "snd kv \<in> snd ` set ?kvs"
    by (rule subsetD [OF values_dict_of])
  then obtain k v where kv': "(k, v) \<in> set kvs" "snd kv = sanitize_structure v n" by auto
  show ?case using "2.IH" [OF kv'(1) refl] kv(2) kv'(2) by simp
qed auto

subsection \<open>Property\<close>

text \<open>C15 Whatever the exception group, the stored error text fits its column and holds no NUL.\<close>

theorem sanitize_error_safe:
  "length (sanitize_error e limit) \<le> limit \<and> NUL \<notin> set (sanitize_error e limit)"
  by (simp add: sanitize_error_bounded)

end
