(* ===== verification/JobDb.thy ===== *)
theory JobDb
  imports Errors
begin

section \<open>The worker's tables and the SQL it runs (\<open>jobs/repository.py\<close>)\<close>

text \<open>
  One record per table of \<open>repository.py\<close>, a table as the list of its rows, and the statements the
  repository builds with SQLAlchemy: an UPDATE with its WHERE clause and its row count, a SELECT by
  key, an ordered SELECT with LIMIT 1, an INSERT that fails on a unique key.  Enumerated string columns are
  datatypes with the values of \<open>contracts.py\<close>; the nullable columns are options.  Then the result
  types of the repository: the leased job, the claimed subjects and the resource limits.
\<close>

subsection \<open>Enumerations\<close>

datatype JobStatus = J_READY | J_RUNNING | J_COMPLETED | J_FAILED | J_CANCELLED

datatype BuildStatus =
    B_CREATED | B_PARSING | B_QUEUED | B_RESOLVING | B_DOWNLOADING | B_VALIDATING
  | B_PACKAGING | B_SUCCESS | B_PARTIAL_SUCCESS | B_FAILED | B_CANCELLED

datatype ParseStatus = P_PENDING | P_PARSING | P_PARSED | P_FAILED

text \<open>\<open>job_type\<close> stays a string: the code compares it with the two values of \<open>JobType\<close> and does
  nothing for any other.\<close>

abbreviation REQUIREMENT_PARSE :: string where "REQUIREMENT_PARSE \<equiv> ''REQUIREMENT_PARSE''"
abbreviation BUILD :: string where "BUILD \<equiv> ''BUILD''"

definition build_terminal :: "BuildStatus \<Rightarrow> bool" where
  "build_terminal st \<longleftrightarrow> st \<in> {B_SUCCESS, B_PARTIAL_SUCCESS, B_FAILED, B_CANCELLED}"

definition build_nonterminal :: "BuildStatus \<Rightarrow> bool" where
  "build_nonterminal st \<longleftrightarrow>
     st \<in> {B_QUEUED, B_RESOLVING, B_DOWNLOADING, B_VALIDATING, B_PACKAGING}"

definition job_terminal :: "JobStatus \<Rightarrow> bool" where
  "job_terminal st \<longleftrightarrow> st \<in> {J_COMPLETED, J_FAILED, J_CANCELLED}"

subsection \<open>Rows\<close>

text \<open>The columns of the tables in \<open>repository.py\<close>; one that may be NULL in the schema
  (\<open>V1__baseline.sql\<close>) is an option.  A JSON column is the Python value the driver returns: decoded,
  or a \<open>str\<close> when the driver leaves the text as it is.\<close>

record requirement_file =
  rf_id :: string
  rf_user_id :: string
  rf_original_name :: string
  rf_detected_encoding :: "string option"
  rf_size_bytes :: int
  rf_sha256 :: string
  rf_original_object_key :: string
  rf_normalized_object_key :: "string option"
  rf_parse_status :: ParseStatus
  rf_parse_error :: "string option"
  rf_created_at :: time
  rf_version_no :: int

record build_task =
  bt_id :: string
  bt_user_id :: string
  bt_requirement_file_id :: string
  bt_target_profile_id :: string
  bt_source_task_id :: "string option"
  bt_execution_id :: "string option"
  bt_status :: BuildStatus
  bt_progress :: int
  bt_current_stage :: "string option"
  bt_solve_mode :: string
  bt_target_snapshot :: pyval
  bt_cancel_requested :: bool
  bt_failure_code :: "string option"
  bt_failure_message :: "string option"
  bt_created_at :: time
  bt_started_at :: "time option"
  bt_finished_at :: "time option"
  bt_deleted_at :: "time option"
  bt_version_no :: int

record build_job =
  bj_id :: string
  bj_job_type :: string
  bj_payload_version :: int
  bj_subject_id :: string
  bj_payload_json :: pyval
  bj_status :: JobStatus
  bj_priority_no :: int
  bj_available_at :: time
  bj_attempts :: int
  bj_max_attempts :: int
  bj_lease_owner :: "string option"
  bj_execution_id :: "string option"
  bj_lease_expires_at :: "time option"
  bj_heartbeat_at :: "time option"
  bj_last_error :: "string option"
  bj_created_at :: time
  bj_started_at :: "time option"
  bj_finished_at :: "time option"
  bj_version_no :: int

record requirement_item =
  ri_id :: string
  ri_requirement_file_id :: string
  ri_line_no :: int
  ri_normalized_name :: string
  ri_extras :: "string list"
  ri_specifier :: string
  ri_marker_text :: "string option"
  ri_original_text :: string
  ri_supported :: bool
  ri_error_code :: "string option"
  ri_error_message :: "string option"

record resolved_package =
  rp_id :: string
  rp_build_task_id :: string
  rp_normalized_name :: string
  rp_final_version :: "string option"
  rp_dependency_type :: string
  rp_original_constraint :: "string option"
  rp_strict_version :: "string option"
  rp_change_direction :: string
  rp_change_reason :: "string option"
  rp_attempts_json :: pyval
  rp_wheel_filename :: "string option"
  rp_wheel_tags :: "string list option"
  rp_package_source_code :: "string option"
  rp_sha256 :: "string option"
  rp_wheel_status :: string
  rp_error_message :: "string option"

record build_log =
  bl_id :: string
  bl_build_task_id :: string
  bl_sequence_no :: int
  bl_stage :: string
  bl_level :: string
  bl_message :: string
  bl_context :: "pyval option"
  bl_created_at :: time

record artifact =
  ar_id :: string
  ar_build_task_id :: string
  ar_artifact_type :: string
  ar_filename :: string
  ar_object_key :: string
  ar_size_bytes :: int
  ar_sha256 :: string
  ar_build_status :: BuildStatus
  ar_validation_type :: string
  ar_expires_at :: time
  ar_download_count :: int
  ar_cleaned_at :: "time option"
  ar_created_at :: time
  ar_version_no :: int

record system_config =
  sc_config_key :: string
  sc_config_value :: pyval
  sc_description :: string
  sc_version_no :: int

record db =
  requirement_files :: "requirement_file list"
  build_tasks :: "build_task list"
  build_jobs :: "build_job list"
  requirement_items :: "requirement_item list"
  resolved_packages :: "resolved_package list"
  build_logs :: "build_log list"
  artifacts :: "artifact list"
  system_config :: "system_config list"

subsection \<open>Statements\<close>

text \<open>UPDATE ... WHERE: the new table and the number of matched rows.\<close>

definition sql_update :: "('r \<Rightarrow> bool) \<Rightarrow> ('r \<Rightarrow> 'r) \<Rightarrow> 'r list \<Rightarrow> 'r list \<times> nat" where
  "sql_update P f rows = (map (\<lambda>r. if P r then f r else r) rows, length (filter P rows))"

definition sql_delete :: "('r \<Rightarrow> bool) \<Rightarrow> 'r list \<Rightarrow> 'r list" where
  "sql_delete P rows = filter (\<lambda>r. \<not> P r) rows"

text \<open>SELECT ... WHERE ... ORDER BY key LIMIT 1 FOR UPDATE SKIP LOCKED, the last with the rows other
  transactions hold given as a predicate.\<close>

definition sql_first_by :: "('r \<Rightarrow> 'k :: linorder) \<Rightarrow> ('r \<Rightarrow> bool) \<Rightarrow> 'r list \<Rightarrow> 'r option" where
  "sql_first_by key P rows =
     (case sort_key key (filter P rows) of [] \<Rightarrow> None | r # _ \<Rightarrow> Some r)"

text \<open>INSERT under the table's unique keys: no result when a row clashes with the new one.\<close>

definition sql_insert :: "('r \<Rightarrow> 'r \<Rightarrow> bool) \<Rightarrow> 'r \<Rightarrow> 'r list \<Rightarrow> 'r list option" where
  "sql_insert clash r rows = (if \<exists>r'\<in>set rows. clash r r' then None else Some (rows @ [r]))"

fun sql_insert_all :: "('r \<Rightarrow> 'r \<Rightarrow> bool) \<Rightarrow> 'r list \<Rightarrow> 'r list \<Rightarrow> 'r list option" where
  "sql_insert_all clash [] rows = Some rows"
| "sql_insert_all clash (r # rs) rows =
     (case sql_insert clash r rows of
        None \<Rightarrow> None
      | Some rows' \<Rightarrow> sql_insert_all clash rs rows')"

lemma sql_update_rows [sql_simps]: "fst (sql_update P f rows) = map (\<lambda>r. if P r then f r else r) rows"
  by (simp add: sql_update_def)

lemma sql_update_count [sql_simps]: "snd (sql_update P f rows) = length (filter P rows)"
  by (simp add: sql_update_def)

lemma sql_insert_Some [sql_simps]:
  "sql_insert clash r rows = Some rows' \<longleftrightarrow> (\<forall>r'\<in>set rows. \<not> clash r r') \<and> rows' = rows @ [r]"
  by (auto simp: sql_insert_def)

lemma sql_insert_all_Some: "sql_insert_all clash rs rows = Some rows' \<Longrightarrow> rows' = rows @ rs"
  by (induction clash rs rows rule: sql_insert_all.induct) (auto simp: sql_insert_def split: if_splits)

lemma sql_update_none:
  "\<forall>r\<in>set rows. \<not> P r \<Longrightarrow> sql_update P f rows = (rows, 0)"
  by (auto simp: sql_update_def intro!: map_idI)

lemma sql_update_count_0: "snd (sql_update P f rows) = 0 \<Longrightarrow> sql_update P f rows = (rows, 0)"
  by (auto simp: sql_update_def filter_empty_conv intro!: map_idI)

lemma sql_update_unique:
  assumes "distinct (map k rows)" "\<And>r. P r \<Longrightarrow> k r = v"
  shows "snd (sql_update P f rows) = 1 \<longleftrightarrow> (\<exists>r\<in>set rows. P r)"
    and "snd (sql_update P f rows) \<noteq> 1 \<longleftrightarrow> sql_update P f rows = (rows, 0)"
proof -
  have le: "length (filter P rows) \<le> 1"
    using assms by (rule length_filter_key_le_1)
  have zero: "length (filter P rows) = 0 \<longleftrightarrow> \<not> (\<exists>r\<in>set rows. P r)"
    by (auto simp: filter_empty_conv)
  have "length (filter P rows) = 1 \<longleftrightarrow> length (filter P rows) \<noteq> 0" using le by linarith
  with zero show one: "snd (sql_update P f rows) = 1 \<longleftrightarrow> (\<exists>r\<in>set rows. P r)"
    by (simp add: sql_update_def)
  show "snd (sql_update P f rows) \<noteq> 1 \<longleftrightarrow> sql_update P f rows = (rows, 0)"
    using one sql_update_none [of rows P f] by auto
qed

lemma sql_first_by_SomeD:
  assumes "sql_first_by key P rows = Some r"
  shows "r \<in> set rows" "P r" "\<And>r'. r' \<in> set rows \<Longrightarrow> P r' \<Longrightarrow> key r \<le> key r'"
proof -
  have s: "sort_key key (filter P rows) \<noteq> []" and r: "r = hd (sort_key key (filter P rows))"
    using assms by (auto simp: sql_first_by_def split: list.splits)
  have ne: "filter P rows \<noteq> []" using s by (metis set_empty set_sort)
  from hd_sort_key_min [OF ne, of key] r
  show "r \<in> set rows" "P r" "\<And>r'. r' \<in> set rows \<Longrightarrow> P r' \<Longrightarrow> key r \<le> key r'" by auto
qed

lemma sql_first_by_None: "sql_first_by key P rows = None \<longleftrightarrow> (\<forall>r\<in>set rows. \<not> P r)"
proof -
  have "sort_key key (filter P rows) = [] \<longleftrightarrow> filter P rows = []" by (metis set_empty set_sort)
  then show ?thesis by (auto simp: sql_first_by_def filter_empty_conv split: list.splits)
qed

text \<open>SQL comparison with a nullable column is never true on NULL.\<close>

definition sql_le :: "time option \<Rightarrow> time \<Rightarrow> bool" where
  "sql_le x t = (case x of None \<Rightarrow> False | Some v \<Rightarrow> v \<le> t)"

definition sql_gt :: "time option \<Rightarrow> time \<Rightarrow> bool" where
  "sql_gt x t = (case x of None \<Rightarrow> False | Some v \<Rightarrow> t < v)"

subsection \<open>Errors and transactions\<close>

datatype repo_error =
    LostLeaseError string
  | ValueError string
  | IntegrityError string

text \<open>\<open>engine.begin()\<close>: commit when the block returns, roll back when it raises.\<close>

definition transaction :: "(db \<Rightarrow> repo_error + 'a \<times> db) \<Rightarrow> db \<Rightarrow> (repo_error + 'a) \<times> db" where
  "transaction body s = (case body s of Inl e \<Rightarrow> (Inl e, s) | Inr (a, s') \<Rightarrow> (Inr a, s'))"

lemma transaction_rollback: "transaction body s = (Inl e, s') \<Longrightarrow> s' = s"
  by (auto simp: transaction_def split: sum.splits)

subsection \<open>The values the repository hands out\<close>

record JobLease =
  l_id :: string
  l_job_type :: string
  l_subject_id :: string
  l_payload_version :: int
  l_payload_json :: string
  l_worker_id :: string
  l_execution_id :: string
  l_attempts :: int
  l_max_attempts :: int
  l_reclaimed :: bool
  l_previous_execution_id :: "string option"

record ParseSubject =
  ps_id :: string
  ps_user_id :: string
  ps_original_object_key :: string
  ps_normalized_object_key :: string
  ps_size_bytes :: int
  ps_sha256 :: string

record BuildSubject =
  bs_id :: string
  bs_user_id :: string
  bs_requirement_file_id :: string
  bs_original_object_key :: string
  bs_normalized_object_key :: string
  bs_original_size_bytes :: int
  bs_original_sha256 :: string
  bs_solve_mode :: string
  bs_target_profile_id :: string
  bs_target_snapshot :: "(pykey \<times> pyval) list"

text \<open>\<open>str(value)\<close> of a nullable text column.\<close>

definition str_of :: "string option \<Rightarrow> string" where
  "str_of x = (case x of None \<Rightarrow> ''None'' | Some v \<Rightarrow> v)"

subsection \<open>Resource limits\<close>

definition MIB :: int where "MIB = 1024 * 1024"
definition GIB :: int where "GIB = 1024 * MIB"

record BuildResourceLimits =
  max_packages :: int
  max_wheel_bytes :: int
  max_total_bytes :: int
  task_timeout_seconds :: int
  max_candidates_per_requirement :: int
  max_resolution_attempts :: int
  max_archive_entries :: int
  max_archive_expansion_ratio :: int
  artifact_retention_days :: int

definition default_limits :: BuildResourceLimits where
  "default_limits = \<lparr>max_packages = 500, max_wheel_bytes = 512 * MIB, max_total_bytes = 2 * GIB,
     task_timeout_seconds = 3600, max_candidates_per_requirement = 20,
     max_resolution_attempts = 100, max_archive_entries = 10000,
     max_archive_expansion_ratio = 100, artifact_retention_days = 30\<rparr>"

definition bounded_limit :: "string \<Rightarrow> int \<Rightarrow> int \<Rightarrow> repo_error + unit" where
  "bounded_limit name value maximum =
     (if 1 \<le> value \<and> value \<le> maximum then Inr ()
      else Inl (ValueError (name @ '' must be a positive integer no greater than '' @ int_str maximum)))"

text \<open>The checks of \<open>__post_init__\<close>, in their order; the first that fails raises.\<close>

definition limit_checks :: "BuildResourceLimits \<Rightarrow> (repo_error + unit) list" where
  "limit_checks l =
    [bounded_limit ''max_packages'' (max_packages l) 500,
     bounded_limit ''max_wheel_bytes'' (max_wheel_bytes l) (512 * MIB),
     bounded_limit ''max_total_bytes'' (max_total_bytes l) (2 * GIB),
     bounded_limit ''task_timeout_seconds'' (task_timeout_seconds l) 86400,
     bounded_limit ''max_candidates_per_requirement'' (max_candidates_per_requirement l) 20,
     bounded_limit ''max_resolution_attempts'' (max_resolution_attempts l) 100,
     bounded_limit ''max_archive_entries'' (max_archive_entries l) 20000,
     bounded_limit ''max_archive_expansion_ratio'' (max_archive_expansion_ratio l) 200,
     bounded_limit ''artifact_retention_days'' (artifact_retention_days l) 3650]"

definition left_of :: "'a + 'b \<Rightarrow> 'a option" where
  "left_of x = (case x of Inl e \<Rightarrow> Some e | Inr _ \<Rightarrow> None)"

definition make_limits :: "BuildResourceLimits \<Rightarrow> repo_error + BuildResourceLimits" where
  "make_limits l =
     (case find_first left_of (limit_checks l) of Some e \<Rightarrow> Inl e | None \<Rightarrow> Inr l)"

lemma bounded_limit_ok: "left_of (bounded_limit n v m) = None \<longleftrightarrow> 1 \<le> v \<and> v \<le> m"
  by (simp add: bounded_limit_def left_of_def)

definition limits_in_range :: "BuildResourceLimits \<Rightarrow> bool" where
  "limits_in_range l \<longleftrightarrow>
     max_packages l \<in> {1..500} \<and> max_wheel_bytes l \<in> {1..512 * MIB} \<and>
     max_total_bytes l \<in> {1..2 * GIB} \<and> task_timeout_seconds l \<in> {1..86400} \<and>
     max_candidates_per_requirement l \<in> {1..20} \<and> max_resolution_attempts l \<in> {1..100} \<and>
     max_archive_entries l \<in> {1..20000} \<and> max_archive_expansion_ratio l \<in> {1..200} \<and>
     artifact_retention_days l \<in> {1..3650}"

lemma make_limits_iff: "make_limits l = Inr l' \<longleftrightarrow> l' = l \<and> limits_in_range l"
proof -
  have "find_first left_of (limit_checks l) = None \<longleftrightarrow> limits_in_range l"
    unfolding find_first_None_iff limit_checks_def limits_in_range_def
    by (simp add: bounded_limit_ok)
  then show ?thesis by (auto simp: make_limits_def split: option.splits)
qed

end
