(* ===== verification/JsonParse.thy ===== *)
theory JsonParse
  imports Json
begin

section \<open>\<open>json.loads\<close>\<close>

text \<open>
  Python's JSON decoder as the worker uses it on database columns, queue state and queue records:
  optional white space, the constants (\<open>NaN\<close> and the infinities included), numbers, strings with
  their escapes, arrays, and objects where a repeated key keeps its place and takes the last value.
  \<open>None\<close> is \<open>JSONDecodeError\<close>.  The decoder recurses into arrays and objects; \<open>fuel\<close> bounds the
  calls and twice the length of the text is enough of it.  An escape of a code point above 255 is outside the
  model's strings and is rejected.  Decoding what \<open>json.dumps\<close> wrote gives the value back.
\<close>

definition is_ws :: "char \<Rightarrow> bool" where
  "is_ws c \<longleftrightarrow> code c \<in> {9, 10, 13, 32}"

definition skip_ws :: "string \<Rightarrow> string" where
  "skip_ws s = dropWhile is_ws s"

subsection \<open>Numbers\<close>

definition digit_value :: "char \<Rightarrow> nat" where
  "digit_value c = code c - 48"

definition decimal_value :: "string \<Rightarrow> nat" where
  "decimal_value ds = foldl (\<lambda>n d. 10 * n + digit_value d) 0 ds"

text \<open>\<open>(-?(?:0|[1-9][0-9]*))(\.[0-9]+)?([eE][-+]?[0-9]+)?\<close>: the sign, the integer digits, and the
  text of the fraction and exponent.\<close>

definition integer_digits :: "string \<Rightarrow> (string \<times> string) option" where
  "integer_digits s =
     (case s of
        [] \<Rightarrow> None
      | c # cs \<Rightarrow>
          if c = CHR ''0'' then Some ([c], cs)
          else if is_digit c then Some (takeWhile is_digit s, dropWhile is_digit s)
          else None)"

definition fraction :: "string \<Rightarrow> string \<times> string" where
  "fraction s =
     (case s of
        c # d # cs \<Rightarrow>
          if c = CHR ''.'' \<and> is_digit d
          then (c # takeWhile is_digit (d # cs), dropWhile is_digit (d # cs)) else ([], s)
      | _ \<Rightarrow> ([], s))"

definition exponent :: "string \<Rightarrow> string \<times> string" where
  "exponent s =
     (case s of
        c # d # cs \<Rightarrow>
          if c \<noteq> CHR ''e'' \<and> c \<noteq> CHR ''E'' then ([], s)
          else if is_digit d then (c # takeWhile is_digit (d # cs), dropWhile is_digit (d # cs))
          else if (d = CHR ''-'' \<or> d = CHR ''+'') \<and> cs \<noteq> [] \<and> is_digit (hd cs)
          then (c # d # takeWhile is_digit cs, dropWhile is_digit cs)
          else ([], s)
      | _ \<Rightarrow> ([], s))"

definition parse_number :: "string \<Rightarrow> (pyval \<times> string) option" where
  "parse_number s =
     (let negative = (s \<noteq> [] \<and> hd s = CHR ''-''); body = (if negative then tl s else s) in
      case integer_digits body of
        None \<Rightarrow> None
      | Some (ds, rest) \<Rightarrow>
          (let (frac, rest1) = fraction rest; (ex, rest2) = exponent rest1;
               sign = (if negative then ''-'' else '''') in
           if frac = [] \<and> ex = []
           then Some (VInt (if negative then - int (decimal_value ds) else int (decimal_value ds)), rest2)
           else Some (VFloat (sign @ ds @ frac @ ex), rest2)))"

subsection \<open>Strings\<close>

definition hex_value :: "char \<Rightarrow> nat option" where
  "hex_value c =
     (if is_digit c then Some (code c - 48)
      else if 97 \<le> code c \<and> code c \<le> 102 then Some (code c - 87)
      else if 65 \<le> code c \<and> code c \<le> 70 then Some (code c - 55)
      else None)"

definition simple_escape :: "char \<Rightarrow> char option" where
  "simple_escape c =
     (if c = CHR 0x22 \<or> c = backslash \<or> c = CHR ''/'' then Some c
      else if c = CHR ''n'' then Some (CHR 0x0A)
      else if c = CHR ''r'' then Some (CHR 0x0D)
      else if c = CHR ''t'' then Some (CHR 0x09)
      else if c = CHR ''f'' then Some (CHR 0x0C)
      else if c = CHR ''b'' then Some (CHR 0x08)
      else None)"

definition unicode_escape :: "char \<Rightarrow> char \<Rightarrow> char \<Rightarrow> char \<Rightarrow> char option" where
  "unicode_escape a b c d =
     (case (hex_value a, hex_value b, hex_value c, hex_value d) of
        (Some 0, Some 0, Some x, Some y) \<Rightarrow> Some (char_of (16 * x + y))
      | _ \<Rightarrow> None)"

text \<open>The text after the opening quote, up to and including the closing one.\<close>

fun parse_string :: "string \<Rightarrow> (string \<times> string) option" where
  "parse_string [] = None"
| "parse_string (c # cs) =
     (if c = CHR 0x22 then Some ([], cs)
      else if c = backslash then
        (case cs of
           [] \<Rightarrow> None
         | e # rest \<Rightarrow>
             if e = CHR ''u'' then
               (case rest of
                  w # x # y # z # rest' \<Rightarrow>
                    (case unicode_escape w x y z of
                       None \<Rightarrow> None
                     | Some k \<Rightarrow> map_option (\<lambda>(t, r). (k # t, r)) (parse_string rest'))
                | _ \<Rightarrow> None)
             else
               (case simple_escape e of
                  None \<Rightarrow> None
                | Some k \<Rightarrow> map_option (\<lambda>(t, r). (k # t, r)) (parse_string rest)))
      else if code c < 32 then None
      else map_option (\<lambda>(t, r). (c # t, r)) (parse_string cs))"

subsection \<open>Values\<close>

definition json_constant :: "string \<Rightarrow> (pyval \<times> string) option" where
  "json_constant s =
     (if startswith s ''null'' then Some (VNone, drop 4 s)
      else if startswith s ''true'' then Some (VBool True, drop 4 s)
      else if startswith s ''false'' then Some (VBool False, drop 5 s)
      else if startswith s ''NaN'' then Some (VFloat ''NaN'', drop 3 s)
      else if startswith s ''Infinity'' then Some (VFloat ''Infinity'', drop 8 s)
      else if startswith s ''-Infinity'' then Some (VFloat ''-Infinity'', drop 9 s)
      else None)"

text \<open>The decoder: a value, the rest of an array after an element, and a member of an object.\<close>

fun parse_value :: "nat \<Rightarrow> string \<Rightarrow> (pyval \<times> string) option"
  and parse_elements :: "nat \<Rightarrow> string \<Rightarrow> (pyval list \<times> string) option"
  and parse_members :: "nat \<Rightarrow> string \<Rightarrow> ((pykey \<times> pyval) list \<times> string) option" where
  "parse_value 0 s = None"
| "parse_value (Suc n) s =
     (case s of
        [] \<Rightarrow> None
      | c # cs \<Rightarrow>
          if c = CHR 0x22 then map_option (\<lambda>(t, r). (VStr t, r)) (parse_string cs)
          else if c = CHR ''['' then
            (case skip_ws cs of
               [] \<Rightarrow> None
             | d # ds \<Rightarrow>
                 if d = CHR '']'' then Some (VList [], ds)
                 else map_option (\<lambda>(vs, r). (VList vs, r)) (parse_elements n (d # ds)))
          else if c = CHR ''{'' then
            (case skip_ws cs of
               [] \<Rightarrow> None
             | d # ds \<Rightarrow>
                 if d = CHR ''}'' then Some (VDict [], ds)
                 else map_option (\<lambda>(kvs, r). (VDict (dict_of kvs), r)) (parse_members n (d # ds)))
          else (case json_constant s of Some p \<Rightarrow> Some p | None \<Rightarrow> parse_number s))"
| "parse_elements 0 s = None"
| "parse_elements (Suc n) s =
     (case parse_value n s of
        None \<Rightarrow> None
      | Some (v, r) \<Rightarrow>
          (case skip_ws r of
             [] \<Rightarrow> None
           | d # ds \<Rightarrow>
               if d = CHR '']'' then Some ([v], ds)
               else if d = CHR '','' then
                 map_option (\<lambda>(vs, r'). (v # vs, r')) (parse_elements n (skip_ws ds))
               else None))"
| "parse_members 0 s = None"
| "parse_members (Suc n) s =
     (case s of
        [] \<Rightarrow> None
      | c # cs \<Rightarrow>
          if c \<noteq> CHR 0x22 then None
          else (case parse_string cs of
              None \<Rightarrow> None
            | Some (k, r) \<Rightarrow>
                (case skip_ws r of
                   [] \<Rightarrow> None
                 | e # es \<Rightarrow>
                     if e \<noteq> CHR '':'' then None
                     else (case parse_value n (skip_ws es) of
                         None \<Rightarrow> None
                       | Some (v, r') \<Rightarrow>
                           (case skip_ws r' of
                              [] \<Rightarrow> None
                            | d # ds \<Rightarrow>
                                if d = CHR ''}'' then Some ([(KStr k, v)], ds)
                                else if d = CHR '','' then
                                  map_option (\<lambda>(kvs, r''). ((KStr k, v) # kvs, r''))
                                    (parse_members n (skip_ws ds))
                                else None)))))"

definition loads :: "string \<Rightarrow> pyval option" where
  "loads s =
     (case parse_value (Suc (2 * length s)) (skip_ws s) of
        None \<Rightarrow> None
      | Some (v, r) \<Rightarrow> if skip_ws r = [] then Some v else None)"

subsection \<open>Enough fuel\<close>

lemma length_skip_ws: "length (skip_ws s) \<le> length s"
  by (simp add: skip_ws_def length_dropWhile_le)

lemma parse_string_shorter: "parse_string s = Some (t, r) \<Longrightarrow> length r < length s"
  by (induction s arbitrary: t r rule: parse_string.induct)
     (fastforce split: if_splits list.splits option.splits)+

lemma startswith_length: "startswith s p \<Longrightarrow> length p \<le> length s"
  by (metis length_take min.cobounded1 startswith_def)

lemma json_constant_shorter: "json_constant s = Some (v, r) \<Longrightarrow> length r < length s"
  by (auto simp: json_constant_def dest!: startswith_length split: if_splits)

lemma integer_digits_shorter: "integer_digits s = Some (ds, r) \<Longrightarrow> length r < length s"
  by (auto simp: integer_digits_def less_Suc_eq_le length_dropWhile_le
      split: list.splits if_splits)

lemma fraction_length: "fraction s = (f, r) \<Longrightarrow> length r \<le> length s"
  by (auto simp: fraction_def le_SucI length_dropWhile_le split: list.splits if_splits)

lemma exponent_length: "exponent s = (f, r) \<Longrightarrow> length r \<le> length s"
  by (auto simp: exponent_def le_SucI length_dropWhile_le split: list.splits if_splits)

lemma parse_number_shorter: "parse_number s = Some (v, r) \<Longrightarrow> length r < length s"
proof -
  assume a: "parse_number s = Some (v, r)"
  obtain b where b: "b = (if s \<noteq> [] \<and> hd s = CHR ''-'' then tl s else s)" by blast
  obtain ds rest where d: "integer_digits b = Some (ds, rest)"
    using a b by (auto simp: parse_number_def Let_def split: option.splits)
  obtain f r1 where f: "fraction rest = (f, r1)" by (cases "fraction rest")
  obtain e r2 where e: "exponent r1 = (e, r2)" by (cases "exponent r1")
  have "r = r2" using a b d f e by (auto simp: parse_number_def Let_def split: if_splits)
  moreover have "length rest < length b" using d by (rule integer_digits_shorter)
  moreover have "length b \<le> length s" using b by simp
  ultimately show ?thesis using fraction_length [OF f] exponent_length [OF e] by simp
qed

lemma skip_ws_ConsD: "skip_ws s = c # cs \<Longrightarrow> length cs < length s"
  using length_skip_ws [of s] by simp

lemma parse_shorter:
  "parse_value n s = Some (v, r) \<Longrightarrow> length r < length s"
  "parse_elements n s = Some (vs, r) \<Longrightarrow> length r < length s"
  "parse_members n s = Some (kvs, r) \<Longrightarrow> length r < length s"
proof (induction n s and n s and n s arbitrary: v r and vs r and kvs r
    rule: parse_value_parse_elements_parse_members.induct)
  case (2 n s)
  then obtain c cs where s: "s = c # cs" by (auto split: list.splits)
  show ?case
    using "2.prems" "2.IH" s
    by (auto dest!: parse_string_shorter skip_ws_ConsD json_constant_shorter parse_number_shorter
        split: if_splits list.splits option.splits; fastforce)
next
  case (4 n s)
  then obtain v r' where v: "parse_value n s = Some (v, r')" by (auto split: option.splits)
  then have "length r' < length s" by (rule "4.IH"(1))
  moreover obtain d ds where d: "skip_ws r' = d # ds"
    using "4.prems" v by (auto split: list.splits)
  moreover note skip_ws_ConsD [OF d]
  moreover have "length (skip_ws ds) \<le> length ds" by (rule length_skip_ws)
  ultimately show ?case
    using "4.prems" v "4.IH"(2) [OF v refl d]
    by (auto split: if_splits; fastforce)
next
  case (6 n s)
  then obtain cs where s: "s = CHR 0x22 # cs" by (auto split: list.splits if_splits)
  with "6.prems" obtain k r1 where k: "parse_string cs = Some (k, r1)"
    by (auto split: option.splits)
  with "6.prems" s obtain es where es: "skip_ws r1 = CHR '':'' # es"
    by (auto split: list.splits if_splits)
  with "6.prems" s k obtain v r2 where v: "parse_value n (skip_ws es) = Some (v, r2)"
    by (auto split: option.splits)
  have IH: "length r2 < length (skip_ws es)"
    using "6.IH"(1) s k es v by fastforce
  obtain d ds where d: "skip_ws r2 = d # ds"
    using "6.prems" s k es v by (auto split: list.splits)
  have "length r1 < length cs" using k by (rule parse_string_shorter)
  moreover note skip_ws_ConsD [OF es] skip_ws_ConsD [OF d] length_skip_ws [of es] length_skip_ws [of ds]
  ultimately have ds: "length ds < length s" "length (skip_ws ds) < length s" using IH s by auto
  show ?case
  proof (cases "d = CHR ''}''")
    case True
    then show ?thesis using "6.prems" s k es v d ds by auto
  next
    case False
    then obtain kvs' where "parse_members n (skip_ws ds) = Some (kvs', r)" "d = CHR '',''"
      using "6.prems" s k es v d by (auto split: if_splits)
    with "6.IH"(2) s k es v d False have "length r < length (skip_ws ds)" by fastforce
    with ds show ?thesis by simp
  qed
qed auto

subsection \<open>Decoding an encoded value\<close>

lemma hex_digit_char [simp]: "k < 16 \<Longrightarrow> hex_value (digit_char k) = Some k"
  by (simp add: hex_value_def digit_char_def is_digit_def)

lemma hex_value_zero [simp]: "hex_value (CHR ''0'') = Some 0"
  by (simp add: hex_value_def is_digit_def)

lemma char_of_code [simp]: "char_of (code c) = c"
  by (simp add: code_def)

lemma code_eqI: "code c = code d \<Longrightarrow> c = d"
  by (simp add: code_def)

lemma code_eq_iff: "c = d \<longleftrightarrow> code c = code d"
  by (auto intro: code_eqI)

lemma parse_escape_char:
  "parse_string (escape_char c @ t) = map_option (\<lambda>(u, r). (c # u, r)) (parse_string t)"
proof -
  have d: "code c div 16 < 16" "code c mod 16 < 16" using code_bound [of c] by auto
  then have u: "unicode_escape (CHR ''0'') (CHR ''0'') (digit_char (code c div 16))
      (digit_char (code c mod 16)) = Some c"
    by (simp add: unicode_escape_def)
  consider "c = CHR 0x22 \<or> c = backslash" | "c \<noteq> CHR 0x22" "c \<noteq> backslash" "32 \<le> code c" "code c \<le> 126"
    | "c \<noteq> CHR 0x22" "c \<noteq> backslash" "\<not> (32 \<le> code c \<and> code c \<le> 126)" by blast
  then show ?thesis
  proof cases
    case 1
    then show ?thesis by (auto simp: escape_char_def simple_escape_def backslash_def)
  next
    case 2
    then show ?thesis by (simp add: escape_char_def)
  next
    case 3
    have e: "c = CHR 0x0A" if "code c = 10" using that by (simp add: code_eq_iff) (simp add: code_def)
    have e2: "c = CHR 0x0D" if "code c = 13" using that by (simp add: code_eq_iff) (simp add: code_def)
    have e3: "c = CHR 0x09" if "code c = 9" using that by (simp add: code_eq_iff) (simp add: code_def)
    have e4: "c = CHR 0x0C" if "code c = 12" using that by (simp add: code_eq_iff) (simp add: code_def)
    have e5: "c = CHR 0x08" if "code c = 8" using that by (simp add: code_eq_iff) (simp add: code_def)
    show ?thesis using 3 u
      by (auto simp: escape_char_def simple_escape_def backslash_def dest: e e2 e3 e4 e5)
  qed
qed

lemma parse_quoted: "parse_string (escape_body s @ CHR 0x22 # rest) = Some (s, rest)"
proof (induction s)
  case Nil
  then show ?case by (simp add: escape_body_def)
next
  case (Cons c s)
  have "escape_body (c # s) @ CHR 0x22 # rest = escape_char c @ (escape_body s @ CHR 0x22 # rest)"
    by (simp add: escape_body_def)
  then show ?case by (simp only: parse_escape_char Cons.IH option.map prod.case)
qed

text \<open>What may follow a number.\<close>

definition stops :: "string \<Rightarrow> bool" where
  "stops r \<longleftrightarrow> (case r of [] \<Rightarrow> True
     | c # cs \<Rightarrow> \<not> is_digit c \<and> c \<notin> {CHR ''.'', CHR ''e'', CHR ''E''})"

lemma stops_simps [simp]: "stops []" "stops (CHR '','' # r)" "stops (CHR '']'' # r)" "stops (CHR ''}'' # r)"
  by (simp_all add: stops_def char_class_defs)

lemma fraction_stops: "stops r \<Longrightarrow> fraction r = ([], r)"
  by (auto simp: fraction_def stops_def split: list.splits)

lemma exponent_stops: "stops r \<Longrightarrow> exponent r = ([], r)"
  by (auto simp: exponent_def stops_def split: list.splits)

lemma takeWhile_stops: "stops r \<Longrightarrow> takeWhile is_digit r = [] \<and> dropWhile is_digit r = r"
  by (cases r) (auto simp: stops_def)

lemma digit_char_facts [simp]:
  "n < 10 \<Longrightarrow> is_digit (digit_char n)" "n < 10 \<Longrightarrow> digit_value (digit_char n) = n"
  by (simp_all add: is_digit_def digit_char_def digit_value_def)

lemma nat_str_digits: "c \<in> set (nat_str n) \<Longrightarrow> is_digit c"
  by (induction n rule: nat_str.induct) (subst (asm) (2) nat_str.simps, auto split: if_splits)

lemma decimal_value_snoc: "decimal_value (ds @ [d]) = 10 * decimal_value ds + digit_value d"
  by (simp add: decimal_value_def)

lemma decimal_nat_str: "decimal_value (nat_str n) = n"
proof (induction n rule: nat_str.induct)
  case (1 n)
  then show ?case
    by (subst nat_str.simps) (auto simp: decimal_value_snoc, simp add: decimal_value_def)
qed

lemma nat_str_nonempty [simp]: "nat_str n \<noteq> []"
  by (subst nat_str.simps) simp

lemma nat_str_head: "0 < n \<Longrightarrow> hd (nat_str n) \<noteq> CHR ''0''"
proof (induction n rule: nat_str.induct)
  case (1 n)
  then show ?case
    by (subst nat_str.simps) (auto simp: code_eq_iff digit_char_def)
qed

lemma nat_str_0: "nat_str 0 = ''0''"
  by code_simp

lemma integer_digits_nat_str:
  assumes "stops r"
  shows "integer_digits (nat_str n @ r) = Some (nat_str n, r)"
proof (cases "n = 0")
  case True
  then show ?thesis by (simp add: nat_str_0 integer_digits_def)
next
  case False
  obtain c cs where c: "nat_str n = c # cs" by (cases "nat_str n") auto
  have dig: "\<forall>x\<in>set (c # cs). is_digit x" using nat_str_digits [of _ n] c by simp
  have "c \<noteq> CHR ''0''" using nat_str_head [of n] False c by simp
  moreover have "takeWhile is_digit ((c # cs) @ r) = c # cs" "dropWhile is_digit ((c # cs) @ r) = r"
    using dig takeWhile_stops [OF assms] by (simp_all add: takeWhile_append dropWhile_append)
  ultimately show ?thesis using c dig by (simp add: integer_digits_def)
qed

lemma parse_int_str:
  assumes "stops r"
  shows "parse_number (int_str i @ r) = Some (VInt i, r)"
proof (cases "i < 0")
  case True
  then show ?thesis using assms
    by (simp add: parse_number_def int_str_def integer_digits_nat_str fraction_stops
        exponent_stops decimal_nat_str)
next
  case False
  obtain c cs where c: "nat_str (nat i) = c # cs" by (cases "nat_str (nat i)") auto
  then have "is_digit c" using nat_str_digits [of c "nat i"] by simp
  then have "c \<noteq> CHR ''-''" by (auto simp: char_class_defs)
  then show ?thesis using False assms c integer_digits_nat_str [OF assms, of "nat i"]
      decimal_nat_str [of "nat i"]
    by (simp add: parse_number_def int_str_def fraction_stops exponent_stops)
qed

text \<open>The values whose encoding decodes to themselves: no tuples (they become lists), no float text,
  and dictionaries with distinct string keys.\<close>

fun jsonable :: "pyval \<Rightarrow> bool" where
  "jsonable (VFloat t) = False"
| "jsonable (VTuple vs) = False"
| "jsonable (VList vs) = (\<forall>v\<in>set vs. jsonable v)"
| "jsonable (VDict kvs) = (distinct (map fst kvs) \<and>
     (\<forall>kv\<in>set kvs. (\<exists>k. fst kv = KStr k) \<and> jsonable (snd kv)))"
| "jsonable _ = True"

lemma dict_of_distinct: "distinct (map fst kvs) \<Longrightarrow> dict_of kvs = kvs"
proof -
  have "distinct (map fst (d @ kvs)) \<Longrightarrow> fold (\<lambda>(k, v) d. dict_put k v d) kvs d = d @ kvs" for d
  proof (induction kvs arbitrary: d)
    case (Cons p kvs)
    obtain k v where p: "p = (k, v)" by (cases p)
    have "fold (\<lambda>(k, v) d. dict_put k v d) kvs (d @ [p]) = (d @ [p]) @ kvs"
      using Cons.prems by (intro Cons.IH) auto
    with Cons.prems p show ?case by (simp add: dict_put_new)
  qed simp
  from this [of "[]"] show "distinct (map fst kvs) \<Longrightarrow> dict_of kvs = kvs" by (simp add: dict_of_def)
qed

text \<open>The first character of an encoded value is neither white space nor a closing bracket.\<close>

definition opens :: "char \<Rightarrow> bool" where
  "opens c \<longleftrightarrow> \<not> is_ws c \<and> c \<noteq> CHR '']'' \<and> c \<noteq> CHR ''}''"

lemma digit_opens: "is_digit c \<Longrightarrow> opens c \<and> c \<noteq> CHR 0x22 \<and> c \<noteq> CHR ''['' \<and> c \<noteq> CHR ''{''"
  by (auto simp: opens_def is_ws_def is_digit_def code_eq_iff)

lemma int_str_head: "\<exists>c cs. int_str i = c # cs \<and> (is_digit c \<or> c = CHR ''-'' \<and> cs \<noteq> [] \<and> is_digit (hd cs))"
proof -
  obtain c cs where c: "nat_str (nat \<bar>i\<bar>) = c # cs" by (cases "nat_str (nat \<bar>i\<bar>)") auto
  then have "is_digit c" using nat_str_digits [of c "nat \<bar>i\<bar>"] by simp
  with c show ?thesis by (cases "i < 0") (auto simp: int_str_def)
qed

lemma dumps_opens: "jsonable v \<Longrightarrow> \<exists>c cs. dumps_compact v = c # cs \<and> opens c"
proof (cases v)
  case (VInt i)
  then show ?thesis using int_str_head [of i]
    by (auto simp: dumps_compact_def dest: digit_opens) (simp add: opens_def is_ws_def)
qed (auto simp: dumps_compact_def opens_def is_ws_def quoted_def code_def Let_def)

lemma skip_ws_opens: "opens c \<Longrightarrow> skip_ws (c # cs) = c # cs"
  by (simp add: skip_ws_def opens_def)

lemma skip_ws_sep [simp]:
  "skip_ws (CHR '','' # r) = CHR '','' # r" "skip_ws (CHR '']'' # r) = CHR '']'' # r"
  "skip_ws (CHR ''}'' # r) = CHR ''}'' # r" "skip_ws (CHR '':'' # r) = CHR '':'' # r"
  "skip_ws (CHR 0x22 # r) = CHR 0x22 # r" "skip_ws [] = []"
  by (simp_all add: skip_ws_def is_ws_def code_def)

lemma json_constant_number:
  "is_digit c \<Longrightarrow> json_constant (c # cs) = None"
  "cs \<noteq> [] \<Longrightarrow> is_digit (hd cs) \<Longrightarrow> json_constant (CHR ''-'' # cs) = None"
  by (auto simp: json_constant_def startswith_def is_digit_def code_eq_iff neq_Nil_conv) (auto simp: code_def)

lemma parse_value_int:
  assumes "stops r"
  shows "parse_value (Suc n) (int_str i @ r) = Some (VInt i, r)"
proof -
  obtain c cs where c: "int_str i = c # cs"
    and h: "is_digit c \<or> c = CHR ''-'' \<and> cs \<noteq> [] \<and> is_digit (hd cs)"
    using int_str_head [of i] by blast
  have "json_constant (int_str i @ r) = None"
    using c h json_constant_number(1) [of c "cs @ r"] json_constant_number(2) [of "cs @ r"] by auto
  moreover have "c \<noteq> CHR 0x22 \<and> c \<noteq> CHR ''['' \<and> c \<noteq> CHR ''{''" using h digit_opens by auto
  ultimately show ?thesis using parse_int_str [OF assms, of i] c by simp
qed

definition member_text :: "pykey \<times> pyval \<Rightarrow> string" where
  "member_text kv = quoted (key_text (fst kv)) @ CHR '':'' # dumps_compact (snd kv)"

lemma dumps_compact_list:
  "dumps_compact (VList vs) = CHR ''['' # join_with '','' (map dumps_compact vs) @ '']''"
  by (simp add: dumps_compact_def)

lemma dumps_compact_dict:
  "dumps_compact (VDict kvs) = CHR ''{'' # join_with '','' (map member_text kvs) @ ''}''"
  by (simp add: dumps_compact_def Let_def comp_def member_text_def [abs_def] case_prod_beta)

definition decodes :: "pyval \<Rightarrow> bool" where
  "decodes v \<longleftrightarrow> (\<forall>n r. stops r \<longrightarrow> 2 * length (dumps_compact v) < n \<longrightarrow>
     parse_value n (dumps_compact v @ r) = Some (v, r))"

lemma decodesD: "decodes v \<Longrightarrow> stops r \<Longrightarrow> 2 * length (dumps_compact v) < n \<Longrightarrow>
    parse_value n (dumps_compact v @ r) = Some (v, r)"
  by (simp add: decodes_def)

lemma skip_ws_dumps: "jsonable v \<Longrightarrow> skip_ws (dumps_compact v @ r) = dumps_compact v @ r"
  using dumps_opens [of v] by (auto simp: skip_ws_opens)

lemma skip_ws_join:
  "jsonable v \<Longrightarrow> skip_ws (join_with '','' (map dumps_compact (v # vs)) @ r)
     = join_with '','' (map dumps_compact (v # vs)) @ r"
  using skip_ws_dumps [of v] by (cases vs) simp_all

lemma parse_elements_dumps:
  "vs \<noteq> [] \<Longrightarrow> \<forall>v\<in>set vs. jsonable v \<and> decodes v \<Longrightarrow>
   2 * length (join_with '','' (map dumps_compact vs)) + 1 < n \<Longrightarrow>
   parse_elements n (join_with '','' (map dumps_compact vs) @ CHR '']'' # r) = Some (vs, r)"
proof (induction vs arbitrary: n)
  case (Cons v vs)
  obtain m where n: "n = Suc m" using Cons.prems(3) by (cases n) auto
  show ?case
  proof (cases vs)
    case Nil
    with Cons.prems n have "parse_value m (dumps_compact v @ CHR '']'' # r) = Some (v, CHR '']'' # r)"
      by (intro decodesD) simp_all
    with Nil n show ?thesis by simp
  next
    case (Cons w ws)
    let ?t = "join_with '','' (map dumps_compact vs)"
    have j: "join_with '','' (map dumps_compact (v # vs)) = dumps_compact v @ CHR '','' # ?t"
      using \<open>vs = w # ws\<close> by simp
    have "parse_value m (dumps_compact v @ CHR '','' # ?t @ CHR '']'' # r)
        = Some (v, CHR '','' # ?t @ CHR '']'' # r)"
      using Cons.prems n j by (intro decodesD) simp_all
    moreover have "parse_elements m (?t @ CHR '']'' # r) = Some (vs, r)"
      using Cons.prems n j \<open>vs = w # ws\<close> by (intro Cons.IH) simp_all
    moreover have "skip_ws (?t @ CHR '']'' # r) = ?t @ CHR '']'' # r"
      unfolding \<open>vs = w # ws\<close> using Cons.prems(2) \<open>vs = w # ws\<close> by (intro skip_ws_join) simp
    ultimately show ?thesis using n j by simp
  qed
qed simp

lemma join_members_head:
  "\<exists>cs. join_with '','' (map member_text (kv # kvs)) = CHR 0x22 # cs"
  by (cases kvs) (simp_all add: member_text_def quoted_def)

lemma skip_ws_members:
  "kvs \<noteq> [] \<Longrightarrow> skip_ws (join_with '','' (map member_text kvs) @ r)
     = join_with '','' (map member_text kvs) @ r"
  using join_members_head [of "hd kvs" "tl kvs"] by auto

lemma parse_members_dumps:
  "kvs \<noteq> [] \<Longrightarrow> \<forall>kv\<in>set kvs. (\<exists>k. fst kv = KStr k) \<and> jsonable (snd kv) \<and> decodes (snd kv) \<Longrightarrow>
   2 * length (join_with '','' (map member_text kvs)) + 1 < n \<Longrightarrow>
   parse_members n (join_with '','' (map member_text kvs) @ CHR ''}'' # r) = Some (kvs, r)"
proof (induction kvs arbitrary: n)
  case (Cons kv kvs)
  obtain m where n: "n = Suc m" using Cons.prems(3) by (cases n) auto
  obtain k v where kv: "kv = (KStr k, v)" using Cons.prems(2) by (cases kv) auto
  have j: "join_with '','' (map member_text (kv # kvs)) =
      CHR 0x22 # escape_body k @ CHR 0x22 # CHR '':'' # dumps_compact v @
      (if kvs = [] then [] else CHR '','' # join_with '','' (map member_text kvs))" (is "_ = _ # _ @ _ # _ # _ @ ?t")
    using kv by (cases kvs) (simp_all add: member_text_def quoted_def key_text_def)
  have lj: "length (dumps_compact v) + (if kvs = [] then 0 else length (join_with '','' (map member_text kvs)))
      < length (join_with '','' (map member_text (kv # kvs)))"
    by (simp only: j length_Cons length_append) simp
  have st: "stops (?t @ CHR ''}'' # r)" by simp
  have "parse_value m (dumps_compact v @ ?t @ CHR ''}'' # r) = Some (v, ?t @ CHR ''}'' # r)"
    using Cons.prems n kv lj by (intro decodesD st) (auto split: if_splits)
  moreover have "skip_ws (dumps_compact v @ ?t @ CHR ''}'' # r) = dumps_compact v @ ?t @ CHR ''}'' # r"
    using Cons.prems kv by (intro skip_ws_dumps) simp
  moreover have "kvs \<noteq> [] \<Longrightarrow> parse_members m (join_with '','' (map member_text kvs) @ CHR ''}'' # r)
      = Some (kvs, r)"
    using Cons.prems n lj by (intro Cons.IH) auto
  moreover have "kvs \<noteq> [] \<Longrightarrow> skip_ws (join_with '','' (map member_text kvs) @ CHR ''}'' # r)
      = join_with '','' (map member_text kvs) @ CHR ''}'' # r"
    using skip_ws_members by simp
  ultimately show ?case unfolding j n parse_members.simps append_Cons append_assoc
    using kv by (cases "kvs = []") (simp_all add: parse_quoted)
qed simp

lemma parse_constant:
  "0 < n \<Longrightarrow> json_constant (c # cs) = Some p \<Longrightarrow> is_lower c \<Longrightarrow> parse_value n (c # cs) = Some p"
  by (cases n) (auto simp: is_lower_def code_eq_iff)

lemma json_constant_words [simp]:
  "json_constant (CHR ''n'' # CHR ''u'' # CHR ''l'' # CHR ''l'' # r) = Some (VNone, r)"
  "json_constant (CHR ''t'' # CHR ''r'' # CHR ''u'' # CHR ''e'' # r) = Some (VBool True, r)"
  "json_constant (CHR ''f'' # CHR ''a'' # CHR ''l'' # CHR ''s'' # CHR ''e'' # r) = Some (VBool False, r)"
  by (simp_all add: json_constant_def startswith_def)

lemma is_lower_words [simp]: "is_lower CHR ''n''" "is_lower CHR ''t''" "is_lower CHR ''f''"
  by (simp_all add: is_lower_def)

lemma decodes_jsonable: "jsonable v \<Longrightarrow> decodes v"
proof (induction v rule: jsonable.induct)
  case (3 vs)
  have "\<forall>v\<in>set vs. jsonable v \<and> decodes v" using 3 by simp
  show ?case unfolding decodes_def
  proof (intro allI impI)
    fix n r
    assume n: "2 * length (dumps_compact (VList vs)) < n"
    then obtain m where m: "n = Suc m" by (cases n) auto
    show "parse_value n (dumps_compact (VList vs) @ r) = Some (VList vs, r)"
    proof (cases vs)
      case Nil
      with m show ?thesis by (simp add: dumps_compact_list)
    next
      case (Cons w ws)
      let ?t = "join_with '','' (map dumps_compact vs)"
      have e: "parse_elements m (?t @ CHR '']'' # r) = Some (vs, r)"
        using \<open>\<forall>v\<in>set vs. _ v\<close> n m Cons by (intro parse_elements_dumps) (auto simp: dumps_compact_list)
      obtain c cs where c: "dumps_compact w = c # cs" "opens c"
        using dumps_opens [of w] Cons 3 by auto
      then obtain cs' where t: "?t @ CHR '']'' # r = c # cs'" using Cons by (cases ws) auto
      have "skip_ws (?t @ CHR '']'' # r) = c # cs'" using t c(2) by (simp add: skip_ws_opens)
      with e t c(2) m show ?thesis by (simp add: dumps_compact_list opens_def)
    qed
  qed
next
  case (4 kvs)
  have all: "\<forall>kv\<in>set kvs. (\<exists>k. fst kv = KStr k) \<and> jsonable (snd kv) \<and> decodes (snd kv)" using 4 by auto
  show ?case unfolding decodes_def
  proof (intro allI impI)
    fix n r
    assume n: "2 * length (dumps_compact (VDict kvs)) < n"
    then obtain m where m: "n = Suc m" by (cases n) auto
    show "parse_value n (dumps_compact (VDict kvs) @ r) = Some (VDict kvs, r)"
    proof (cases kvs)
      case Nil
      with m show ?thesis by (simp add: dumps_compact_dict dict_of_def)
    next
      case (Cons w ws)
      let ?t = "join_with '','' (map member_text kvs)"
      have e: "parse_members m (?t @ CHR ''}'' # r) = Some (kvs, r)"
        using all n m Cons by (intro parse_members_dumps) (auto simp: dumps_compact_dict)
      obtain cs where t: "?t = CHR 0x22 # cs" using join_members_head [of w ws] Cons by auto
      from e t m dict_of_distinct [of kvs] 4(2) show ?thesis by (simp add: dumps_compact_dict)
    qed
  qed
next
  fix i
  show "decodes (VInt i)" unfolding decodes_def
  proof (intro allI impI)
    fix n r
    assume "stops r" "2 * length (dumps_compact (VInt i)) < n"
    then show "parse_value n (dumps_compact (VInt i) @ r) = Some (VInt i, r)"
      using parse_value_int [of r "n - 1" i] by (cases n) (simp_all add: dumps_compact_def)
  qed
next
  fix s
  show "decodes (VStr s)" unfolding decodes_def
  proof (intro allI impI)
    fix n r
    assume "2 * length (dumps_compact (VStr s)) < n"
    then show "parse_value n (dumps_compact (VStr s) @ r) = Some (VStr s, r)"
      by (cases n) (simp_all add: dumps_compact_def quoted_def parse_quoted)
  qed
next
  show "decodes VNone" unfolding decodes_def by (auto simp: dumps_compact_def intro!: parse_constant)
next
  fix b
  show "decodes (VBool b)" unfolding decodes_def by (auto simp: dumps_compact_def intro!: parse_constant)
qed simp_all

text \<open>Round trip through the database or a file.\<close>

lemma loads_dumps: "jsonable v \<Longrightarrow> loads (dumps_compact v) = Some v"
  using decodesD [OF decodes_jsonable, of v "[]" "Suc (2 * length (dumps_compact v))"]
    skip_ws_dumps [of v "[]"]
  by (simp add: loads_def)

subsection \<open>Property\<close>

text \<open>A payload that passes the gate is decoded from the stored text to the same value.\<close>

theorem payload_roundtrip:
  assumes "bounded_database_payload_json v = Inr t" "jsonable v"
  shows "loads t = Some v"
  using assms by (simp add: bounded_database_payload_json_Inr loads_dumps)

lemma payload_roundtrip_witness:
  "loads ''{\"a\":[1,null],\"b\":\"x\"}'' =
     Some (VDict [(KStr ''a'', VList [VInt 1, VNone]), (KStr ''b'', VStr ''x'')])"
proof (rule payload_roundtrip)
  have one: "nat_str (Suc 0) = ''1''" by code_simp
  show "bounded_database_payload_json
      (VDict [(KStr ''a'', VList [VInt 1, VNone]), (KStr ''b'', VStr ''x'')]) =
      Inr ''{\"a\":[1,null],\"b\":\"x\"}''"
    by (simp add: bounded_database_payload_json_Inr bounded_shape_def MAX_JSON_NODES_def
        MAX_JSON_DEPTH_def MAX_JSON_STRING_def MAX_CONTAINER_ITEMS_def MAX_JOB_WIRE_BYTES_def
        key_fits_def dumps_compact_def key_text_def quoted_def escape_body_def escape_char_def
        backslash_def code_def int_str_def one)
qed simp

end
