(* ===== verification/Models.thy ===== *)
theory Models
  imports Prelude
begin

section \<open>Shared value types of the worker\<close>

text \<open>
  The package sources (\<open>sources.py\<close>), the resolver's observations and results
  (\<open>resolver/models.py\<close>), the parsed requirements (\<open>parser/models.py\<close>), a downloaded wheel
  (\<open>download/wheels.py\<close>) and the static validation report (\<open>validation/static.py\<close>).  A version of
  the \<open>packaging\<close> library is the record of what the worker observes of it: its text, its release
  numbers, whether it is a pre-release, and the key its comparisons use (two versions are equal when
  their keys are).
\<close>

subsection \<open>Package sources\<close>

datatype PackageSource = TSINGHUA | ALIYUN | PYPI

definition SOURCE_ORDER :: "PackageSource list" where
  "SOURCE_ORDER = [TSINGHUA, ALIYUN, PYPI]"

definition SOURCE_URLS :: "(PackageSource \<times> string) list" where
  "SOURCE_URLS = [(TSINGHUA, ''https://pypi.tuna.tsinghua.edu.cn/simple''),
     (ALIYUN, ''https://mirrors.aliyun.com/pypi/simple''),
     (PYPI, ''https://pypi.org/simple'')]"

fun source_value :: "PackageSource \<Rightarrow> string" where
  "source_value TSINGHUA = ''TSINGHUA''"
| "source_value ALIYUN = ''ALIYUN''"
| "source_value PYPI = ''PYPI''"

fun source_url :: "PackageSource \<Rightarrow> string" where
  "source_url source = the (map_of SOURCE_URLS source)"

definition package_source :: "string \<Rightarrow> PackageSource option" where
  "package_source v = find (\<lambda>s. source_value s = v) SOURCE_ORDER"

text \<open>The argument is a member of the enumeration or a string; any other object raises.\<close>

datatype source_arg = SourceMember PackageSource | SourceText string | SourceOther

definition resolver_source_url :: "source_arg \<Rightarrow> string option" where
  "resolver_source_url source = (case source of
     SourceMember s \<Rightarrow> Some (source_url s)
   | SourceOther \<Rightarrow> None
   | SourceText t \<Rightarrow> (case package_source t of
       Some s \<Rightarrow> Some (source_url s)
     | None \<Rightarrow> if t \<in> set (map snd SOURCE_URLS) then Some t else None))"

lemma source_url_builtin: "source_url s \<in> set (map snd SOURCE_URLS)"
  by (cases s) (simp_all add: SOURCE_URLS_def)

lemma resolver_source_url_builtin:
  "resolver_source_url a = Some u \<Longrightarrow> u \<in> set (map snd SOURCE_URLS)"
  using source_url_builtin
  by (auto simp: resolver_source_url_def split: source_arg.splits option.splits if_splits)

lemma SOURCE_ORDER_complete: "set SOURCE_ORDER = UNIV" "distinct SOURCE_ORDER"
proof -
  show "set SOURCE_ORDER = UNIV"
    by (auto simp: SOURCE_ORDER_def) (metis PackageSource.exhaust)
qed (simp add: SOURCE_ORDER_def)

subsection \<open>Versions and resolver results\<close>

record 'k Version =
  v_str :: string
  v_release :: "nat list"
  v_is_prerelease :: bool
  v_key :: 'k

datatype CandidateRejectionCode =
    PRERELEASE | YANKED | REQUIRES_PYTHON | NO_TARGET_WHEEL | OUTSIDE_COMPATIBILITY_BOUNDARY
  | MALFORMED_PROVIDER_DATA | CANDIDATE_LIMIT

fun rejection_value :: "CandidateRejectionCode \<Rightarrow> string" where
  "rejection_value PRERELEASE = ''PRERELEASE''"
| "rejection_value YANKED = ''YANKED''"
| "rejection_value REQUIRES_PYTHON = ''REQUIRES_PYTHON''"
| "rejection_value NO_TARGET_WHEEL = ''NO_TARGET_WHEEL''"
| "rejection_value OUTSIDE_COMPATIBILITY_BOUNDARY = ''OUTSIDE_COMPATIBILITY_BOUNDARY''"
| "rejection_value MALFORMED_PROVIDER_DATA = ''MALFORMED_PROVIDER_DATA''"
| "rejection_value CANDIDATE_LIMIT = ''CANDIDATE_LIMIT''"

datatype CompatibilityFailureCode =
    STRICT_RESOLUTION | EXHAUSTED | ATTEMPT_LIMIT | TIMEOUT | RESOURCE_LIMIT

fun failure_value :: "CompatibilityFailureCode \<Rightarrow> string" where
  "failure_value STRICT_RESOLUTION = ''STRICT_RESOLUTION''"
| "failure_value EXHAUSTED = ''EXHAUSTED''"
| "failure_value ATTEMPT_LIMIT = ''ATTEMPT_LIMIT''"
| "failure_value TIMEOUT = ''TIMEOUT''"
| "failure_value RESOURCE_LIMIT = ''RESOURCE_LIMIT''"

datatype VersionChangeKind = UPGRADE | DOWNGRADE | UNCHANGED | UNRESOLVED

fun change_value :: "VersionChangeKind \<Rightarrow> string" where
  "change_value UPGRADE = ''UPGRADE''"
| "change_value DOWNGRADE = ''DOWNGRADE''"
| "change_value UNCHANGED = ''UNCHANGED''"
| "change_value UNRESOLVED = ''UNRESOLVED''"

record ResolveLimits =
  lim_max_candidates_per_requirement :: int
  lim_max_resolution_attempts :: int
  lim_timeout :: time

definition resolve_limits_ok :: "ResolveLimits \<Rightarrow> bool" where
  "resolve_limits_ok l \<longleftrightarrow>
     1 \<le> lim_max_candidates_per_requirement l \<and> lim_max_candidates_per_requirement l \<le> 20 \<and>
     1 \<le> lim_max_resolution_attempts l \<and> lim_max_resolution_attempts l \<le> 100 \<and>
     0 < lim_timeout l \<and> lim_timeout l \<le> seconds 600"

record 'k CandidateSelection =
  cs_package :: string
  cs_version :: "'k Version"

record CandidateRejection =
  cr_package :: string
  cr_version :: string
  cr_source :: PackageSource
  cr_code :: CandidateRejectionCode
  cr_reason :: string

record 'k ResolutionAttempt =
  ra_selections :: "'k CandidateSelection list"
  ra_source :: PackageSource
  ra_failure :: "CompatibilityFailureCode option"
  ra_reason :: string

record 'k VersionChange =
  vc_package :: string
  vc_kind :: VersionChangeKind
  vc_original_constraint :: string
  vc_original_version :: "'k Version option"
  vc_resolved_version :: "'k Version option"
  vc_reason :: string
  vc_source :: "PackageSource option"

record ArchiveHash =
  ah_algorithm :: string
  ah_value :: string

record 'k ResolvedPackage =
  pk_name :: string
  pk_version :: "'k Version"
  pk_requested :: bool
  pk_artifact_url :: string
  pk_wheel_filename :: string
  pk_requires_dist :: "string list"
  pk_requires_python :: "string option"
  pk_archive_hashes :: "ArchiveHash list"

record 'k ResolutionResult =
  rr_report_version :: string
  rr_packages :: "'k ResolvedPackage list"
  rr_attempts :: "'k ResolutionAttempt list"
  rr_rejections :: "CandidateRejection list"
  rr_changes :: "'k VersionChange list"
  rr_source :: "PackageSource option"
  rr_rejections_omitted :: int
  rr_observations_truncated :: bool

subsection \<open>Parsed requirements\<close>

record RequirementItem =
  it_line_no :: int
  it_name :: string
  it_extras :: "string list"
  it_specifier :: string
  it_marker :: "string option"
  it_original_text :: string

record ParsedRequirements =
  pr_normalized_text :: string
  pr_items :: "RequirementItem list"
  pr_encoding :: string

subsection \<open>Downloaded wheels and validation reports\<close>

text \<open>A wheel tag of \<open>packaging\<close>; a frozenset of tags as a list without repetition.\<close>

record Tag =
  tag_interpreter :: string
  tag_abi :: string
  tag_platform :: string

definition tag_str :: "Tag \<Rightarrow> string" where
  "tag_str t = tag_interpreter t @ ''-'' @ tag_abi t @ ''-'' @ tag_platform t"

record 'k DownloadedWheel =
  dw_package :: string
  dw_version :: "'k Version"
  dw_filename :: string
  dw_path :: string
  dw_source :: PackageSource
  dw_byte_size :: int
  dw_sha256 :: string
  dw_tags :: "Tag list"

datatype ValidationIssueCode =
    RESOLUTION_DUPLICATE_PACKAGE | WHEEL_MISSING | WHEEL_DUPLICATE | WHEEL_UNEXPECTED
  | WHEEL_NAME_VERSION_MISMATCH | WHEEL_FILENAME_INVALID | WHEEL_WRONG_PLATFORM
  | REQUIRES_PYTHON_INVALID | REQUIRES_PYTHON_UNSATISFIED | REQUIRES_DIST_INVALID
  | DEPENDENCY_MISSING | DEPENDENCY_VERSION_MISMATCH

fun issue_value :: "ValidationIssueCode \<Rightarrow> string" where
  "issue_value RESOLUTION_DUPLICATE_PACKAGE = ''RESOLUTION_DUPLICATE_PACKAGE''"
| "issue_value WHEEL_MISSING = ''WHEEL_MISSING''"
| "issue_value WHEEL_DUPLICATE = ''WHEEL_DUPLICATE''"
| "issue_value WHEEL_UNEXPECTED = ''WHEEL_UNEXPECTED''"
| "issue_value WHEEL_NAME_VERSION_MISMATCH = ''WHEEL_NAME_VERSION_MISMATCH''"
| "issue_value WHEEL_FILENAME_INVALID = ''WHEEL_FILENAME_INVALID''"
| "issue_value WHEEL_WRONG_PLATFORM = ''WHEEL_WRONG_PLATFORM''"
| "issue_value REQUIRES_PYTHON_INVALID = ''REQUIRES_PYTHON_INVALID''"
| "issue_value REQUIRES_PYTHON_UNSATISFIED = ''REQUIRES_PYTHON_UNSATISFIED''"
| "issue_value REQUIRES_DIST_INVALID = ''REQUIRES_DIST_INVALID''"
| "issue_value DEPENDENCY_MISSING = ''DEPENDENCY_MISSING''"
| "issue_value DEPENDENCY_VERSION_MISMATCH = ''DEPENDENCY_VERSION_MISMATCH''"

record ValidationIssue =
  vi_code :: ValidationIssueCode
  vi_package :: string
  vi_detail :: string
  vi_filename :: "string option"

record StaticValidationReport =
  sv_issues :: "ValidationIssue list"
  sv_complete :: bool
  sv_validation_level :: string
  sv_install_verified :: bool

text \<open>The constructor: a report never claims an installed result, and its completeness is the absence
  of issues.\<close>

definition make_report ::
  "ValidationIssue list \<Rightarrow> bool \<Rightarrow> string \<Rightarrow> bool \<Rightarrow> StaticValidationReport option" where
  "make_report issues complete level install_verified =
     (if level \<noteq> ''STATIC'' \<or> install_verified then None
      else if complete \<noteq> (issues = []) then None
      else Some \<lparr>sv_issues = issues, sv_complete = complete, sv_validation_level = level,
             sv_install_verified = install_verified\<rparr>)"

record PublishedObject =
  po_object_key :: string
  po_size_bytes :: int
  po_sha256 :: string

end
