(* ===== verification/AuditRecords.thy ===== *)
theory AuditRecords
  imports Errors Models
begin

section \<open>Bounded audit records (\<open>jobs/repository.py\<close>)\<close>

text \<open>
  The audits that \<open>persist_resolution\<close> stores: attempts and rejections are added to accumulators
  that count everything and keep only what fits a byte budget, texts are cut so that their JSON
  encoding fits.  The final size checks raise; it is shown that they never do, because the sections
  and the fixed parts together stay below the limits.  \<open>canonicalize_name\<close> of \<open>packaging\<close> is the
  parameter \<open>canon\<close>.
\<close>

definition MAX_RESOLVED_PACKAGES :: nat where "MAX_RESOLVED_PACKAGES = 500"
definition MAX_PACKAGE_AUDIT_BYTES :: nat where "MAX_PACKAGE_AUDIT_BYTES = 4096"
definition MAX_BUILD_AUDIT_BYTES :: nat where "MAX_BUILD_AUDIT_BYTES = 6000"
definition AUDIT_SECTION_BYTES :: nat where "AUDIT_SECTION_BYTES = 1600"
definition BUILD_AUDIT_SECTION_BYTES :: nat where "BUILD_AUDIT_SECTION_BYTES = 2600"

definition json_bytes :: "pyval \<Rightarrow> nat" where
  "json_bytes v = length (dumps_default v)"

subsection \<open>Cutting a text to a byte budget\<close>

fun prefix_from :: "nat \<Rightarrow> nat \<Rightarrow> string \<Rightarrow> string" where
  "prefix_from used byte_limit [] = []"
| "prefix_from used byte_limit (c # cs) =
     (let encoded_size = length (quoted [c]) - 2 in
      if byte_limit < used + encoded_size then []
      else c # prefix_from (used + encoded_size) byte_limit cs)"

definition json_string_prefix :: "string \<Rightarrow> nat \<Rightarrow> string" where
  "json_string_prefix value byte_limit = prefix_from 0 byte_limit value"

declare escape_body_simps [simp]

lemma prefix_from_fits: "used \<le> n \<Longrightarrow> used + length (escape_body (prefix_from used n s)) \<le> n"
  by (induction used n s rule: prefix_from.induct) (auto simp: Let_def length_quoted)

lemma prefix_from_take: "\<exists>k. prefix_from used n s = take k s"
proof (induction used n s rule: prefix_from.induct)
  case (2 used n c cs)
  show ?case
  proof (cases "n < used + (length (quoted [c]) - 2)")
    case True
    then show ?thesis by (intro exI [of _ 0]) (simp add: Let_def)
  next
    case False
    then obtain k where "prefix_from (used + (length (quoted [c]) - 2)) n cs = take k cs"
      using "2.IH" by blast
    with False show ?thesis by (intro exI [of _ "Suc k"]) (simp add: Let_def)
  qed
qed simp

lemma prefix_from_all:
  "used + length (escape_body s) \<le> n \<Longrightarrow> prefix_from used n s = s"
  by (induction used n s rule: prefix_from.induct) (auto simp: Let_def length_quoted)

lemma json_string_prefix_fits: "length (escape_body (json_string_prefix s n)) \<le> n"
  using prefix_from_fits [of 0 n s] by (simp add: json_string_prefix_def)

lemma json_string_prefix_bytes: "json_bytes (VStr (json_string_prefix s n)) \<le> n + 2"
  using json_string_prefix_fits [of s n] by (simp add: json_bytes_def dumps_default_def length_quoted)

subsection \<open>The accumulator\<close>

record AuditAccumulator =
  acc_entries :: "pyval list"
  acc_total :: int
  acc_omitted :: int
  acc_byte_limit :: nat
  acc_encoded_bytes :: nat

definition accumulator :: "nat \<Rightarrow> AuditAccumulator" where
  "accumulator limit = \<lparr>acc_entries = [], acc_total = 0, acc_omitted = 0, acc_byte_limit = limit,
     acc_encoded_bytes = 2\<rparr>"

definition acc_add :: "pyval \<Rightarrow> AuditAccumulator \<Rightarrow> AuditAccumulator" where
  "acc_add entry acc =
     (let acc = acc\<lparr>acc_total := acc_total acc + 1\<rparr>;
          encoded_bytes = json_bytes entry;
          separator_bytes = (if acc_entries acc \<noteq> [] then 2 else 0)
      in if acc_byte_limit acc < acc_encoded_bytes acc + separator_bytes + encoded_bytes
         then acc\<lparr>acc_omitted := acc_omitted acc + 1\<rparr>
         else acc\<lparr>acc_entries := acc_entries acc @ [entry],
                  acc_encoded_bytes := acc_encoded_bytes acc + separator_bytes + encoded_bytes\<rparr>)"

text \<open>The running size is the size of the encoded list, within the limit; nothing is uncounted.\<close>

definition acc_inv :: "AuditAccumulator \<Rightarrow> bool" where
  "acc_inv acc \<longleftrightarrow> acc_encoded_bytes acc = json_bytes (VList (acc_entries acc)) \<and>
     acc_encoded_bytes acc \<le> acc_byte_limit acc \<and>
     acc_total acc = int (length (acc_entries acc)) + acc_omitted acc \<and> 0 \<le> acc_omitted acc"

lemma length_join_snoc:
  "length (join_with sep (ps @ [p])) =
     length (join_with sep ps) + (if ps \<noteq> [] then length sep else 0) + length p"
proof (induction ps)
  case (Cons q ps)
  then show ?case by (cases ps) simp_all
qed simp

lemma json_bytes_snoc:
  "json_bytes (VList (es @ [e])) =
     json_bytes (VList es) + (if es \<noteq> [] then 2 else 0) + json_bytes e"
  by (simp add: json_bytes_def dumps_default_def length_join_snoc)

lemma accumulator_inv: "2 \<le> n \<Longrightarrow> acc_inv (accumulator n)"
  by (simp add: acc_inv_def accumulator_def json_bytes_def dumps_default_def)

lemma acc_add_inv: "acc_inv acc \<Longrightarrow> acc_inv (acc_add entry acc)"
  by (auto simp: acc_inv_def acc_add_def Let_def json_bytes_snoc)

lemma acc_add_fields [simp]:
  "acc_byte_limit (acc_add entry acc) = acc_byte_limit acc"
  "acc_total (acc_add entry acc) = acc_total acc + 1"
  by (simp_all add: acc_add_def Let_def)

definition acc_add_all :: "pyval list \<Rightarrow> nat \<Rightarrow> AuditAccumulator" where
  "acc_add_all entries limit = fold acc_add entries (accumulator limit)"

lemma fold_acc_add:
  "acc_inv acc \<Longrightarrow> acc_inv (fold acc_add es acc) \<and>
     acc_byte_limit (fold acc_add es acc) = acc_byte_limit acc \<and>
     acc_total (fold acc_add es acc) = acc_total acc + int (length es)"
proof (induction es arbitrary: acc)
  case (Cons e es)
  then show ?case using Cons.IH [OF acc_add_inv [OF Cons.prems, of e]] by simp
qed simp

lemma acc_add_all_facts:
  assumes "2 \<le> n"
  shows "json_bytes (VList (acc_entries (acc_add_all es n))) \<le> n"
    and "acc_total (acc_add_all es n) = int (length es)"
    and "0 \<le> acc_omitted (acc_add_all es n)" "acc_omitted (acc_add_all es n) \<le> int (length es)"
  using fold_acc_add [OF accumulator_inv [OF assms], of es]
  by (auto simp: acc_add_all_def acc_inv_def accumulator_def)

subsection \<open>The audits\<close>

definition str_value :: "string option \<Rightarrow> pyval" where
  "str_value x = (case x of None \<Rightarrow> VNone | Some s \<Rightarrow> VStr s)"

definition dict_value :: "(string \<times> pyval) list \<Rightarrow> pyval" where
  "dict_value kvs = VDict (map (\<lambda>(k, v). (KStr k, v)) kvs)"

definition attempt_failure :: "'k ResolutionAttempt \<Rightarrow> pyval" where
  "attempt_failure a = str_value (map_option failure_value (ra_failure a))"

definition summary_attempt :: "(string \<Rightarrow> string) \<Rightarrow> 'k ResolutionAttempt \<Rightarrow> pyval" where
  "summary_attempt canon a = dict_value
     [(''source'', VStr (source_value (ra_source a))),
      (''failure'', attempt_failure a),
      (''reason'', VStr (json_string_prefix (sanitize_text (ra_reason a) 1000) 240)),
      (''selectionCount'', VInt (int (length (ra_selections a)))),
      (''selections'', VList (map (\<lambda>s. dict_value
         [(''package'', VStr (json_string_prefix (canon (cs_package s)) 120)),
          (''version'', VStr (json_string_prefix (v_str (cs_version s)) 120))])
         (take 2 (ra_selections a))))]"

definition summary_rejection :: "(string \<Rightarrow> string) \<Rightarrow> CandidateRejection \<Rightarrow> pyval" where
  "summary_rejection canon r = dict_value
     [(''package'', VStr (json_string_prefix (canon (cr_package r)) 120)),
      (''version'', VStr (json_string_prefix (cr_version r) 120)),
      (''source'', VStr (source_value (cr_source r))),
      (''code'', VStr (rejection_value (cr_code r))),
      (''reason'', VStr (json_string_prefix (sanitize_text (cr_reason r) 1000) 240))]"

datatype audit_error = AuditTooLarge

definition resolution_summary_audit ::
  "(string \<Rightarrow> string) \<Rightarrow> 'k ResolutionResult \<Rightarrow> audit_error + pyval" where
  "resolution_summary_audit canon res =
     (let attempts = acc_add_all (map (summary_attempt canon) (rr_attempts res))
                       BUILD_AUDIT_SECTION_BYTES;
          rejections = acc_add_all (map (summary_rejection canon) (rr_rejections res))
                       BUILD_AUDIT_SECTION_BYTES;
          audit = dict_value
            [(''version'', VInt 1),
             (''totals'', dict_value
               [(''attempts'', VInt (acc_total attempts)),
                (''rejections'', VInt (acc_total rejections + rr_rejections_omitted res))]),
             (''attempts'', VList (acc_entries attempts)),
             (''rejections'', VList (acc_entries rejections)),
             (''omitted'', dict_value
               [(''attempts'', VInt (acc_omitted attempts)),
                (''rejections'', VInt (acc_omitted rejections + rr_rejections_omitted res))]),
             (''truncated'', dict_value
               [(''observations'', VBool (rr_observations_truncated res)),
                (''rejections'', VInt (rr_rejections_omitted res))])]
      in if MAX_BUILD_AUDIT_BYTES < json_bytes audit then Inl AuditTooLarge else Inr audit)"

definition package_attempts ::
  "(string \<Rightarrow> string) \<Rightarrow> string \<Rightarrow> 'k ResolutionResult \<Rightarrow> pyval list" where
  "package_attempts canon package res = concat (map (\<lambda>a.
     map (\<lambda>s. dict_value
        [(''source'', VStr (source_value (ra_source a))),
         (''failure'', attempt_failure a),
         (''selectedVersion'', VStr (json_string_prefix (v_str (cs_version s)) 200)),
         (''reason'', VStr (json_string_prefix (sanitize_text (ra_reason a) 1000) 300))])
       (filter (\<lambda>s. canon (cs_package s) = package) (ra_selections a))) (rr_attempts res))"

definition package_rejections ::
  "(string \<Rightarrow> string) \<Rightarrow> string \<Rightarrow> 'k ResolutionResult \<Rightarrow> pyval list" where
  "package_rejections canon package res = map (\<lambda>r. dict_value
     [(''version'', VStr (json_string_prefix (cr_version r) 200)),
      (''source'', VStr (source_value (cr_source r))),
      (''code'', VStr (rejection_value (cr_code r))),
      (''reason'', VStr (json_string_prefix (sanitize_text (cr_reason r) 1000) 300))])
     (filter (\<lambda>r. canon (cr_package r) = package) (rr_rejections res))"

definition build_package_resolution_audit ::
  "string \<Rightarrow> AuditAccumulator \<Rightarrow> AuditAccumulator \<Rightarrow> 'k ResolutionResult \<Rightarrow> audit_error + pyval" where
  "build_package_resolution_audit package attempts rejections res =
     (let audit = dict_value
        [(''version'', VInt 1),
         (''package'', VStr (json_string_prefix package 300)),
         (''attempts'', VList (acc_entries attempts)),
         (''rejections'', VList (acc_entries rejections)),
         (''omitted'', dict_value
           [(''attempts'', VInt (acc_omitted attempts)),
            (''rejections'', VInt (acc_omitted rejections))]),
         (''truncated'', dict_value
           [(''observations'', VBool (rr_observations_truncated res)),
            (''globalRejections'', VInt (rr_rejections_omitted res))])]
      in if MAX_PACKAGE_AUDIT_BYTES < json_bytes audit then Inl AuditTooLarge else Inr audit)"

text \<open>One audit for every requested canonical name, keyed by it; the first that is too large raises.\<close>

fun audits_of :: "(string \<Rightarrow> audit_error + pyval) \<Rightarrow> string list \<Rightarrow> audit_error + (string \<times> pyval) list" where
  "audits_of f [] = Inr []"
| "audits_of f (p # ps) = (case f p of Inl e \<Rightarrow> Inl e
     | Inr a \<Rightarrow> (case audits_of f ps of Inl e \<Rightarrow> Inl e | Inr as \<Rightarrow> Inr ((p, a) # as)))"

definition package_resolution_audits ::
  "(string \<Rightarrow> string) \<Rightarrow> 'k ResolutionResult \<Rightarrow> string list \<Rightarrow> audit_error + (string \<times> pyval) list" where
  "package_resolution_audits canon res packages =
     audits_of (\<lambda>package. build_package_resolution_audit package
         (acc_add_all (package_attempts canon package res) AUDIT_SECTION_BYTES)
         (acc_add_all (package_rejections canon package res) AUDIT_SECTION_BYTES) res)
       (remdups (map canon packages))"

subsection \<open>The size checks never fail\<close>

text \<open>The bytes of an object: braces, and for every member its key, the two separators and its
  value.\<close>

lemma json_bytes_dict:
  "list_all (\<lambda>(k, v). plain_key k) kvs \<Longrightarrow>
     json_bytes (dict_value kvs) \<le> 2 + sum_list (map (\<lambda>(k, v). 6 + length k + json_bytes v) kvs)"
proof -
  have join: "length (join_with '', '' ps) \<le> sum_list (map (\<lambda>p. 2 + length p) ps)" for ps :: "string list"
    by (induction "'', ''" ps rule: join_with.induct) auto
  assume plain: "list_all (\<lambda>(k, v). plain_key k) kvs"
  have "dumps_default (dict_value kvs) =
      ''{'' @ join_with '', '' (map (\<lambda>(k, v). quoted k @ '': '' @ dumps_default v) kvs) @ ''}''"
    by (simp add: dumps_default_def dict_value_def key_text_def comp_def split_def)
  then have "json_bytes (dict_value kvs) =
      2 + length (join_with '', '' (map (\<lambda>(k, v). quoted k @ '': '' @ dumps_default v) kvs))"
    by (simp add: json_bytes_def)
  also have "\<dots> \<le> 2 + sum_list (map (\<lambda>p. 2 + length p) (map (\<lambda>(k, v). quoted k @ '': '' @ dumps_default v) kvs))"
    using join by (intro add_left_mono)
  also have "\<dots> = 2 + sum_list (map (\<lambda>(k, v). 6 + length k + json_bytes v) kvs)"
  proof -
    have "map (\<lambda>p. 2 + length p) (map (\<lambda>(k, v). quoted k @ '': '' @ dumps_default v) kvs) =
        map (\<lambda>(k, v). 6 + length k + json_bytes v) kvs"
      using plain by (induction kvs) (auto simp: length_plain_key json_bytes_def)
    then show ?thesis by presburger
  qed
  finally show ?thesis .
qed

lemma json_bytes_int: "0 \<le> i \<Longrightarrow> i < 10 ^ 50 \<Longrightarrow> json_bytes (VInt i) \<le> 50"
  using length_int_str [of i] by (simp add: json_bytes_def dumps_default_def)

lemma json_bytes_bool: "json_bytes (VBool b) \<le> 5"
  by (simp add: json_bytes_def dumps_default_def)

lemma json_bytes_one: "json_bytes (VInt 1) \<le> 50"
  by (rule json_bytes_int) simp_all

lemma plain_keys [simp]:
  "plain_key ''version''" "plain_key ''totals''" "plain_key ''attempts''" "plain_key ''rejections''"
  "plain_key ''omitted''" "plain_key ''truncated''" "plain_key ''observations''"
  "plain_key ''package''" "plain_key ''globalRejections''"
  by (simp_all add: plain_key_def char_class_defs)

text \<open>Counters below \<open>10 ^ 49\<close>: no run reaches more.\<close>

definition countable :: "'k ResolutionResult \<Rightarrow> bool" where
  "countable res \<longleftrightarrow> 0 \<le> rr_rejections_omitted res \<and> rr_rejections_omitted res < 10 ^ 49 \<and>
     length (rr_attempts res) < 10 ^ 49 \<and> length (rr_rejections res) < 10 ^ 49 \<and>
     sum_list (map (length \<circ> ra_selections) (rr_attempts res)) < 10 ^ 49"

lemma package_attempts_length:
  "length (package_attempts canon package res) \<le>
     sum_list (map (length \<circ> ra_selections) (rr_attempts res))"
  unfolding package_attempts_def length_concat
  by (simp add: comp_def) (rule sum_list_mono, rule length_filter_le)

lemma package_rejections_length:
  "length (package_rejections canon package res) \<le> length (rr_rejections res)"
  by (simp add: package_rejections_def)

lemma package_audit_ok:
  assumes "countable res"
  shows "\<exists>v. build_package_resolution_audit package
     (acc_add_all (package_attempts canon package res) AUDIT_SECTION_BYTES)
     (acc_add_all (package_rejections canon package res) AUDIT_SECTION_BYTES) res = Inr v"
proof -
  let ?a = "acc_add_all (package_attempts canon package res) AUDIT_SECTION_BYTES"
  let ?r = "acc_add_all (package_rejections canon package res) AUDIT_SECTION_BYTES"
  have two: "2 \<le> AUDIT_SECTION_BYTES" by (simp add: AUDIT_SECTION_BYTES_def)
  note fa = acc_add_all_facts [OF two, of "package_attempts canon package res"]
  note fr = acc_add_all_facts [OF two, of "package_rejections canon package res"]
  have na: "acc_omitted ?a < 10 ^ 50" and nr: "acc_omitted ?r < 10 ^ 50"
    and no: "0 \<le> rr_rejections_omitted res" "rr_rejections_omitted res < 10 ^ 50"
    using assms fa(4) fr(4) package_attempts_length [of canon package res]
      package_rejections_length [of canon package res]
    by (auto simp: countable_def)
  let ?om = "dict_value [(''attempts'', VInt (acc_omitted ?a)), (''rejections'', VInt (acc_omitted ?r))]"
  let ?tr = "dict_value [(''observations'', VBool (rr_observations_truncated res)),
      (''globalRejections'', VInt (rr_rejections_omitted res))]"
  have "json_bytes ?om \<le> 150"
    using json_bytes_dict [of "[(''attempts'', VInt (acc_omitted ?a)), (''rejections'', VInt (acc_omitted ?r))]"]
      json_bytes_int [OF fa(3) na] json_bytes_int [OF fr(3) nr] by simp
  moreover have "json_bytes ?tr \<le> 100"
    using json_bytes_dict [of "[(''observations'', VBool (rr_observations_truncated res)),
      (''globalRejections'', VInt (rr_rejections_omitted res))]"]
      json_bytes_int [OF no] json_bytes_bool [of "rr_observations_truncated res"] by simp
  moreover note json_string_prefix_bytes [of package 300] json_bytes_one fa(1) fr(1)
  ultimately have "json_bytes (dict_value [(''version'', VInt 1),
         (''package'', VStr (json_string_prefix package 300)),
         (''attempts'', VList (acc_entries ?a)), (''rejections'', VList (acc_entries ?r)),
         (''omitted'', ?om), (''truncated'', ?tr)]) \<le> MAX_PACKAGE_AUDIT_BYTES"
    using json_bytes_dict [of "[(''version'', VInt 1),
         (''package'', VStr (json_string_prefix package 300)),
         (''attempts'', VList (acc_entries ?a)), (''rejections'', VList (acc_entries ?r)),
         (''omitted'', ?om), (''truncated'', ?tr)]"]
    by (simp add: AUDIT_SECTION_BYTES_def MAX_PACKAGE_AUDIT_BYTES_def)
  then show ?thesis by (simp add: build_package_resolution_audit_def Let_def)
qed

lemma audits_of_ok:
  "(\<And>p. p \<in> set ps \<Longrightarrow> \<exists>v. f p = Inr v) \<Longrightarrow> \<exists>as. audits_of f ps = Inr as \<and> map fst as = ps"
proof (induction ps)
  case (Cons p ps)
  then obtain v as where "f p = Inr v" "audits_of f ps = Inr as" "map fst as = ps"
    by (metis list.set_intros)
  then show ?case by simp
qed simp

lemma package_resolution_audits_ok:
  assumes "countable res"
  shows "\<exists>as. package_resolution_audits canon res packages = Inr as \<and>
    map fst as = remdups (map canon packages)"
  unfolding package_resolution_audits_def
  using package_audit_ok [OF assms] by (intro audits_of_ok) blast

lemma resolution_summary_audit_ok:
  assumes "countable res"
  shows "\<exists>v. resolution_summary_audit canon res = Inr v"
proof -
  let ?a = "acc_add_all (map (summary_attempt canon) (rr_attempts res)) BUILD_AUDIT_SECTION_BYTES"
  let ?r = "acc_add_all (map (summary_rejection canon) (rr_rejections res)) BUILD_AUDIT_SECTION_BYTES"
  let ?n = "rr_rejections_omitted res"
  have two: "2 \<le> BUILD_AUDIT_SECTION_BYTES" by (simp add: BUILD_AUDIT_SECTION_BYTES_def)
  note fa = acc_add_all_facts [OF two, of "map (summary_attempt canon) (rr_attempts res)"]
  note fr = acc_add_all_facts [OF two, of "map (summary_rejection canon) (rr_rejections res)"]
  have nums: "0 \<le> acc_total ?a" "acc_total ?a < 10 ^ 50" "0 \<le> acc_total ?r + ?n"
    "acc_total ?r + ?n < 10 ^ 50" "acc_omitted ?a < 10 ^ 50" "0 \<le> acc_omitted ?r + ?n"
    "acc_omitted ?r + ?n < 10 ^ 50" "0 \<le> ?n" "?n < 10 ^ 50"
    using assms fa(2-4) fr(2-4) by (auto simp: countable_def)
  let ?to = "[(''attempts'', VInt (acc_total ?a)), (''rejections'', VInt (acc_total ?r + ?n))]"
  let ?om = "[(''attempts'', VInt (acc_omitted ?a)), (''rejections'', VInt (acc_omitted ?r + ?n))]"
  let ?tr = "[(''observations'', VBool (rr_observations_truncated res)), (''rejections'', VInt ?n)]"
  have "json_bytes (dict_value ?to) \<le> 150"
    using json_bytes_dict [of ?to] json_bytes_int [OF nums(1,2)] json_bytes_int [OF nums(3,4)] by simp
  moreover have "json_bytes (dict_value ?om) \<le> 150"
    using json_bytes_dict [of ?om] json_bytes_int [OF fa(3) nums(5)] json_bytes_int [OF nums(6,7)] by simp
  moreover have "json_bytes (dict_value ?tr) \<le> 100"
    using json_bytes_dict [of ?tr] json_bytes_int [OF nums(8,9)]
      json_bytes_bool [of "rr_observations_truncated res"] by simp
  moreover note json_bytes_one fa(1) fr(1)
  ultimately have "json_bytes (dict_value [(''version'', VInt 1), (''totals'', dict_value ?to),
      (''attempts'', VList (acc_entries ?a)), (''rejections'', VList (acc_entries ?r)),
      (''omitted'', dict_value ?om), (''truncated'', dict_value ?tr)]) \<le> MAX_BUILD_AUDIT_BYTES"
    using json_bytes_dict [of "[(''version'', VInt 1), (''totals'', dict_value ?to),
      (''attempts'', VList (acc_entries ?a)), (''rejections'', VList (acc_entries ?r)),
      (''omitted'', dict_value ?om), (''truncated'', dict_value ?tr)]"]
    by (simp add: BUILD_AUDIT_SECTION_BYTES_def MAX_BUILD_AUDIT_BYTES_def)
  then show ?thesis by (simp add: resolution_summary_audit_def Let_def)
qed

end
