(* ===== verification/Repository.thy ===== *)
theory Repository
  imports JobDb JsonParse AuditRecords
begin

section \<open>The job repository (\<open>jobs/repository.py\<close>)\<close>

text \<open>
  Every method of \<open>JobRepository\<close> as a function from the database (and the clock reading and the
  fresh identifiers it uses) to its result and the database it leaves.  A body that raises leaves the
  database as it found it.  The rows that other transactions hold locked are the predicate \<open>held\<close>:
  only the two claim statements skip locked rows.
\<close>

subsection \<open>Leases and job updates\<close>

definition ownership :: "JobLease \<Rightarrow> time \<Rightarrow> build_job \<Rightarrow> bool" where
  "ownership lease now r \<longleftrightarrow>
     bj_id r = l_id lease \<and> bj_status r = J_RUNNING \<and>
     bj_lease_owner r = Some (l_worker_id lease) \<and>
     bj_execution_id r = Some (l_execution_id lease) \<and>
     bj_lease_expires_at r \<noteq> None \<and> sql_gt (bj_lease_expires_at r) now"

definition update_jobs :: "(build_job \<Rightarrow> bool) \<Rightarrow> (build_job \<Rightarrow> build_job) \<Rightarrow> db \<Rightarrow> db \<times> nat" where
  "update_jobs P f s =
     (let (rows, n) = sql_update P f (build_jobs s) in (s\<lparr>build_jobs := rows\<rparr>, n))"

definition update_tasks :: "(build_task \<Rightarrow> bool) \<Rightarrow> (build_task \<Rightarrow> build_task) \<Rightarrow> db \<Rightarrow> db \<times> nat" where
  "update_tasks P f s =
     (let (rows, n) = sql_update P f (build_tasks s) in (s\<lparr>build_tasks := rows\<rparr>, n))"

definition update_files ::
  "(requirement_file \<Rightarrow> bool) \<Rightarrow> (requirement_file \<Rightarrow> requirement_file) \<Rightarrow> db \<Rightarrow> db \<times> nat" where
  "update_files P f s =
     (let (rows, n) = sql_update P f (requirement_files s) in (s\<lparr>requirement_files := rows\<rparr>, n))"

definition owns :: "db \<Rightarrow> JobLease \<Rightarrow> time \<Rightarrow> bool" where
  "owns s lease now \<longleftrightarrow> find (ownership lease now) (build_jobs s) \<noteq> None"

definition release_lease :: "build_job \<Rightarrow> build_job" where
  "release_lease r = r\<lparr>bj_lease_owner := None, bj_execution_id := None,
     bj_lease_expires_at := None, bj_heartbeat_at := None\<rparr>"

definition bump_job :: "build_job \<Rightarrow> build_job" where
  "bump_job r = r\<lparr>bj_version_no := bj_version_no r + 1\<rparr>"

definition finish_job :: "JobStatus \<Rightarrow> time \<Rightarrow> build_job \<Rightarrow> build_job" where
  "finish_job st now r = bump_job ((release_lease r)\<lparr>bj_status := st, bj_finished_at := Some now\<rparr>)"

definition fail_job :: "string \<Rightarrow> time \<Rightarrow> build_job \<Rightarrow> build_job" where
  "fail_job message now r = (finish_job J_FAILED now r)\<lparr>bj_last_error := Some message\<rparr>"

definition renew_lease :: "int \<Rightarrow> time \<Rightarrow> build_job \<Rightarrow> build_job" where
  "renew_lease lease_seconds now r =
     bump_job (r\<lparr>bj_heartbeat_at := Some now, bj_lease_expires_at := Some (now + seconds lease_seconds)\<rparr>)"

subsection \<open>Ending a subject\<close>

definition fail_file :: "string \<Rightarrow> requirement_file \<Rightarrow> requirement_file" where
  "fail_file message r = r\<lparr>rf_parse_status := P_FAILED, rf_parse_error := Some message,
     rf_version_no := rf_version_no r + 1\<rparr>"

definition fail_task :: "time \<Rightarrow> string \<Rightarrow> string \<Rightarrow> build_task \<Rightarrow> build_task" where
  "fail_task now failure_code message r = r\<lparr>bt_status := B_FAILED,
     bt_failure_code := Some failure_code, bt_failure_message := Some message,
     bt_finished_at := Some now, bt_version_no := bt_version_no r + 1\<rparr>"

definition terminalize_subject ::
  "string \<Rightarrow> string \<Rightarrow> time \<Rightarrow> string \<Rightarrow> string \<Rightarrow> db \<Rightarrow> db" where
  "terminalize_subject job_type subject_id now failure_code message s =
     (if job_type = REQUIREMENT_PARSE then
        fst (update_files (\<lambda>r. rf_id r = subject_id \<and> rf_parse_status r \<notin> {P_PARSED, P_FAILED})
               (fail_file message) s)
      else if job_type = BUILD then
        fst (update_tasks (\<lambda>r. bt_id r = subject_id \<and> \<not> build_terminal (bt_status r))
               (fail_task now failure_code message) s)
      else s)"

definition requeue_task :: "build_task \<Rightarrow> build_task" where
  "requeue_task r = r\<lparr>bt_execution_id := None, bt_status := B_QUEUED, bt_progress := 0,
     bt_current_stage := None, bt_version_no := bt_version_no r + 1\<rparr>"

definition reset_subject_for_retry :: "JobLease \<Rightarrow> db \<Rightarrow> db" where
  "reset_subject_for_retry lease s =
     (if l_job_type lease = BUILD then
        fst (update_tasks
          (\<lambda>r. bt_id r = l_subject_id lease \<and> bt_execution_id r = Some (l_execution_id lease))
          requeue_task s)
      else if l_job_type lease = REQUIREMENT_PARSE then
        fst (update_files
          (\<lambda>r. rf_id r = l_subject_id lease \<and> rf_parse_status r = P_PARSING)
          (\<lambda>r. r\<lparr>rf_parse_status := P_PENDING, rf_version_no := rf_version_no r + 1\<rparr>) s)
      else s)"

definition fail_subject_claim :: "JobLease \<Rightarrow> time \<Rightarrow> string \<Rightarrow> db \<Rightarrow> db" where
  "fail_subject_claim lease now message s =
     (let (s', n) = update_jobs (ownership lease now) (fail_job (sanitize_text message 2000) now) s in
      if n = 1 then
        terminalize_subject (l_job_type lease) (l_subject_id lease) now ''SUBJECT_CLAIM_FAILED'' message s'
      else s')"

definition complete_job :: "JobLease \<Rightarrow> time \<Rightarrow> db \<Rightarrow> db \<times> bool" where
  "complete_job lease now s =
     (let (s', n) = update_jobs (ownership lease now) (finish_job J_COMPLETED now) s in (s', n = 1))"

subsection \<open>Claiming a job\<close>

definition claim_candidate :: "(string \<Rightarrow> bool) \<Rightarrow> time \<Rightarrow> db \<Rightarrow> build_job option" where
  "claim_candidate held now s =
     sql_first_by (\<lambda>r. (bj_priority_no r, bj_created_at r, bj_id r))
       (\<lambda>r. bj_status r = J_READY \<and> bj_available_at r \<le> now \<and> \<not> held (bj_id r)) (build_jobs s)"

definition expired_claim_candidate :: "(string \<Rightarrow> bool) \<Rightarrow> time \<Rightarrow> db \<Rightarrow> build_job option" where
  "expired_claim_candidate held now s =
     sql_first_by (\<lambda>r. (coalesce (bj_lease_expires_at r) 0, bj_id r))
       (\<lambda>r. bj_status r = J_RUNNING \<and> sql_le (bj_lease_expires_at r) now \<and> \<not> held (bj_id r))
       (build_jobs s)"

definition terminalize_exhausted :: "build_job \<Rightarrow> time \<Rightarrow> db \<Rightarrow> db" where
  "terminalize_exhausted row now s =
     (let message = ''job attempt limit exhausted'';
          (s', n) = update_jobs (\<lambda>r. bj_id r = bj_id row \<and> bj_version_no r = bj_version_no row)
                      (fail_job message now) s
      in if n = 1 then
           terminalize_subject (bj_job_type row) (bj_subject_id row) now
             ''JOB_ATTEMPTS_EXHAUSTED'' message s'
         else s')"

definition lease_job :: "int \<Rightarrow> string \<Rightarrow> time \<Rightarrow> string \<Rightarrow> int \<Rightarrow> build_job \<Rightarrow> build_job" where
  "lease_job lease_seconds worker_id now execution_id attempts r = bump_job (r\<lparr>bj_status := J_RUNNING,
     bj_attempts := attempts, bj_lease_owner := Some worker_id,
     bj_execution_id := Some execution_id,
     bj_lease_expires_at := Some (now + seconds lease_seconds), bj_heartbeat_at := Some now,
     bj_started_at := Some (coalesce (bj_started_at r) now), bj_finished_at := None\<rparr>)"

text \<open>A payload that is no text is encoded again under the limits; one beyond them becomes \<open>{}\<close>.\<close>

definition lease_payload :: "pyval \<Rightarrow> string" where
  "lease_payload payload = (case payload of
     VStr t \<Rightarrow> t
   | _ \<Rightarrow> (case bounded_database_payload_json payload of Inr t \<Rightarrow> t | Inl _ \<Rightarrow> ''{}''))"

definition lease_of :: "build_job \<Rightarrow> string \<Rightarrow> string \<Rightarrow> JobLease" where
  "lease_of row worker_id execution_id =
     (let reclaimed = (bj_status row = J_RUNNING) in
      \<lparr>l_id = bj_id row, l_job_type = bj_job_type row, l_subject_id = bj_subject_id row,
       l_payload_version = bj_payload_version row, l_payload_json = lease_payload (bj_payload_json row),
       l_worker_id = worker_id, l_execution_id = execution_id, l_attempts = bj_attempts row + 1,
       l_max_attempts = bj_max_attempts row, l_reclaimed = reclaimed,
       l_previous_execution_id = (if reclaimed then bj_execution_id row else None)\<rparr>)"

text \<open>One turn of the loop of \<open>claim_next\<close>, its own transaction: nothing to claim, once more, or a
  lease.\<close>

datatype claim_outcome = NoJob | Again | Leased JobLease

definition claim_iteration ::
  "int \<Rightarrow> string \<Rightarrow> time \<Rightarrow> string \<Rightarrow> (string \<Rightarrow> bool) \<Rightarrow> db \<Rightarrow> claim_outcome \<times> db" where
  "claim_iteration lease_seconds worker_id now execution_id held s =
     (let candidate = (case claim_candidate held now s of
                         Some r \<Rightarrow> Some r
                       | None \<Rightarrow> expired_claim_candidate held now s)
      in case candidate of
           None \<Rightarrow> (NoJob, s)
         | Some row \<Rightarrow>
             if bj_max_attempts row \<le> bj_attempts row then
               (Again, terminalize_exhausted row now s)
             else
               (let (s', n) = update_jobs
                      (\<lambda>r. bj_id r = bj_id row \<and> bj_version_no r = bj_version_no row)
                      (lease_job lease_seconds worker_id now execution_id (bj_attempts row + 1)) s
                in if n \<noteq> 1 then (Again, s')
                   else (Leased (lease_of row worker_id execution_id), s')))"

text \<open>The loop, with one clock reading, one fresh identifier and one set of locked rows per turn.\<close>

fun claim_loop ::
  "nat \<Rightarrow> int \<Rightarrow> string \<Rightarrow> (nat \<Rightarrow> time) \<Rightarrow> (nat \<Rightarrow> string) \<Rightarrow> (nat \<Rightarrow> string \<Rightarrow> bool) \<Rightarrow> db \<Rightarrow>
     (JobLease option \<times> db) option" where
  "claim_loop 0 lease_seconds worker_id clock uuids held s = None"
| "claim_loop (Suc n) lease_seconds worker_id clock uuids held s =
     (case claim_iteration lease_seconds worker_id (clock 0) (uuids 0) (held 0) s of
        (NoJob, s') \<Rightarrow> Some (None, s')
      | (Leased lease, s') \<Rightarrow> Some (Some lease, s')
      | (Again, s') \<Rightarrow> claim_loop n lease_seconds worker_id (clock \<circ> Suc) (uuids \<circ> Suc) (held \<circ> Suc) s')"

definition claim_next ::
  "nat \<Rightarrow> int \<Rightarrow> string \<Rightarrow> (nat \<Rightarrow> time) \<Rightarrow> (nat \<Rightarrow> string) \<Rightarrow> (nat \<Rightarrow> string \<Rightarrow> bool) \<Rightarrow> db \<Rightarrow>
     (repo_error + JobLease option \<times> db) option" where
  "claim_next fuel lease_seconds worker_id clock uuids held s =
     (if worker_id = [] \<or> 100 < length worker_id
      then Some (Inl (ValueError ''worker_id must contain at most 100 characters''))
      else map_option Inr (claim_loop fuel lease_seconds worker_id clock uuids held s))"

subsection \<open>Lease renewal and completion\<close>

definition heartbeat :: "int \<Rightarrow> JobLease \<Rightarrow> time \<Rightarrow> db \<Rightarrow> bool \<times> db" where
  "heartbeat lease_seconds lease now s =
     (let (s', n) = update_jobs (ownership lease now) (renew_lease lease_seconds now) s in (n = 1, s'))"

definition complete :: "JobLease \<Rightarrow> time \<Rightarrow> db \<Rightarrow> bool \<times> db" where
  "complete lease now s =
     (let (s', n) = update_jobs (ownership lease now) (finish_job J_COMPLETED now) s in (n = 1, s'))"

definition requeue_job :: "string \<Rightarrow> time \<Rightarrow> build_job \<Rightarrow> build_job" where
  "requeue_job bounded_error available r = bump_job ((release_lease r)\<lparr>bj_status := J_READY,
     bj_available_at := available, bj_last_error := Some bounded_error\<rparr>)"

definition retry_or_fail ::
  "JobLease \<Rightarrow> string \<Rightarrow> bool \<Rightarrow> int \<Rightarrow> time \<Rightarrow> db \<Rightarrow> bool \<times> db" where
  "retry_or_fail lease err retryable retry_delay_seconds now s =
     (let bounded_error = sanitize_text err 2000 in
      if retryable \<and> l_attempts lease < l_max_attempts lease then
        (let (s', n) = update_jobs (ownership lease now)
               (requeue_job bounded_error (now + seconds retry_delay_seconds)) s
         in (n = 1, if n = 1 then reset_subject_for_retry lease s' else s'))
      else
        (let (s', n) = update_jobs (ownership lease now) (fail_job bounded_error now) s
         in if n = 1 then
              (True, terminalize_subject (l_job_type lease) (l_subject_id lease) now ''JOB_FAILED''
                       bounded_error s')
            else (False, s')))"

definition fail_terminal :: "JobLease \<Rightarrow> string \<Rightarrow> string \<Rightarrow> time \<Rightarrow> db \<Rightarrow> bool \<times> db" where
  "fail_terminal lease failure_code err now s =
     (let message = sanitize_text err 2000;
          (s', n) = update_jobs (ownership lease now) (fail_job message now) s
      in if n \<noteq> 1 then (False, s')
         else (True, terminalize_subject (l_job_type lease) (l_subject_id lease) now failure_code
                       message s'))"

end
