(* ===== verification/Executions.thy ===== *)
theory Executions
  imports Repository
begin

section \<open>What an execution does to its subject (\<open>jobs/repository.py\<close>)\<close>

text \<open>
  The methods of \<open>JobRepository\<close> that a leased execution calls: claiming the requirement file or the
  build task, publishing parsed requirements, advancing, logging, recording packages, cancelling and
  publishing the artifact, and the read-only queries.  Each writing method is a transaction whose
  body first checks that the lease is still owned.  Identifiers come from the stream \<open>uuids\<close>.
\<close>

type_synonym 'a body = "repo_error + 'a \<times> db"

subsection \<open>Parsing\<close>

definition find_file :: "string \<Rightarrow> db \<Rightarrow> requirement_file option" where
  "find_file i s = find (\<lambda>r. rf_id r = i) (requirement_files s)"

definition claim_parse_subject :: "JobLease \<Rightarrow> time \<Rightarrow> db \<Rightarrow> ParseSubject option \<times> db" where
  "claim_parse_subject lease now s =
     (if \<not> owns s lease now then (None, s)
      else
        (let expected_status = (if l_reclaimed lease then P_PARSING else P_PENDING) in
         case find_file (l_subject_id lease) s of
           None \<Rightarrow> (None, fail_subject_claim lease now ''parse subject cannot be claimed'' s)
         | Some row \<Rightarrow>
             if rf_parse_status row \<noteq> expected_status
                \<or> (l_reclaimed lease \<and> l_previous_execution_id lease = None)
             then (None, fail_subject_claim lease now ''parse subject cannot be claimed'' s)
             else
               (let (s', n) = update_files
                      (\<lambda>r. rf_id r = l_subject_id lease \<and> rf_version_no r = rf_version_no row \<and>
                           rf_parse_status r = expected_status)
                      (\<lambda>r. r\<lparr>rf_parse_status := P_PARSING, rf_parse_error := None,
                             rf_version_no := rf_version_no r + 1\<rparr>) s
                in if n \<noteq> 1
                   then (None, fail_subject_claim lease now ''parse subject claim raced'' s')
                   else (Some \<lparr>ps_id = rf_id row, ps_user_id = rf_user_id row,
                           ps_original_object_key = rf_original_object_key row,
                           ps_normalized_object_key = str_of (rf_normalized_object_key row),
                           ps_size_bytes = rf_size_bytes row, ps_sha256 = rf_sha256 row\<rparr>, s'))))"

definition claim_requirement_file :: "JobLease \<Rightarrow> time \<Rightarrow> db \<Rightarrow> bool \<times> db" where
  "claim_requirement_file lease now s =
     (let (subject, s') = claim_parse_subject lease now s in (subject \<noteq> None, s'))"

definition bounded :: "string \<Rightarrow> nat \<Rightarrow> string" where
  "bounded value limit = take limit (replace_nul value)"

definition item_row :: "string \<Rightarrow> string \<Rightarrow> RequirementItem \<Rightarrow> requirement_item" where
  "item_row uuid subject_id item =
     \<lparr>ri_id = uuid, ri_requirement_file_id = subject_id, ri_line_no = it_line_no item,
      ri_normalized_name = it_name item, ri_extras = it_extras item,
      ri_specifier = it_specifier item, ri_marker_text = it_marker item,
      ri_original_text = bounded (it_original_text item) 2000, ri_supported = True,
      ri_error_code = None, ri_error_message = None\<rparr>"

definition complete_parse_body ::
  "JobLease \<Rightarrow> ParsedRequirements \<Rightarrow> string \<Rightarrow> (nat \<Rightarrow> string) \<Rightarrow> time \<Rightarrow> db \<Rightarrow> bool body" where
  "complete_parse_body lease parsed normalized_object_key uuids now s =
     (if \<not> owns s lease now then Inr (False, s)
      else
        (case find (\<lambda>r. rf_id r = l_subject_id lease \<and> rf_parse_status r = P_PARSING)
                (requirement_files s) of
           None \<Rightarrow> Inr (False, s)
         | Some locked \<Rightarrow>
             (let kept = sql_delete (\<lambda>i. ri_requirement_file_id i = l_subject_id lease)
                           (requirement_items s);
                  rows = map (\<lambda>(k, item). item_row (uuids k) (l_subject_id lease) item)
                           (enumerate 0 (pr_items parsed))
              in case sql_insert_all (\<lambda>a b. ri_id a = ri_id b) rows kept of
                   None \<Rightarrow> Inl (IntegrityError ''requirement_items'')
                 | Some items \<Rightarrow>
                     (let (s', n) = update_files
                            (\<lambda>r. rf_id r = l_subject_id lease \<and> rf_parse_status r = P_PARSING \<and>
                                 rf_version_no r = rf_version_no locked)
                            (\<lambda>r. r\<lparr>rf_detected_encoding := Some (pr_encoding parsed),
                                   rf_normalized_object_key := Some normalized_object_key,
                                   rf_parse_status := P_PARSED, rf_parse_error := None,
                                   rf_version_no := rf_version_no r + 1\<rparr>)
                            (s\<lparr>requirement_items := items\<rparr>);
                          (s'', done) = (if n = 1 then complete_job lease now s' else (s', False))
                      in if n \<noteq> 1 \<or> \<not> done
                         then Inl (LostLeaseError ''parse publication lost job ownership'')
                         else Inr (True, s'')))))"

definition complete_parse ::
  "JobLease \<Rightarrow> ParsedRequirements \<Rightarrow> string \<Rightarrow> (nat \<Rightarrow> string) \<Rightarrow> time \<Rightarrow> db \<Rightarrow> (repo_error + bool) \<times> db" where
  "complete_parse lease parsed normalized_object_key uuids now =
     transaction (complete_parse_body lease parsed normalized_object_key uuids now)"

subsection \<open>Claiming a build\<close>

text \<open>The joined row: the task with the lease's subject and the file it names.\<close>

definition build_row :: "string \<Rightarrow> db \<Rightarrow> (build_task \<times> requirement_file) option" where
  "build_row i s =
     find_first (\<lambda>t. if bt_id t = i then
         (case find (\<lambda>f. rf_id f = bt_requirement_file_id t) (requirement_files s) of
            None \<Rightarrow> None | Some f \<Rightarrow> Some (t, f))
       else None) (build_tasks s)"

definition is_dict_or_text :: "pyval \<Rightarrow> bool" where
  "is_dict_or_text v = (case v of VDict _ \<Rightarrow> True | VStr _ \<Rightarrow> True | _ \<Rightarrow> False)"

definition initial_claim :: "JobLease \<Rightarrow> build_task \<Rightarrow> bool" where
  "initial_claim lease t \<longleftrightarrow>
     \<not> l_reclaimed lease \<and> bt_status t = B_QUEUED \<and> bt_execution_id t = None"

definition takeover :: "JobLease \<Rightarrow> build_task \<Rightarrow> bool" where
  "takeover lease t \<longleftrightarrow>
     l_reclaimed lease \<and> l_previous_execution_id lease \<noteq> None \<and> build_nonterminal (bt_status t) \<and>
     bt_execution_id t = l_previous_execution_id lease"

definition valid_binding :: "build_task \<times> requirement_file \<Rightarrow> bool" where
  "valid_binding = (\<lambda>(t, f). bt_deleted_at t = None \<and> rf_parse_status f = P_PARSED \<and>
     rf_normalized_object_key f \<noteq> None \<and> bt_user_id t = rf_user_id f \<and>
     is_dict_or_text (bt_target_snapshot t))"

definition start_task :: "JobLease \<Rightarrow> time \<Rightarrow> build_task \<Rightarrow> build_task" where
  "start_task lease now r = r\<lparr>bt_execution_id := Some (l_execution_id lease),
     bt_status := B_RESOLVING, bt_progress := 5, bt_current_stage := Some ''PARSING'',
     bt_started_at := Some (coalesce (bt_started_at r) now), bt_failure_code := None,
     bt_failure_message := None, bt_version_no := bt_version_no r + 1\<rparr>"

definition build_subject :: "build_task \<times> requirement_file \<Rightarrow> (pykey \<times> pyval) list \<Rightarrow> BuildSubject" where
  "build_subject = (\<lambda>(t, f) snapshot.
     \<lparr>bs_id = bt_id t, bs_user_id = bt_user_id t,
      bs_requirement_file_id = bt_requirement_file_id t,
      bs_original_object_key = rf_original_object_key f,
      bs_normalized_object_key = str_of (rf_normalized_object_key f),
      bs_original_size_bytes = rf_size_bytes f, bs_original_sha256 = rf_sha256 f,
      bs_solve_mode = bt_solve_mode t, bs_target_profile_id = bt_target_profile_id t,
      bs_target_snapshot = snapshot\<rparr>)"

definition decoded_snapshot :: "pyval \<Rightarrow> pyval option" where
  "decoded_snapshot v = (case v of VStr t \<Rightarrow> loads t | _ \<Rightarrow> Some v)"

text \<open>The WHERE clause of the claiming UPDATE.\<close>

definition unchanged_task :: "JobLease \<Rightarrow> build_task \<Rightarrow> build_task \<Rightarrow> bool" where
  "unchanged_task lease task r \<longleftrightarrow>
     bt_id r = l_subject_id lease \<and> bt_version_no r = bt_version_no task \<and>
     bt_status r = bt_status task \<and>
     (if takeover lease task then bt_execution_id r = l_previous_execution_id lease
      else bt_execution_id r = None)"

definition claim_build_subject_body ::
  "JobLease \<Rightarrow> time \<Rightarrow> db \<Rightarrow> BuildSubject option body" where
  "claim_build_subject_body lease now s =
     (if \<not> owns s lease now then Inr (None, s)
      else
        (case build_row (l_subject_id lease) s of
           None \<Rightarrow> Inr (None, fail_subject_claim lease now ''build subject cannot be claimed'' s)
         | Some row \<Rightarrow>
             (let task = fst row in
              if \<not> valid_binding row \<or> \<not> (initial_claim lease task \<or> takeover lease task)
              then Inr (None, fail_subject_claim lease now ''build subject cannot be claimed'' s)
              else
                (let (s', n) = update_tasks
                       (unchanged_task lease task) (start_task lease now) s
                 in if n \<noteq> 1
                    then Inr (None, fail_subject_claim lease now ''build subject claim raced'' s')
                    else
                      (case decoded_snapshot (bt_target_snapshot task) of
                         None \<Rightarrow> Inl (ValueError ''target snapshot'')
                       | Some (VDict snapshot) \<Rightarrow>
                           if map_of snapshot (KStr ''profileId'') \<noteq> Some (VStr (bt_target_profile_id task))
                           then Inr (None, fail_subject_claim lease now
                                  ''build target snapshot is malformed'' s')
                           else Inr (Some (build_subject row snapshot), s')
                       | Some _ \<Rightarrow> Inr (None, fail_subject_claim lease now
                                  ''build target snapshot is malformed'' s'))))))"

definition claim_build_subject :: "JobLease \<Rightarrow> time \<Rightarrow> db \<Rightarrow> (repo_error + BuildSubject option) \<times> db" where
  "claim_build_subject lease now = transaction (claim_build_subject_body lease now)"

definition claim_build :: "JobLease \<Rightarrow> time \<Rightarrow> db \<Rightarrow> (repo_error + bool) \<times> db" where
  "claim_build lease now s =
     (case claim_build_subject lease now s of
        (Inl e, s') \<Rightarrow> (Inl e, s')
      | (Inr subject, s') \<Rightarrow> (Inr (subject \<noteq> None), s'))"

subsection \<open>Cancelling\<close>

definition executing :: "JobLease \<Rightarrow> build_task \<Rightarrow> bool" where
  "executing lease r \<longleftrightarrow>
     bt_id r = l_subject_id lease \<and> bt_execution_id r = Some (l_execution_id lease)"

definition is_cancel_requested :: "JobLease \<Rightarrow> time \<Rightarrow> db \<Rightarrow> repo_error + bool" where
  "is_cancel_requested lease now s =
     (if \<not> owns s lease now then Inl (LostLeaseError ''job lease is no longer owned'')
      else (case find (executing lease) (build_tasks s) of
              None \<Rightarrow> Inl (LostLeaseError ''build execution is no longer owned'')
            | Some r \<Rightarrow> Inr (bt_cancel_requested r)))"

definition end_task :: "BuildStatus \<Rightarrow> string \<Rightarrow> time \<Rightarrow> build_task \<Rightarrow> build_task" where
  "end_task st stage now r = r\<lparr>bt_status := st, bt_progress := 100, bt_current_stage := Some stage,
     bt_finished_at := Some now, bt_version_no := bt_version_no r + 1\<rparr>"

definition cancel_build_body :: "JobLease \<Rightarrow> time \<Rightarrow> db \<Rightarrow> bool body" where
  "cancel_build_body lease now s =
     (if \<not> owns s lease now then Inr (False, s)
      else
        (let (s', n) = update_tasks (\<lambda>r. executing lease r \<and> bt_cancel_requested r)
               (end_task B_CANCELLED ''CANCELLED'' now) s
         in if n \<noteq> 1 then Inr (False, s')
            else
              (let (s'', k) = update_jobs (ownership lease now) (finish_job J_CANCELLED now) s'
               in if k \<noteq> 1 then Inl (LostLeaseError ''cancellation lost job ownership'')
                  else Inr (True, s''))))"

definition cancel_build :: "JobLease \<Rightarrow> time \<Rightarrow> db \<Rightarrow> (repo_error + bool) \<times> db" where
  "cancel_build lease now = transaction (cancel_build_body lease now)"

subsection \<open>Logging\<close>

definition task_sequences :: "string \<Rightarrow> db \<Rightarrow> int list" where
  "task_sequences task s =
     map bl_sequence_no (filter (\<lambda>l. bl_build_task_id l = task) (build_logs s))"

definition max_sequence :: "int list \<Rightarrow> int" where
  "max_sequence xs = (case xs of [] \<Rightarrow> 0 | x # ys \<Rightarrow> fold max ys x)"

text \<open>The stored context: the sanitised value after a trip through JSON, or a mark that it was too
  long.\<close>

definition safe_context :: "pyval option \<Rightarrow> repo_error + pyval option" where
  "safe_context context = (case context of
     None \<Rightarrow> Inr None
   | Some v \<Rightarrow>
       (let encoded = dumps_default (sanitize_structure v 2000) in
        if length encoded \<le> 8000 then
          (case loads (take 8000 encoded) of
             None \<Rightarrow> Inl (ValueError ''context'')
           | Some d \<Rightarrow> Inr (Some d))
        else Inr (Some (VDict [(KStr ''truncated'', VBool True)]))))"

definition append_log_in ::
  "JobLease \<Rightarrow> string \<Rightarrow> string \<Rightarrow> string \<Rightarrow> pyval option \<Rightarrow> string \<Rightarrow> time \<Rightarrow> db \<Rightarrow> int body" where
  "append_log_in lease stage level message context uuid now s =
     (case find (executing lease) (build_tasks s) of
        None \<Rightarrow> Inl (LostLeaseError ''build execution is no longer owned'')
      | Some _ \<Rightarrow>
          (let sequence_no = max_sequence (task_sequences (l_subject_id lease) s) + 1 in
           case safe_context context of
             Inl e \<Rightarrow> Inl e
           | Inr ctx \<Rightarrow>
               (case sql_insert
                   (\<lambda>a b. bl_id a = bl_id b \<or>
                      (bl_build_task_id a = bl_build_task_id b \<and> bl_sequence_no a = bl_sequence_no b))
                   \<lparr>bl_id = uuid, bl_build_task_id = l_subject_id lease, bl_sequence_no = sequence_no,
                    bl_stage = bounded stage 50, bl_level = bounded level 20,
                    bl_message = sanitize_text message 4000, bl_context = ctx, bl_created_at = now\<rparr>
                   (build_logs s) of
                  None \<Rightarrow> Inl (IntegrityError ''build_logs'')
                | Some logs \<Rightarrow> Inr (sequence_no, s\<lparr>build_logs := logs\<rparr>))))"

definition append_log ::
  "JobLease \<Rightarrow> string \<Rightarrow> string \<Rightarrow> string \<Rightarrow> pyval option \<Rightarrow> string \<Rightarrow> time \<Rightarrow> db \<Rightarrow>
     (repo_error + int) \<times> db" where
  "append_log lease stage level message context uuid now =
     transaction (\<lambda>s. if \<not> owns s lease now
       then Inl (LostLeaseError ''job lease is no longer owned'')
       else append_log_in lease stage level message context uuid now s)"

definition advance_build_body ::
  "int \<Rightarrow> JobLease \<Rightarrow> BuildStatus \<Rightarrow> int \<Rightarrow> string \<Rightarrow> string \<Rightarrow> string \<Rightarrow> time \<Rightarrow> db \<Rightarrow> unit body" where
  "advance_build_body lease_seconds lease status progress stage message uuid now s =
     (let (s', n) = update_jobs (ownership lease now) (renew_lease lease_seconds now) s in
      if n \<noteq> 1 then Inl (LostLeaseError ''could not renew job lease'')
      else
        (let (s'', k) = update_tasks (\<lambda>r. executing lease r \<and> \<not> build_terminal (bt_status r))
               (\<lambda>r. r\<lparr>bt_status := status, bt_progress := progress, bt_current_stage := Some stage,
                      bt_version_no := bt_version_no r + 1\<rparr>) s'
         in if k \<noteq> 1 then Inl (LostLeaseError ''build execution is no longer owned'')
            else (case append_log_in lease stage ''INFO'' message None uuid now s'' of
                    Inl e \<Rightarrow> Inl e
                  | Inr (_, s3) \<Rightarrow> Inr ((), s3))))"

definition advance_build ::
  "int \<Rightarrow> JobLease \<Rightarrow> BuildStatus \<Rightarrow> int \<Rightarrow> string \<Rightarrow> string \<Rightarrow> string \<Rightarrow> time \<Rightarrow> db \<Rightarrow>
     (repo_error + unit) \<times> db" where
  "advance_build lease_seconds lease status progress stage message uuid now =
     transaction (advance_build_body lease_seconds lease status progress stage message uuid now)"

subsection \<open>Recording packages\<close>

text \<open>The dictionary built from the changes: the last one for a package stays.\<close>

definition change_for :: "'k ResolutionResult \<Rightarrow> string \<Rightarrow> 'k VersionChange option" where
  "change_for res package = find (\<lambda>c. vc_package c = package) (rev (rr_changes res))"

definition package_row ::
  "(string \<Rightarrow> string) \<Rightarrow> 'k ResolutionResult \<Rightarrow> (string \<times> pyval) list \<Rightarrow> string \<Rightarrow> string \<Rightarrow>
     'k ResolvedPackage \<Rightarrow> resolved_package" where
  "package_row canon res audits task uuid package =
     (let change = change_for res (pk_name package) in
      \<lparr>rp_id = uuid, rp_build_task_id = task, rp_normalized_name = pk_name package,
       rp_final_version = Some (v_str (pk_version package)),
       rp_dependency_type = (if pk_requested package then ''DIRECT'' else ''TRANSITIVE''),
       rp_original_constraint = map_option vc_original_constraint change,
       rp_strict_version = (case change of None \<Rightarrow> None
          | Some c \<Rightarrow> map_option v_str (vc_original_version c)),
       rp_change_direction = (case change of Some c \<Rightarrow> change_value (vc_kind c)
          | None \<Rightarrow> change_value UNCHANGED),
       rp_change_reason = map_option vc_reason change,
       rp_attempts_json = the (map_of audits (canon (pk_name package))),
       rp_wheel_filename = Some (pk_wheel_filename package), rp_wheel_tags = None,
       rp_package_source_code = map_option source_value (rr_source res), rp_sha256 = None,
       rp_wheel_status = ''RESOLVED'', rp_error_message = None\<rparr>)"

definition package_clash :: "resolved_package \<Rightarrow> resolved_package \<Rightarrow> bool" where
  "package_clash a b \<longleftrightarrow> rp_id a = rp_id b \<or>
     (rp_build_task_id a = rp_build_task_id b \<and> rp_normalized_name a = rp_normalized_name b)"

definition persist_resolution_body ::
  "JobLease \<Rightarrow> resolved_package list \<Rightarrow> pyval \<Rightarrow> string \<Rightarrow> time \<Rightarrow> db \<Rightarrow> unit body" where
  "persist_resolution_body lease rows summary_audit uuid now s =
     (if \<not> owns s lease now then Inl (LostLeaseError ''job lease is no longer owned'')
      else
        (let kept = sql_delete (\<lambda>r. rp_build_task_id r = l_subject_id lease) (resolved_packages s) in
         case sql_insert_all package_clash rows kept of
           None \<Rightarrow> Inl (IntegrityError ''resolved_packages'')
         | Some packages \<Rightarrow>
             (case append_log_in lease ''RESOLUTION_AUDIT'' ''INFO'' ''Resolution audit recorded''
                 (Some (VDict [(KStr ''audit'', summary_audit)])) uuid now
                 (s\<lparr>resolved_packages := packages\<rparr>) of
                Inl e \<Rightarrow> Inl e
              | Inr (_, s') \<Rightarrow> Inr ((), s'))))"

definition persist_resolution ::
  "(string \<Rightarrow> string) \<Rightarrow> JobLease \<Rightarrow> 'k ResolutionResult \<Rightarrow> (nat \<Rightarrow> string) \<Rightarrow> time \<Rightarrow> db \<Rightarrow>
     (repo_error + unit) \<times> db" where
  "persist_resolution canon lease res uuids now s =
     (if MAX_RESOLVED_PACKAGES < length (rr_packages res)
      then (Inl (ValueError ''resolved package count exceeds the limit''), s)
      else
        (case package_resolution_audits canon res (map pk_name (rr_packages res)) of
           Inl _ \<Rightarrow> (Inl (ValueError ''package audit metadata exceeds the byte limit''), s)
         | Inr audits \<Rightarrow>
             (case resolution_summary_audit canon res of
                Inl _ \<Rightarrow> (Inl (ValueError ''resolution audit metadata exceeds the byte limit''), s)
              | Inr summary_audit \<Rightarrow>
                  (let rows = map (\<lambda>(k, p). package_row canon res audits (l_subject_id lease) (uuids k) p)
                                (enumerate 0 (rr_packages res))
                   in transaction (persist_resolution_body lease rows summary_audit
                        (uuids (length rows)) now) s))))"

definition issues_for :: "StaticValidationReport \<Rightarrow> string \<Rightarrow> string list" where
  "issues_for validation package =
     map (\<lambda>i. sanitize_text (issue_value (vi_code i) @ '': '' @ vi_detail i) 2000)
       (filter (\<lambda>i. vi_package i = package) (sv_issues validation))"

text \<open>\<open>x or y\<close> on a text that may be missing or empty.\<close>

definition or_text :: "string option \<Rightarrow> string \<Rightarrow> string" where
  "or_text x y = (case x of None \<Rightarrow> y | Some t \<Rightarrow> if t = [] then y else t)"

definition package_outcome ::
  "'k DownloadedWheel option \<Rightarrow> string list \<Rightarrow> string option \<Rightarrow> string \<times> string option" where
  "package_outcome wheel package_issues download_failure = (case wheel of
     None \<Rightarrow> (''MISSING'', Some (or_text download_failure
        (if package_issues \<noteq> [] then join_with ''; '' package_issues else ''Wheel is missing'')))
   | Some _ \<Rightarrow> if package_issues \<noteq> [] then (''STATIC_FAILED'', Some (join_with ''; '' package_issues))
               else (''STATIC_PASSED'', None))"

definition record_package ::
  "'k ResolutionResult \<Rightarrow> 'k DownloadedWheel option \<Rightarrow> string \<times> string option \<Rightarrow>
     'k ResolvedPackage \<Rightarrow> resolved_package \<Rightarrow> resolved_package" where
  "record_package res wheel outcome package r = r\<lparr>
     rp_wheel_filename := Some (case wheel of Some w \<Rightarrow> dw_filename w | None \<Rightarrow> pk_wheel_filename package),
     rp_wheel_tags := map_option (\<lambda>w. sort (map tag_str (dw_tags w))) wheel,
     rp_package_source_code := (case wheel of Some w \<Rightarrow> Some (source_value (dw_source w))
        | None \<Rightarrow> map_option source_value (rr_source res)),
     rp_sha256 := map_option dw_sha256 wheel,
     rp_wheel_status := fst outcome,
     rp_error_message := (case snd outcome of None \<Rightarrow> None
        | Some e \<Rightarrow> if e = [] then None else Some (sanitize_text e 2000))\<rparr>"

fun record_packages ::
  "JobLease \<Rightarrow> 'k ResolutionResult \<Rightarrow> 'k DownloadedWheel list \<Rightarrow> StaticValidationReport \<Rightarrow>
     (string \<times> string) list \<Rightarrow> 'k ResolvedPackage list \<Rightarrow> resolved_package list \<Rightarrow>
     repo_error + resolved_package list" where
  "record_packages lease res wheels validation failures [] rows = Inr rows"
| "record_packages lease res wheels validation failures (package # packages) rows =
     (let wheel = find (\<lambda>w. dw_package w = pk_name package) (rev wheels);
          outcome = package_outcome wheel (issues_for validation (pk_name package))
                      (map_of failures (pk_name package));
          (rows', n) = sql_update
             (\<lambda>r. rp_build_task_id r = l_subject_id lease \<and> rp_normalized_name r = pk_name package)
             (record_package res wheel outcome package) rows
      in if n \<noteq> 1 then Inl (LostLeaseError ''resolved package audit row is unavailable'')
         else record_packages lease res wheels validation failures packages rows')"

definition persist_package_results ::
  "JobLease \<Rightarrow> 'k ResolutionResult \<Rightarrow> 'k DownloadedWheel list \<Rightarrow> StaticValidationReport \<Rightarrow>
     (string \<times> string) list \<Rightarrow> time \<Rightarrow> db \<Rightarrow> (repo_error + unit) \<times> db" where
  "persist_package_results lease res wheels validation failures now =
     transaction (\<lambda>s. if \<not> owns s lease now
       then Inl (LostLeaseError ''job lease is no longer owned'')
       else (case record_packages lease res wheels validation failures (rr_packages res)
                (resolved_packages s) of
               Inl e \<Rightarrow> Inl e
             | Inr rows \<Rightarrow> Inr ((), s\<lparr>resolved_packages := rows\<rparr>)))"

subsection \<open>Publishing\<close>

definition artifact_row ::
  "string \<Rightarrow> JobLease \<Rightarrow> PublishedObject \<Rightarrow> string \<Rightarrow> BuildStatus \<Rightarrow> time \<Rightarrow> time \<Rightarrow> artifact" where
  "artifact_row artifact_id lease published filename status expires_at now =
     \<lparr>ar_id = artifact_id, ar_build_task_id = l_subject_id lease,
      ar_artifact_type = ''OFFLINE_WHEEL_BUNDLE'', ar_filename = bounded filename 255,
      ar_object_key = po_object_key published, ar_size_bytes = po_size_bytes published,
      ar_sha256 = po_sha256 published, ar_build_status = status, ar_validation_type = ''STATIC'',
      ar_expires_at = expires_at, ar_download_count = 0, ar_cleaned_at = None,
      ar_created_at = now, ar_version_no = 0\<rparr>"

definition publish_artifact_body ::
  "JobLease \<Rightarrow> string \<Rightarrow> PublishedObject \<Rightarrow> string \<Rightarrow> BuildStatus \<Rightarrow> time \<Rightarrow> time \<Rightarrow> db \<Rightarrow>
     string option body" where
  "publish_artifact_body lease artifact_id published filename status expires_at now s =
     (if \<not> owns s lease now then Inr (None, s)
      else
        (case find (executing lease) (build_tasks s) of
           None \<Rightarrow> Inr (None, s)
         | Some task \<Rightarrow>
             if bt_cancel_requested task then Inr (None, s)
             else
               (case sql_insert (\<lambda>a b. ar_id a = ar_id b \<or> ar_object_key a = ar_object_key b)
                   (artifact_row artifact_id lease published filename status expires_at now)
                   (artifacts s) of
                  None \<Rightarrow> Inl (IntegrityError ''artifacts'')
                | Some rows \<Rightarrow>
                    (let (s', n) = update_tasks (executing lease) (end_task status ''COMPLETED'' now)
                           (s\<lparr>artifacts := rows\<rparr>);
                         (s'', done) = (if n = 1 then complete_job lease now s' else (s', False))
                     in if n \<noteq> 1 \<or> \<not> done
                        then Inl (LostLeaseError ''artifact publication lost execution ownership'')
                        else Inr (Some artifact_id, s'')))))"

definition publish_artifact_terminal ::
  "JobLease \<Rightarrow> string \<Rightarrow> PublishedObject \<Rightarrow> string \<Rightarrow> BuildStatus \<Rightarrow> time \<Rightarrow> time \<Rightarrow> db \<Rightarrow>
     (repo_error + string option) \<times> db" where
  "publish_artifact_terminal lease artifact_id published filename status expires_at now =
     transaction (publish_artifact_body lease artifact_id published filename status expires_at now)"

subsection \<open>Queries\<close>

definition requirement_original_key :: "string \<Rightarrow> db \<Rightarrow> string option" where
  "requirement_original_key i s = map_option rf_original_object_key (find_file i s)"

record MaintenanceSnapshot =
  ms_active_execution_ids :: "string set"
  ms_active_build_executions :: "(string \<times> string) set"
  ms_referenced_artifact_keys :: "string set"

definition active_jobs :: "time \<Rightarrow> db \<Rightarrow> build_job list" where
  "active_jobs now s = filter (\<lambda>r. bj_status r = J_RUNNING \<and> bj_execution_id r \<noteq> None \<and>
     sql_gt (bj_lease_expires_at r) now) (build_jobs s)"

definition maintenance_snapshot :: "time \<Rightarrow> db \<Rightarrow> MaintenanceSnapshot" where
  "maintenance_snapshot now s =
     (let active = active_jobs now s in
      \<lparr>ms_active_execution_ids = set (map (\<lambda>r. str_of (bj_execution_id r)) active),
       ms_active_build_executions = set (map (\<lambda>r. (bj_subject_id r, str_of (bj_execution_id r)))
          (filter (\<lambda>r. bj_job_type r = BUILD) active)),
       ms_referenced_artifact_keys = set (map ar_object_key
          (filter (\<lambda>a. ar_cleaned_at a = None) (artifacts s)))\<rparr>)"

subsection \<open>Configured limits\<close>

definition config_integer :: "string \<Rightarrow> pyval \<Rightarrow> repo_error + int" where
  "config_integer key raw = (case raw of
     VInt i \<Rightarrow> Inr i
   | VStr t \<Rightarrow> (case loads t of
        None \<Rightarrow> Inl (ValueError (''system_config '' @ key @ '' is not valid JSON''))
      | Some (VInt i) \<Rightarrow> Inr i
      | Some _ \<Rightarrow> Inl (ValueError (''system_config '' @ key @ '' must contain an integer'')))
   | _ \<Rightarrow> Inl (ValueError (''system_config '' @ key @ '' must contain an integer'')))"

definition limit_fields :: "(string \<times> (int \<Rightarrow> BuildResourceLimits \<Rightarrow> BuildResourceLimits)) list" where
  "limit_fields =
    [(''maxPackageCount'', \<lambda>v l. l\<lparr>max_packages := v\<rparr>),
     (''maxPackageSizeBytes'', \<lambda>v l. l\<lparr>max_wheel_bytes := v\<rparr>),
     (''maxArtifactSizeBytes'', \<lambda>v l. l\<lparr>max_total_bytes := v\<rparr>),
     (''taskTimeoutSeconds'', \<lambda>v l. l\<lparr>task_timeout_seconds := v\<rparr>),
     (''maxCandidatesPerRequirement'', \<lambda>v l. l\<lparr>max_candidates_per_requirement := v\<rparr>),
     (''maxResolutionAttempts'', \<lambda>v l. l\<lparr>max_resolution_attempts := v\<rparr>),
     (''maxArchiveEntries'', \<lambda>v l. l\<lparr>max_archive_entries := v\<rparr>),
     (''maxArchiveExpansionRatio'', \<lambda>v l. l\<lparr>max_archive_expansion_ratio := v\<rparr>),
     (''artifactRetentionDays'', \<lambda>v l. l\<lparr>artifact_retention_days := v\<rparr>)]"

fun apply_config :: "system_config list \<Rightarrow> BuildResourceLimits \<Rightarrow> repo_error + BuildResourceLimits" where
  "apply_config [] l = Inr l"
| "apply_config (row # rows) l =
     (case config_integer (sc_config_key row) (sc_config_value row) of
        Inl e \<Rightarrow> Inl e
      | Inr v \<Rightarrow> apply_config rows (the (map_of limit_fields (sc_config_key row)) v l))"

definition resource_limits :: "db \<Rightarrow> repo_error + BuildResourceLimits" where
  "resource_limits s =
     (case apply_config (filter (\<lambda>r. sc_config_key r \<in> set (map fst limit_fields)) (system_config s))
              default_limits of
        Inl e \<Rightarrow> Inl e
      | Inr l \<Rightarrow> make_limits l)"

end
