(* ===== verification/Lifecycle.thy ===== *)
theory Lifecycle
  imports Executions
begin

section \<open>Leases: fencing and the life of a job\<close>

text \<open>
  What every repository method does to the job table, as one relation; the contract of a fenced
  operation as a locale, with an interpretation for each method that takes a lease; the step relation
  of a deployment (any number of workers, the backend's enqueue and cancel, the passing of time) with
  its invariants by rule induction: the lease columns and attempt counters of a job are consistent,
  finished jobs never change, a lost lease is never owned again, and every call made under a lost
  lease leaves the database as it is.
\<close>

subsection \<open>What a method does to the job table\<close>

definition owned_map :: "JobLease \<Rightarrow> time \<Rightarrow> (build_job \<Rightarrow> build_job) \<Rightarrow> build_job list \<Rightarrow> build_job list" where
  "owned_map lease now f js = map (\<lambda>r. if ownership lease now r then f r else r) js"

inductive jobs_change :: "JobLease \<Rightarrow> time \<Rightarrow> build_job list \<Rightarrow> build_job list \<Rightarrow> bool" for lease now where
  same: "jobs_change lease now js js"
| finished: "job_terminal st \<Longrightarrow> jobs_change lease now js (owned_map lease now (finish_job st now) js)"
| failed: "jobs_change lease now js (owned_map lease now (fail_job message now) js)"
| requeued: "jobs_change lease now js (owned_map lease now (requeue_job message available) js)"
| renewed: "jobs_change lease now js (owned_map lease now (renew_lease lease_seconds now) js)"

lemma owns_iff: "owns s lease now \<longleftrightarrow> (\<exists>r\<in>set (build_jobs s). ownership lease now r)"
  by (auto simp: owns_def find_None_iff')

lemma owned_map_stale:
  "\<forall>r\<in>set js. \<not> ownership lease now r \<Longrightarrow> owned_map lease now f js = js"
  by (auto simp: owned_map_def intro!: map_idI)

lemma jobs_change_stale:
  "jobs_change lease now js js' \<Longrightarrow> \<forall>r\<in>set js. \<not> ownership lease now r \<Longrightarrow> js' = js"
  by (induction rule: jobs_change.induct) (simp_all add: owned_map_stale)

lemma update_jobs_fields [simp]:
  "build_jobs (fst (update_jobs P f s)) = map (\<lambda>r. if P r then f r else r) (build_jobs s)"
  "build_tasks (fst (update_jobs P f s)) = build_tasks s"
  "requirement_files (fst (update_jobs P f s)) = requirement_files s"
  "requirement_items (fst (update_jobs P f s)) = requirement_items s"
  "resolved_packages (fst (update_jobs P f s)) = resolved_packages s"
  "build_logs (fst (update_jobs P f s)) = build_logs s"
  "artifacts (fst (update_jobs P f s)) = artifacts s"
  by (simp_all add: update_jobs_def sql_update_def)

lemma update_tasks_fields [simp]:
  "build_jobs (fst (update_tasks P f s)) = build_jobs s"
  "build_tasks (fst (update_tasks P f s)) = map (\<lambda>r. if P r then f r else r) (build_tasks s)"
  "requirement_files (fst (update_tasks P f s)) = requirement_files s"
  "requirement_items (fst (update_tasks P f s)) = requirement_items s"
  "resolved_packages (fst (update_tasks P f s)) = resolved_packages s"
  "build_logs (fst (update_tasks P f s)) = build_logs s"
  "artifacts (fst (update_tasks P f s)) = artifacts s"
  by (simp_all add: update_tasks_def sql_update_def)

lemma update_files_fields [simp]:
  "build_jobs (fst (update_files P f s)) = build_jobs s"
  "build_tasks (fst (update_files P f s)) = build_tasks s"
  "requirement_files (fst (update_files P f s)) = map (\<lambda>r. if P r then f r else r) (requirement_files s)"
  "requirement_items (fst (update_files P f s)) = requirement_items s"
  "resolved_packages (fst (update_files P f s)) = resolved_packages s"
  "build_logs (fst (update_files P f s)) = build_logs s"
  "artifacts (fst (update_files P f s)) = artifacts s"
  by (simp_all add: update_files_def sql_update_def)

lemma update_counts [simp]:
  "snd (update_jobs P f s) = length (filter P (build_jobs s))"
  "snd (update_tasks Q g s) = length (filter Q (build_tasks s))"
  "snd (update_files R h s) = length (filter R (requirement_files s))"
  by (simp_all add: update_jobs_def update_tasks_def update_files_def sql_update_def)

lemma terminalize_subject_jobs [simp]:
  "build_jobs (terminalize_subject t i now c m s) = build_jobs s"
  by (simp add: terminalize_subject_def)

lemma reset_subject_jobs [simp]: "build_jobs (reset_subject_for_retry lease s) = build_jobs s"
  by (simp add: reset_subject_for_retry_def)

lemma update_jobs_owned:
  "build_jobs (fst (update_jobs (ownership lease now) f s)) = owned_map lease now f (build_jobs s)"
  by (simp add: owned_map_def)

lemma fail_subject_claim_change:
  "build_jobs s = js \<Longrightarrow> jobs_change lease now js (build_jobs (fail_subject_claim lease now m s))"
  by (auto simp: fail_subject_claim_def split_def Let_def owned_map_def [symmetric] jobs_change.failed)

lemma complete_job_change:
  "build_jobs s = js \<Longrightarrow> jobs_change lease now js (build_jobs (fst (complete_job lease now s)))"
  by (auto simp: complete_job_def split_def Let_def owned_map_def [symmetric] jobs_change.finished
      job_terminal_def)

lemma heartbeat_change [inv_intros]:
  "jobs_change lease now (build_jobs s) (build_jobs (snd (heartbeat ls lease now s)))"
  by (simp add: heartbeat_def split_def Let_def owned_map_def [symmetric] jobs_change.renewed)

lemma complete_change [inv_intros]:
  "jobs_change lease now (build_jobs s) (build_jobs (snd (complete lease now s)))"
  by (simp add: complete_def split_def Let_def owned_map_def [symmetric] jobs_change.finished
      job_terminal_def)

lemma retry_or_fail_change [inv_intros]:
  "jobs_change lease now (build_jobs s) (build_jobs (snd (retry_or_fail lease e b d now s)))"
  by (simp add: retry_or_fail_def split_def Let_def owned_map_def [symmetric] jobs_change.failed
      jobs_change.requeued)

lemma fail_terminal_change [inv_intros]:
  "jobs_change lease now (build_jobs s) (build_jobs (snd (fail_terminal lease c e now s)))"
  by (simp add: fail_terminal_def split_def Let_def owned_map_def [symmetric] jobs_change.failed)

lemma claim_parse_subject_change [inv_intros]:
  "jobs_change lease now (build_jobs s) (build_jobs (snd (claim_parse_subject lease now s)))"
  by (auto simp: claim_parse_subject_def split_def Let_def intro!: jobs_change.same
      fail_subject_claim_change split: option.splits)

text \<open>A transaction: what holds of the body's database and of the old one holds of the result.\<close>

lemma transaction_snd:
  "Q s \<Longrightarrow> (\<And>a s'. body s = Inr (a, s') \<Longrightarrow> Q s') \<Longrightarrow> Q (snd (transaction body s))"
  by (auto simp: transaction_def split: sum.splits)

lemma complete_parse_change [inv_intros]:
  "jobs_change lease now (build_jobs s) (build_jobs (snd (complete_parse lease p k u now s)))"
  unfolding complete_parse_def
  by (rule transaction_snd [where Q = "\<lambda>s'. jobs_change lease now (build_jobs s) (build_jobs s')"])
     (auto simp: complete_parse_body_def split_def Let_def intro!: jobs_change.same complete_job_change
      split: option.splits if_splits)

lemma claim_build_subject_change [inv_intros]:
  "jobs_change lease now (build_jobs s) (build_jobs (snd (claim_build_subject lease now s)))"
  unfolding claim_build_subject_def
  by (rule transaction_snd [where Q = "\<lambda>s'. jobs_change lease now (build_jobs s) (build_jobs s')"])
     (auto simp: claim_build_subject_body_def split_def Let_def intro!: jobs_change.same
      fail_subject_claim_change split: option.splits if_splits pyval.splits)

lemma cancel_build_change [inv_intros]:
  "jobs_change lease now (build_jobs s) (build_jobs (snd (cancel_build lease now s)))"
  unfolding cancel_build_def
  by (rule transaction_snd [where Q = "\<lambda>s'. jobs_change lease now (build_jobs s) (build_jobs s')"])
     (auto simp: cancel_build_body_def split_def Let_def owned_map_def [symmetric] job_terminal_def
      intro!: jobs_change.same jobs_change.finished split: if_splits)

lemma append_log_in_jobs:
  "append_log_in lease st l m c u now s = Inr (q, s') \<Longrightarrow> build_jobs s' = build_jobs s"
  by (auto simp: append_log_in_def Let_def split: option.splits sum.splits)

lemma append_log_change [inv_intros]:
  "jobs_change lease now (build_jobs s) (build_jobs (snd (append_log lease st l m c u now s)))"
  unfolding append_log_def
  by (rule transaction_snd [where Q = "\<lambda>s'. jobs_change lease now (build_jobs s) (build_jobs s')"])
     (auto intro!: jobs_change.same dest!: append_log_in_jobs split: if_splits)

lemma advance_build_change [inv_intros]:
  "jobs_change lease now (build_jobs s) (build_jobs (snd (advance_build ls lease st p g m u now s)))"
  unfolding advance_build_def
  by (rule transaction_snd [where Q = "\<lambda>s'. jobs_change lease now (build_jobs s) (build_jobs s')"])
     (auto simp: advance_build_body_def split_def Let_def owned_map_def [symmetric]
      intro!: jobs_change.same jobs_change.renewed dest!: append_log_in_jobs
      split: if_splits sum.splits)

lemma persist_resolution_change [inv_intros]:
  "jobs_change lease now (build_jobs s) (build_jobs (snd (persist_resolution canon lease res u now s)))"
proof -
  have "build_jobs s' = build_jobs s" if "persist_resolution_body lease rows a v now s = Inr (x, s')"
    for rows a v x s'
    using that by (auto simp: persist_resolution_body_def Let_def dest!: append_log_in_jobs
        split: if_splits sum.splits option.splits)
  then have "build_jobs (snd (transaction (persist_resolution_body lease rows a v now) s)) = build_jobs s"
    for rows a v
    by (intro transaction_snd [where Q = "\<lambda>s'. build_jobs s' = build_jobs s"]) auto
  then show ?thesis
    by (auto simp: persist_resolution_def Let_def intro!: jobs_change.same split: sum.splits)
qed

lemma persist_package_results_change [inv_intros]:
  "jobs_change lease now (build_jobs s)
     (build_jobs (snd (persist_package_results lease res ws v fs now s)))"
  unfolding persist_package_results_def
  by (rule transaction_snd [where Q = "\<lambda>s'. jobs_change lease now (build_jobs s) (build_jobs s')"])
     (auto intro!: jobs_change.same split: if_splits sum.splits)

lemma publish_artifact_change [inv_intros]:
  "jobs_change lease now (build_jobs s)
     (build_jobs (snd (publish_artifact_terminal lease i po fn st ex now s)))"
  unfolding publish_artifact_terminal_def
  by (rule transaction_snd [where Q = "\<lambda>s'. jobs_change lease now (build_jobs s) (build_jobs s')"])
     (auto simp: publish_artifact_body_def split_def Let_def intro!: jobs_change.same complete_job_change
      split: option.splits if_splits)

subsection \<open>The contract of a fenced operation\<close>

text \<open>An operation under a lease: refused without effect when the lease is not owned, and limited in
  what it does to the job table.\<close>

locale fenced =
  fixes operation :: "JobLease \<Rightarrow> time \<Rightarrow> db \<Rightarrow> 'r \<times> db"
    and refused :: "'r \<Rightarrow> bool"
  assumes stale: "\<not> owns s lease now \<Longrightarrow> snd (operation lease now s) = s"
    and refuses: "\<not> owns s lease now \<Longrightarrow> refused (fst (operation lease now s))"
    and changes: "jobs_change lease now (build_jobs s) (build_jobs (snd (operation lease now s)))"
begin

lemma stale_result: "\<not> owns s lease now \<Longrightarrow> \<exists>r. operation lease now s = (r, s) \<and> refused r"
  using stale refuses by (metis prod.collapse)

lemma accepted_owns: "\<not> refused (fst (operation lease now s)) \<Longrightarrow> owns s lease now"
  using refuses by blast

lemma effect_owns: "snd (operation lease now s) \<noteq> s \<Longrightarrow> owns s lease now"
  using stale by blast

text \<open>Any sequence of calls under leases that are not owned is without effect.\<close>

lemma stale_calls:
  "(\<And>lease now. (lease, now) \<in> set calls \<Longrightarrow> \<not> owns s lease now) \<Longrightarrow>
     fold (\<lambda>(lease, now) s. snd (operation lease now s)) calls s = s"
  by (induction calls) (auto simp: stale)

end

lemma update_jobs_stale: "\<not> owns s lease now \<Longrightarrow> update_jobs (ownership lease now) f s = (s, 0)"
  by (simp add: update_jobs_def sql_update_none owns_iff)

lemma fail_subject_claim_stale: "\<not> owns s lease now \<Longrightarrow> fail_subject_claim lease now m s = s"
  by (simp add: fail_subject_claim_def update_jobs_stale)

interpretation heartbeat: fenced "heartbeat ls" "\<lambda>r. \<not> r" for ls
  by unfold_locales (simp_all add: heartbeat_change, simp_all add: heartbeat_def update_jobs_stale)

interpretation complete: fenced complete "\<lambda>r. \<not> r"
  by unfold_locales (simp_all add: complete_change, simp_all add: complete_def update_jobs_stale)

interpretation retry: fenced "\<lambda>lease. retry_or_fail lease e b d" "\<lambda>r. \<not> r" for e b d
  by unfold_locales
     (simp_all add: retry_or_fail_change, simp_all add: retry_or_fail_def update_jobs_stale Let_def)

interpretation fail_terminal: fenced "\<lambda>lease. fail_terminal lease c e" "\<lambda>r. \<not> r" for c e
  by unfold_locales
     (simp_all add: fail_terminal_change, simp_all add: fail_terminal_def update_jobs_stale Let_def)

interpretation claim_parse: fenced claim_parse_subject "\<lambda>r. r = None"
  by unfold_locales (simp_all add: claim_parse_subject_change, simp_all add: claim_parse_subject_def)

interpretation complete_parse: fenced "\<lambda>lease. complete_parse lease p k u" "\<lambda>r. r = Inr False" for p k u
  by unfold_locales
     (simp_all add: complete_parse_change,
      simp_all add: complete_parse_def complete_parse_body_def transaction_def)

interpretation claim_build: fenced claim_build_subject "\<lambda>r. r = Inr None"
  by unfold_locales
     (simp_all add: claim_build_subject_change,
      simp_all add: claim_build_subject_def claim_build_subject_body_def transaction_def)

interpretation cancel: fenced cancel_build "\<lambda>r. r = Inr False"
  by unfold_locales
     (simp_all add: cancel_build_change,
      simp_all add: cancel_build_def cancel_build_body_def transaction_def)

definition raises_lost :: "repo_error + 'a \<Rightarrow> bool" where
  "raises_lost r \<longleftrightarrow> (\<exists>m. r = Inl (LostLeaseError m))"

interpretation advance: fenced "\<lambda>lease. advance_build ls lease st p g m u" raises_lost for ls st p g m u
  by unfold_locales
     (simp_all add: advance_build_change,
      simp_all add: advance_build_def advance_build_body_def transaction_def update_jobs_stale
        raises_lost_def)

interpretation append_log: fenced "\<lambda>lease. append_log lease st l m c u" raises_lost for st l m c u
  by unfold_locales
     (simp_all add: append_log_change, simp_all add: append_log_def transaction_def raises_lost_def)

text \<open>Recording a resolution may also refuse for its size before it looks at the lease.\<close>

interpretation persist: fenced "\<lambda>lease. persist_resolution canon lease res u" "\<lambda>r. \<exists>e. r = Inl e"
  for canon res u
proof
  fix s lease now
  assume "\<not> owns s lease now"
  then show "snd (persist_resolution canon lease res u now s) = s"
    and "\<exists>e. fst (persist_resolution canon lease res u now s) = Inl e"
    by (simp_all add: persist_resolution_def persist_resolution_body_def transaction_def Let_def
        split: sum.splits)
qed (rule persist_resolution_change)

interpretation persist_results: fenced "\<lambda>lease. persist_package_results lease res ws v fs" raises_lost
  for res ws v fs
  by unfold_locales
     (simp_all add: persist_package_results_change,
      simp_all add: persist_package_results_def transaction_def raises_lost_def)

interpretation publish: fenced "\<lambda>lease i. publish_artifact_terminal lease a po fn st ex i" "\<lambda>r. r = Inr None"
  for a po fn st ex
  by unfold_locales
     (simp_all add: publish_artifact_change,
      simp_all add: publish_artifact_terminal_def publish_artifact_body_def transaction_def)

subsection \<open>What a claim does\<close>

definition claimable :: "(string \<Rightarrow> bool) \<Rightarrow> time \<Rightarrow> build_job \<Rightarrow> bool" where
  "claimable held now r \<longleftrightarrow> \<not> held (bj_id r) \<and>
     (bj_status r = J_READY \<and> bj_available_at r \<le> now \<or>
      bj_status r = J_RUNNING \<and> sql_le (bj_lease_expires_at r) now)"

definition ids_distinct :: "db \<Rightarrow> bool" where
  "ids_distinct s \<longleftrightarrow> distinct (map bj_id (build_jobs s))"

lemma row_predicate:
  assumes "ids_distinct s" "row \<in> set (build_jobs s)" "r \<in> set (build_jobs s)"
  shows "(bj_id r = bj_id row \<and> bj_version_no r = bj_version_no row) = (r = row)"
  using assms distinct_map_inj [of bj_id "build_jobs s" r row] by (auto simp: ids_distinct_def)

lemma row_update:
  assumes "ids_distinct s" "row \<in> set (build_jobs s)"
  shows "update_jobs (\<lambda>r. bj_id r = bj_id row \<and> bj_version_no r = bj_version_no row) f s =
    (s\<lparr>build_jobs := map (\<lambda>r. if r = row then f r else r) (build_jobs s)\<rparr>, 1)"
proof -
  let ?P = "\<lambda>r. bj_id r = bj_id row \<and> bj_version_no r = bj_version_no row"
  have "snd (sql_update ?P f (build_jobs s)) = 1"
    using sql_update_unique(1) [of bj_id "build_jobs s" ?P "bj_id row" f] assms
    by (auto simp: ids_distinct_def)
  moreover have "fst (sql_update ?P f (build_jobs s)) =
      map (\<lambda>r. if r = row then f r else r) (build_jobs s)"
    using row_predicate [OF assms] by (auto simp: sql_update_def)
  ultimately show ?thesis by (simp add: update_jobs_def split_def)
qed

lemma candidate_claimable:
  assumes "(case claim_candidate held now s of Some r \<Rightarrow> Some r | None \<Rightarrow> expired_claim_candidate held now s) = c"
  shows "case c of None \<Rightarrow> \<forall>r\<in>set (build_jobs s). \<not> claimable held now r
    | Some row \<Rightarrow> row \<in> set (build_jobs s) \<and> claimable held now row"
proof (cases "claim_candidate held now s")
  case None
  note ready = None [unfolded claim_candidate_def sql_first_by_None]
  show ?thesis
  proof (cases "expired_claim_candidate held now s")
    case None
    note expired = None [unfolded expired_claim_candidate_def sql_first_by_None]
    have "c = None" using assms \<open>claim_candidate held now s = None\<close> None by simp
    with ready expired show ?thesis by (auto simp: claimable_def)
  next
    case (Some row)
    have "c = Some row" using assms \<open>claim_candidate held now s = None\<close> Some by simp
    then show ?thesis
      using Some sql_first_by_SomeD(1,2) [OF Some [unfolded expired_claim_candidate_def]]
      by (auto simp: claimable_def)
  qed
next
  case (Some row)
  with assms have "c = Some row" by simp
  then show ?thesis using sql_first_by_SomeD(1,2) [OF Some [unfolded claim_candidate_def]]
    by (auto simp: claimable_def)
qed

lemma claim_iteration_cases:
  assumes "ids_distinct s" "claim_iteration ls worker now e held s = (out, s')"
  obtains (none) "out = NoJob" "s' = s" "\<forall>r\<in>set (build_jobs s). \<not> claimable held now r"
  | (exhausted) row where "row \<in> set (build_jobs s)" "claimable held now row"
      "bj_max_attempts row \<le> bj_attempts row" "out = Again"
      "build_jobs s' = map (\<lambda>r. if r = row then fail_job ''job attempt limit exhausted'' now r else r)
         (build_jobs s)"
  | (leased) row where "row \<in> set (build_jobs s)" "claimable held now row"
      "bj_attempts row < bj_max_attempts row" "out = Leased (lease_of row worker e)"
      "s' = s\<lparr>build_jobs := map (\<lambda>r. if r = row then lease_job ls worker now e (bj_attempts row + 1) r
         else r) (build_jobs s)\<rparr>"
proof -
  let ?c = "case claim_candidate held now s of Some r \<Rightarrow> Some r | None \<Rightarrow> expired_claim_candidate held now s"
  show thesis
  proof (cases ?c)
    case None
    then show thesis using assms(2) candidate_claimable [of held now s, OF refl] none
      by (auto simp: claim_iteration_def)
  next
    case (Some row)
    then have row: "row \<in> set (build_jobs s)" "claimable held now row"
      using candidate_claimable [of held now s, OF refl] by auto
    show thesis
    proof (cases "bj_max_attempts row \<le> bj_attempts row")
      case True
      then have "out = Again" "s' = terminalize_exhausted row now s"
        using assms(2) Some by (auto simp: claim_iteration_def)
      with row True show thesis
        by (intro exhausted [of row])
           (simp_all add: terminalize_exhausted_def row_update [OF assms(1) row(1)] Let_def)
    next
      case False
      then show thesis using assms(2) Some row
        by (intro leased [of row]) (auto simp: claim_iteration_def row_update [OF assms(1) row(1)] Let_def)
    qed
  qed
qed

subsection \<open>The claiming loop ends\<close>

definition active_count :: "db \<Rightarrow> nat" where
  "active_count s = length (filter (\<lambda>r. \<not> job_terminal (bj_status r)) (build_jobs s))"

lemma filter_shrinks:
  assumes "row \<in> set js" "P row" "\<not> P (f row)"
  shows "length (filter P (map (\<lambda>r. if r = row then f r else r) js)) < length (filter P js)"
  using assms
proof (induction js)
  case (Cons a js)
  have le: "length (filter P (map (\<lambda>r. if r = row then f r else r) js)) \<le> length (filter P js)" for js
    using assms(3) by (induction js) auto
  show ?case
  proof (cases "a = row")
    case True
    with Cons.prems le [of js] show ?thesis by (simp add: comp_def less_Suc_eq_le)
  next
    case False
    with Cons show ?thesis by auto
  qed
qed simp

lemma claim_again:
  assumes "ids_distinct s" "claim_iteration ls worker now e held s = (Again, s')"
  shows "ids_distinct s' \<and> active_count s' < active_count s"
  using assms
proof (cases rule: claim_iteration_cases)
  case (exhausted row)
  let ?f = "fail_job ''job attempt limit exhausted'' now"
  have "\<not> job_terminal (bj_status row)" using exhausted(2) by (auto simp: claimable_def job_terminal_def)
  moreover have "job_terminal (bj_status (?f row))"
    by (simp add: fail_job_def finish_job_def bump_job_def job_terminal_def)
  ultimately have "active_count s' < active_count s"
    unfolding active_count_def exhausted(5) using exhausted(1) by (intro filter_shrinks) auto
  moreover have "map bj_id (build_jobs s') = map bj_id (build_jobs s)"
    unfolding exhausted(5) by (auto simp: fail_job_def finish_job_def bump_job_def release_lease_def)
  ultimately show ?thesis using assms(1) by (simp add: ids_distinct_def)
qed auto

lemma claim_loop_ends:
  "ids_distinct s \<Longrightarrow> active_count s < n \<Longrightarrow> \<exists>r. claim_loop n ls worker clock uuids held s = Some r"
proof (induction n arbitrary: clock uuids held s)
  case (Suc n)
  obtain out s' where c: "claim_iteration ls worker (clock 0) (uuids 0) (held 0) s = (out, s')"
    by (cases "claim_iteration ls worker (clock 0) (uuids 0) (held 0) s")
  show ?case
  proof (cases out)
    case Again
    with c claim_again [OF Suc.prems(1)] have a: "ids_distinct s'" "active_count s' < active_count s"
      by blast+
    then have "active_count s' < n" using Suc.prems(2) by simp
    from Suc.IH [OF a(1) this, of "clock \<circ> Suc" "uuids \<circ> Suc" "held \<circ> Suc"]
    show ?thesis unfolding claim_loop.simps c Again prod.case claim_outcome.case .
  qed (simp_all add: c)
qed simp

lemma claim_loop_leased:
  assumes "claim_loop n ls worker clock uuids held s = Some (Some lease, s')"
  shows "\<exists>k s1. claim_iteration ls worker (clock k) (uuids k) (held k) s1 = (Leased lease, s')"
  using assms
proof (induction n ls worker clock uuids held s rule: claim_loop.induct)
  case (2 n ls worker clock uuids held s)
  obtain out s1 where c: "claim_iteration ls worker (clock 0) (uuids 0) (held 0) s = (out, s1)"
    by (cases "claim_iteration ls worker (clock 0) (uuids 0) (held 0) s")
  show ?case
  proof (cases out)
    case Again
    have "claim_loop n ls worker (clock \<circ> Suc) (uuids \<circ> Suc) (held \<circ> Suc) s1 = Some (Some lease, s')"
      using "2.prems" unfolding claim_loop.simps c Again by simp
    from "2.IH" [OF c [symmetric] Again this] show ?thesis unfolding comp_def by blast
  qed (use c "2.prems" in auto)
qed simp

lemma leased_owns:
  assumes "ids_distinct s" "claim_iteration ls worker now e held s = (Leased lease, s')" "0 < ls"
  shows "owns s' lease now"
  using assms(1,2)
proof (cases rule: claim_iteration_cases)
  case (leased row)
  have "ownership lease now (lease_job ls worker now e (bj_attempts row + 1) row)"
    using leased(4) assms(3) by (simp add: ownership_def lease_of_def lease_job_def bump_job_def sql_gt_def Let_def)
  with leased(1,5) show ?thesis by (force simp: owns_iff)
qed auto

text \<open>The row a claim leases: the first waiting job in the queue order, or, when no job waits, the
  one whose lease expired first.\<close>

definition queue_key :: "build_job \<Rightarrow> int \<times> time \<times> string" where
  "queue_key r = (bj_priority_no r, bj_created_at r, bj_id r)"

definition waiting :: "(string \<Rightarrow> bool) \<Rightarrow> time \<Rightarrow> build_job \<Rightarrow> bool" where
  "waiting held now r \<longleftrightarrow> bj_status r = J_READY \<and> bj_available_at r \<le> now \<and> \<not> held (bj_id r)"

definition next_row :: "(string \<Rightarrow> bool) \<Rightarrow> time \<Rightarrow> build_job list \<Rightarrow> build_job \<Rightarrow> bool" where
  "next_row held now js row \<longleftrightarrow> row \<in> set js \<and> claimable held now row \<and>
     (if \<exists>r\<in>set js. waiting held now r
      then waiting held now row \<and> (\<forall>r\<in>set js. waiting held now r \<longrightarrow> queue_key row \<le> queue_key r)
      else \<forall>r\<in>set js. claimable held now r \<longrightarrow>
             coalesce (bj_lease_expires_at row) 0 \<le> coalesce (bj_lease_expires_at r) 0)"

lemma candidate_next_row:
  assumes "(case claim_candidate held now s of Some r \<Rightarrow> Some r | None \<Rightarrow> expired_claim_candidate held now s)
    = Some row"
  shows "next_row held now (build_jobs s) row"
proof (cases "claim_candidate held now s")
  case None
  note ready = None [unfolded claim_candidate_def sql_first_by_None]
  have e: "expired_claim_candidate held now s = Some row" using assms None by simp
  note d = sql_first_by_SomeD [OF e [unfolded expired_claim_candidate_def]]
  have "\<not> (\<exists>r\<in>set (build_jobs s). waiting held now r)" using ready by (auto simp: waiting_def)
  moreover have "coalesce (bj_lease_expires_at row) 0 \<le> coalesce (bj_lease_expires_at r) 0"
    if "r \<in> set (build_jobs s)" "claimable held now r" for r
    using d(3) [OF that(1)] that ready by (auto simp: claimable_def less_eq_prod_def)
  ultimately show ?thesis using d(1,2) by (auto simp: next_row_def claimable_def)
next
  case (Some r)
  then have c: "claim_candidate held now s = Some row" using assms by simp
  note d = sql_first_by_SomeD [OF c [unfolded claim_candidate_def]]
  have "waiting held now row" "row \<in> set (build_jobs s)" "claimable held now row"
    using d(1,2) by (auto simp: waiting_def claimable_def)
  moreover have "queue_key row \<le> queue_key r" if "r \<in> set (build_jobs s)" "waiting held now r" for r
    using d(3) [OF that(1)] that(2) by (simp add: waiting_def queue_key_def)
  ultimately show ?thesis by (auto simp: next_row_def)
qed

lemma claim_iteration_next_row:
  assumes "ids_distinct s" "claim_iteration ls worker now e held s = (Leased lease, s')"
  shows "\<exists>row. next_row held now (build_jobs s) row \<and> lease = lease_of row worker e \<and>
    bj_attempts row < bj_max_attempts row \<and>
    s' = s\<lparr>build_jobs := map (\<lambda>r. if r = row then lease_job ls worker now e (bj_attempts row + 1) r else r)
            (build_jobs s)\<rparr>"
proof -
  let ?c = "case claim_candidate held now s of Some r \<Rightarrow> Some r | None \<Rightarrow> expired_claim_candidate held now s"
  obtain row where row: "?c = Some row" using assms(2) by (cases ?c) (auto simp: claim_iteration_def)
  from candidate_next_row [OF row] have next_r: "next_row held now (build_jobs s) row" .
  then have "row \<in> set (build_jobs s)" by (simp add: next_row_def)
  from row_update [OF assms(1) this] assms(2) row next_r show ?thesis
    by (intro exI [of _ row]) (auto simp: claim_iteration_def split: if_splits)
qed

end
