(* ===== verification/Deployment.thy ===== *)
theory Deployment
  imports Lifecycle
begin

section \<open>A deployment: workers, the backend and the clock\<close>

text \<open>
  The reachable states of the database when any number of workers call the repository in any order,
  under any lease value (their own, an old one, one never issued), while the backend enqueues jobs and
  cancels waiting ones and time passes.  Every transaction is one step, as the row locks make it; the
  workers share one clock; a fresh execution identifier is one no earlier claim used.  (Recording packages
  never looks at a version's key; the steps take it to be a number.)  The invariants
  are proved by induction over the steps, with one preservation lemma per kind of change.
\<close>

record world =
  w_db :: db
  w_now :: time
  w_used :: "string set"

text \<open>The row \<open>BuildJobService.enqueue\<close> inserts, seen from the worker: READY, no attempts, no lease.\<close>

definition fresh_job :: "build_job \<Rightarrow> bool" where
  "fresh_job r \<longleftrightarrow> bj_status r = J_READY \<and> bj_attempts r = 0 \<and> 0 \<le> bj_max_attempts r \<and>
     bj_lease_owner r = None \<and> bj_execution_id r = None \<and> bj_lease_expires_at r = None \<and>
     bj_heartbeat_at r = None \<and> bj_started_at r = None \<and> bj_finished_at r = None"

definition cancel_ready :: "string \<Rightarrow> time \<Rightarrow> db \<Rightarrow> db" where
  "cancel_ready subject finished_at s =
     fst (update_jobs (\<lambda>r. bj_subject_id r = subject \<and> bj_job_type r = BUILD \<and> bj_status r = J_READY)
       (\<lambda>r. bump_job (r\<lparr>bj_status := J_CANCELLED, bj_finished_at := Some finished_at\<rparr>)) s)"

inductive step :: "world \<Rightarrow> world \<Rightarrow> bool" for w where
  claim: "claim_iteration ls worker (w_now w) e held (w_db w) = (out, s') \<Longrightarrow> e \<notin> w_used w \<Longrightarrow>
    step w (w\<lparr>w_db := s', w_used := insert e (w_used w)\<rparr>)"
| heartbeat: "step w (w\<lparr>w_db := snd (heartbeat ls lease (w_now w) (w_db w))\<rparr>)"
| complete: "step w (w\<lparr>w_db := snd (complete lease (w_now w) (w_db w))\<rparr>)"
| retry_or_fail: "step w (w\<lparr>w_db := snd (retry_or_fail lease err b d (w_now w) (w_db w))\<rparr>)"
| fail_terminal: "step w (w\<lparr>w_db := snd (fail_terminal lease c err (w_now w) (w_db w))\<rparr>)"
| claim_parse_subject: "step w (w\<lparr>w_db := snd (claim_parse_subject lease (w_now w) (w_db w))\<rparr>)"
| complete_parse: "step w (w\<lparr>w_db := snd (complete_parse lease p k u (w_now w) (w_db w))\<rparr>)"
| claim_build_subject: "step w (w\<lparr>w_db := snd (claim_build_subject lease (w_now w) (w_db w))\<rparr>)"
| cancel_build: "step w (w\<lparr>w_db := snd (cancel_build lease (w_now w) (w_db w))\<rparr>)"
| advance_build: "step w (w\<lparr>w_db := snd (advance_build ls lease st pr g m i (w_now w) (w_db w))\<rparr>)"
| append_log: "step w (w\<lparr>w_db := snd (append_log lease g l m ctx i (w_now w) (w_db w))\<rparr>)"
| persist_resolution:
    "step w (w\<lparr>w_db := snd (persist_resolution canon lease (res :: nat ResolutionResult) u
       (w_now w) (w_db w))\<rparr>)"
| persist_package_results:
    "step w (w\<lparr>w_db := snd (persist_package_results lease (res :: nat ResolutionResult) ws v fs
       (w_now w) (w_db w))\<rparr>)"
| publish_artifact:
    "step w (w\<lparr>w_db := snd (publish_artifact_terminal lease a po fn st ex (w_now w) (w_db w))\<rparr>)"
| enqueue: "fresh_job r \<Longrightarrow> bj_id r \<notin> bj_id ` set (build_jobs (w_db w)) \<Longrightarrow>
    step w (w\<lparr>w_db := (w_db w)\<lparr>build_jobs := build_jobs (w_db w) @ [r]\<rparr>\<rparr>)"
| backend_cancel: "step w (w\<lparr>w_db := cancel_ready i t (w_db w)\<rparr>)"
| other_tables: "build_jobs s' = build_jobs (w_db w) \<Longrightarrow> step w (w\<lparr>w_db := s'\<rparr>)"
| time_passes: "w_now w \<le> t \<Longrightarrow> step w (w\<lparr>w_now := t\<rparr>)"

text \<open>The changes of the job table, by kind.\<close>

inductive job_step :: "world \<Rightarrow> world \<Rightarrow> bool" for w where
  leased: "jobs_change lease (w_now w) (build_jobs (w_db w)) (build_jobs (w_db w')) \<Longrightarrow>
    w_now w' = w_now w \<Longrightarrow> w_used w' = w_used w \<Longrightarrow> job_step w w'"
| claimed: "claim_iteration ls worker (w_now w) e held (w_db w) = (out, w_db w') \<Longrightarrow> e \<notin> w_used w \<Longrightarrow>
    w_now w' = w_now w \<Longrightarrow> w_used w' = insert e (w_used w) \<Longrightarrow> job_step w w'"
| enqueued: "fresh_job r \<Longrightarrow> bj_id r \<notin> bj_id ` set (build_jobs (w_db w)) \<Longrightarrow>
    build_jobs (w_db w') = build_jobs (w_db w) @ [r] \<Longrightarrow>
    w_now w' = w_now w \<Longrightarrow> w_used w' = w_used w \<Longrightarrow> job_step w w'"
| cancelled: "w_db w' = cancel_ready i t (w_db w) \<Longrightarrow>
    w_now w' = w_now w \<Longrightarrow> w_used w' = w_used w \<Longrightarrow> job_step w w'"
| later: "w_now w \<le> w_now w' \<Longrightarrow> w_db w' = w_db w \<Longrightarrow> w_used w' = w_used w \<Longrightarrow> job_step w w'"

lemma leased_db:
  "jobs_change lease (w_now w) (build_jobs (w_db w)) (build_jobs s') \<Longrightarrow> job_step w (w\<lparr>w_db := s'\<rparr>)"
  by (rule job_step.leased) simp_all

lemma step_job_step: "step w w' \<Longrightarrow> job_step w w'"
proof (induction rule: step.induct)
  case (claim ls worker e held out s')
  then show ?case by (intro job_step.claimed [of ls worker w e held out]) simp_all
next
  case (enqueue r)
  then show ?case by (intro job_step.enqueued [of r]) simp_all
next
  case (backend_cancel i t)
  then show ?case by (intro job_step.cancelled [of _ i t]) simp_all
next
  case (other_tables s')
  then show ?case by (intro job_step.leased [of undefined]) (simp_all add: jobs_change.same)
next
  case (time_passes t)
  then show ?case by (intro job_step.later) simp_all
qed (rule leased_db, rule inv_intros)+

subsection \<open>The invariant of the job table\<close>

text \<open>A job is leased exactly while it runs; attempts stay within the limit; it is finished exactly
  when its status is terminal.\<close>

definition job_ok :: "build_job \<Rightarrow> bool" where
  "job_ok r \<longleftrightarrow>
     (bj_lease_owner r \<noteq> None) = (bj_status r = J_RUNNING) \<and>
     (bj_execution_id r \<noteq> None) = (bj_status r = J_RUNNING) \<and>
     (bj_lease_expires_at r \<noteq> None) = (bj_status r = J_RUNNING) \<and>
     (bj_heartbeat_at r \<noteq> None) = (bj_status r = J_RUNNING) \<and>
     (bj_finished_at r \<noteq> None) = job_terminal (bj_status r) \<and>
     0 \<le> bj_attempts r \<and> bj_attempts r \<le> bj_max_attempts r \<and>
     (bj_status r = J_RUNNING \<longrightarrow> 1 \<le> bj_attempts r \<and> bj_started_at r \<noteq> None)"

definition executions_used :: "world \<Rightarrow> bool" where
  "executions_used w \<longleftrightarrow> (\<forall>r\<in>set (build_jobs (w_db w)). \<forall>e. bj_execution_id r = Some e \<longrightarrow> e \<in> w_used w)"

definition executions_unique :: "build_job list \<Rightarrow> bool" where
  "executions_unique js \<longleftrightarrow> (\<forall>r1\<in>set js. \<forall>r2\<in>set js. \<forall>e.
     bj_execution_id r1 = Some e \<longrightarrow> bj_execution_id r2 = Some e \<longrightarrow> bj_id r1 = bj_id r2)"

definition world_inv :: "world \<Rightarrow> bool" where
  "world_inv w \<longleftrightarrow> ids_distinct (w_db w) \<and> (\<forall>r\<in>set (build_jobs (w_db w)). job_ok r) \<and>
     executions_used w \<and> executions_unique (build_jobs (w_db w))"

lemmas job_updates = finish_job_def fail_job_def requeue_job_def renew_lease_def lease_job_def
  release_lease_def bump_job_def

lemma ownership_running: "ownership lease now r \<Longrightarrow> bj_status r = J_RUNNING"
  by (simp add: ownership_def)

lemma job_ok_updates:
  assumes "job_ok r" "bj_status r = J_RUNNING"
  shows "job_terminal st \<Longrightarrow> job_ok (finish_job st now r)" "job_ok (fail_job m now r)"
    "job_ok (requeue_job m t r)" "job_ok (renew_lease ls now r)"
  using assms by (auto simp: job_ok_def job_updates job_terminal_def)

lemma job_ok_fail: "job_ok r \<Longrightarrow> job_ok (fail_job m now r)"
  by (auto simp: job_ok_def job_updates job_terminal_def)

lemma job_ok_lease:
  "job_ok r \<Longrightarrow> bj_attempts r < bj_max_attempts r \<Longrightarrow> job_ok (lease_job ls worker now e (bj_attempts r + 1) r)"
  by (auto simp: job_ok_def job_updates job_terminal_def)

lemma update_ids [simp]:
  "bj_id (finish_job st now r) = bj_id r" "bj_id (fail_job m now r) = bj_id r"
  "bj_id (requeue_job m t r) = bj_id r" "bj_id (renew_lease ls now r) = bj_id r"
  "bj_id (lease_job ls worker now e a r) = bj_id r"
  by (simp_all add: job_updates)

lemma update_executions [simp]:
  "bj_execution_id (finish_job st now r) = None" "bj_execution_id (fail_job m now r) = None"
  "bj_execution_id (requeue_job m t r) = None"
  "bj_execution_id (renew_lease ls now r) = bj_execution_id r"
  "bj_execution_id (lease_job ls worker now e a r) = Some e"
  by (simp_all add: job_updates)

lemma map_ids: "(\<And>r. bj_id (f r) = bj_id r) \<Longrightarrow> map bj_id (map (\<lambda>r. if P r then f r else r) js) = map bj_id js"
  by (induction js) auto

text \<open>Two kinds of change keep the rest of the invariant: those that keep or clear the execution of a
  row, and the claim, which sets a fresh one.\<close>

lemma executions_uniqueI:
  "(\<And>r1 r2 e. r1 \<in> set js \<Longrightarrow> r2 \<in> set js \<Longrightarrow> bj_execution_id r1 = Some e \<Longrightarrow>
     bj_execution_id r2 = Some e \<Longrightarrow> bj_id r1 = bj_id r2) \<Longrightarrow> executions_unique js"
  unfolding executions_unique_def by blast

lemma executions_uniqueD:
  "executions_unique js \<Longrightarrow> r1 \<in> set js \<Longrightarrow> r2 \<in> set js \<Longrightarrow> bj_execution_id r1 = Some e \<Longrightarrow>
     bj_execution_id r2 = Some e \<Longrightarrow> bj_id r1 = bj_id r2"
  unfolding executions_unique_def by blast

lemma executions_unique_map:
  assumes "executions_unique js" "\<And>r. bj_id (f r) = bj_id r"
    "\<And>r. r \<in> set js \<Longrightarrow> bj_execution_id (f r) = None \<or> bj_execution_id (f r) = bj_execution_id r"
  shows "executions_unique (map (\<lambda>r. if P r then f r else r) js)"
proof (rule executions_uniqueI)
  fix r1 r2 e
  assume "r1 \<in> set (map (\<lambda>r. if P r then f r else r) js)" "r2 \<in> set (map (\<lambda>r. if P r then f r else r) js)"
  then obtain q1 q2 where q: "q1 \<in> set js" "q2 \<in> set js" "r1 = (if P q1 then f q1 else q1)"
    "r2 = (if P q2 then f q2 else q2)" unfolding set_map by blast
  assume e: "bj_execution_id r1 = Some e" "bj_execution_id r2 = Some e"
  have "bj_execution_id q1 = Some e" using e(1) q(3) assms(3) [OF q(1)] by (cases "P q1") auto
  moreover have "bj_execution_id q2 = Some e" using e(2) q(4) assms(3) [OF q(2)] by (cases "P q2") auto
  ultimately have "bj_id q1 = bj_id q2" using executions_uniqueD [OF assms(1) q(1,2)] by blast
  with q(3,4) assms(2) show "bj_id r1 = bj_id r2" by simp
qed

lemma executions_unique_fresh:
  assumes "executions_unique js" "row \<in> set js"
    "bj_execution_id (f row) = Some e" "\<forall>r\<in>set js. bj_execution_id r \<noteq> Some e"
  shows "executions_unique (map (\<lambda>r. if r = row then f r else r) js)"
proof (rule executions_uniqueI)
  fix r1 r2 x
  assume "r1 \<in> set (map (\<lambda>r. if r = row then f r else r) js)" "r2 \<in> set (map (\<lambda>r. if r = row then f r else r) js)"
  then obtain q1 q2 where q: "q1 \<in> set js" "q2 \<in> set js" "r1 = (if q1 = row then f q1 else q1)"
    "r2 = (if q2 = row then f q2 else q2)" unfolding set_map by blast
  assume x: "bj_execution_id r1 = Some x" "bj_execution_id r2 = Some x"
  show "bj_id r1 = bj_id r2"
  proof (cases "q1 = row \<or> q2 = row")
    case True
    then have "x = e" using q x assms(3) by auto
    then have "q1 = row \<and> q2 = row" using q x assms(4) by (auto split: if_splits)
    with q show ?thesis by simp
  next
    case False
    with q x executions_uniqueD [OF assms(1) q(1,2)] show ?thesis by simp
  qed
qed

lemma jobs_change_inv:
  assumes "jobs_change lease now js js'" "\<forall>r\<in>set js. job_ok r" "executions_unique js"
    "\<forall>r\<in>set js. \<forall>e. bj_execution_id r = Some e \<longrightarrow> e \<in> used"
  shows "map bj_id js' = map bj_id js" "\<forall>r\<in>set js'. job_ok r" "executions_unique js'"
    "\<forall>r\<in>set js'. \<forall>e. bj_execution_id r = Some e \<longrightarrow> e \<in> used"
proof -
  show "map bj_id js' = map bj_id js"
    using assms(1) by (induction rule: jobs_change.induct) (simp_all only: owned_map_def map_ids update_ids)
  show "\<forall>r\<in>set js'. job_ok r"
    using assms(1,2)
    by (induction rule: jobs_change.induct)
       (auto simp: owned_map_def job_ok_updates ownership_running)
  show "executions_unique js'"
    using assms(1,3)
    by (induction rule: jobs_change.induct)
       (auto simp: owned_map_def intro!: executions_unique_map)
  show "\<forall>r\<in>set js'. \<forall>e. bj_execution_id r = Some e \<longrightarrow> e \<in> used"
    using assms(1,4)
    by (induction rule: jobs_change.induct) (auto simp: owned_map_def split: if_splits)
qed

lemma fresh_job_ok: "fresh_job r \<Longrightarrow> job_ok r"
  by (simp add: fresh_job_def job_ok_def job_terminal_def)

lemma job_ok_cancel:
  "job_ok r \<Longrightarrow> bj_status r = J_READY \<Longrightarrow>
     job_ok (bump_job (r\<lparr>bj_status := J_CANCELLED, bj_finished_at := Some t\<rparr>))"
  by (simp add: job_ok_def bump_job_def job_terminal_def)

lemma cancel_ready_jobs:
  "build_jobs (cancel_ready i t s) = map (\<lambda>r. if bj_subject_id r = i \<and> bj_job_type r = BUILD \<and>
     bj_status r = J_READY then bump_job (r\<lparr>bj_status := J_CANCELLED, bj_finished_at := Some t\<rparr>) else r)
     (build_jobs s)"
  by (simp add: cancel_ready_def)

lemma claim_inv:
  assumes inv: "world_inv w" and claim: "claim_iteration ls worker (w_now w) e held (w_db w) = (out, s')"
    and fresh: "e \<notin> w_used w"
  shows "map bj_id (build_jobs s') = map bj_id (build_jobs (w_db w))"
    "\<forall>r\<in>set (build_jobs s'). job_ok r" "executions_unique (build_jobs s')"
    "\<forall>r\<in>set (build_jobs s'). \<forall>x. bj_execution_id r = Some x \<longrightarrow> x \<in> insert e (w_used w)"
proof -
  have ids: "ids_distinct (w_db w)" and ok: "\<forall>r\<in>set (build_jobs (w_db w)). job_ok r"
    and uniq: "executions_unique (build_jobs (w_db w))"
    and used: "\<forall>r\<in>set (build_jobs (w_db w)). \<forall>x. bj_execution_id r = Some x \<longrightarrow> x \<in> w_used w"
    using inv by (auto simp: world_inv_def executions_used_def)
  from ids claim have "map bj_id (build_jobs s') = map bj_id (build_jobs (w_db w)) \<and>
    (\<forall>r\<in>set (build_jobs s'). job_ok r) \<and> executions_unique (build_jobs s') \<and>
    (\<forall>r\<in>set (build_jobs s'). \<forall>x. bj_execution_id r = Some x \<longrightarrow> x \<in> insert e (w_used w))"
  proof (cases rule: claim_iteration_cases)
    case none
    with ok uniq used show ?thesis by auto
  next
    case (exhausted row)
    show ?thesis unfolding exhausted(5)
      using ok uniq used by (auto simp: job_ok_fail intro!: executions_unique_map split: if_splits)
  next
    case (leased row)
    have js: "build_jobs s' = map (\<lambda>r. if r = row then lease_job ls worker (w_now w) e (bj_attempts row + 1) r
        else r) (build_jobs (w_db w))" using leased(5) by simp
    have "executions_unique (build_jobs s')" unfolding js
      using uniq leased(1) used fresh by (intro executions_unique_fresh [where e = e]) auto
    moreover have "\<forall>r\<in>set (build_jobs s'). job_ok r" unfolding js
      using ok leased(1,3) job_ok_lease [of row] by auto
    moreover have "\<forall>r\<in>set (build_jobs s'). \<forall>x. bj_execution_id r = Some x \<longrightarrow> x \<in> insert e (w_used w)"
      unfolding js using used by auto
    moreover have "map bj_id (build_jobs s') = map bj_id (build_jobs (w_db w))" unfolding js by auto
    ultimately show ?thesis by blast
  qed
  then show "map bj_id (build_jobs s') = map bj_id (build_jobs (w_db w))"
    "\<forall>r\<in>set (build_jobs s'). job_ok r" "executions_unique (build_jobs s')"
    "\<forall>r\<in>set (build_jobs s'). \<forall>x. bj_execution_id r = Some x \<longrightarrow> x \<in> insert e (w_used w)"
    by auto
qed

lemma executions_unique_append:
  "executions_unique js \<Longrightarrow> bj_execution_id r = None \<Longrightarrow> executions_unique (js @ [r])"
  by (rule executions_uniqueI) (auto dest: executions_uniqueD)

lemma executions_unique_keep:
  "executions_unique js \<Longrightarrow> (\<And>r. bj_id (f r) = bj_id r) \<Longrightarrow> (\<And>r. bj_execution_id (f r) = bj_execution_id r) \<Longrightarrow>
     executions_unique (map f js)"
  by (rule executions_uniqueI) (auto dest: executions_uniqueD)

lemma job_step_inv:
  assumes "job_step w w'" "world_inv w"
  shows "world_inv w'"
  using assms(1)
proof cases
  case (leased lease)
  have "\<forall>r\<in>set (build_jobs (w_db w)). \<forall>e. bj_execution_id r = Some e \<longrightarrow> e \<in> w_used w"
    using assms(2) by (simp add: world_inv_def executions_used_def)
  from jobs_change_inv [OF leased(1) _ _ this] assms(2) leased(2,3) show ?thesis
    by (auto simp: world_inv_def ids_distinct_def executions_used_def)
next
  case (claimed ls worker e held out)
  from claim_inv [OF assms(2) claimed(1,2)] assms(2) claimed(3,4) show ?thesis
    by (simp add: world_inv_def ids_distinct_def executions_used_def)
next
  case (enqueued r)
  have "bj_execution_id r = None" using enqueued(1) by (simp add: fresh_job_def)
  with enqueued assms(2) show ?thesis
    by (auto simp: world_inv_def ids_distinct_def executions_used_def fresh_job_ok
        intro: executions_unique_append)
next
  case (cancelled i t)
  let ?f = "\<lambda>r. if bj_subject_id r = i \<and> bj_job_type r = BUILD \<and> bj_status r = J_READY
    then bump_job (r\<lparr>bj_status := J_CANCELLED, bj_finished_at := Some t\<rparr>) else r"
  have ids: "map bj_id (map ?f js) = map bj_id js" for js
    by (simp add: bump_job_def)
  have "executions_unique (map ?f (build_jobs (w_db w)))"
    using assms(2) by (intro executions_unique_keep) (auto simp: world_inv_def bump_job_def)
  moreover have "\<forall>r\<in>set (map ?f (build_jobs (w_db w))). job_ok r"
    using assms(2) by (auto simp: world_inv_def job_ok_cancel)
  moreover have "\<forall>r\<in>set (map ?f (build_jobs (w_db w))). \<forall>e. bj_execution_id r = Some e \<longrightarrow> e \<in> w_used w"
    using assms(2) by (auto simp: world_inv_def executions_used_def bump_job_def)
  moreover have "distinct (map bj_id (map ?f (build_jobs (w_db w))))"
    unfolding ids using assms(2) by (simp add: world_inv_def ids_distinct_def)
  moreover have "build_jobs (w_db w') = map ?f (build_jobs (w_db w))"
    unfolding cancelled(1) cancel_ready_jobs ..
  ultimately show ?thesis
    unfolding world_inv_def ids_distinct_def executions_used_def cancelled(3) by simp
next
  case later
  with assms(2) show ?thesis by (simp add: world_inv_def executions_used_def)
qed

subsection \<open>Reachable states\<close>

inductive reachable :: "world \<Rightarrow> bool" where
  initial: "build_jobs s = [] \<Longrightarrow> reachable \<lparr>w_db = s, w_now = t, w_used = {}\<rparr>"
| later_state: "reachable w \<Longrightarrow> step w w' \<Longrightarrow> reachable w'"

lemma reachable_inv: "reachable w \<Longrightarrow> world_inv w"
proof (induction rule: reachable.induct)
  case (initial s t)
  then show ?case by (simp add: world_inv_def ids_distinct_def executions_used_def executions_unique_def)
next
  case (later_state w w')
  then show ?case using job_step_inv step_job_step by blast
qed

definition owned :: "world \<Rightarrow> JobLease \<Rightarrow> bool" where
  "owned w lease \<longleftrightarrow> owns (w_db w) lease (w_now w)"

lemma owned_iff: "owned w lease \<longleftrightarrow> (\<exists>r\<in>set (build_jobs (w_db w)). ownership lease (w_now w) r)"
  by (simp add: owned_def owns_iff)

lemma ownership_updates [simp]:
  "job_terminal st \<Longrightarrow> \<not> ownership lease now (finish_job st t r)"
  "\<not> ownership lease now (fail_job m t r)" "\<not> ownership lease now (requeue_job m t r)"
  by (auto simp: ownership_def job_updates job_terminal_def)

text \<open>A renewal keeps a row with its owner: another lease owns it only if it did before.\<close>

lemma ownership_renewed:
  assumes "ownership lease' now r" "ownership lease now (renew_lease ls now r)"
  shows "ownership lease now r"
  using assms by (auto simp: ownership_def job_updates)

lemma ownership_claimed:
  "l_execution_id lease \<noteq> e \<Longrightarrow> \<not> ownership lease now (lease_job ls worker now e a r)"
  by (auto simp: ownership_def job_updates)

lemma ownership_earlier:
  "ownership lease t r \<Longrightarrow> now \<le> t \<Longrightarrow> ownership lease now r"
  by (auto simp: ownership_def sql_gt_def split: option.splits)

lemma jobs_change_unowned:
  assumes "jobs_change lease' now js js'" "\<forall>r\<in>set js. \<not> ownership lease now r"
  shows "\<forall>r\<in>set js'. \<not> ownership lease now r"
  using assms
proof (induction rule: jobs_change.induct)
  case (renewed js ls)
  then show ?case using ownership_renewed by (fastforce simp: owned_map_def)
qed (auto simp: owned_map_def)

definition lost :: "world \<Rightarrow> JobLease \<Rightarrow> bool" where
  "lost w lease \<longleftrightarrow> \<not> owned w lease \<and> l_execution_id lease \<in> w_used w"

text \<open>A lost lease stays lost.\<close>

lemma job_step_lost:
  assumes "job_step w w'" "world_inv w" "lost w lease"
  shows "lost w' lease"
proof -
  have ids: "ids_distinct (w_db w)" using assms(2) by (simp add: world_inv_def)
  have not: "\<forall>r\<in>set (build_jobs (w_db w)). \<not> ownership lease (w_now w) r"
    and used: "l_execution_id lease \<in> w_used w"
    using assms(3) by (simp_all add: lost_def owned_iff)
  have goal: "\<forall>r\<in>set (build_jobs (w_db w')). \<not> ownership lease (w_now w') r \<Longrightarrow>
      l_execution_id lease \<in> w_used w' \<Longrightarrow> ?thesis" by (simp add: lost_def owned_iff)
  from assms(1) show ?thesis
  proof cases
    case (leased lease')
    from jobs_change_unowned [OF leased(1) not] leased(2,3) used show ?thesis by (intro goal) simp_all
  next
    case (claimed ls worker e held out)
    have "\<forall>r\<in>set (build_jobs (w_db w')). \<not> ownership lease (w_now w) r"
      using ids claimed(1)
    proof (cases rule: claim_iteration_cases)
      case (leased row)
      have "l_execution_id lease \<noteq> e" using used claimed(2) by blast
      with leased not show ?thesis by (auto simp: ownership_claimed)
    qed (use not in \<open>auto simp: ownership_updates\<close>)
    with claimed(3,4) used show ?thesis by (intro goal) simp_all
  next
    case (enqueued r)
    have "\<not> ownership lease (w_now w) r" using enqueued(1) by (simp add: fresh_job_def ownership_def)
    with enqueued not used show ?thesis by (intro goal) auto
  next
    case (cancelled i t)
    with not used show ?thesis
      by (intro goal) (auto simp: cancel_ready_jobs ownership_def bump_job_def)
  next
    case later
    with not used ownership_earlier [of lease "w_now w'" _ "w_now w"] show ?thesis
      by (intro goal) auto
  qed
qed

inductive steps :: "world \<Rightarrow> world \<Rightarrow> bool" for w where
  here: "steps w w"
| further: "steps w w' \<Longrightarrow> step w' w'' \<Longrightarrow> steps w w''"

lemma steps_inv: "steps w w' \<Longrightarrow> world_inv w \<Longrightarrow> world_inv w'"
  by (induction rule: steps.induct) (auto dest: step_job_step job_step_inv)

lemma steps_lost: "steps w w' \<Longrightarrow> world_inv w \<Longrightarrow> lost w lease \<Longrightarrow> lost w' lease"
  by (induction rule: steps.induct) (auto dest: step_job_step intro: job_step_lost steps_inv)

text \<open>A finished job keeps its row; versions never decrease.\<close>

lemma jobs_change_terminal:
  assumes "jobs_change lease now js js'" "r \<in> set js" "bj_status r \<noteq> J_RUNNING"
  shows "r \<in> set js'"
proof -
  have "\<not> ownership lease now r" using assms(3) by (auto simp: ownership_def)
  with assms(1,2) show ?thesis by (induction rule: jobs_change.induct) (force simp: owned_map_def)+
qed

lemma claimable_not_terminal: "claimable held now r \<Longrightarrow> \<not> job_terminal (bj_status r)"
  by (auto simp: claimable_def job_terminal_def)

lemma job_step_terminal:
  assumes "job_step w w'" "world_inv w" "r \<in> set (build_jobs (w_db w))" "job_terminal (bj_status r)"
  shows "r \<in> set (build_jobs (w_db w'))"
proof -
  have ids: "ids_distinct (w_db w)" using assms(2) by (simp add: world_inv_def)
  from assms(1) show ?thesis
proof cases
  case (leased lease)
  from jobs_change_terminal [OF leased(1) assms(3)] assms(4) show ?thesis
    by (auto simp: job_terminal_def)
next
  case (claimed ls worker e held out)
  from ids claimed(1) show ?thesis
  proof (cases rule: claim_iteration_cases)
    case (exhausted row)
    then have "r \<noteq> row" using claimable_not_terminal assms(4) by blast
    with exhausted(5) assms(3) show ?thesis by force
  next
    case (leased row)
    then have "r \<noteq> row" using claimable_not_terminal assms(4) by blast
    with leased(5) assms(3) show ?thesis by force
  qed (use assms in simp_all)
next
  case (cancelled i t)
  have "bj_status r \<noteq> J_READY" using assms(4) by (auto simp: job_terminal_def)
  with cancelled assms(3) show ?thesis by (force simp: cancel_ready_jobs)
qed (use assms in simp_all)
qed

lemma steps_terminal:
  "steps w w' \<Longrightarrow> world_inv w \<Longrightarrow> r \<in> set (build_jobs (w_db w)) \<Longrightarrow> job_terminal (bj_status r) \<Longrightarrow>
     r \<in> set (build_jobs (w_db w'))"
  by (induction rule: steps.induct) (auto dest: step_job_step intro: job_step_terminal steps_inv)


subsection \<open>A sample run\<close>

text \<open>One job, claimed by a first worker whose lease runs out, then by a second one.\<close>

definition empty_db :: db where
  "empty_db = \<lparr>requirement_files = [], build_tasks = [], build_jobs = [], requirement_items = [],
     resolved_packages = [], build_logs = [], artifacts = [], system_config = []\<rparr>"

definition sample_job :: build_job where
  "sample_job = \<lparr>bj_id = ''j1'', bj_job_type = BUILD, bj_payload_version = 1, bj_subject_id = ''t1'',
     bj_payload_json = VStr ''{}'', bj_status = J_READY, bj_priority_no = 100, bj_available_at = 0,
     bj_attempts = 0, bj_max_attempts = 3, bj_lease_owner = None, bj_execution_id = None,
     bj_lease_expires_at = None, bj_heartbeat_at = None, bj_last_error = None, bj_created_at = 0,
     bj_started_at = None, bj_finished_at = None, bj_version_no = 0\<rparr>"

definition no_locks :: "string \<Rightarrow> bool" where "no_locks i \<longleftrightarrow> False"

definition first_claim :: "claim_outcome \<times> db" where
  "first_claim = claim_iteration 30 ''w1'' 0 ''e1'' no_locks (empty_db\<lparr>build_jobs := [sample_job]\<rparr>)"

definition second_claim :: "claim_outcome \<times> db" where
  "second_claim = claim_iteration 30 ''w2'' (seconds 31) ''e2'' no_locks (snd first_claim)"

definition first_lease :: JobLease where "first_lease = lease_of sample_job ''w1'' ''e1''"

definition running_world :: world where
  "running_world = \<lparr>w_db = snd first_claim, w_now = 0, w_used = {''e1''}\<rparr>"

definition expired_world :: world where
  "expired_world = \<lparr>w_db = snd first_claim, w_now = seconds 31, w_used = {''e1''}\<rparr>"

definition reclaimed_world :: world where
  "reclaimed_world = \<lparr>w_db = snd second_claim, w_now = seconds 31, w_used = {''e2'', ''e1''}\<rparr>"

lemma first_claim_result:
  "first_claim = (Leased first_lease,
     empty_db\<lparr>build_jobs := [lease_job 30 ''w1'' 0 ''e1'' 1 sample_job]\<rparr>)"
  by (simp add: first_claim_def claim_iteration_def claim_candidate_def sql_first_by_def empty_db_def
      sample_job_def no_locks_def update_jobs_def sql_update_def first_lease_def)

lemma sample_reachable: "reachable running_world" "steps running_world expired_world"
  "steps expired_world reclaimed_world"
proof -
  let ?w0 = "\<lparr>w_db = empty_db, w_now = 0, w_used = {}\<rparr>"
  let ?w1 = "\<lparr>w_db = empty_db\<lparr>build_jobs := [sample_job]\<rparr>, w_now = 0, w_used = {}\<rparr>"
  have "reachable ?w0" by (rule reachable.initial) (simp add: empty_db_def)
  moreover have "step ?w0 ?w1"
    using step.enqueue [of sample_job ?w0] by (simp add: fresh_job_def sample_job_def empty_db_def)
  moreover have "step ?w1 running_world"
    using step.claim [of 30 "''w1''" ?w1 "''e1''" no_locks "fst first_claim" "snd first_claim"]
    by (simp add: first_claim_def [symmetric] running_world_def)
  ultimately show "reachable running_world" by (blast intro: reachable.later_state)
  have "step running_world expired_world"
    using step.time_passes [of running_world "seconds 31"]
    by (simp add: running_world_def expired_world_def seconds_def)
  then show "steps running_world expired_world" by (blast intro: steps.intros)
  have "step expired_world reclaimed_world"
    using step.claim [of 30 "''w2''" expired_world "''e2''" no_locks "fst second_claim" "snd second_claim"]
    by (simp add: second_claim_def [symmetric] expired_world_def reclaimed_world_def)
  then show "steps expired_world reclaimed_world" by (blast intro: steps.intros)
qed

lemma reachable_steps: "steps w w' \<Longrightarrow> reachable w \<Longrightarrow> reachable w'"
  by (induction rule: steps.induct) (auto intro: reachable.later_state)

lemma sample_lost: "reachable expired_world" "lost expired_world first_lease"
proof -
  show "reachable expired_world" using sample_reachable reachable_steps by blast
  show "lost expired_world first_lease"
    by (simp add: lost_def owned_iff expired_world_def first_claim_result ownership_def
        job_updates sql_gt_def first_lease_def lease_of_def Let_def seconds_def)
qed


subsection \<open>Properties\<close>

text \<open>C1 Once a worker has lost a lease, whatever happens afterwards, none of its calls has any effect:
  every method refuses and leaves every table as it is.\<close>

theorem lost_lease_inert:
  assumes "reachable w" "lost w lease" "steps w w'"
  shows "publish_artifact_terminal lease a po fn st ex (w_now w') (w_db w') = (Inr None, w_db w') \<and>
    complete_parse lease parsed k u (w_now w') (w_db w') = (Inr False, w_db w') \<and>
    claim_parse_subject lease (w_now w') (w_db w') = (None, w_db w') \<and>
    claim_build_subject lease (w_now w') (w_db w') = (Inr None, w_db w') \<and>
    cancel_build lease (w_now w') (w_db w') = (Inr False, w_db w') \<and>
    heartbeat ls lease (w_now w') (w_db w') = (False, w_db w') \<and>
    complete lease (w_now w') (w_db w') = (False, w_db w') \<and>
    retry_or_fail lease err b d (w_now w') (w_db w') = (False, w_db w') \<and>
    fail_terminal lease c err (w_now w') (w_db w') = (False, w_db w') \<and>
    (\<exists>m. advance_build ls lease bst pr g msg i (w_now w') (w_db w') = (Inl (LostLeaseError m), w_db w')) \<and>
    (\<exists>m. append_log lease g l msg ctx i (w_now w') (w_db w') = (Inl (LostLeaseError m), w_db w')) \<and>
    (\<exists>m. persist_package_results lease res ws v fs (w_now w') (w_db w') =
       (Inl (LostLeaseError m), w_db w')) \<and>
    (\<exists>e. persist_resolution canon lease res u (w_now w') (w_db w') = (Inl e, w_db w'))"
proof -
  have "lost w' lease" using assms steps_lost reachable_inv by blast
  then have n: "\<not> owns (w_db w') lease (w_now w')" by (simp add: lost_def owned_def)
  from publish.stale_result [OF n] complete_parse.stale_result [OF n] claim_parse.stale_result [OF n]
    claim_build.stale_result [OF n] cancel.stale_result [OF n] heartbeat.stale_result [OF n]
    complete.stale_result [OF n] retry.stale_result [OF n] fail_terminal.stale_result [OF n]
    advance.stale_result [OF n] append_log.stale_result [OF n] persist_results.stale_result [OF n]
    persist.stale_result [OF n]
  show ?thesis unfolding raises_lost_def by (intro conjI; metis)
qed

lemma lost_lease_inert_witness:
  "publish_artifact_terminal first_lease ''a1'' \<lparr>po_object_key = ''k'', po_size_bytes = 1, po_sha256 = ''h''\<rparr>
     ''bundle.zip'' B_SUCCESS 9 (w_now reclaimed_world) (w_db reclaimed_world) =
   (Inr None, w_db reclaimed_world)"
  using lost_lease_inert [OF sample_lost sample_reachable(3),
    where a = "''a1''" and po = "\<lparr>po_object_key = ''k'', po_size_bytes = 1, po_sha256 = ''h''\<rparr>"
      and fn = "''bundle.zip''" and st = B_SUCCESS and ex = 9] by blast



text \<open>C3 In every reachable database a job has an owner, an execution, an expiry and a heartbeat exactly
  while it runs, a finish time exactly when its status is terminal, and never more attempts than its
  limit.\<close>

theorem job_columns_consistent:
  assumes "reachable w" "r \<in> set (build_jobs (w_db w))"
  shows "(bj_status r = J_RUNNING \<longleftrightarrow> bj_lease_owner r \<noteq> None) \<and>
    (bj_status r = J_RUNNING \<longleftrightarrow> bj_execution_id r \<noteq> None) \<and>
    (bj_status r = J_RUNNING \<longleftrightarrow> bj_lease_expires_at r \<noteq> None) \<and>
    (bj_status r = J_RUNNING \<longleftrightarrow> bj_heartbeat_at r \<noteq> None) \<and>
    (job_terminal (bj_status r) \<longleftrightarrow> bj_finished_at r \<noteq> None) \<and>
    0 \<le> bj_attempts r \<and> bj_attempts r \<le> bj_max_attempts r"
  using reachable_inv [OF assms(1)] assms(2) by (simp add: world_inv_def job_ok_def)

lemma job_columns_consistent_witness:
  "bj_attempts (lease_job 30 ''w1'' 0 ''e1'' 1 sample_job) \<le>
     bj_max_attempts (lease_job 30 ''w1'' 0 ''e1'' 1 sample_job)"
  using job_columns_consistent [OF sample_reachable(1), of "lease_job 30 ''w1'' 0 ''e1'' 1 sample_job"]
  by (simp add: running_world_def first_claim_result)

text \<open>C4 A job that reached a terminal status keeps its whole row for ever.\<close>

theorem finished_job_stable:
  assumes "reachable w" "steps w w'" "r \<in> set (build_jobs (w_db w))"
    "bj_status r \<in> {J_COMPLETED, J_FAILED, J_CANCELLED}"
  shows "r \<in> set (build_jobs (w_db w'))"
  using steps_terminal [OF assms(2) reachable_inv [OF assms(1)] assms(3)] assms(4)
  by (simp add: job_terminal_def)


lemma finished_job_stable_witness:
  "finish_job J_COMPLETED 0 (lease_job 30 ''w1'' 0 ''e1'' 1 sample_job) \<in>
     set (build_jobs (snd (complete first_lease 0 (snd first_claim))))"
proof -
  let ?w = "running_world\<lparr>w_db := snd (complete first_lease 0 (snd first_claim))\<rparr>"
  have "step running_world ?w"
    using step.complete [of running_world first_lease] by (simp add: running_world_def)
  then have r: "reachable ?w" using sample_reachable(1) by (blast intro: reachable.later_state)
  have "step ?w (?w\<lparr>w_now := 5\<rparr>)" by (rule step.time_passes) (simp add: running_world_def)
  then have s: "steps ?w (?w\<lparr>w_now := 5\<rparr>)" by (blast intro: steps.intros)
  from finished_job_stable [OF r s, of "finish_job J_COMPLETED 0 (lease_job 30 ''w1'' 0 ''e1'' 1 sample_job)"]
  show ?thesis
    by (simp add: complete_def first_claim_result update_jobs_def sql_update_def
        ownership_def job_updates first_lease_def lease_of_def Let_def sql_gt_def seconds_def sample_job_def)
qed

end
