(* ===== verification/Effects.thy ===== *)
theory Effects
  imports Deployment
begin

section \<open>What the repository methods achieve\<close>

text \<open>
  The functional behaviour of the repository: what a claim picks and that the claiming loop ends, what
  publishing, parsing, cancelling, retrying and logging do to the tables when they succeed, that they
  change nothing when they do not, and what the read-only queries promise their callers.
\<close>

lemma transaction_Inr: "transaction body s = (Inr a, s') \<longleftrightarrow> body s = Inr (a, s')"
  by (auto simp: transaction_def split: sum.splits)

lemma transaction_Inl: "transaction body s = (Inl e, s') \<Longrightarrow> s' = s"
  by (auto simp: transaction_def split: sum.splits)

subsection \<open>A sample database\<close>

definition sample_task :: build_task where
  "sample_task = \<lparr>bt_id = ''t1'', bt_user_id = ''u1'', bt_requirement_file_id = ''f1'',
     bt_target_profile_id = ''p1'', bt_source_task_id = None, bt_execution_id = Some ''e1'',
     bt_status = B_RESOLVING, bt_progress = 5, bt_current_stage = Some ''PARSING'',
     bt_solve_mode = ''COMPATIBLE'', bt_target_snapshot = VDict [(KStr ''profileId'', VStr ''p1'')],
     bt_cancel_requested = False, bt_failure_code = None, bt_failure_message = None,
     bt_created_at = 0, bt_started_at = Some 0, bt_finished_at = None, bt_deleted_at = None,
     bt_version_no = 1\<rparr>"

definition sample_file :: requirement_file where
  "sample_file = \<lparr>rf_id = ''f1'', rf_user_id = ''u1'', rf_original_name = ''requirements.txt'',
     rf_detected_encoding = Some ''utf-8'', rf_size_bytes = 10, rf_sha256 = ''h'',
     rf_original_object_key = ''o'', rf_normalized_object_key = Some ''n'',
     rf_parse_status = P_PARSED, rf_parse_error = None, rf_created_at = 0, rf_version_no = 2\<rparr>"

definition building_db :: db where
  "building_db = empty_db\<lparr>build_jobs := [lease_job 30 ''w1'' 0 ''e1'' 1 sample_job],
     build_tasks := [sample_task], requirement_files := [sample_file]\<rparr>"

lemma building_owns: "owns building_db first_lease 0"
  by (simp add: owns_iff building_db_def empty_db_def ownership_def job_updates first_lease_def
      lease_of_def Let_def sql_gt_def sample_job_def seconds_def)

lemma building_row_owned:
  "ownership first_lease 0 (lease_job 30 ''w1'' 0 ''e1'' 1 sample_job)"
  using building_owns by (simp add: owns_iff building_db_def)

lemma building_executing: "executing first_lease sample_task"
  by (simp add: executing_def first_lease_def lease_of_def Let_def sample_job_def sample_task_def)

lemma first_lease_fields [simp]:
  "l_subject_id first_lease = ''t1''" "l_execution_id first_lease = ''e1''"
  "l_attempts first_lease = 1" "l_max_attempts first_lease = 3"
  by (simp_all add: first_lease_def lease_of_def Let_def sample_job_def)

lemma building_type: "l_job_type first_lease = BUILD"
  by (simp add: first_lease_def lease_of_def Let_def sample_job_def)

subsection \<open>Claiming\<close>

text \<open>C10 For a table with distinct identifiers, the loop of \<open>claim_next\<close> returns within one turn more
  than there are jobs, whatever the clock, the identifiers and the rows that are locked.\<close>

theorem claim_next_returns:
  assumes "distinct (map bj_id (build_jobs s))" "length (build_jobs s) < fuel"
    "worker \<noteq> []" "length worker \<le> 100"
  shows "\<exists>lease s'. claim_next fuel ls worker clock uuids held s = Some (Inr (lease, s'))"
proof -
  have "active_count s < fuel"
    unfolding active_count_def by (rule le_less_trans [OF length_filter_le assms(2)])
  with claim_loop_ends [of s fuel ls worker clock uuids held] assms show ?thesis
    by (auto simp: claim_next_def ids_distinct_def)
qed

lemma claim_next_returns_witness:
  "\<exists>lease s'. claim_next 2 30 ''w1'' (\<lambda>n. int n) (\<lambda>n. nat_str n) (\<lambda>n i. n = 0)
     (empty_db\<lparr>build_jobs := [sample_job]\<rparr>) = Some (Inr (lease, s'))"
  by (rule claim_next_returns) (simp_all add: empty_db_def)

text \<open>C9 A claim leases the first waiting job by priority, age and identifier, or, when no job waits,
  the running job whose lease expired first; it changes that row only, counts the attempt and the new
  lease is owned.\<close>

theorem claim_takes_next:
  assumes "distinct (map bj_id (build_jobs s))" "0 < ls"
    "claim_iteration ls worker now e held s = (Leased lease, s')"
  shows "(\<exists>row. next_row held now (build_jobs s) row \<and> lease = lease_of row worker e \<and>
      bj_attempts row < bj_max_attempts row \<and>
      s' = s\<lparr>build_jobs := map (\<lambda>r. if r = row then lease_job ls worker now e (bj_attempts row + 1) r
              else r) (build_jobs s)\<rparr>) \<and>
    owns s' lease now"
  using claim_iteration_next_row [of s ls worker now e held lease s']
    leased_owns [of s ls worker now e held lease s'] assms
  by (simp add: ids_distinct_def)

lemma claim_takes_next_witness:
  "(\<exists>row. next_row no_locks 0 [sample_job] row \<and> first_lease = lease_of row ''w1'' ''e1'') \<and>
   owns (snd first_claim) first_lease 0"
  using claim_takes_next [of "empty_db\<lparr>build_jobs := [sample_job]\<rparr>" 30 "''w1''" 0 "''e1''" no_locks
      first_lease "snd first_claim"] first_claim_result [unfolded first_claim_def]
  by (auto simp: first_claim_def)

subsection \<open>Publishing\<close>

lemma complete_job_facts:
  assumes "complete_job lease now s = (s', True)"
  shows "build_jobs s' = owned_map lease now (finish_job J_COMPLETED now) (build_jobs s)"
    "build_tasks s' = build_tasks s" "requirement_files s' = requirement_files s"
    "requirement_items s' = requirement_items s" "artifacts s' = artifacts s"
    "build_logs s' = build_logs s" "resolved_packages s' = resolved_packages s"
proof -
  have "s' = fst (update_jobs (ownership lease now) (finish_job J_COMPLETED now) s)"
    using assms by (auto simp: complete_job_def split_def)
  then show "build_jobs s' = owned_map lease now (finish_job J_COMPLETED now) (build_jobs s)"
    "build_tasks s' = build_tasks s" "requirement_files s' = requirement_files s"
    "requirement_items s' = requirement_items s" "artifacts s' = artifacts s"
    "build_logs s' = build_logs s" "resolved_packages s' = resolved_packages s"
    by (simp_all add: owned_map_def)
qed

lemma publish_effect:
  assumes "publish_artifact_terminal lease artifact_id po fn st ex now s = (result, s')"
  shows "if result = Inr (Some artifact_id)
    then owns s lease now \<and>
      (\<exists>task\<in>set (build_tasks s). executing lease task \<and> \<not> bt_cancel_requested task) \<and>
      artifacts s' = artifacts s @ [artifact_row artifact_id lease po fn st ex now] \<and>
      build_tasks s' = map (\<lambda>r. if executing lease r then end_task st ''COMPLETED'' now r else r)
        (build_tasks s) \<and>
      build_jobs s' = map (\<lambda>r. if ownership lease now r then finish_job J_COMPLETED now r else r)
        (build_jobs s) \<and>
      requirement_files s' = requirement_files s \<and> build_logs s' = build_logs s
    else s' = s"
proof (cases "result = Inr (Some artifact_id)")
  case True
  then have b: "publish_artifact_body lease artifact_id po fn st ex now s = Inr (Some artifact_id, s')"
    using assms by (simp add: publish_artifact_terminal_def transaction_Inr)
  let ?row = "artifact_row artifact_id lease po fn st ex now"
  let ?u = "update_tasks (executing lease) (end_task st ''COMPLETED'' now) (s\<lparr>artifacts := artifacts s @ [?row]\<rparr>)"
  have o: "owns s lease now" using b by (auto simp: publish_artifact_body_def split: if_splits)
  obtain task where t: "find (executing lease) (build_tasks s) = Some task" "\<not> bt_cancel_requested task"
    using b o by (auto simp: publish_artifact_body_def split: option.splits if_splits)
  have c: "complete_job lease now (fst ?u) = (s', True)"
    using b o t
    by (auto simp: publish_artifact_body_def split_def Let_def sql_insert_Some
        split: option.splits if_splits dest!: arg_cong [where f = fst])
       (metis prod.collapse)+
  have "artifacts s' = artifacts s @ [?row]"
    "build_tasks s' = map (\<lambda>r. if executing lease r then end_task st ''COMPLETED'' now r else r) (build_tasks s)"
    "build_jobs s' = owned_map lease now (finish_job J_COMPLETED now) (build_jobs s)"
    "requirement_files s' = requirement_files s" "build_logs s' = build_logs s"
    using complete_job_facts [OF c] by simp_all
  with True o find_SomeD [OF t(1)] t(2) show ?thesis by (auto simp: owned_map_def)
next
  case False
  have "s' = s"
    using assms False
    by (cases result)
       (auto simp: publish_artifact_terminal_def transaction_Inr publish_artifact_body_def split_def Let_def
        split: option.splits if_splits dest: transaction_Inl)
  with False show ?thesis by simp
qed

text \<open>C8 Publishing is all or nothing.  On success the lease was owned and its task's cancellation not
  requested, exactly one artifact row was added, the task ended with the given status and the job is
  completed; on any other outcome the database is unchanged.\<close>

theorem publish_atomic:
  "case publish_artifact_terminal lease artifact_id po fn st ex now s of (result, s') \<Rightarrow>
    if result = Inr (Some artifact_id)
    then owns s lease now \<and>
      (\<exists>task\<in>set (build_tasks s). executing lease task \<and> \<not> bt_cancel_requested task) \<and>
      artifacts s' = artifacts s @ [artifact_row artifact_id lease po fn st ex now] \<and>
      build_tasks s' = map (\<lambda>r. if executing lease r then end_task st ''COMPLETED'' now r else r)
        (build_tasks s) \<and>
      build_jobs s' = map (\<lambda>r. if ownership lease now r then finish_job J_COMPLETED now r else r)
        (build_jobs s) \<and>
      requirement_files s' = requirement_files s \<and> build_logs s' = build_logs s
    else s' = s"
  using publish_effect by (simp split: prod.split)

subsection \<open>Publishing a parse\<close>

lemma publication_ok:
  "(if n \<noteq> 1 \<or> \<not> snd (if n = 1 then c else (t, False)) then Inl e
    else Inr (True, fst (if n = 1 then c else (t, False)))) = Inr (True, s') \<Longrightarrow> c = (s', True)"
  for n :: nat and c :: "'a \<times> bool"
  by (cases c) (auto split: if_splits)

lemma parse_effect:
  assumes "complete_parse lease parsed key uuids now s = (result, s')"
  shows "if result = Inr True
    then owns s lease now \<and>
      requirement_items s' =
        filter (\<lambda>i. ri_requirement_file_id i \<noteq> l_subject_id lease) (requirement_items s) @
        map (\<lambda>(k, item). item_row (uuids k) (l_subject_id lease) item) (enumerate 0 (pr_items parsed)) \<and>
      (\<exists>f\<in>set (requirement_files s'). rf_id f = l_subject_id lease \<and> rf_parse_status f = P_PARSED \<and>
         rf_normalized_object_key f = Some key \<and> rf_detected_encoding f = Some (pr_encoding parsed)) \<and>
      build_jobs s' = map (\<lambda>r. if ownership lease now r then finish_job J_COMPLETED now r else r)
        (build_jobs s) \<and> build_tasks s' = build_tasks s
    else s' = s"
proof (cases "result = Inr True")
  case True
  then have b: "complete_parse_body lease parsed key uuids now s = Inr (True, s')"
    using assms by (simp add: complete_parse_def transaction_Inr)
  have o: "owns s lease now" using b by (auto simp: complete_parse_body_def split: if_splits)
  let ?kept = "sql_delete (\<lambda>i. ri_requirement_file_id i = l_subject_id lease) (requirement_items s)"
  let ?rows = "map (\<lambda>(k, item). item_row (uuids k) (l_subject_id lease) item) (enumerate 0 (pr_items parsed))"
  obtain locked items where l:
    "find (\<lambda>r. rf_id r = l_subject_id lease \<and> rf_parse_status r = P_PARSING) (requirement_files s) = Some locked"
    "sql_insert_all (\<lambda>a b. ri_id a = ri_id b) ?rows ?kept = Some items"
    using b o by (auto simp: complete_parse_body_def Let_def split: option.splits)
  let ?P = "\<lambda>r. rf_id r = l_subject_id lease \<and> rf_parse_status r = P_PARSING \<and>
    rf_version_no r = rf_version_no locked"
  let ?f = "\<lambda>r. r\<lparr>rf_detected_encoding := Some (pr_encoding parsed),
    rf_normalized_object_key := Some key, rf_parse_status := P_PARSED, rf_parse_error := None,
    rf_version_no := rf_version_no r + 1\<rparr>"
  let ?u = "update_files ?P ?f (s\<lparr>requirement_items := items\<rparr>)"
  have c: "complete_job lease now (fst ?u) = (s', True)"
  proof -
    have "complete_parse_body lease parsed key uuids now s =
        (if snd ?u \<noteq> 1 \<or> \<not> snd (if snd ?u = 1 then complete_job lease now (fst ?u) else (fst ?u, False))
         then Inl (LostLeaseError ''parse publication lost job ownership'')
         else Inr (True, fst (if snd ?u = 1 then complete_job lease now (fst ?u) else (fst ?u, False))))"
      by (simp only: complete_parse_body_def o not_True_eq_False if_False l l [unfolded split_def]
            option.case Let_def split_def)
    from publication_ok [OF trans [OF this [symmetric] b]] show ?thesis .
  qed
  note f = complete_job_facts [OF c]
  have items: "items = ?kept @ ?rows" using sql_insert_all_Some [OF l(2)] .
  have "?f locked \<in> set (requirement_files s')"
    using find_SomeD [OF l(1)] f(3) by (force simp: image_iff)
  then have "\<exists>f\<in>set (requirement_files s'). rf_id f = l_subject_id lease \<and> rf_parse_status f = P_PARSED \<and>
      rf_normalized_object_key f = Some key \<and> rf_detected_encoding f = Some (pr_encoding parsed)"
    using find_SomeD [OF l(1)] by (intro bexI [of _ "?f locked"]) simp_all
  with True o f items show ?thesis by (simp add: owned_map_def sql_delete_def)
next
  case False
  have "s' = s"
  proof (cases result)
    case (Inl e)
    with assms show ?thesis by (auto simp: complete_parse_def dest: transaction_Inl)
  next
    case (Inr x)
    with assms False have "complete_parse_body lease parsed key uuids now s = Inr (False, s')"
      by (simp add: complete_parse_def transaction_Inr)
    then show ?thesis
      unfolding complete_parse_body_def split_def Let_def
      by (simp split: option.splits if_splits)
  qed
  with False show ?thesis by simp
qed

text \<open>C11 Publishing parsed requirements replaces the file's items by exactly the parsed ones in their
  order, marks the file parsed and completes the job, all or nothing.\<close>

theorem complete_parse_atomic:
  "case complete_parse lease parsed key uuids now s of (result, s') \<Rightarrow>
    if result = Inr True
    then owns s lease now \<and>
      requirement_items s' =
        filter (\<lambda>i. ri_requirement_file_id i \<noteq> l_subject_id lease) (requirement_items s) @
        map (\<lambda>(k, item). item_row (uuids k) (l_subject_id lease) item) (enumerate 0 (pr_items parsed)) \<and>
      (\<exists>f\<in>set (requirement_files s'). rf_id f = l_subject_id lease \<and> rf_parse_status f = P_PARSED \<and>
         rf_normalized_object_key f = Some key \<and> rf_detected_encoding f = Some (pr_encoding parsed)) \<and>
      build_jobs s' = map (\<lambda>r. if ownership lease now r then finish_job J_COMPLETED now r else r)
        (build_jobs s) \<and> build_tasks s' = build_tasks s
    else s' = s"
  using parse_effect by (simp split: prod.split)

subsection \<open>The build log\<close>

lemma max_sequence_Max: "xs \<noteq> [] \<Longrightarrow> max_sequence xs = Max (set xs)"
  by (cases xs) (simp_all only: max_sequence_def list.case Max.set_eq_fold)

lemma max_sequence_ge: "x \<in> set xs \<Longrightarrow> x \<le> max_sequence xs"
  by (cases "xs = []") (simp_all add: max_sequence_Max)

lemma max_sequence_upto: "max_sequence (map int [1..<Suc n]) = int n"
proof (cases n)
  case (Suc m)
  then have "max_sequence (map int [1..<Suc n]) = Max (set (map int [1..<Suc n]))"
    by (intro max_sequence_Max) simp
  also have "\<dots> = int n"
    using Suc by (intro Max_eqI) auto
  finally show ?thesis .
qed (simp add: max_sequence_def)

definition log_row ::
  "JobLease \<Rightarrow> string \<Rightarrow> string \<Rightarrow> string \<Rightarrow> pyval option \<Rightarrow> string \<Rightarrow> time \<Rightarrow> int \<Rightarrow> build_log" where
  "log_row lease stage level message ctx uuid now q =
     \<lparr>bl_id = uuid, bl_build_task_id = l_subject_id lease, bl_sequence_no = q,
      bl_stage = bounded stage 50, bl_level = bounded level 20,
      bl_message = sanitize_text message 4000, bl_context = ctx, bl_created_at = now\<rparr>"

lemma append_log_effect:
  assumes "append_log lease stage level message context uuid now s = (Inr q, s')"
  shows "owns s lease now" "find (executing lease) (build_tasks s) \<noteq> None"
    "q = max_sequence (task_sequences (l_subject_id lease) s) + 1"
    "\<exists>ctx. s' = s\<lparr>build_logs := build_logs s @ [log_row lease stage level message ctx uuid now q]\<rparr>"
  using assms
  by (auto simp: append_log_def transaction_Inr append_log_in_def Let_def sql_insert_Some log_row_def
      split: if_splits option.splits sum.splits)

text \<open>A log line is appended under a number above every earlier one of its task, one more than the
  last when the earlier ones are 1 to n; no other table and no other task's log changes.\<close>

theorem log_sequence_increases:
  assumes "append_log lease stage level message context uuid now s = (Inr q, s')"
  shows "task_sequences (l_subject_id lease) s' = task_sequences (l_subject_id lease) s @ [q] \<and>
    (\<forall>x\<in>set (task_sequences (l_subject_id lease) s). x < q) \<and>
    (\<forall>n. task_sequences (l_subject_id lease) s = map int [1..<Suc n] \<longrightarrow> q = int n + 1) \<and>
    (\<forall>t. t \<noteq> l_subject_id lease \<longrightarrow> task_sequences t s' = task_sequences t s) \<and>
    build_jobs s' = build_jobs s \<and> build_tasks s' = build_tasks s"
proof -
  note e = append_log_effect [OF assms]
  have "\<forall>x\<in>set (task_sequences (l_subject_id lease) s). x < q"
    using max_sequence_ge e(3) by fastforce
  moreover have "\<forall>n. task_sequences (l_subject_id lease) s = map int [1..<Suc n] \<longrightarrow> q = int n + 1"
    using e(3) max_sequence_upto by metis
  moreover have "task_sequences (l_subject_id lease) s' = task_sequences (l_subject_id lease) s @ [q]"
    "\<forall>t. t \<noteq> l_subject_id lease \<longrightarrow> task_sequences t s' = task_sequences t s"
    "build_jobs s' = build_jobs s" "build_tasks s' = build_tasks s"
    using e(4) by (auto simp: task_sequences_def log_row_def)
  ultimately show ?thesis by blast
qed

lemma log_sequence_increases_witness:
  "task_sequences ''t1'' (snd (append_log first_lease ''PARSING'' ''INFO'' ''started'' None ''i1'' 0 building_db))
     = [1]"
proof -
  let ?r = "append_log first_lease ''PARSING'' ''INFO'' ''started'' None ''i1'' 0 building_db"
  have t: "l_subject_id first_lease = ''t1''" "task_sequences ''t1'' building_db = []"
    by (simp_all add: first_lease_def lease_of_def Let_def sample_job_def task_sequences_def
        building_db_def empty_db_def)
  have "?r = (Inr 1, snd ?r)"
    using building_owns building_executing t
    by (simp add: append_log_def transaction_def append_log_in_def building_db_def empty_db_def
        Let_def safe_context_def sql_insert_def max_sequence_def task_sequences_def)
  from log_sequence_increases [OF this] t show ?thesis by simp
qed

subsection \<open>Cancelling, retrying, failing\<close>

lemma cancel_effect:
  assumes "cancel_build lease now s = (result, s')"
  shows "if result = Inr True
    then owns s lease now \<and>
      (\<exists>task\<in>set (build_tasks s). executing lease task \<and> bt_cancel_requested task) \<and>
      build_tasks s' = map (\<lambda>r. if executing lease r \<and> bt_cancel_requested r
        then end_task B_CANCELLED ''CANCELLED'' now r else r) (build_tasks s) \<and>
      build_jobs s' = map (\<lambda>r. if ownership lease now r then finish_job J_CANCELLED now r else r)
        (build_jobs s) \<and> artifacts s' = artifacts s
    else build_jobs s' = build_jobs s \<and> artifacts s' = artifacts s"
proof -
  let ?P = "\<lambda>r. executing lease r \<and> bt_cancel_requested r"
  let ?u = "update_tasks ?P (end_task B_CANCELLED ''CANCELLED'' now) s"
  show ?thesis
  proof (cases result)
    case (Inl e)
    with assms show ?thesis by (auto simp: cancel_build_def dest: transaction_Inl)
  next
    case (Inr x)
    with assms have b: "cancel_build_body lease now s = Inr (x, s')"
      by (simp add: cancel_build_def transaction_Inr)
    show ?thesis
    proof (cases x)
      case False
      with b Inr show ?thesis
        by (auto simp: cancel_build_body_def split_def Let_def split: if_splits)
    next
      case True
      have one: "snd ?u = 1" and o: "owns s lease now" and
        s': "s' = fst (update_jobs (ownership lease now) (finish_job J_CANCELLED now) (fst ?u))"
        using b True by (auto simp: cancel_build_body_def split_def Let_def split: if_splits)
      have "filter ?P (build_tasks s) \<noteq> []" using one by auto
      then have "\<exists>task\<in>set (build_tasks s). ?P task" by (auto simp: filter_empty_conv)
      with True Inr o s' show ?thesis by simp
    qed
  qed
qed

text \<open>A build is cancelled only for an owned lease whose task asked for it; then the task and the
  job end cancelled.  Otherwise no job and no artifact changes.\<close>

theorem cancel_only_requested:
  "case cancel_build lease now s of (result, s') \<Rightarrow>
    if result = Inr True
    then owns s lease now \<and>
      (\<exists>task\<in>set (build_tasks s). executing lease task \<and> bt_cancel_requested task) \<and>
      build_tasks s' = map (\<lambda>r. if executing lease r \<and> bt_cancel_requested r
        then end_task B_CANCELLED ''CANCELLED'' now r else r) (build_tasks s) \<and>
      build_jobs s' = map (\<lambda>r. if ownership lease now r then finish_job J_CANCELLED now r else r)
        (build_jobs s) \<and> artifacts s' = artifacts s
    else build_jobs s' = build_jobs s \<and> artifacts s' = artifacts s"
  using cancel_effect by (simp split: prod.split)

lemma owned_count:
  assumes "ids_distinct s"
  shows "snd (update_jobs (ownership lease now) f s) = 1 \<longleftrightarrow> owns s lease now"
  using sql_update_unique(1) [of bj_id "build_jobs s" "ownership lease now" "l_id lease" f] assms
  by (simp add: ids_distinct_def update_jobs_def split_def Let_def owns_iff ownership_def)

lemma terminalize_build:
  "build_tasks (terminalize_subject BUILD i now c m s) =
     map (\<lambda>r. if bt_id r = i \<and> \<not> build_terminal (bt_status r) then fail_task now c m r else r) (build_tasks s)"
  by (simp add: terminalize_subject_def)

text \<open>C14 Failing a build for good, under an owned lease, ends the job as failed with the sanitised error
  and leaves no task of that subject in a non-terminal status; a task that had already ended is
  untouched.\<close>

theorem fail_terminal_ends_subject:
  assumes "distinct (map bj_id (build_jobs s))" "owns s lease now" "l_job_type lease = BUILD"
  shows "case fail_terminal lease failure_code err now s of (ok, s') \<Rightarrow> ok \<and>
    build_jobs s' = map (\<lambda>r. if ownership lease now r
      then fail_job (sanitize_text err 2000) now r else r) (build_jobs s) \<and>
    (\<forall>t\<in>set (build_tasks s'). bt_id t = l_subject_id lease \<longrightarrow> build_terminal (bt_status t)) \<and>
    (\<forall>t\<in>set (build_tasks s). build_terminal (bt_status t) \<longrightarrow> t \<in> set (build_tasks s'))"
proof -
  have one: "snd (update_jobs (ownership lease now) (fail_job (sanitize_text err 2000) now) s) = 1"
    using assms(1,2) by (simp only: owned_count ids_distinct_def)
  then show ?thesis unfolding fail_terminal_def Let_def split_def
    using assms(3) by (auto simp: terminalize_build fail_task_def build_terminal_def simp del: update_counts(1))
qed

lemma fail_terminal_ends_subject_witness:
  "fst (fail_terminal first_lease ''X'' ''broken'' 0 building_db) \<and>
   map bj_status (build_jobs (snd (fail_terminal first_lease ''X'' ''broken'' 0 building_db))) = [J_FAILED]"
proof -
  have "distinct (map bj_id (build_jobs building_db))" by (simp add: building_db_def)
  from fail_terminal_ends_subject [OF this building_owns building_type, where failure_code = "''X''"
      and err = "''broken''"]
  show ?thesis using building_row_owned
    by (simp add: split_def building_db_def fail_job_def finish_job_def bump_job_def)
qed

lemma requeue_execution: "bt_execution_id (requeue_task t) = None"
  by (simp add: requeue_task_def)

text \<open>C13 A retryable error before the last attempt puts the job back in the queue, without a lease and
  after the delay, and its build task back to QUEUED without an execution, so that a later claim can
  start it; every other case fails the job and ends the task.\<close>

theorem retry_requeues:
  assumes "distinct (map bj_id (build_jobs s))" "owns s lease now" "l_job_type lease = BUILD"
  shows "case retry_or_fail lease err retryable delay now s of (ok, s') \<Rightarrow> ok \<and>
    (if retryable \<and> l_attempts lease < l_max_attempts lease
     then build_jobs s' = map (\<lambda>r. if ownership lease now r
            then requeue_job (sanitize_text err 2000) (now + seconds delay) r else r) (build_jobs s) \<and>
          (\<forall>t\<in>set (build_tasks s'). bt_id t = l_subject_id lease \<longrightarrow>
             bt_execution_id t \<noteq> Some (l_execution_id lease)) \<and>
          (\<forall>t\<in>set (build_tasks s). executing lease t \<longrightarrow>
             (\<exists>t'\<in>set (build_tasks s'). initial_claim (lease\<lparr>l_reclaimed := False\<rparr>) t' \<and> bt_id t' = bt_id t))
     else build_jobs s' = map (\<lambda>r. if ownership lease now r
            then fail_job (sanitize_text err 2000) now r else r) (build_jobs s) \<and>
          (\<forall>t\<in>set (build_tasks s'). bt_id t = l_subject_id lease \<longrightarrow> build_terminal (bt_status t)))"
proof -
  have one: "snd (update_jobs (ownership lease now) f s) = 1" for f
    using assms(1,2) by (simp only: owned_count ids_distinct_def)
  show ?thesis
  proof (cases "retryable \<and> l_attempts lease < l_max_attempts lease")
    case True
    have "\<exists>t'\<in>set (map (\<lambda>r. if bt_id r = l_subject_id lease \<and> bt_execution_id r = Some (l_execution_id lease)
        then requeue_task r else r) (build_tasks s)).
        initial_claim (lease\<lparr>l_reclaimed := False\<rparr>) t' \<and> bt_id t' = bt_id t"
      if "t \<in> set (build_tasks s)" "executing lease t" for t
    proof (rule bexI [of _ "requeue_task t"])
      show "initial_claim (lease\<lparr>l_reclaimed := False\<rparr>) (requeue_task t) \<and> bt_id (requeue_task t) = bt_id t"
        by (simp add: initial_claim_def requeue_task_def)
    qed (use that in \<open>force simp: executing_def\<close>)
    with True one assms(3) show ?thesis unfolding retry_or_fail_def Let_def split_def
      by (auto simp: reset_subject_for_retry_def requeue_execution simp del: update_counts(1))
  next
    case False
    with one assms(3) show ?thesis unfolding retry_or_fail_def Let_def split_def
      by (auto simp: terminalize_build fail_task_def build_terminal_def simp del: update_counts(1))
  qed
qed

lemma retry_requeues_witness:
  "fst (retry_or_fail first_lease ''timeout'' True 5 0 building_db) \<and>
   map bj_status (build_jobs (snd (retry_or_fail first_lease ''timeout'' True 5 0 building_db))) = [J_READY]"
proof -
  have "distinct (map bj_id (build_jobs building_db))" by (simp add: building_db_def)
  from retry_requeues [OF this building_owns building_type, where err = "''timeout''" and retryable = True
      and delay = 5]
  show ?thesis using building_row_owned
    by (simp add: split_def building_db_def requeue_job_def bump_job_def)
qed

subsection \<open>Claiming a build\<close>

lemma build_row_SomeD:
  assumes "build_row i s = Some (t, f)"
  shows "t \<in> set (build_tasks s)" "bt_id t = i" "f \<in> set (requirement_files s)"
    "rf_id f = bt_requirement_file_id t"
  using find_first_SomeD [OF assms [unfolded build_row_def]]
  by (auto split: if_splits option.splits dest: find_SomeD)

lemma claim_build_effect:
  assumes "claim_build_subject lease now s = (Inr (Some b), s')"
  shows "owns s lease now \<and>
    (\<exists>t\<in>set (build_tasks s). \<exists>f\<in>set (requirement_files s). bt_id t = l_subject_id lease \<and>
       rf_id f = bt_requirement_file_id t \<and> valid_binding (t, f) \<and>
       (initial_claim lease t \<or> takeover lease t) \<and> start_task lease now t \<in> set (build_tasks s') \<and>
       bs_id b = bt_id t \<and> bs_original_sha256 b = rf_sha256 f \<and>
       map_of (bs_target_snapshot b) (KStr ''profileId'') = Some (VStr (bt_target_profile_id t))) \<and>
    build_jobs s' = build_jobs s"
proof -
  have body: "claim_build_subject_body lease now s = Inr (Some b, s')"
    using assms by (simp add: claim_build_subject_def transaction_Inr)
  then have o: "owns s lease now" by (auto simp: claim_build_subject_body_def split: if_splits)
  obtain t f where r: "build_row (l_subject_id lease) s = Some (t, f)"
    using body o by (auto simp: claim_build_subject_body_def split: option.splits)
  have v: "valid_binding (t, f)" "initial_claim lease t \<or> takeover lease t"
    using body o r by (auto simp: claim_build_subject_body_def split: if_splits)
  have s': "s' = fst (update_tasks (unchanged_task lease t) (start_task lease now) s)"
    and snap: "\<exists>snapshot. b = build_subject (t, f) snapshot \<and>
      map_of snapshot (KStr ''profileId'') = Some (VStr (bt_target_profile_id t))"
    using body o r v
    by (auto simp: claim_build_subject_body_def split_def Let_def
        split: if_splits option.splits pyval.splits)
  note row = build_row_SomeD [OF r]
  have "unchanged_task lease t t" using row(2) v(2)
    by (auto simp: unchanged_task_def initial_claim_def takeover_def)
  with row(1) have "start_task lease now t \<in> set (build_tasks s')" unfolding s' by (force simp: image_iff)
  with o row v snap s' show ?thesis
    by (intro conjI bexI [of _ t] bexI [of _ f]) (auto simp: build_subject_def)
qed

text \<open>C12 A build is handed to an execution only when its file is parsed, belongs to the same user and
  the task is queued and unclaimed, or was held by the very execution this lease took over from; the
  task is then bound to the new execution, and the frozen target is the task's own profile.\<close>

theorem claim_build_binds:
  assumes "claim_build_subject lease now s = (Inr (Some b), s')"
  shows "\<exists>t\<in>set (build_tasks s). \<exists>f\<in>set (requirement_files s). bt_id t = l_subject_id lease \<and>
    rf_id f = bt_requirement_file_id t \<and> rf_parse_status f = P_PARSED \<and> bt_user_id t = rf_user_id f \<and>
    bt_deleted_at t = None \<and>
    (bt_status t = B_QUEUED \<and> bt_execution_id t = None \<or>
     l_reclaimed lease \<and> bt_execution_id t \<noteq> None \<and> bt_execution_id t = l_previous_execution_id lease) \<and>
    start_task lease now t \<in> set (build_tasks s') \<and>
    map_of (bs_target_snapshot b) (KStr ''profileId'') = Some (VStr (bt_target_profile_id t))"
  using claim_build_effect [OF assms]
  by (auto simp: valid_binding_def initial_claim_def takeover_def) blast+

definition queued_db :: db where
  "queued_db = building_db\<lparr>build_tasks := [requeue_task sample_task]\<rparr>"

lemma claim_build_binds_witness:
  "\<exists>t\<in>set (build_tasks queued_db).
     start_task first_lease 0 t \<in> set (build_tasks (snd (claim_build_subject first_lease 0 queued_db)))"
proof -
  have o: "owns queued_db first_lease 0" using building_owns by (simp add: owns_iff queued_db_def)
  have fields: "\<not> l_reclaimed first_lease"
    by (simp_all add: first_lease_def lease_of_def Let_def sample_job_def)
  let ?t = "requeue_task sample_task"
  have row: "build_row ''t1'' queued_db = Some (?t, sample_file)"
    by (simp add: build_row_def queued_db_def building_db_def requeue_task_def sample_task_def
        sample_file_def)
  have ok: "valid_binding (?t, sample_file)" "initial_claim first_lease ?t" "\<not> takeover first_lease ?t"
    using fields
    by (simp_all add: valid_binding_def initial_claim_def takeover_def requeue_task_def sample_task_def
        sample_file_def is_dict_or_text_def)
  have "claim_build_subject first_lease 0 queued_db =
      (Inr (Some (build_subject (?t, sample_file) [(KStr ''profileId'', VStr ''p1'')])),
       queued_db\<lparr>build_tasks := [start_task first_lease 0 ?t]\<rparr>)"
    using o row ok
    by (simp add: claim_build_subject_def transaction_def claim_build_subject_body_def update_tasks_def
        sql_update_def decoded_snapshot_def Let_def)
       (simp add: queued_db_def requeue_task_def sample_task_def unchanged_task_def takeover_def)
  from claim_build_binds [OF this] show ?thesis
    unfolding \<open>claim_build_subject first_lease 0 queued_db = _\<close> by auto
qed

subsection \<open>Queries and limits\<close>

text \<open>The maintenance snapshot names every execution whose lease is owned, and its build task: what
  it protects includes all work in progress.\<close>

theorem snapshot_protects_owned:
  assumes "owns s lease now"
  shows "l_execution_id lease \<in> ms_active_execution_ids (maintenance_snapshot now s) \<and>
    (\<exists>r\<in>set (build_jobs s). bj_id r = l_id lease \<and> (bj_job_type r = BUILD \<longrightarrow>
       (bj_subject_id r, l_execution_id lease) \<in> ms_active_build_executions (maintenance_snapshot now s)))"
proof -
  obtain r where r: "r \<in> set (build_jobs s)" "ownership lease now r"
    using assms by (auto simp: owns_iff)
  then have a: "r \<in> set (active_jobs now s)" "str_of (bj_execution_id r) = l_execution_id lease"
    by (auto simp: active_jobs_def ownership_def str_of_def)
  from a have "l_execution_id lease \<in> ms_active_execution_ids (maintenance_snapshot now s)"
    by (force simp: maintenance_snapshot_def Let_def)
  moreover have "bj_job_type r = BUILD \<longrightarrow>
      (bj_subject_id r, l_execution_id lease) \<in> ms_active_build_executions (maintenance_snapshot now s)"
    using a by (force simp: maintenance_snapshot_def Let_def)
  ultimately show ?thesis using r by (auto simp: ownership_def)
qed

lemma snapshot_protects_owned_witness:
  "''e1'' \<in> ms_active_execution_ids (maintenance_snapshot 0 building_db)"
  using snapshot_protects_owned [OF building_owns] by simp

text \<open>Whatever the configuration table holds, the limits handed to a build are within their ranges;
  a text, a number out of range or any other value raises.\<close>

theorem resource_limits_bounded:
  "case resource_limits s of Inl e \<Rightarrow> \<exists>m. e = ValueError m | Inr l \<Rightarrow> limits_in_range l"
proof -
  have apply_err: "apply_config rows l = Inl e \<Longrightarrow> \<exists>m. e = ValueError m" for rows l e
    by (induction rows arbitrary: l)
       (auto simp: config_integer_def split: pyval.splits option.splits sum.splits)
  have make_err: "make_limits l = Inl e \<Longrightarrow> \<exists>m. e = ValueError m" for l e
    by (auto simp: make_limits_def limit_checks_def left_of_def bounded_limit_def
        split: option.splits sum.splits if_splits)
  show ?thesis
    using apply_err make_err
    by (auto simp: resource_limits_def make_limits_iff split: sum.splits)
qed

text \<open>Storing a resolution never fails for the size of its audits: with fewer than 10^49
  observations every audit is within its byte limit, and there is one for every package.\<close>

theorem audits_fit:
  assumes "countable res"
  shows "(\<exists>audits. package_resolution_audits canon res packages = Inr audits \<and>
      set (map fst audits) = canon ` set packages) \<and>
    (\<exists>audit. resolution_summary_audit canon res = Inr audit \<and> json_bytes audit \<le> MAX_BUILD_AUDIT_BYTES)"
proof -
  obtain v where "resolution_summary_audit canon res = Inr v"
    using resolution_summary_audit_ok [OF assms] by blast
  then have "resolution_summary_audit canon res = Inr v \<and> json_bytes v \<le> MAX_BUILD_AUDIT_BYTES"
    by (auto simp: resolution_summary_audit_def Let_def split: if_splits)
  with package_resolution_audits_ok [OF assms, of canon packages] show ?thesis by fastforce
qed

definition sample_version :: "nat Version" where
  "sample_version = \<lparr>v_str = ''1.0'', v_release = [1, 0], v_is_prerelease = False, v_key = 1\<rparr>"

definition sample_resolution :: "nat ResolutionResult" where
  "sample_resolution = \<lparr>rr_report_version = ''1'', rr_packages = [],
     rr_attempts = [\<lparr>ra_selections = [\<lparr>cs_package = ''Foo'', cs_version = sample_version\<rparr>],
       ra_source = PYPI, ra_failure = Some STRICT_RESOLUTION, ra_reason = ''conflict''\<rparr>],
     rr_rejections = [\<lparr>cr_package = ''foo'', cr_version = ''2.0'', cr_source = PYPI,
       cr_code = YANKED, cr_reason = ''yanked''\<rparr>],
     rr_changes = [], rr_source = Some PYPI, rr_rejections_omitted = 3,
     rr_observations_truncated = True\<rparr>"

lemma audits_fit_witness:
  "\<exists>audits. package_resolution_audits (map lower) sample_resolution [''Foo''] = Inr audits \<and>
     set (map fst audits) = map lower ` {''Foo''}"
proof -
  have "countable sample_resolution"
    by (simp add: countable_def sample_resolution_def)
  from audits_fit [OF this, of "map lower" "[''Foo'']"] show ?thesis by simp
qed

end
