(* ===== verification/Uuids.thy ===== *)
theory Uuids
  imports JsonParse
begin

section \<open>Canonical UUIDs\<close>

text \<open>
  Python's \<open>UUID(text)\<close> as the worker uses it to check and normalise identifiers: the prefixes
  \<open>urn:\<close> and \<open>uuid:\<close>, braces and hyphens are dropped, 32 characters must remain, and \<open>int(_, 16)\<close>
  must accept them; \<open>str()\<close> prints 32 lower-case digits in five groups.  Normalising is idempotent.
\<close>

text \<open>\<open>s.replace(pat, '')\<close> for a non-empty pattern.\<close>

function remove_all :: "string \<Rightarrow> string \<Rightarrow> string" where
  "remove_all pat s =
     (case s of
        [] \<Rightarrow> []
      | c # cs \<Rightarrow> if pat \<noteq> [] \<and> startswith s pat then remove_all pat (drop (length pat) s)
                  else c # remove_all pat cs)"
  by pat_completeness auto
termination
  by (relation "measure (\<lambda>(pat, s). length s)") auto

declare remove_all.simps [simp del]

definition strip_chars :: "char list \<Rightarrow> string \<Rightarrow> string" where
  "strip_chars cs s = rev (dropWhile (\<lambda>c. c \<in> set cs) (rev (dropWhile (\<lambda>c. c \<in> set cs) s)))"

text \<open>The digits of \<open>int(_, 16)\<close>: single underscores may separate them.\<close>

fun hex_digits :: "nat \<Rightarrow> string \<Rightarrow> nat option" where
  "hex_digits n [] = Some n"
| "hex_digits n (c # cs) =
     (if c = CHR ''_'' then
        (case cs of
           [] \<Rightarrow> None
         | d # ds \<Rightarrow> (case hex_value d of None \<Rightarrow> None | Some v \<Rightarrow> hex_digits (16 * n + v) ds))
      else (case hex_value c of None \<Rightarrow> None | Some v \<Rightarrow> hex_digits (16 * n + v) cs))"

definition hex_number :: "string \<Rightarrow> nat option" where
  "hex_number s =
     (case s of
        [] \<Rightarrow> None
      | c # cs \<Rightarrow> if c = CHR ''_'' then None else hex_digits 0 s)"

text \<open>\<open>int(s, 16)\<close>: surrounding white space, a sign, and a \<open>0x\<close> prefix, after which an underscore
  may stand.\<close>

definition int_base16 :: "string \<Rightarrow> int option" where
  "int_base16 s =
     (let t = strip s;
          negative = (t \<noteq> [] \<and> hd t = CHR ''-'');
          u = (if t \<noteq> [] \<and> (hd t = CHR ''-'' \<or> hd t = CHR ''+'') then tl t else t);
          prefixed = (startswith u ''0x'' \<or> startswith u ''0X'');
          v = (if prefixed then drop 2 u else u);
          w = (if prefixed \<and> v \<noteq> [] \<and> hd v = CHR ''_'' then tl v else v)
      in map_option (\<lambda>n. if negative then - int n else int n) (hex_number w))"

fun hex_print :: "nat \<Rightarrow> nat \<Rightarrow> string" where
  "hex_print 0 n = []"
| "hex_print (Suc k) n = hex_print k (n div 16) @ [digit_char (n mod 16)]"

definition uuid_str :: "nat \<Rightarrow> string" where
  "uuid_str n =
     (let h = hex_print 32 n in
      take 8 h @ ''-'' @ take 4 (drop 8 h) @ ''-'' @ take 4 (drop 12 h) @ ''-'' @ take 4 (drop 16 h)
        @ ''-'' @ drop 20 h)"

definition uuid_hex :: "string \<Rightarrow> string" where
  "uuid_hex s =
     remove_all ''-'' (strip_chars ''{}'' (remove_all ''uuid:'' (remove_all ''urn:'' s)))"

definition canonical_uuid :: "string \<Rightarrow> string option" where
  "canonical_uuid s =
     (let hex = uuid_hex s in
      if length hex \<noteq> 32 then None
      else (case int_base16 hex of
          None \<Rightarrow> None
        | Some i \<Rightarrow> if 0 \<le> i \<and> i < 2 ^ 128 then Some (uuid_str (nat i)) else None))"

text \<open>\<open>validate_canonical_uuid\<close> of \<open>contracts.py\<close>.\<close>

definition validate_canonical_uuid :: "string \<Rightarrow> bool" where
  "validate_canonical_uuid value =
     (case canonical_uuid value of None \<Rightarrow> False | Some u \<Rightarrow> map lower u = map lower value)"

subsection \<open>Printing and parsing\<close>

lemma hex_print_length [simp]: "length (hex_print k n) = k"
  by (induction k arbitrary: n) auto

lemma hex_print_chars: "c \<in> set (hex_print k n) \<Longrightarrow> \<exists>d<16. c = digit_char d"
proof (induction k arbitrary: n)
  case (Suc k)
  have "n mod 16 < 16" by simp
  with Suc show ?case unfolding hex_print.simps set_append list.set by blast
qed simp

lemma hex_digits_append:
  "\<forall>c\<in>set s. \<exists>d<16. c = digit_char d \<Longrightarrow>
     hex_digits n (s @ t) = (case hex_digits n s of None \<Rightarrow> None | Some m \<Rightarrow> hex_digits m t)"
proof (induction s arbitrary: n)
  case (Cons c s)
  then obtain d where d: "d < 16" "c = digit_char d" by auto
  then have "c \<noteq> CHR ''_''" by (auto simp: digit_char_def char_class_defs code_eq_iff split: if_splits)
  with Cons d show ?case by simp
qed simp

lemma digit_char_not: "d < 16 \<Longrightarrow> digit_char d \<notin> {CHR ''_'', CHR ''-'', CHR ''+'', CHR ''x'', CHR ''X'',
    CHR ''{'', CHR ''}'', CHR ''u'', CHR '':''} \<and> \<not> is_space (digit_char d)"
  by (auto simp: digit_char_def code_eq_iff is_space_def code_def split: if_splits)

lemma hex_digits_print: "n < 16 ^ k \<Longrightarrow> hex_digits 0 (hex_print k n) = Some n"
proof (induction k arbitrary: n)
  case (Suc k)
  have "n div 16 < 16 ^ k" using Suc.prems by (simp add: less_mult_imp_div_less mult.commute)
  then have "hex_digits 0 (hex_print k (n div 16)) = Some (n div 16)" by (rule Suc.IH)
  moreover have "digit_char (n mod 16) \<noteq> CHR ''_''" using digit_char_not [of "n mod 16"] by simp
  ultimately show ?case using hex_print_chars by (subst hex_print.simps, subst hex_digits_append) auto
qed simp

lemma hex_print_not:
  assumes "c \<in> {CHR ''_'', CHR ''-'', CHR ''+'', CHR ''x'', CHR ''X''} \<or> is_space c"
  shows "c \<notin> set (hex_print k n)"
proof
  assume "c \<in> set (hex_print k n)"
  then obtain d where "d < 16" "c = digit_char d" using hex_print_chars by blast
  with digit_char_not [of d] assms show False by auto
qed

lemma remove_all_absent: "pat \<noteq> [] \<Longrightarrow> hd pat \<notin> set s \<Longrightarrow> remove_all pat s = s"
proof (induction s)
  case (Cons c s)
  have "\<not> startswith (c # s) pat" using Cons.prems by (cases pat) (auto simp: startswith_def)
  with Cons show ?case by (subst remove_all.simps) simp
qed (simp add: remove_all.simps)

lemma remove_all_append:
  "CHR ''-'' \<notin> set s \<Longrightarrow> remove_all ''-'' (s @ t) = s @ remove_all ''-'' t"
proof (induction s)
  case (Cons c s)
  then have "\<not> startswith (c # s @ t) ''-''" by (auto simp: startswith_def)
  with Cons show ?case by (simp add: remove_all.simps [of _ "c # s @ t"])
qed simp

lemma remove_all_sep: "remove_all ''-'' (CHR ''-'' # t) = remove_all ''-'' t"
  by (simp add: remove_all.simps [of _ "CHR ''-'' # t"] startswith_def)

lemma dropWhile_absent: "\<forall>c\<in>set s. \<not> P c \<Longrightarrow> dropWhile P s = s"
  by (cases s) auto

lemma uuid_str_chars:
  "c \<in> set (uuid_str n) \<Longrightarrow> c = CHR ''-'' \<or> (\<exists>d<16. c = digit_char d)"
  by (auto simp: uuid_str_def Let_def dest!: in_set_takeD in_set_dropD hex_print_chars)

lemma uuid_str_not:
  "c \<in> {CHR ''u'', CHR ''{'', CHR ''}''} \<Longrightarrow> c \<notin> set (uuid_str n)"
proof
  assume c: "c \<in> {CHR ''u'', CHR ''{'', CHR ''}''}" and "c \<in> set (uuid_str n)"
  from uuid_str_chars [OF this(2)] c obtain d where "d < 16" "c = digit_char d" by auto
  with digit_char_not [of d] c show False by simp
qed

lemma uuid_hex_str: "uuid_hex (uuid_str n) = hex_print 32 n"
proof -
  let ?h = "hex_print 32 n"
  have u: "remove_all ''urn:'' (uuid_str n) = uuid_str n" "remove_all ''uuid:'' (uuid_str n) = uuid_str n"
    using uuid_str_not [of "CHR ''u''" n] by (simp_all add: remove_all_absent)
  have "\<forall>c\<in>set (uuid_str n). c \<notin> set ''{}''"
    using uuid_str_not [of "CHR ''{''" n] uuid_str_not [of "CHR ''}''" n] by auto
  then have st: "strip_chars ''{}'' (uuid_str n) = uuid_str n"
    by (simp add: strip_chars_def dropWhile_absent)
  have "CHR ''-'' \<notin> set ?h" by (rule hex_print_not) simp
  then have no: "CHR ''-'' \<notin> set (take j (drop k ?h))" "CHR ''-'' \<notin> set (take j ?h)"
    "CHR ''-'' \<notin> set (drop k ?h)" for j k
    by (auto dest: in_set_takeD in_set_dropD)
  have "remove_all ''-'' (uuid_str n) =
      take 8 ?h @ take 4 (drop 8 ?h) @ take 4 (drop 12 ?h) @ take 4 (drop 16 ?h) @ drop 20 ?h"
    using no by (simp add: uuid_str_def Let_def remove_all_append remove_all_sep remove_all_absent)
  also have "\<dots> = ?h"
  proof -
    have "take 8 ?h @ take 4 (drop 8 ?h) @ take 4 (drop (4 + 8) ?h) @ take 4 (drop (4 + (4 + 8)) ?h)
        @ drop (4 + (4 + (4 + 8))) ?h = ?h"
      unfolding drop_drop [symmetric] append_take_drop_id by simp
    then show ?thesis by simp
  qed
  finally show ?thesis by (simp add: uuid_hex_def u st)
qed

lemma int_base16_print:
  assumes "0 < k" "n < 16 ^ k"
  shows "int_base16 (hex_print k n) = Some (int n)"
proof -
  let ?h = "hex_print k n"
  have ne: "?h \<noteq> []" using assms(1) by (metis hex_print_length length_0_conv less_not_refl)
  have "\<forall>c\<in>set ?h. \<not> is_space c" using hex_print_not by blast
  then have st: "strip ?h = ?h" by (simp add: strip_def lstrip_def rstrip_def dropWhile_absent)
  have "hd ?h \<in> set ?h" using ne by simp
  then have hd: "hd ?h \<noteq> CHR ''-''" "hd ?h \<noteq> CHR ''+''" "hd ?h \<noteq> CHR ''_''"
    using hex_print_not [of "hd ?h" k n] by auto
  have px: "\<not> startswith ?h p" if "c \<in> set p" "c \<in> {CHR ''x'', CHR ''X''}" for p c
  proof
    assume "startswith ?h p"
    then have "c \<in> set (take (length p) ?h)" using that(1) by (simp add: startswith_def)
    then have "c \<in> set ?h" by (rule in_set_takeD)
    with hex_print_not [of c k n] that(2) show False by auto
  qed
  have px: "\<not> startswith ?h ''0x''" "\<not> startswith ?h ''0X''"
    using px [of "CHR ''x''"] px [of "CHR ''X''"] by simp_all
  have "hex_number ?h = Some n"
    using ne hd hex_digits_print [OF assms(2)] by (auto simp: hex_number_def split: list.splits)
  then show ?thesis using ne hd st px by (simp add: int_base16_def Let_def)
qed

lemma canonical_uuid_str: "n < 2 ^ 128 \<Longrightarrow> canonical_uuid (uuid_str n) = Some (uuid_str n)"
proof -
  assume n: "n < 2 ^ 128"
  then have "n < 16 ^ 32" by simp
  from int_base16_print [OF _ this] n show ?thesis
    by (simp add: canonical_uuid_def uuid_hex_str Let_def)
qed

lemma canonical_uuid_idem: "canonical_uuid s = Some u \<Longrightarrow> canonical_uuid u = Some u"
  by (auto simp: canonical_uuid_def [of s] Let_def nat_less_iff intro!: canonical_uuid_str
      split: if_splits option.splits)

end
