(* ===== verification/QueueCodec.thy ===== *)
theory QueueCodec
  imports Uuids "HOL-Library.Multiset"
begin

section \<open>Queue state and records as text (\<open>jobs/segmented_queue.py\<close>)\<close>

text \<open>
  The limits of a segmented maintenance queue, its state (kept as JSON in an extended attribute) and
  its records (one JSON file each): how they are encoded, and every check made when they are read
  back.  \<open>json.dumps(sort_keys=True)\<close> is shown to be the plain encoding of the value with sorted keys,
  so that what the queue writes it reads back.
\<close>

datatype lane = Ready | Deferred | Held

definition all_lanes :: "lane list" where "all_lanes = [Ready, Deferred, Held]"

fun lane_name :: "lane \<Rightarrow> string" where
  "lane_name Ready = ''ready''"
| "lane_name Deferred = ''deferred''"
| "lane_name Held = ''held''"

instantiation lane :: linorder
begin

fun lane_priority :: "lane \<Rightarrow> nat" where
  "lane_priority Ready = 0"
| "lane_priority Deferred = 1"
| "lane_priority Held = 2"

definition less_eq_lane :: "lane \<Rightarrow> lane \<Rightarrow> bool" where
  "less_eq_lane a b \<longleftrightarrow> lane_priority a \<le> lane_priority b"

definition less_lane :: "lane \<Rightarrow> lane \<Rightarrow> bool" where
  "less_lane a b \<longleftrightarrow> lane_priority a < lane_priority b"

instance
proof
  fix a b c :: lane
  show "(a < b) = (a \<le> b \<and> \<not> b \<le> a)" by (auto simp: less_lane_def less_eq_lane_def)
  show "a \<le> a" by (simp add: less_eq_lane_def)
  show "a \<le> b \<Longrightarrow> b \<le> c \<Longrightarrow> a \<le> c" by (simp add: less_eq_lane_def)
  show "a \<le> b \<Longrightarrow> b \<le> a \<Longrightarrow> a = b" by (cases a; cases b) (simp_all add: less_eq_lane_def)
  show "a \<le> b \<or> b \<le> a" by (auto simp: less_eq_lane_def)
qed

end

record QueueLimits =
  segment_size :: nat
  max_segments :: nat
  max_records :: nat
  max_record_bytes :: nat
  record_max_bytes :: nat
  state_max_bytes :: nat
  reconcile_max_mutations :: nat

definition capacity :: "QueueLimits \<Rightarrow> nat" where
  "capacity lim = segment_size lim * max_segments lim"

datatype queue_error = QueueCapacityError string | QueueError string

record LaneState =
  headCursor :: nat
  writeCursor :: nat
  ls_count :: nat
  ls_bytes :: nat
  ls_segments :: nat

record QueueState =
  nextSequence :: nat
  capacityEvents :: nat
  lanes :: "lane \<Rightarrow> LaneState"

definition empty_lane :: LaneState where
  "empty_lane = \<lparr>headCursor = 0, writeCursor = 0, ls_count = 0, ls_bytes = 0, ls_segments = 0\<rparr>"

definition initial_state :: QueueState where
  "initial_state = \<lparr>nextSequence = 0, capacityEvents = 0, lanes = (\<lambda>_. empty_lane)\<rparr>"

subsection \<open>Sorted keys\<close>

fun sort_keys :: "pyval \<Rightarrow> pyval" where
  "sort_keys (VList vs) = VList (map sort_keys vs)"
| "sort_keys (VTuple vs) = VTuple (map sort_keys vs)"
| "sort_keys (VDict kvs) =
     VDict (sort_key (\<lambda>kv. key_text (fst kv)) (map (\<lambda>(k, v). (k, sort_keys v)) kvs))"
| "sort_keys v = v"

lemma sort_key_map: "sort_key f (map g xs) = map g (sort_key (f \<circ> g) xs)"
proof -
  have "insort_key f (g x) (map g ys) = map g (insort_key (f \<circ> g) x ys)" for x ys
    by (induction ys) auto
  then show ?thesis by (induction xs) auto
qed

lemma dumps_sorted_eq: "dumps True isep ksep v = dumps False isep ksep (sort_keys v)"
proof (induction v)
  case (VDict kvs)
  have "map (\<lambda>(k, v). (key_text k, quoted (key_text k) @ ksep @ dumps True isep ksep v)) kvs =
      map (\<lambda>(k, v). (key_text k, quoted (key_text k) @ ksep @ dumps False isep ksep v))
        (map (\<lambda>(k, v). (k, sort_keys v)) kvs)"
    using VDict by (auto simp: snds.simps)
  then show ?case by (simp add: Let_def sort_key_map comp_def split_def cong: map_cong)
qed (simp_all cong: map_cong)

lemma jsonable_sort_keys: "jsonable v \<Longrightarrow> jsonable (sort_keys v)"
proof (induction v)
  case (VDict kvs)
  have fst_eq: "map fst (map (\<lambda>(k, v). (k, sort_keys v)) kvs) = map fst kvs" by (simp add: split_def comp_def)
  have d: "distinct (map fst (sort_key f xs)) = distinct (map fst xs)" for f :: "pykey \<times> pyval \<Rightarrow> string" and xs
    by (intro mset_eq_imp_distinct_iff) simp
  then have "distinct (map fst (sort_key (\<lambda>kv. key_text (fst kv)) (map (\<lambda>(k, v). (k, sort_keys v)) kvs)))"
    using VDict.prems by (simp only: d fst_eq jsonable.simps)
  moreover have "\<forall>kv\<in>set kvs. jsonable (sort_keys (snd kv))"
    using VDict by (auto simp: snds.simps)
  ultimately show ?case using VDict.prems by auto
qed simp_all

text \<open>What \<open>dumps(sort_keys=True)\<close> wrote is read back as the value with its keys sorted.\<close>

lemma loads_dumps_sorted: "jsonable v \<Longrightarrow> loads (dumps_sorted v) = Some (sort_keys v)"
  using loads_dumps [OF jsonable_sort_keys, of v]
  by (simp add: dumps_sorted_def dumps_compact_def dumps_sorted_eq)

subsection \<open>The state\<close>

definition str_key :: "string \<Rightarrow> pykey" where "str_key k = KStr k"

definition num :: "nat \<Rightarrow> pyval" where "num n = VInt (int n)"

definition lane_value :: "LaneState \<Rightarrow> pyval" where
  "lane_value ls = VDict
     [(KStr ''headCursor'', num (headCursor ls)), (KStr ''writeCursor'', num (writeCursor ls)),
      (KStr ''count'', num (ls_count ls)), (KStr ''bytes'', num (ls_bytes ls)),
      (KStr ''segments'', num (ls_segments ls))]"

definition state_value :: "QueueState \<Rightarrow> pyval" where
  "state_value st = VDict
     [(KStr ''version'', VInt 3), (KStr ''nextSequence'', num (nextSequence st)),
      (KStr ''capacityEvents'', num (capacityEvents st)),
      (KStr ''lanes'', VDict (map (\<lambda>l. (KStr (lane_name l), lane_value (lanes st l))) all_lanes))]"

definition encode_state :: "QueueState \<Rightarrow> nat \<Rightarrow> queue_error + string" where
  "encode_state st max_bytes =
     (let payload = dumps_sorted (state_value st) in
      if max_bytes < length payload
      then Inl (QueueError ''maintenance queue state exceeds its byte limit'')
      else Inr payload)"

text \<open>\<open>isinstance(value, int)\<close>, which a \<open>bool\<close> satisfies, and its value.\<close>

definition as_int :: "pyval \<Rightarrow> int option" where
  "as_int v = (case v of VInt i \<Rightarrow> Some i | VBool b \<Rightarrow> Some (if b then 1 else 0) | _ \<Rightarrow> None)"

definition natural :: "pyval option \<Rightarrow> nat option" where
  "natural v = (case v of None \<Rightarrow> None
     | Some x \<Rightarrow> (case as_int x of Some i \<Rightarrow> if 0 \<le> i then Some (nat i) else None | None \<Rightarrow> None))"

definition get :: "(pykey \<times> pyval) list \<Rightarrow> string \<Rightarrow> pyval option" where
  "get kvs k = map_of kvs (KStr k)"

definition version_is :: "int \<Rightarrow> pyval option \<Rightarrow> bool" where
  "version_is n v = (case v of None \<Rightarrow> False | Some x \<Rightarrow> as_int x = Some n)"

definition lane_fields :: "string list" where
  "lane_fields = [''headCursor'', ''writeCursor'', ''count'', ''bytes'', ''segments'']"

definition decode_lane :: "QueueLimits \<Rightarrow> pyval option \<Rightarrow> LaneState option" where
  "decode_lane lim v = (case v of
     Some (VDict kvs) \<Rightarrow>
       if fst ` set kvs \<noteq> KStr ` set lane_fields then None
       else (case map (\<lambda>f. natural (get kvs f)) lane_fields of
           [Some h, Some w, Some c, Some b, Some s] \<Rightarrow>
             if capacity lim \<le> h \<or> capacity lim \<le> w \<or> max_records lim < c \<or>
                max_record_bytes lim < b \<or> max_segments lim < s
             then None
             else Some \<lparr>headCursor = h, writeCursor = w, ls_count = c, ls_bytes = b, ls_segments = s\<rparr>
         | _ \<Rightarrow> None)
   | _ \<Rightarrow> None)"

definition decode_state_value :: "QueueLimits \<Rightarrow> pyval \<Rightarrow> QueueState option" where
  "decode_state_value lim v = (case v of
     VDict kvs \<Rightarrow>
       if \<not> version_is 3 (get kvs ''version'') then None
       else (case (natural (get kvs ''nextSequence''), natural (get kvs ''capacityEvents''), get kvs ''lanes'') of
           (Some n, Some e, Some (VDict ls)) \<Rightarrow>
             if fst ` set ls \<noteq> KStr ` lane_name ` set all_lanes then None
             else (case (decode_lane lim (get ls ''ready''), decode_lane lim (get ls ''deferred''),
                         decode_lane lim (get ls ''held'')) of
                 (Some r, Some d, Some h) \<Rightarrow>
                   Some \<lparr>nextSequence = n, capacityEvents = e, lanes = case_lane r d h\<rparr>
               | _ \<Rightarrow> None)
         | _ \<Rightarrow> None)
   | _ \<Rightarrow> None)"

definition decode_state :: "QueueLimits \<Rightarrow> string option \<Rightarrow> queue_error + QueueState" where
  "decode_state lim payload = (case payload of
     None \<Rightarrow> Inl (QueueError ''maintenance queue state is unavailable'')
   | Some t \<Rightarrow> (case loads t of
       None \<Rightarrow> Inl (QueueError ''maintenance queue state is invalid'')
     | Some v \<Rightarrow> (case decode_state_value lim v of
         None \<Rightarrow> Inl (QueueError ''maintenance queue state is invalid'')
       | Some st \<Rightarrow> Inr st)))"

definition state_in_range :: "QueueLimits \<Rightarrow> QueueState \<Rightarrow> bool" where
  "state_in_range lim st \<longleftrightarrow> (\<forall>l. headCursor (lanes st l) < capacity lim \<and>
     writeCursor (lanes st l) < capacity lim \<and> ls_count (lanes st l) \<le> max_records lim \<and>
     ls_bytes (lanes st l) \<le> max_record_bytes lim \<and> ls_segments (lanes st l) \<le> max_segments lim)"

lemma as_int_num [simp]: "as_int (num n) = Some (int n)" "natural (Some (num n)) = Some n"
  by (simp_all add: num_def as_int_def natural_def)

lemma string_less [simp]: "(a # s \<le> b # t) = (code a < code b \<or> a = b \<and> s \<le> (t :: string))"
  by (auto simp: code_def less_char_def)

lemma sorted_lane_value:
  "sort_keys (lane_value ls) = VDict
     [(KStr ''bytes'', num (ls_bytes ls)), (KStr ''count'', num (ls_count ls)),
      (KStr ''headCursor'', num (headCursor ls)), (KStr ''segments'', num (ls_segments ls)),
      (KStr ''writeCursor'', num (writeCursor ls))]"
  by (simp add: lane_value_def num_def key_text_def code_def)

lemma jsonable_state: "jsonable (state_value st)"
  by (simp add: state_value_def lane_value_def num_def all_lanes_def)

lemma decode_lane_value:
  assumes "state_in_range lim st"
  shows "decode_lane lim (Some (sort_keys (lane_value (lanes st l)))) = Some (lanes st l)"
  using assms unfolding sorted_lane_value decode_lane_def
  by (auto simp: lane_fields_def get_def state_in_range_def not_le [symmetric])

lemma sorted_state_value:
  "sort_keys (state_value st) = VDict
     [(KStr ''capacityEvents'', num (capacityEvents st)),
      (KStr ''lanes'', VDict
        [(KStr ''deferred'', sort_keys (lane_value (lanes st Deferred))),
         (KStr ''held'', sort_keys (lane_value (lanes st Held))),
         (KStr ''ready'', sort_keys (lane_value (lanes st Ready)))]),
      (KStr ''nextSequence'', num (nextSequence st)), (KStr ''version'', VInt 3)]"
  unfolding state_value_def all_lanes_def
  by (simp add: num_def key_text_def code_def)

lemma decode_encode_state:
  assumes "encode_state st n = Inr t" "state_in_range lim st"
  shows "decode_state lim (Some t) = Inr st"
proof -
  have t: "t = dumps_sorted (state_value st)"
    using assms(1) by (auto simp: encode_state_def Let_def split: if_splits)
  have lanes: "case_lane (lanes st Ready) (lanes st Deferred) (lanes st Held) = lanes st"
    by (rule ext) (simp split: lane.split)
  have "decode_state_value lim (sort_keys (state_value st)) = Some st"
    unfolding sorted_state_value decode_state_value_def
    using decode_lane_value [OF assms(2)] lanes
    by (auto simp: get_def version_is_def as_int_def all_lanes_def)
  then show ?thesis
    by (simp add: decode_state_def t loads_dumps_sorted [OF jsonable_state])
qed

lemma decode_lane_range:
  "decode_lane lim v = Some ls \<Longrightarrow> headCursor ls < capacity lim \<and> writeCursor ls < capacity lim \<and>
     ls_count ls \<le> max_records lim \<and> ls_bytes ls \<le> max_record_bytes lim \<and> ls_segments ls \<le> max_segments lim"
  by (auto simp: decode_lane_def split: option.splits pyval.splits if_splits list.splits)

lemma decode_state_range: "decode_state lim p = Inr st \<Longrightarrow> state_in_range lim st"
  by (auto simp: decode_state_def decode_state_value_def state_in_range_def
      dest!: decode_lane_range split: option.splits pyval.splits if_splits lane.splits)

subsection \<open>The records\<close>

type_synonym qrecord = "(pykey \<times> pyval) list"

definition rec_id :: "qrecord \<Rightarrow> string" where
  "rec_id r = (case get r ''recordId'' of Some (VStr s) \<Rightarrow> s | _ \<Rightarrow> [])"

definition rec_generation :: "qrecord \<Rightarrow> nat" where
  "rec_generation r = (case natural (get r ''generation'') of Some n \<Rightarrow> n | None \<Rightarrow> 0)"

definition rec_sequence :: "qrecord \<Rightarrow> nat" where
  "rec_sequence r = (case natural (get r ''sequence'') of Some n \<Rightarrow> n | None \<Rightarrow> 0)"

text \<open>\<open>UUID(value)\<close> of a value that may be missing or no text.\<close>

definition uuid_field :: "pyval option \<Rightarrow> string option" where
  "uuid_field v = (case v of Some (VStr s) \<Rightarrow> canonical_uuid s | _ \<Rightarrow> None)"

definition put :: "string \<Rightarrow> pyval \<Rightarrow> qrecord \<Rightarrow> qrecord" where
  "put k v r = dict_put (KStr k) v r"

definition prepare_record :: "qrecord \<Rightarrow> nat \<Rightarrow> string \<Rightarrow> queue_error + qrecord" where
  "prepare_record record_fields sequence_no fresh =
     (case uuid_field (case get record_fields ''recordId'' of None \<Rightarrow> Some (VStr fresh) | Some v \<Rightarrow> Some v) of
        None \<Rightarrow> Inl (QueueError ''maintenance queue record id is invalid'')
      | Some i \<Rightarrow>
          (let generation = coalesce (get record_fields ''generation'') (VInt 0) in
           case natural (Some generation) of
             None \<Rightarrow> Inl (QueueError ''maintenance queue generation is invalid'')
           | Some _ \<Rightarrow> Inr (put ''sequence'' (num sequence_no) (put ''generation'' generation
                (put ''recordId'' (VStr i) (put ''version'' (VInt 2) record_fields))))))"

definition encode_record :: "qrecord \<Rightarrow> nat \<Rightarrow> queue_error + string" where
  "encode_record r max_bytes =
     (let payload = dumps_sorted (VDict r) in
      if max_bytes < length payload
      then Inl (QueueError ''maintenance queue record exceeds its byte limit'')
      else Inr payload)"

definition decode_record :: "string \<Rightarrow> nat \<Rightarrow> queue_error + qrecord" where
  "decode_record payload max_bytes =
     (if max_bytes < length payload
      then Inl (QueueError ''maintenance queue record exceeds its byte limit'')
      else (case loads payload of
          Some (VDict r) \<Rightarrow>
            if \<not> version_is 2 (get r ''version'')
            then Inl (QueueError ''maintenance queue record is invalid'')
            else (case uuid_field (get r ''recordId'') of
                None \<Rightarrow> Inl (QueueError ''maintenance queue record id is invalid'')
              | Some i \<Rightarrow>
                  if natural (get r ''generation'') = None \<or> natural (get r ''sequence'') = None
                  then Inl (QueueError ''maintenance queue record ordering is invalid'')
                  else Inr (put ''recordId'' (VStr i) r))
        | _ \<Rightarrow> Inl (QueueError ''maintenance queue record is invalid'')))"

lemma get_put [simp]: "get (put k v r) k' = (if k' = k then Some v else get r k')"
  by (simp add: get_def put_def)

lemma natural_num [simp]: "natural (Some (VInt 0)) = Some 0" "as_int (VInt i) = Some i"
  by (simp_all add: natural_def as_int_def)

text \<open>A prepared record satisfies every check of the decoder.\<close>

definition record_ok :: "qrecord \<Rightarrow> bool" where
  "record_ok r \<longleftrightarrow> version_is 2 (get r ''version'') \<and>
     (\<exists>i. get r ''recordId'' = Some (VStr i) \<and> canonical_uuid i = Some i) \<and>
     natural (get r ''generation'') \<noteq> None \<and> natural (get r ''sequence'') \<noteq> None"

lemma prepare_record_ok:
  assumes "prepare_record r n fresh = Inr p"
  shows "record_ok p" "rec_sequence p = n"
  using assms
  by (auto simp: prepare_record_def record_ok_def rec_sequence_def version_is_def uuid_field_def
      Let_def canonical_uuid_idem split: option.splits pyval.splits)

lemma map_of_sort_key: "distinct (map fst kvs) \<Longrightarrow> map_of (sort_key f kvs) = map_of kvs"
  by (rule map_of_eqI) (auto simp: map_of_eq_Some_iff distinct_map)

lemma dict_put_same: "map_of d k = Some v \<Longrightarrow> dict_put k v d = d"
  by (induction k v d rule: dict_put.induct) (auto split: if_splits)

lemma get_sorted:
  assumes "jsonable (VDict r)"
  shows "get (sort_key (\<lambda>kv. key_text (fst kv)) (map (\<lambda>(k, v). (k, sort_keys v)) r)) k =
    map_option sort_keys (get r k)"
proof -
  have d: "distinct (map fst (map (\<lambda>(k, v). (k, sort_keys v)) r))"
    using assms by (simp add: split_def comp_def)
  show ?thesis unfolding get_def map_of_sort_key [OF d] by (induction r) auto
qed

lemma sort_keys_leaf [simp]:
  "as_int (sort_keys v) = as_int v" "sort_keys v = VStr s \<longleftrightarrow> v = VStr s"
  by (cases v; simp add: as_int_def)+

lemma natural_sorted [simp]: "natural (map_option sort_keys v) = natural v"
  by (cases v) (simp_all add: natural_def)

lemma uuid_sorted [simp]: "uuid_field (map_option sort_keys v) = uuid_field v"
  by (cases v; cases "the v") (auto simp: uuid_field_def)

lemma decode_encode_record:
  assumes "encode_record r n = Inr t" "jsonable (VDict r)" "record_ok r"
  shows "\<exists>q. decode_record t n = Inr q \<and> VDict q = sort_keys (VDict r) \<and>
    rec_id q = rec_id r \<and> rec_generation q = rec_generation r \<and> rec_sequence q = rec_sequence r"
proof -
  let ?q = "sort_key (\<lambda>kv. key_text (fst kv)) (map (\<lambda>(k, v). (k, sort_keys v)) r)"
  have t: "t = dumps_sorted (VDict r)" "length t \<le> n"
    using assms(1) by (auto simp: encode_record_def Let_def split: if_splits)
  have l: "loads t = Some (VDict ?q)" unfolding t(1) loads_dumps_sorted [OF assms(2)] by simp
  note g = get_sorted [OF assms(2)]
  obtain i where i: "get r ''recordId'' = Some (VStr i)" "canonical_uuid i = Some i"
    using assms(3) by (auto simp: record_ok_def)
  have "get ?q ''recordId'' = Some (VStr i)" using g i(1) by simp
  then have put: "put ''recordId'' (VStr i) ?q = ?q"
    unfolding put_def get_def by (rule dict_put_same)
  have v: "version_is 2 (get ?q ''version'')" using assms(3) unfolding g
    by (auto simp: record_ok_def version_is_def split: option.splits)
  have u: "uuid_field (get ?q ''recordId'') = Some i" unfolding g using i by (simp add: uuid_field_def)
  have n: "natural (get ?q ''generation'') \<noteq> None" "natural (get ?q ''sequence'') \<noteq> None"
    using assms(3) unfolding g by (simp_all add: record_ok_def)
  have "decode_record t n = Inr ?q"
    unfolding decode_record_def l using t(2) v u n put by simp
  moreover have "rec_id ?q = rec_id r" unfolding rec_id_def g by (simp add: i(1))
  moreover have "rec_generation ?q = rec_generation r" unfolding rec_generation_def g by simp
  moreover have "rec_sequence ?q = rec_sequence r" unfolding rec_sequence_def g by simp
  ultimately show ?thesis by simp
qed

end
