(* ===== verification/SegmentedQueue.thy ===== *)
theory SegmentedQueue
  imports QueueCodec
begin

section \<open>The segmented maintenance queue (\<open>jobs/segmented_queue.py\<close>)\<close>

text \<open>
  A queue directory with three lanes.  A lane holds segment directories, a segment numbered slot files
  (\<open>NNN.json\<close>) and, while a record is being written, temporary files (\<open>NNN.json.tmp\<close>); the state is an
  extended attribute of the queue directory.  Cursors number the slots of all segments of a lane and
  wrap around at its capacity.  Every operation is a function from the files to its result and the
  files it leaves; an operation that raises leaves what it had written.  Opening a directory that
  exists, reading and syncing do not fail; entries with foreign names are not modelled.
\<close>

type_synonym location = "nat \<times> nat"

record lane_fs =
  dirs :: "nat list"
  slots :: "(location \<times> string) list"
  temps :: "(location \<times> string) list"

record queue_fs =
  q_state :: "string option"
  q_lanes :: "lane \<Rightarrow> lane_fs"

record QueueItem =
  qi_lane :: lane
  qi_segment :: nat
  qi_slot :: nat
  qi_record :: qrecord

record ObservedItem =
  ob_lane :: lane
  ob_segment :: nat
  ob_slot :: nat
  ob_record :: qrecord
  ob_size :: nat

definition empty_fs :: lane_fs where
  "empty_fs = \<lparr>dirs = [], slots = [], temps = []\<rparr>"

definition locate :: "QueueLimits \<Rightarrow> nat \<Rightarrow> location" where
  "locate lim cursor = (cursor div segment_size lim, cursor mod segment_size lim)"

definition without :: "location \<Rightarrow> (location \<times> string) list \<Rightarrow> (location \<times> string) list" where
  "without loc files = filter (\<lambda>f. fst f \<noteq> loc) files"

definition set_lane :: "lane \<Rightarrow> lane_fs \<Rightarrow> queue_fs \<Rightarrow> queue_fs" where
  "set_lane l lf fs = fs\<lparr>q_lanes := (q_lanes fs)(l := lf)\<rparr>"

subsection \<open>State, slots and segments\<close>

definition read_state :: "QueueLimits \<Rightarrow> queue_fs \<Rightarrow> queue_error + QueueState" where
  "read_state lim fs = decode_state lim (q_state fs)"

definition write_state :: "QueueLimits \<Rightarrow> QueueState \<Rightarrow> queue_fs \<Rightarrow> queue_error option \<times> queue_fs" where
  "write_state lim st fs =
     (case encode_state st (state_max_bytes lim) of
        Inl e \<Rightarrow> (Some e, fs)
      | Inr payload \<Rightarrow> (None, fs\<lparr>q_state := Some payload\<rparr>))"

definition read_slot :: "QueueLimits \<Rightarrow> lane_fs \<Rightarrow> location \<Rightarrow> queue_error + (qrecord \<times> nat) option" where
  "read_slot lim lf loc =
     (case map_of (slots lf) loc of
        None \<Rightarrow> Inr None
      | Some payload \<Rightarrow>
          if record_max_bytes lim < length payload
          then Inl (QueueError ''maintenance queue slot is invalid'')
          else (case decode_record payload (record_max_bytes lim) of
              Inl e \<Rightarrow> Inl e
            | Inr r \<Rightarrow> Inr (Some (r, length payload))))"

text \<open>The loop over the directory entries, with the names read so far.\<close>

fun scan_segments :: "QueueLimits \<Rightarrow> nat list \<Rightarrow> nat list \<Rightarrow> queue_error + nat list" where
  "scan_segments lim found [] = Inr found"
| "scan_segments lim found (number # entries) =
     (if max_segments lim \<le> length found
      then Inl (QueueCapacityError ''maintenance queue segment limit is exhausted'')
      else if max_segments lim \<le> number then Inl (QueueError ''maintenance queue segment is invalid'')
      else scan_segments lim (found @ [number]) entries)"

definition segment_names :: "QueueLimits \<Rightarrow> lane_fs \<Rightarrow> queue_error + nat list" where
  "segment_names lim lf = scan_segments lim [] (dirs lf)"

definition count_segments :: "QueueLimits \<Rightarrow> lane_fs \<Rightarrow> queue_error + nat" where
  "count_segments lim lf = (case segment_names lim lf of Inl e \<Rightarrow> Inl e | Inr names \<Rightarrow> Inr (length names))"

subsection \<open>Searching\<close>

text \<open>The first record found over a list of places; an unreadable slot raises.\<close>

fun first_found :: "('p \<Rightarrow> queue_error + 'a option) \<Rightarrow> 'p list \<Rightarrow> queue_error + 'a option" where
  "first_found f [] = Inr None"
| "first_found f (p # ps) =
     (case f p of Inl e \<Rightarrow> Inl e | Inr (Some x) \<Rightarrow> Inr (Some x) | Inr None \<Rightarrow> first_found f ps)"

text \<open>The slot at a cursor, when its segment exists.\<close>

definition slot_at :: "QueueLimits \<Rightarrow> lane_fs \<Rightarrow> nat \<Rightarrow> queue_error + (qrecord \<times> nat) option" where
  "slot_at lim lf cursor =
     (if fst (locate lim cursor) \<notin> set (dirs lf) then Inr None else read_slot lim lf (locate lim cursor))"

definition item_at :: "QueueLimits \<Rightarrow> lane \<Rightarrow> nat \<Rightarrow> qrecord \<Rightarrow> QueueItem" where
  "item_at lim l cursor r = \<lparr>qi_lane = l, qi_segment = fst (locate lim cursor),
     qi_slot = snd (locate lim cursor), qi_record = r\<rparr>"

definition ring :: "QueueLimits \<Rightarrow> nat \<Rightarrow> nat list" where
  "ring lim start = map (\<lambda>k. (start + k) mod capacity lim) [0..<capacity lim]"

definition find_item :: "QueueLimits \<Rightarrow> lane_fs \<Rightarrow> lane \<Rightarrow> nat \<Rightarrow> queue_error + QueueItem option" where
  "find_item lim lf l start =
     first_found (\<lambda>cursor. case slot_at lim lf cursor of
         Inl e \<Rightarrow> Inl e
       | Inr None \<Rightarrow> Inr None
       | Inr (Some (r, n)) \<Rightarrow> Inr (Some (item_at lim l cursor r)))
     (ring lim start)"

definition find_record_id ::
  "QueueLimits \<Rightarrow> queue_fs \<Rightarrow> string \<Rightarrow> nat option \<Rightarrow> lane option \<Rightarrow> queue_error + QueueItem option" where
  "find_record_id lim fs record_id generation only =
     first_found (\<lambda>(l, cursor). case slot_at lim (q_lanes fs l) cursor of
         Inl e \<Rightarrow> Inl e
       | Inr None \<Rightarrow> Inr None
       | Inr (Some (r, n)) \<Rightarrow>
           if rec_id r = record_id \<and> (generation = None \<or> generation = Some (rec_generation r))
           then Inr (Some (item_at lim l cursor r)) else Inr None)
     (List.product (case only of Some l \<Rightarrow> [l] | None \<Rightarrow> all_lanes) [0..<capacity lim])"

subsection \<open>Enqueue\<close>

text \<open>The loop over the cursors from the write cursor: a segment is created when missing, a slot whose
  temporary file or whose record exists is passed over.  The result is the cursor of the new record.\<close>

fun place :: "QueueLimits \<Rightarrow> string \<Rightarrow> nat list \<Rightarrow> lane_fs \<Rightarrow> nat option \<times> lane_fs" where
  "place lim payload [] lf = (None, lf)"
| "place lim payload (cursor # cursors) lf =
     (let loc = locate lim cursor;
          lf = (if fst loc \<in> set (dirs lf) then lf else lf\<lparr>dirs := dirs lf @ [fst loc]\<rparr>)
      in if map_of (temps lf) loc \<noteq> None then place lim payload cursors lf
         else if map_of (slots lf) loc \<noteq> None then place lim payload cursors lf
         else (Some cursor, lf\<lparr>slots := slots lf @ [(loc, payload)]\<rparr>))"

definition total :: "(LaneState \<Rightarrow> nat) \<Rightarrow> QueueState \<Rightarrow> nat" where
  "total f st = sum_list (map (\<lambda>l. f (lanes st l)) all_lanes)"

definition refuse_capacity ::
  "QueueLimits \<Rightarrow> QueueState \<Rightarrow> string \<Rightarrow> queue_fs \<Rightarrow> (queue_error + 'a) \<times> queue_fs" where
  "refuse_capacity lim st message fs =
     (case write_state lim (st\<lparr>capacityEvents := capacityEvents st + 1\<rparr>) fs of
        (Some e, fs') \<Rightarrow> (Inl e, fs')
      | (None, fs') \<Rightarrow> (Inl (QueueCapacityError message), fs'))"

definition placed_lane :: "QueueLimits \<Rightarrow> nat \<Rightarrow> nat \<Rightarrow> nat \<Rightarrow> LaneState \<Rightarrow> LaneState" where
  "placed_lane lim cursor written segments ls = ls\<lparr>ls_count := ls_count ls + 1, ls_bytes := ls_bytes ls + written,
     headCursor := (if ls_count ls + 1 = 1 then cursor else headCursor ls),
     writeCursor := (cursor + 1) mod capacity lim, ls_segments := segments\<rparr>"

definition put_lane :: "lane \<Rightarrow> LaneState \<Rightarrow> QueueState \<Rightarrow> QueueState" where
  "put_lane l ls st = st\<lparr>lanes := (lanes st)(l := ls)\<rparr>"

text \<open>The existing record that makes an enqueue a no-op, when deduplication is asked for.\<close>

definition duplicate ::
  "QueueLimits \<Rightarrow> queue_fs \<Rightarrow> lane \<Rightarrow> qrecord \<Rightarrow> qrecord \<Rightarrow> bool \<Rightarrow> bool \<Rightarrow> queue_error + QueueItem option" where
  "duplicate lim fs l record_fields prepared deduplicate deduplicate_generation =
     (if deduplicate \<and> get record_fields ''recordId'' \<noteq> None
      then find_record_id lim fs (rec_id prepared) None None
      else if deduplicate_generation
      then find_record_id lim fs (rec_id prepared) (Some (rec_generation prepared)) (Some l)
      else Inr None)"

definition insert_record ::
  "QueueLimits \<Rightarrow> QueueState \<Rightarrow> lane \<Rightarrow> qrecord \<Rightarrow> string \<Rightarrow> queue_fs \<Rightarrow> (queue_error + QueueItem) \<times> queue_fs" where
  "insert_record lim st l prepared payload fs =
     (if max_records lim \<le> total ls_count st \<or> max_record_bytes lim < total ls_bytes st + length payload
      then refuse_capacity lim st ''maintenance queue capacity is exhausted'' fs
      else
        (case place lim payload (ring lim (writeCursor (lanes st l))) (q_lanes fs l) of
           (None, lf) \<Rightarrow> refuse_capacity lim st ''maintenance queue has no free slot'' (set_lane l lf fs)
         | (Some cursor, lf) \<Rightarrow>
             (case count_segments lim lf of
                Inl e \<Rightarrow> (Inl e, set_lane l lf fs)
              | Inr segments \<Rightarrow>
                  (case write_state lim
                      (put_lane l (placed_lane lim cursor (length payload) segments (lanes st l))
                        st\<lparr>nextSequence := nextSequence st + 1\<rparr>) (set_lane l lf fs) of
                     (Some e, fs') \<Rightarrow> (Inl e, fs')
                   | (None, fs') \<Rightarrow> (Inr (item_at lim l cursor prepared), fs')))))"

definition enqueue ::
  "QueueLimits \<Rightarrow> lane \<Rightarrow> qrecord \<Rightarrow> bool \<Rightarrow> bool \<Rightarrow> string \<Rightarrow> queue_fs \<Rightarrow>
     (queue_error + QueueItem) \<times> queue_fs" where
  "enqueue lim l record_fields deduplicate deduplicate_generation fresh fs =
     (case read_state lim fs of
        Inl e \<Rightarrow> (Inl e, fs)
      | Inr st \<Rightarrow>
          (case prepare_record record_fields (nextSequence st) fresh of
             Inl e \<Rightarrow> (Inl e, fs)
           | Inr prepared \<Rightarrow>
               (case duplicate lim fs l record_fields prepared deduplicate deduplicate_generation of
                  Inl e \<Rightarrow> (Inl e, fs)
                | Inr (Some existing) \<Rightarrow> (Inr existing, fs)
                | Inr None \<Rightarrow>
                    (case encode_record prepared (record_max_bytes lim) of
                       Inl e \<Rightarrow> (Inl e, fs)
                     | Inr payload \<Rightarrow> insert_record lim st l prepared payload fs))))"

subsection \<open>Reconcile\<close>

text \<open>The running state of a reconciliation: the files, the mutations counted and the records seen.
  A step returns the error that stops it, if any.\<close>

record reconciling =
  rc_fs :: queue_fs
  rc_mutations :: nat
  rc_observed :: "ObservedItem list"

type_synonym rstep = "reconciling \<Rightarrow> queue_error option \<times> reconciling"

fun run_steps :: "rstep list \<Rightarrow> rstep" where
  "run_steps [] s = (None, s)"
| "run_steps (f # fs) s = (case f s of (Some e, s') \<Rightarrow> (Some e, s') | (None, s') \<Rightarrow> run_steps fs s')"

definition mutate :: "nat \<Rightarrow> reconciling \<Rightarrow> reconciling" where
  "mutate n s = s\<lparr>rc_mutations := rc_mutations s + n\<rparr>"

definition check_budget :: "QueueLimits \<Rightarrow> rstep" where
  "check_budget lim s =
     (if reconcile_max_mutations lim < rc_mutations s
      then (Some (QueueError ''maintenance queue reconcile budget is exhausted''), s) else (None, s))"

definition change_lane :: "lane \<Rightarrow> (lane_fs \<Rightarrow> lane_fs) \<Rightarrow> reconciling \<Rightarrow> reconciling" where
  "change_lane l f s = s\<lparr>rc_fs := set_lane l (f (q_lanes (rc_fs s) l)) (rc_fs s)\<rparr>"

definition remove_temp :: "lane \<Rightarrow> location \<Rightarrow> rstep" where
  "remove_temp l loc s =
     (None, if map_of (temps (q_lanes (rc_fs s) l)) loc = None then s
            else mutate 1 (change_lane l (\<lambda>lf. lf\<lparr>temps := without loc (temps lf)\<rparr>) s))"

definition observe :: "QueueLimits \<Rightarrow> lane \<Rightarrow> location \<Rightarrow> rstep" where
  "observe lim l loc s =
     (case read_slot lim (q_lanes (rc_fs s) l) loc of
        Inl e \<Rightarrow> (Some e, s)
      | Inr None \<Rightarrow> (None, s)
      | Inr (Some (r, n)) \<Rightarrow>
          (let s' = s\<lparr>rc_observed := rc_observed s @ [\<lparr>ob_lane = l, ob_segment = fst loc,
                       ob_slot = snd loc, ob_record = r, ob_size = n\<rparr>]\<rparr>
           in if max_records lim < length (rc_observed s')
              then (Some (QueueCapacityError ''maintenance queue record limit is exhausted''), s')
              else (None, s')))"

definition has_temp :: "QueueLimits \<Rightarrow> nat \<Rightarrow> lane_fs \<Rightarrow> bool" where
  "has_temp lim seg lf \<longleftrightarrow> (\<exists>k\<in>set [0..<segment_size lim]. map_of (temps lf) (seg, k) \<noteq> None)"

text \<open>One segment: temporary files are removed, records read; a removal costs one mutation more.\<close>

definition scan_segment :: "QueueLimits \<Rightarrow> lane \<Rightarrow> nat \<Rightarrow> rstep" where
  "scan_segment lim l seg s =
     (case run_steps (concat (map (\<lambda>k. [remove_temp l (seg, k), observe lim l (seg, k)])
                       [0..<segment_size lim])) s of
        (Some e, s') \<Rightarrow> (Some e, s')
      | (None, s') \<Rightarrow> if has_temp lim seg (q_lanes (rc_fs s) l) then check_budget lim (mutate 1 s')
                      else (None, s'))"

definition scan_lane :: "QueueLimits \<Rightarrow> lane \<Rightarrow> rstep" where
  "scan_lane lim l s =
     (case segment_names lim (q_lanes (rc_fs s) l) of
        Inl e \<Rightarrow> (Some e, s)
      | Inr names \<Rightarrow> run_steps (map (scan_segment lim l) names) s)"

text \<open>The winners: for every record identifier the record of the highest generation, sequence and
  lane; the first seen wins a tie.\<close>

definition rank :: "ObservedItem \<Rightarrow> nat \<times> nat \<times> nat" where
  "rank i = (rec_generation (ob_record i), rec_sequence (ob_record i), lane_priority (ob_lane i))"

definition better :: "ObservedItem \<Rightarrow> (string \<times> ObservedItem) list \<Rightarrow> (string \<times> ObservedItem) list" where
  "better i winners =
     (case map_of winners (rec_id (ob_record i)) of
        None \<Rightarrow> dict_put (rec_id (ob_record i)) i winners
      | Some w \<Rightarrow> if rank w < rank i then dict_put (rec_id (ob_record i)) i winners else winners)"

definition winners_of :: "ObservedItem list \<Rightarrow> (string \<times> ObservedItem) list" where
  "winners_of observed = fold better observed []"

definition place_of :: "ObservedItem \<Rightarrow> lane \<times> location" where
  "place_of i = (ob_lane i, ob_segment i, ob_slot i)"

definition remove_loser :: "QueueLimits \<Rightarrow> (lane \<times> location) set \<Rightarrow> ObservedItem \<Rightarrow> rstep" where
  "remove_loser lim kept i s =
     (if place_of i \<in> kept then (None, s)
      else
        (case read_slot lim (q_lanes (rc_fs s) (ob_lane i)) (ob_segment i, ob_slot i) of
           Inl e \<Rightarrow> (Some e, s)
         | Inr None \<Rightarrow> (None, s)
         | Inr (Some (r, n)) \<Rightarrow>
             if rec_id r \<noteq> rec_id (ob_record i) \<or> rec_generation r \<noteq> rec_generation (ob_record i)
             then (Some (QueueError ''maintenance queue slot changed during reconcile''), s)
             else check_budget lim (mutate 2 (change_lane (ob_lane i)
                    (\<lambda>lf. lf\<lparr>slots := without (ob_segment i, ob_slot i) (slots lf)\<rparr>) s))))"

text \<open>A segment without a record is removed; a directory that still holds a file cannot be.\<close>

definition remove_segment :: "QueueLimits \<Rightarrow> lane \<Rightarrow> nat \<Rightarrow> rstep" where
  "remove_segment lim l seg s =
     (let lf = q_lanes (rc_fs s) l in
      case first_found (\<lambda>k. read_slot lim lf (seg, k)) [0..<segment_size lim] of
        Inl e \<Rightarrow> (Some e, s)
      | Inr (Some _) \<Rightarrow> (None, s)
      | Inr None \<Rightarrow>
          if seg \<in> fst ` fst ` set (slots lf) \<or> seg \<in> fst ` fst ` set (temps lf)
          then (Some (QueueError ''Directory not empty''), s)
          else check_budget lim (mutate 2 (change_lane l
                 (\<lambda>lf. lf\<lparr>dirs := filter (\<lambda>d. d \<noteq> seg) (dirs lf)\<rparr>) s)))"

definition clean_lane :: "QueueLimits \<Rightarrow> lane \<Rightarrow> rstep" where
  "clean_lane lim l s =
     (case segment_names lim (q_lanes (rc_fs s) l) of
        Inl e \<Rightarrow> (Some e, s)
      | Inr names \<Rightarrow>
          (case run_steps (map (remove_segment lim l) names) s of
             (Some e, s') \<Rightarrow> (Some e, s')
           | (None, s') \<Rightarrow> (case count_segments lim (q_lanes (rc_fs s') l) of
                 Inl e \<Rightarrow> (Some e, s') | Inr _ \<Rightarrow> (None, s'))))"

definition lane_winners :: "lane \<Rightarrow> (string \<times> ObservedItem) list \<Rightarrow> ObservedItem list" where
  "lane_winners l winners =
     sort_key (\<lambda>i. rec_sequence (ob_record i)) (filter (\<lambda>i. ob_lane i = l) (map snd winners))"

definition cursor_of :: "QueueLimits \<Rightarrow> ObservedItem \<Rightarrow> nat" where
  "cursor_of lim i = ob_segment i * segment_size lim + ob_slot i"

definition rebuilt_lane :: "QueueLimits \<Rightarrow> ObservedItem list \<Rightarrow> nat \<Rightarrow> LaneState" where
  "rebuilt_lane lim items segments =
     \<lparr>headCursor = (if items = [] then 0 else cursor_of lim (hd items)),
      writeCursor = (if items = [] then 0 else (cursor_of lim (last items) + 1) mod capacity lim),
      ls_count = length items, ls_bytes = sum_list (map ob_size items), ls_segments = segments\<rparr>"

definition rebuilt_state ::
  "QueueLimits \<Rightarrow> nat \<Rightarrow> (string \<times> ObservedItem) list \<Rightarrow> queue_fs \<Rightarrow> QueueState" where
  "rebuilt_state lim events winners fs =
     \<lparr>nextSequence = fold max (map (\<lambda>(_, i). rec_sequence (ob_record i) + 1) winners) 0,
      capacityEvents = events,
      lanes = (\<lambda>l. rebuilt_lane lim (lane_winners l winners) (length (dirs (q_lanes fs l))))\<rparr>"

definition reconcile :: "QueueLimits \<Rightarrow> queue_fs \<Rightarrow> queue_error option \<times> queue_fs" where
  "reconcile lim fs =
     (case read_state lim fs of
        Inl e \<Rightarrow> (Some e, fs)
      | Inr previous \<Rightarrow>
          (case run_steps (map (scan_lane lim) all_lanes)
              \<lparr>rc_fs = fs, rc_mutations = 0, rc_observed = []\<rparr> of
             (Some e, s) \<Rightarrow> (Some e, rc_fs s)
           | (None, s) \<Rightarrow>
               (let winners = winners_of (rc_observed s);
                    kept = set (map (place_of \<circ> snd) winners)
                in case run_steps (map (remove_loser lim kept) (rc_observed s) @
                                   map (clean_lane lim) all_lanes) s of
                     (Some e, s') \<Rightarrow> (Some e, rc_fs s')
                   | (None, s') \<Rightarrow>
                       (let rebuilt = rebuilt_state lim (capacityEvents previous) winners (rc_fs s') in
                        if max_record_bytes lim < total ls_bytes rebuilt
                        then (Some (QueueCapacityError ''maintenance queue byte limit is exhausted''),
                              rc_fs s')
                        else write_state lim rebuilt (rc_fs s')))))"

subsection \<open>Peek, complete, counts, ensure\<close>

definition peek :: "QueueLimits \<Rightarrow> lane \<Rightarrow> queue_fs \<Rightarrow> (queue_error + QueueItem option) \<times> queue_fs" where
  "peek lim l fs =
     (case read_state lim fs of
        Inl e \<Rightarrow> (Inl e, fs)
      | Inr st \<Rightarrow>
          if ls_count (lanes st l) = 0 then (Inr None, fs)
          else
            (case find_item lim (q_lanes fs l) l (headCursor (lanes st l)) of
               Inl e \<Rightarrow> (Inl e, fs)
             | Inr (Some item) \<Rightarrow> (Inr (Some item), fs)
             | Inr None \<Rightarrow>
                 (case reconcile lim fs of
                    (Some e, fs') \<Rightarrow> (Inl e, fs')
                  | (None, fs') \<Rightarrow>
                      (case read_state lim fs' of
                         Inl e \<Rightarrow> (Inl e, fs')
                       | Inr st' \<Rightarrow>
                           if ls_count (lanes st' l) = 0 then (Inr None, fs')
                           else
                             (case find_item lim (q_lanes fs' l) l (headCursor (lanes st' l)) of
                                Inl e \<Rightarrow> (Inl e, fs')
                              | Inr (Some item) \<Rightarrow> (Inr (Some item), fs')
                              | Inr None \<Rightarrow>
                                  (Inl (QueueError ''maintenance queue reconciliation made no progress''),
                                   fs'))))))"

text \<open>The loop of \<open>peek_due\<close>: the number of records inspected so far; the result is None when the
  ring is exhausted first.\<close>

fun due_scan ::
  "QueueLimits \<Rightarrow> lane_fs \<Rightarrow> lane \<Rightarrow> (qrecord \<Rightarrow> bool) \<Rightarrow> nat \<Rightarrow> nat \<Rightarrow> nat list \<Rightarrow>
     queue_error + (QueueItem option \<times> nat) option \<times> nat" where
  "due_scan lim lf l is_due record_limit inspected [] = Inr (None, inspected)"
| "due_scan lim lf l is_due record_limit inspected (cursor # cursors) =
     (case slot_at lim lf cursor of
        Inl e \<Rightarrow> Inl e
      | Inr None \<Rightarrow> due_scan lim lf l is_due record_limit inspected cursors
      | Inr (Some (r, n)) \<Rightarrow>
          if is_due r then Inr (Some (Some (item_at lim l cursor r), Suc inspected), Suc inspected)
          else if record_limit \<le> Suc inspected then Inr (Some (None, Suc inspected), Suc inspected)
          else due_scan lim lf l is_due record_limit (Suc inspected) cursors)"

definition peek_due ::
  "QueueLimits \<Rightarrow> lane \<Rightarrow> (qrecord \<Rightarrow> bool) \<Rightarrow> int \<Rightarrow> queue_fs \<Rightarrow>
     (queue_error + QueueItem option \<times> nat) \<times> queue_fs" where
  "peek_due lim l is_due max_inspected fs =
     (if max_inspected \<le> 0 then (Inr (None, 0), fs)
      else
        (case read_state lim fs of
           Inl e \<Rightarrow> (Inl e, fs)
         | Inr st \<Rightarrow>
             if ls_count (lanes st l) = 0 then (Inr (None, 0), fs)
             else
               (case due_scan lim (q_lanes fs l) l is_due (min (nat max_inspected) (ls_count (lanes st l))) 0
                       (ring lim (headCursor (lanes st l))) of
                  Inl e \<Rightarrow> (Inl e, fs)
                | Inr (Some result, _) \<Rightarrow> (Inr result, fs)
                | Inr (None, inspected) \<Rightarrow>
                    (case reconcile lim fs of
                       (Some e, fs') \<Rightarrow> (Inl e, fs') | (None, fs') \<Rightarrow> (Inr (None, inspected), fs')))))"

definition completed_lane :: "QueueLimits \<Rightarrow> QueueItem \<Rightarrow> nat \<Rightarrow> LaneState \<Rightarrow> LaneState" where
  "completed_lane lim item freed ls = ls\<lparr>ls_count := ls_count ls - 1, ls_bytes := ls_bytes ls - freed,
     headCursor := (qi_segment item * segment_size lim + qi_slot item + 1) mod capacity lim\<rparr>"

definition complete_item :: "QueueLimits \<Rightarrow> QueueItem \<Rightarrow> queue_fs \<Rightarrow> queue_error option \<times> queue_fs" where
  "complete_item lim item fs =
     (case read_state lim fs of
        Inl e \<Rightarrow> (Some e, fs)
      | Inr st \<Rightarrow>
          (let l = qi_lane item; lf = q_lanes fs l; loc = (qi_segment item, qi_slot item) in
           if qi_segment item \<notin> set (dirs lf) then reconcile lim fs
           else
             (case read_slot lim lf loc of
                Inl e \<Rightarrow> (Some e, fs)
              | Inr None \<Rightarrow> reconcile lim fs
              | Inr (Some (r, n)) \<Rightarrow>
                  if get r ''recordId'' \<noteq> get (qi_record item) ''recordId'' \<or>
                     get r ''generation'' \<noteq> get (qi_record item) ''generation''
                  then (Some (QueueError ''maintenance queue ownership changed''), fs)
                  else write_state lim (put_lane l (completed_lane lim item n (lanes st l)) st)
                         (set_lane l (lf\<lparr>slots := without loc (slots lf)\<rparr>) fs))))"

definition counts :: "QueueLimits \<Rightarrow> queue_fs \<Rightarrow> queue_error + (string \<times> nat) list" where
  "counts lim fs = (case read_state lim fs of
     Inl e \<Rightarrow> Inl e
   | Inr st \<Rightarrow> Inr (map (\<lambda>l. (lane_name l, ls_count (lanes st l))) all_lanes @
       [(''recordBytes'', total ls_bytes st), (''segments'', total ls_segments st),
        (''capacityEvents'', capacityEvents st)]))"

text \<open>Creating a queue, or opening one after a restart: the missing state is written, then the files
  are reconciled.\<close>

definition ensure :: "QueueLimits \<Rightarrow> queue_fs \<Rightarrow> queue_error option \<times> queue_fs" where
  "ensure lim fs =
     (case q_state fs of
        Some _ \<Rightarrow> reconcile lim fs
      | None \<Rightarrow> (case write_state lim initial_state fs of
            (Some e, fs') \<Rightarrow> (Some e, fs') | (None, fs') \<Rightarrow> reconcile lim fs'))"

subsection \<open>The queues of the data root (\<open>jobs/storage.py\<close>)\<close>

definition queue_limits :: QueueLimits where
  "queue_limits = \<lparr>segment_size = 128, max_segments = 32, max_records = 128 * 32,
     max_record_bytes = 16 * 1024 * 1024, record_max_bytes = 8192, state_max_bytes = 32768,
     reconcile_max_mutations = 4 * (128 * 32)\<rparr>"

definition dict_pop :: "'k \<Rightarrow> ('k \<times> 'v) list \<Rightarrow> ('k \<times> 'v) list" where
  "dict_pop k d = filter (\<lambda>kv. fst kv \<noteq> k) d"

text \<open>The record written to the destination: the given one, or the item's own, under the item's
  identifier and its next generation.\<close>

definition moved_record :: "QueueItem \<Rightarrow> qrecord option \<Rightarrow> qrecord" where
  "moved_record item replacement =
     (let base = (case replacement of None \<Rightarrow> qi_record item
          | Some r \<Rightarrow> if r = [] then qi_record item else r)
      in dict_pop (KStr ''sequence'')
           (put ''generation'' (num (rec_generation (qi_record item) + 1))
             (put ''recordId'' (VStr (rec_id (qi_record item))) base)))"

definition queue_move ::
  "QueueLimits \<Rightarrow> QueueItem \<Rightarrow> lane \<Rightarrow> qrecord option \<Rightarrow> string \<Rightarrow> queue_fs \<Rightarrow>
     (queue_error + QueueItem) \<times> queue_fs" where
  "queue_move lim item destination replacement fresh fs =
     (case enqueue lim destination (moved_record item replacement) False True fresh fs of
        (Inl e, fs') \<Rightarrow> (Inl e, fs')
      | (Inr destination_item, fs') \<Rightarrow>
          (case complete_item lim item fs' of
             (Some e, fs'') \<Rightarrow> (Inl e, fs'')
           | (None, fs'') \<Rightarrow> (Inr destination_item, fs'')))"

definition immediate_queue_record :: "qrecord \<Rightarrow> qrecord" where
  "immediate_queue_record r = dict_pop (KStr ''nextAttemptAt'') r"

end
