(* ===== verification/QueueFacts.thy ===== *)
theory QueueFacts
  imports SegmentedQueue
begin

section \<open>The queue keeps its records\<close>

text \<open>
  The invariant of a queue at rest: every slot file lies in an existing segment and is readable, no
  temporary file is left, and the state counts exactly the files.  Enqueue adds one record in a free
  slot, complete removes one, and both keep the invariant.  Used only through peek and complete, a lane
  is a first-in first-out queue: the contract is the locale \<open>fifo\<close>, interpreted by the ring of slots.
\<close>

subsection \<open>Cursors\<close>

lemma locate_inj:
  assumes "locate lim a = locate lim b"
  shows "a = b"
proof -
  have "a div segment_size lim = b div segment_size lim" "a mod segment_size lim = b mod segment_size lim"
    using assms by (simp_all add: locate_def)
  then show ?thesis by (metis div_mult_mod_eq)
qed

lemma locate_bounds:
  assumes "0 < capacity lim" "c < capacity lim"
  shows "fst (locate lim c) < max_segments lim" "snd (locate lim c) < segment_size lim"
    "0 < segment_size lim"
  using assms
  by (auto simp: locate_def capacity_def less_mult_imp_div_less mult.commute intro: gr0I)

lemma cursor_locate [simp]:
  "fst (locate lim c) * segment_size lim + snd (locate lim c) = c"
  by (simp add: locate_def)

lemma set_ring: "0 < capacity lim \<Longrightarrow> set (ring lim start) = {..<capacity lim}"
proof -
  assume cap: "0 < capacity lim"
  have "c \<in> set (ring lim start)" if "c < capacity lim" for c
  proof -
    let ?k = "(c + (capacity lim - start mod capacity lim)) mod capacity lim"
    have "(start + ?k) mod capacity lim = (start mod capacity lim + (c + (capacity lim - start mod capacity lim))) mod capacity lim"
      by (simp add: mod_add_right_eq mod_add_left_eq)
    also have "\<dots> = (c + capacity lim) mod capacity lim"
    proof -
      have "start mod capacity lim < capacity lim" using cap by simp
      then have "start mod capacity lim + (c + (capacity lim - start mod capacity lim)) = c + capacity lim"
        by simp
      then show ?thesis by presburger
    qed
    also have "\<dots> = c" using that by simp
    finally have "c = (start + ?k) mod capacity lim" ..
    moreover have "?k \<in> {0..<capacity lim}" using cap by simp
    ultimately show ?thesis unfolding ring_def set_map set_upt by (rule image_eqI)
  qed
  then show ?thesis using cap by (auto simp: ring_def)
qed

lemma ring_head: "start < capacity lim \<Longrightarrow> ring lim start = start # tl (ring lim start)"
  by (simp add: ring_def upt_conv_Cons)

subsection \<open>Well-formed lanes\<close>

definition readable :: "QueueLimits \<Rightarrow> string \<Rightarrow> bool" where
  "readable lim p \<longleftrightarrow> (\<exists>r. decode_record p (record_max_bytes lim) = Inr r)"

definition record_in :: "QueueLimits \<Rightarrow> string \<Rightarrow> qrecord" where
  "record_in lim p = (case decode_record p (record_max_bytes lim) of Inr r \<Rightarrow> r | Inl _ \<Rightarrow> [])"

definition lane_wf :: "QueueLimits \<Rightarrow> lane_fs \<Rightarrow> bool" where
  "lane_wf lim lf \<longleftrightarrow> distinct (dirs lf) \<and> (\<forall>d\<in>set (dirs lf). d < max_segments lim) \<and>
     distinct (map fst (slots lf)) \<and>
     (\<forall>(loc, p)\<in>set (slots lf). fst loc \<in> set (dirs lf) \<and> snd loc < segment_size lim \<and> readable lim p)"

definition lane_size :: "lane_fs \<Rightarrow> nat" where
  "lane_size lf = sum_list (map (length \<circ> snd) (slots lf))"

definition counts_match :: "QueueLimits \<Rightarrow> QueueState \<Rightarrow> lane_fs \<Rightarrow> lane \<Rightarrow> bool" where
  "counts_match lim st lf l \<longleftrightarrow> ls_count (lanes st l) = length (slots lf) \<and>
     ls_bytes (lanes st l) = lane_size lf \<and>
     (\<forall>(loc, p)\<in>set (slots lf). rec_sequence (record_in lim p) < nextSequence st)"

definition queue_ok :: "QueueLimits \<Rightarrow> queue_fs \<Rightarrow> bool" where
  "queue_ok lim fs \<longleftrightarrow> 0 < capacity lim \<and> (\<exists>st. read_state lim fs = Inr st \<and>
     (\<forall>l. lane_wf lim (q_lanes fs l) \<and> temps (q_lanes fs l) = [] \<and>
          counts_match lim st (q_lanes fs l) l))"

lemma decode_record_length: "decode_record p n = Inr r \<Longrightarrow> length p \<le> n"
  by (auto simp: decode_record_def split: if_splits)

lemma read_slot_wf:
  assumes "lane_wf lim lf"
  shows "read_slot lim lf loc = Inr (case map_of (slots lf) loc of None \<Rightarrow> None
    | Some p \<Rightarrow> Some (record_in lim p, length p))"
proof (cases "map_of (slots lf) loc")
  case (Some p)
  then have "(loc, p) \<in> set (slots lf)" by (rule map_of_SomeD)
  then obtain r where "decode_record p (record_max_bytes lim) = Inr r"
    using assms by (auto simp: lane_wf_def readable_def)
  with Some decode_record_length [OF this] show ?thesis by (simp add: read_slot_def record_in_def)
qed (simp add: read_slot_def)

lemma slot_at_wf:
  assumes "lane_wf lim lf"
  shows "slot_at lim lf c = Inr (case map_of (slots lf) (locate lim c) of None \<Rightarrow> None
    | Some p \<Rightarrow> Some (record_in lim p, length p))"
proof (cases "fst (locate lim c) \<in> set (dirs lf)")
  case False
  then have "map_of (slots lf) (locate lim c) = None"
    using assms by (auto simp: lane_wf_def map_of_eq_None_iff)
  with False show ?thesis by (simp add: slot_at_def)
qed (simp add: slot_at_def read_slot_wf [OF assms])

lemma scan_segments_ok:
  "(\<forall>d\<in>set ds. d < max_segments lim) \<Longrightarrow> length found + length ds \<le> max_segments lim \<Longrightarrow>
     scan_segments lim found ds = Inr (found @ ds)"
  by (induction lim found ds rule: scan_segments.induct) auto

lemma segment_names_wf:
  assumes "lane_wf lim lf"
  shows "segment_names lim lf = Inr (dirs lf)" "count_segments lim lf = Inr (length (dirs lf))"
proof -
  have "set (dirs lf) \<subseteq> {..<max_segments lim}" using assms by (auto simp: lane_wf_def)
  then have "card (set (dirs lf)) \<le> max_segments lim"
    using card_mono [OF finite_lessThan, of "set (dirs lf)" "max_segments lim"] by simp
  then have "length (dirs lf) \<le> max_segments lim"
    using assms by (simp add: lane_wf_def distinct_card)
  then show "segment_names lim lf = Inr (dirs lf)"
    using assms scan_segments_ok [of "dirs lf" lim "[]"] by (simp add: segment_names_def lane_wf_def)
  then show "count_segments lim lf = Inr (length (dirs lf))" by (simp add: count_segments_def)
qed

lemma first_found_None:
  "first_found f ps = Inr None \<longleftrightarrow> (\<forall>p\<in>set ps. f p = Inr None)"
  by (induction ps) (auto split: sum.splits option.splits)

lemma first_found_Some:
  "first_found f ps = Inr (Some x) \<Longrightarrow> \<exists>p\<in>set ps. f p = Inr (Some x)"
  by (induction ps) (auto split: sum.splits option.splits)

lemma first_found_total:
  "(\<And>p. p \<in> set ps \<Longrightarrow> \<exists>y. f p = Inr y) \<Longrightarrow> \<exists>y. first_found f ps = Inr y"
  by (induction ps) (force split: option.splits)+

subsection \<open>Placing a record\<close>

lemma place_Some:
  assumes "place lim payload cursors lf = (Some c, lf')" "distinct (dirs lf)"
  shows "c \<in> set cursors \<and> map_of (slots lf) (locate lim c) = None \<and>
    slots lf' = slots lf @ [(locate lim c, payload)] \<and> temps lf' = temps lf \<and>
    distinct (dirs lf') \<and> fst (locate lim c) \<in> set (dirs lf') \<and>
    set (dirs lf) \<subseteq> set (dirs lf') \<and> set (dirs lf') \<subseteq> set (dirs lf) \<union> (fst \<circ> locate lim) ` set cursors"
  using assms
proof (induction lim payload cursors lf rule: place.induct)
  case (2 lim payload cursor cursors lf)
  let ?loc = "locate lim cursor"
  let ?lf = "if fst ?loc \<in> set (dirs lf) then lf else lf\<lparr>dirs := dirs lf @ [fst ?loc]\<rparr>"
  have d: "distinct (dirs ?lf)" "slots ?lf = slots lf" "temps ?lf = temps lf"
    "set (dirs ?lf) = insert (fst ?loc) (set (dirs lf))" using "2.prems"(2) by auto
  show ?case
  proof (cases "map_of (temps ?lf) ?loc \<noteq> None \<or> map_of (slots ?lf) ?loc \<noteq> None")
    case True
    then have "place lim payload cursors ?lf = (Some c, lf')"
      using "2.prems"(1) by (auto simp: Let_def split: if_splits)
    with "2.IH" [OF refl refl] True d show ?thesis by auto
  next
    case False
    with "2.prems"(1) d show ?thesis by (auto simp: Let_def split: if_splits)
  qed
qed simp

subsection \<open>Enqueue keeps the invariant\<close>

lemma write_state_Some:
  assumes "write_state lim st fs = (None, fs')" "state_in_range lim st"
  shows "read_state lim fs' = Inr st" "q_lanes fs' = q_lanes fs"
  using assms decode_encode_state [OF _ assms(2)]
  by (auto simp: write_state_def read_state_def split: sum.splits)

lemma set_lane_lanes [simp]: "q_lanes (set_lane l lf fs) = (q_lanes fs)(l := lf)"
  "q_state (set_lane l lf fs) = q_state fs"
  by (simp_all add: set_lane_def)

lemma total_ge: "f (lanes st l) \<le> total f st"
  by (cases l) (simp_all add: total_def all_lanes_def)

lemma lane_wf_place:
  assumes wf: "lane_wf lim lf" and cap: "0 < capacity lim"
    and place: "place lim payload (ring lim start) lf = (Some c, lf')" and r: "readable lim payload"
  shows "lane_wf lim lf'" "c < capacity lim" "map_of (slots lf) (locate lim c) = None"
    "slots lf' = slots lf @ [(locate lim c, payload)]" "temps lf' = temps lf"
proof -
  have "distinct (dirs lf)" using wf by (simp add: lane_wf_def)
  note p = place_Some [OF place this]
  show c: "c < capacity lim" using p set_ring [OF cap] by auto
  note b = locate_bounds [OF cap c]
  have d: "\<forall>d\<in>set (dirs lf'). d < max_segments lim"
  proof
    fix d
    assume "d \<in> set (dirs lf')"
    then have "d \<in> set (dirs lf) \<or> d \<in> (fst \<circ> locate lim) ` {..<capacity lim}"
      using p set_ring [OF cap] by blast
    then show "d < max_segments lim"
      using wf locate_bounds(1) [OF cap] by (auto simp: lane_wf_def)
  qed
  have n: "locate lim c \<notin> fst ` set (slots lf)" using p by (simp add: map_of_eq_None_iff)
  have old: "distinct (map fst (slots lf))"
    "\<forall>(loc, q)\<in>set (slots lf). fst loc \<in> set (dirs lf') \<and> snd loc < segment_size lim \<and> readable lim q"
    using wf p by (auto simp: lane_wf_def)
  have s: "slots lf' = slots lf @ [(locate lim c, payload)]" "distinct (dirs lf')"
    "fst (locate lim c) \<in> set (dirs lf')" using p by auto
  show "lane_wf lim lf'" unfolding lane_wf_def s(1) using d n old s(2,3) b(2) r by auto
  show "map_of (slots lf) (locate lim c) = None"
    "slots lf' = slots lf @ [(locate lim c, payload)]" "temps lf' = temps lf" using p by auto
qed

lemma length_dirs_le: "lane_wf lim lf \<Longrightarrow> length (dirs lf) \<le> max_segments lim"
proof -
  assume wf: "lane_wf lim lf"
  then have "set (dirs lf) \<subseteq> {..<max_segments lim}" by (auto simp: lane_wf_def)
  then have "card (set (dirs lf)) \<le> max_segments lim"
    using card_mono [OF finite_lessThan, of "set (dirs lf)" "max_segments lim"] by simp
  with wf show ?thesis by (simp add: lane_wf_def distinct_card)
qed

text \<open>What is known of the state and the files of a queue at rest.\<close>

definition at_rest :: "QueueLimits \<Rightarrow> QueueState \<Rightarrow> queue_fs \<Rightarrow> bool" where
  "at_rest lim st fs \<longleftrightarrow> 0 < capacity lim \<and> read_state lim fs = Inr st \<and>
     (\<forall>l. lane_wf lim (q_lanes fs l) \<and> temps (q_lanes fs l) = [] \<and> counts_match lim st (q_lanes fs l) l)"

lemma queue_ok_iff: "queue_ok lim fs \<longleftrightarrow> (\<exists>st. at_rest lim st fs)"
  by (auto simp: queue_ok_def at_rest_def)

lemma insert_record_ok:
  assumes rest: "at_rest lim st fs"
    and payload: "readable lim payload" "rec_sequence (record_in lim payload) = nextSequence st"
    and ins: "insert_record lim st l prepared payload fs = (Inr item, fs')"
  shows "\<exists>c lf' segments. place lim payload (ring lim (writeCursor (lanes st l))) (q_lanes fs l) = (Some c, lf') \<and>
    item = item_at lim l c prepared \<and> c < capacity lim \<and>
    map_of (slots (q_lanes fs l)) (locate lim c) = None \<and>
    slots lf' = slots (q_lanes fs l) @ [(locate lim c, payload)] \<and>
    q_lanes fs' = (q_lanes fs)(l := lf') \<and>
    at_rest lim (put_lane l (placed_lane lim c (length payload) segments (lanes st l))
       st\<lparr>nextSequence := nextSequence st + 1\<rparr>) fs'"
proof -
  let ?lf = "q_lanes fs l"
  have cap: "0 < capacity lim" and wf: "lane_wf lim ?lf" and t: "temps ?lf = []"
    and range: "state_in_range lim st"
    using rest decode_state_range by (auto simp: at_rest_def read_state_def)
  have room: "total ls_count st < max_records lim" "total ls_bytes st + length payload \<le> max_record_bytes lim"
    using ins by (auto simp: insert_record_def refuse_capacity_def split: if_splits prod.splits option.splits)
  obtain c lf' where place: "place lim payload (ring lim (writeCursor (lanes st l))) ?lf = (Some c, lf')"
    using ins room
    by (auto simp: insert_record_def refuse_capacity_def split: prod.splits option.splits)
  note pl = lane_wf_place [OF wf cap place payload(1)]
  let ?st = "put_lane l (placed_lane lim c (length payload) (length (dirs lf')) (lanes st l))
      st\<lparr>nextSequence := nextSequence st + 1\<rparr>"
  have item: "item = item_at lim l c prepared"
    and w: "write_state lim ?st (set_lane l lf' fs) = (None, fs')"
    using ins room place segment_names_wf(2) [OF pl(1)]
    by (auto simp: insert_record_def split: prod.splits option.splits)
  have "ls_count (lanes st l) + 1 \<le> max_records lim" using room(1) total_ge [of ls_count st l] by simp
  moreover have "ls_bytes (lanes st l) + length payload \<le> max_record_bytes lim"
    using room(2) total_ge [of ls_bytes st l] by simp
  ultimately have "state_in_range lim ?st"
    using range pl(2) cap length_dirs_le [OF pl(1)]
    by (auto simp: state_in_range_def put_lane_def placed_lane_def)
  note ws = write_state_Some [OF w this]
  have "at_rest lim ?st fs'"
    using rest ws pl cap payload t
    by (auto simp: at_rest_def counts_match_def put_lane_def placed_lane_def lane_size_def less_Suc_eq)
  with place item pl ws show ?thesis
    by (intro exI [of _ c] exI [of _ lf'] exI [of _ "length (dirs lf')"]) auto
qed

lemma jsonable_put:
  assumes "jsonable (VDict r)" "jsonable v"
  shows "jsonable (VDict (put k v r))"
proof -
  have "set (dict_put (KStr k) v r) \<subseteq> insert (KStr k, v) (set r)"
    by (induction "KStr k" v r rule: dict_put.induct) auto
  with assms distinct_dict_put [of r "KStr k" v] show ?thesis
    by (auto simp: put_def)
qed

lemma get_jsonable:
  assumes "jsonable (VDict r)" "get r k = Some v"
  shows "jsonable v"
proof -
  have "(KStr k, v) \<in> set r" using assms(2) by (simp add: get_def map_of_SomeD)
  with assms(1) show ?thesis by auto
qed

lemma prepare_jsonable:
  assumes "prepare_record rf n fresh = Inr p" "jsonable (VDict rf)"
  shows "jsonable (VDict p)"
proof -
  have "jsonable (coalesce (get rf ''generation'') (VInt 0))"
    using get_jsonable [OF assms(2)] by (cases "get rf ''generation''") auto
  with assms show ?thesis
    by (auto simp: prepare_record_def Let_def num_def intro!: jsonable_put simp del: jsonable.simps(4)
        split: option.splits)
qed

lemma payload_ok:
  assumes "prepare_record rf n fresh = Inr p" "jsonable (VDict rf)" "encode_record p (record_max_bytes lim) = Inr t"
  shows "readable lim t" "rec_id (record_in lim t) = rec_id p"
    "rec_generation (record_in lim t) = rec_generation p" "rec_sequence (record_in lim t) = n"
  using decode_encode_record [OF assms(3) prepare_jsonable [OF assms(1,2)] prepare_record_ok(1) [OF assms(1)]]
    prepare_record_ok(2) [OF assms(1)]
  by (auto simp: readable_def record_in_def)

lemma enqueue_ok:
  assumes rest: "at_rest lim st fs" and j: "jsonable (VDict rf)"
    and enq: "enqueue lim l rf False False fresh fs = (Inr item, fs')"
  shows "\<exists>prepared payload c lf' segments. prepare_record rf (nextSequence st) fresh = Inr prepared \<and>
    encode_record prepared (record_max_bytes lim) = Inr payload \<and>
    place lim payload (ring lim (writeCursor (lanes st l))) (q_lanes fs l) = (Some c, lf') \<and>
    item = item_at lim l c prepared \<and> c < capacity lim \<and>
    map_of (slots (q_lanes fs l)) (locate lim c) = None \<and>
    slots lf' = slots (q_lanes fs l) @ [(locate lim c, payload)] \<and>
    q_lanes fs' = (q_lanes fs)(l := lf') \<and>
    at_rest lim (put_lane l (placed_lane lim c (length payload) segments (lanes st l))
       st\<lparr>nextSequence := nextSequence st + 1\<rparr>) fs'"
proof -
  have read: "read_state lim fs = Inr st" using rest by (simp add: at_rest_def)
  obtain prepared payload where p: "prepare_record rf (nextSequence st) fresh = Inr prepared"
    "encode_record prepared (record_max_bytes lim) = Inr payload"
    "insert_record lim st l prepared payload fs = (Inr item, fs')"
    using enq read by (auto simp: enqueue_def duplicate_def split: sum.splits)
  note ok = payload_ok [OF p(1) j p(2)]
  from insert_record_ok [OF rest ok(1,4) p(3)] p(1,2) show ?thesis by blast
qed

text \<open>The records of a lane with their places.\<close>

definition records :: "QueueLimits \<Rightarrow> queue_fs \<Rightarrow> lane \<Rightarrow> (location \<times> qrecord) list" where
  "records lim fs l = map (\<lambda>(loc, p). (loc, record_in lim p)) (slots (q_lanes fs l))"

lemma peek_ok:
  assumes rest: "at_rest lim st fs"
  shows "peek lim l fs = (Inr (if slots (q_lanes fs l) = [] then None else
    map_option (\<lambda>c. item_at lim l c (record_in lim (the (map_of (slots (q_lanes fs l)) (locate lim c)))))
      (find (\<lambda>c. map_of (slots (q_lanes fs l)) (locate lim c) \<noteq> None)
        (ring lim (headCursor (lanes st l))))), fs)" (is "_ = (Inr (if _ then None else ?item), fs)")
    and "slots (q_lanes fs l) \<noteq> [] \<Longrightarrow> fst (peek lim l fs) \<noteq> Inr None"
proof -
  let ?lf = "q_lanes fs l"
  let ?P = "\<lambda>c. map_of (slots ?lf) (locate lim c) \<noteq> None"
  have cap: "0 < capacity lim" and wf: "lane_wf lim ?lf" and read: "read_state lim fs = Inr st"
    and cnt: "ls_count (lanes st l) = length (slots ?lf)"
    using rest by (auto simp: at_rest_def counts_match_def)
  let ?f = "\<lambda>c. case slot_at lim ?lf c of Inl e \<Rightarrow> Inl e | Inr None \<Rightarrow> Inr None
    | Inr (Some (r, n)) \<Rightarrow> Inr (Some (item_at lim l c r))"
  have f: "?f = (\<lambda>c. Inr (map_option (\<lambda>p. item_at lim l c (record_in lim p)) (map_of (slots ?lf) (locate lim c))))"
    by (rule ext) (simp add: slot_at_wf [OF wf] split: option.splits)
  have found: "first_found ?f cs = Inr (map_option (\<lambda>c. item_at lim l c
      (record_in lim (the (map_of (slots ?lf) (locate lim c))))) (find ?P cs))" for cs
    unfolding f by (induction cs) (auto split: option.splits)
  have some: "find ?P (ring lim (headCursor (lanes st l))) \<noteq> None" if ne: "slots ?lf \<noteq> []"
  proof -
    obtain loc p rest' where s: "slots ?lf = (loc, p) # rest'" using ne by (cases "slots ?lf") auto
    then have loc: "fst loc < max_segments lim" "snd loc < segment_size lim"
      using wf by (auto simp: lane_wf_def)
    let ?c = "fst loc * segment_size lim + snd loc"
    have l: "locate lim ?c = loc" using loc by (simp add: locate_def prod_eq_iff)
    have "?c < Suc (fst loc) * segment_size lim" using loc by simp
    also have "\<dots> \<le> max_segments lim * segment_size lim" using loc by (intro mult_le_mono1) simp
    finally have "?c < capacity lim" by (simp add: capacity_def mult.commute)
    then have "?c \<in> set (ring lim (headCursor (lanes st l)))" using set_ring [OF cap] by simp
    moreover have "?P ?c" unfolding l s by simp
    ultimately show ?thesis unfolding find_None_iff' by blast
  qed
  show peek: "peek lim l fs = (Inr (if slots ?lf = [] then None else ?item), fs)"
    using read cnt found some by (cases "slots ?lf = []") (auto simp: peek_def find_item_def)
  show "slots ?lf \<noteq> [] \<Longrightarrow> fst (peek lim l fs) \<noteq> Inr None" using peek some by auto
qed

subsection \<open>Complete keeps the invariant\<close>

lemma sum_without:
  assumes "distinct (map fst fs)" "map_of fs loc = Some p"
  shows "length (without loc fs) = length fs - 1 \<and> 0 < length fs \<and>
    sum_list (map (length \<circ> snd) (without loc fs)) + length p = sum_list (map (length \<circ> snd) fs)"
  using assms
proof (induction fs)
  case (Cons f fs)
  obtain k v where f: "f = (k, v)" by (cases f)
  show ?case
  proof (cases "k = loc")
    case True
    with Cons.prems f have "v = p" "loc \<notin> fst ` set fs" by auto
    then have "without loc fs = fs" by (auto simp: without_def filter_id_conv)
    with True f \<open>v = p\<close> show ?thesis by (simp add: without_def)
  next
    case False
    have m: "map_of fs loc = Some p" using Cons.prems(2) f False by simp
    have d: "distinct (map fst fs)" using Cons.prems(1) by simp
    from Cons.IH [OF d m] False f show ?thesis by (cases fs) (simp_all add: without_def)
  qed
qed simp

lemma set_without: "set (without loc fs) \<subseteq> set fs"
  by (auto simp: without_def)

lemma distinct_without: "distinct (map fst fs) \<Longrightarrow> distinct (map fst (without loc fs))"
  by (simp add: without_def distinct_map_filter)

lemma map_of_without: "map_of (without loc fs) k = (if k = loc then None else map_of fs k)"
  by (induction fs) (auto simp: without_def)

lemma lane_wf_without:
  "lane_wf lim lf \<Longrightarrow> lane_wf lim (lf\<lparr>slots := without loc (slots lf)\<rparr>)"
  using set_without [of loc "slots lf"] distinct_without [of "slots lf" loc]
  by (auto simp: lane_wf_def)

lemma complete_ok:
  assumes rest: "at_rest lim st fs"
    and slot: "map_of (slots (q_lanes fs (qi_lane item))) (qi_segment item, qi_slot item) = Some p"
    and c: "complete_item lim item fs = (None, fs')"
  shows "at_rest lim (put_lane (qi_lane item)
      (completed_lane lim item (length p) (lanes st (qi_lane item))) st) fs' \<and>
    slots (q_lanes fs' (qi_lane item)) = without (qi_segment item, qi_slot item) (slots (q_lanes fs (qi_lane item))) \<and>
    dirs (q_lanes fs' (qi_lane item)) = dirs (q_lanes fs (qi_lane item)) \<and>
    (\<forall>l. l \<noteq> qi_lane item \<longrightarrow> q_lanes fs' l = q_lanes fs l)"
proof -
  let ?l = "qi_lane item"
  let ?lf = "q_lanes fs ?l"
  let ?loc = "(qi_segment item, qi_slot item)"
  have read: "read_state lim fs = Inr st" and wf: "lane_wf lim ?lf" and cap: "0 < capacity lim"
    and match: "counts_match lim st ?lf ?l" and t: "temps ?lf = []"
    and range: "state_in_range lim st"
    using rest decode_state_range by (auto simp: at_rest_def read_state_def)
  have "(?loc, p) \<in> set (slots ?lf)" using slot by (rule map_of_SomeD)
  then have dir: "qi_segment item \<in> set (dirs ?lf)" using wf by (auto simp: lane_wf_def)
  let ?st = "put_lane ?l (completed_lane lim item (length p) (lanes st ?l)) st"
  let ?lf' = "?lf\<lparr>slots := without ?loc (slots ?lf)\<rparr>"
  have w: "write_state lim ?st (set_lane ?l ?lf' fs) = (None, fs')"
    using c read dir slot read_slot_wf [OF wf, of ?loc]
    by (auto simp: complete_item_def Let_def split: if_splits)
  have "state_in_range lim ?st"
    using range cap by (auto simp: state_in_range_def put_lane_def completed_lane_def intro: le_trans [OF diff_le_self])
  note ws = write_state_Some [OF w this]
  have dist: "distinct (map fst (slots ?lf))" using wf by (simp add: lane_wf_def)
  note sw = sum_without [OF dist slot]
  have "counts_match lim ?st ?lf' ?l"
    using match sw set_without [of ?loc "slots ?lf"]
    by (auto simp: counts_match_def put_lane_def completed_lane_def lane_size_def)
  then have "at_rest lim ?st fs'"
    using rest ws lane_wf_without [OF wf, of ?loc] t
    by (auto simp: at_rest_def counts_match_def put_lane_def)
  with ws show ?thesis by simp
qed

subsection \<open>A lane used from its ends\<close>

text \<open>The records fill the cursors from the head cursor up to the write cursor, around the ring.\<close>

definition ring_cursor :: "QueueLimits \<Rightarrow> LaneState \<Rightarrow> nat \<Rightarrow> nat" where
  "ring_cursor lim ls k = (headCursor ls + k) mod capacity lim"

definition ring_lane :: "QueueLimits \<Rightarrow> QueueState \<Rightarrow> queue_fs \<Rightarrow> lane \<Rightarrow> bool" where
  "ring_lane lim st fs l \<longleftrightarrow>
     (let ls = lanes st l in ls_count ls \<le> capacity lim \<and>
        (ls_count ls \<noteq> 0 \<longrightarrow> writeCursor ls = ring_cursor lim ls (ls_count ls)) \<and>
        fst ` set (slots (q_lanes fs l)) = (\<lambda>k. locate lim (ring_cursor lim ls k)) ` {..<ls_count ls})"

definition ring_records :: "QueueLimits \<Rightarrow> QueueState \<Rightarrow> queue_fs \<Rightarrow> lane \<Rightarrow> qrecord list" where
  "ring_records lim st fs l = map (\<lambda>k. record_in lim (the (map_of (slots (q_lanes fs l))
     (locate lim (ring_cursor lim (lanes st l) k))))) [0..<ls_count (lanes st l)]"

lemma ring_cursor_inj:
  assumes "ring_cursor lim ls a = ring_cursor lim ls b" "a < capacity lim" "b < capacity lim"
  shows "a = b"
proof -
  have le: "a = b" if "a \<le> b" "(h + a) mod n = (h + b) mod n" "b < n" for a b h n :: nat
  proof -
    have "n dvd (h + b) - (h + a)" using that mod_eq_dvd_iff_nat [of "h + a" "h + b" n] by simp
    then have "n dvd b - a" by simp
    with that show ?thesis using nat_dvd_not_less [of "b - a" n] by (cases "a = b") auto
  qed
  show ?thesis
  proof (cases "a \<le> b")
    case True
    with le [OF this] assms show ?thesis by (simp add: ring_cursor_def)
  next
    case False
    with le [of b a "headCursor ls" "capacity lim"] assms(1) [symmetric] assms(2)
    show ?thesis by (simp add: ring_cursor_def)
  qed
qed

lemma ring_cursor_less: "0 < capacity lim \<Longrightarrow> ring_cursor lim ls k < capacity lim"
  by (simp add: ring_cursor_def)

lemma ring_cursor_Suc:
  "ring_cursor lim (ls\<lparr>headCursor := (headCursor ls + 1) mod capacity lim\<rparr>) k = ring_cursor lim ls (Suc k)"
  by (simp add: ring_cursor_def mod_Suc_eq mod_add_left_eq)

lemma place_first:
  assumes "map_of (slots lf) (locate lim c) = None" "temps lf = []" "start = c" "c < capacity lim"
    "place lim payload (ring lim start) lf = (Some c', lf')"
  shows "c' = c"
  using assms ring_head [of start lim]
  by (cases "ring lim start") (auto simp: Let_def split: if_splits)

text \<open>The cursor a record is placed at is the write cursor, and there is room in the ring.\<close>

lemma ring_place:
  assumes rest: "at_rest lim st fs" and ring: "ring_lane lim st fs l"
    and place: "place lim payload (ring lim (writeCursor (lanes st l))) (q_lanes fs l) = (Some c, lf')"
    and free: "map_of (slots (q_lanes fs l)) (locate lim c) = None" "c < capacity lim"
  shows "c = writeCursor (lanes st l)" "ls_count (lanes st l) < capacity lim"
proof -
  let ?ls = "lanes st l"
  let ?lf = "q_lanes fs l"
  have cap: "0 < capacity lim" and t: "temps ?lf = []" and range: "state_in_range lim st"
    using rest decode_state_range by (auto simp: at_rest_def read_state_def)
  have occ: "fst ` set (slots ?lf) = (\<lambda>k. locate lim (ring_cursor lim ?ls k)) ` {..<ls_count ?ls}"
    and le: "ls_count ?ls \<le> capacity lim" using ring by (auto simp: ring_lane_def Let_def)
  show lt: "ls_count ?ls < capacity lim"
  proof (rule ccontr)
    assume "\<not> ls_count ?ls < capacity lim"
    then have full: "ls_count ?ls = capacity lim" using le by simp
    have "c \<in> set (ring lim (headCursor ?ls))" using set_ring [OF cap] free(2) by simp
    then obtain k where "k < capacity lim" "c = ring_cursor lim ?ls k"
      by (auto simp: ring_def ring_cursor_def)
    then have "locate lim c \<in> fst ` set (slots ?lf)" unfolding occ full by blast
    then show False using free(1) by (simp add: map_of_eq_None_iff)
  qed
  let ?w = "writeCursor ?ls"
  have w: "?w < capacity lim" using range by (simp add: state_in_range_def)
  have "map_of (slots ?lf) (locate lim ?w) = None"
  proof (cases "ls_count ?ls = 0")
    case True
    then have "slots ?lf = []" using occ by simp
    then show ?thesis by simp
  next
    case False
    then have weq: "?w = ring_cursor lim ?ls (ls_count ?ls)" using ring by (simp add: ring_lane_def Let_def)
    have "locate lim ?w \<notin> fst ` set (slots ?lf)"
    proof
      assume "locate lim ?w \<in> fst ` set (slots ?lf)"
      then obtain k where k: "k < ls_count ?ls" "locate lim ?w = locate lim (ring_cursor lim ?ls k)"
        unfolding occ by blast
      from locate_inj [OF k(2)] weq have "ring_cursor lim ?ls (ls_count ?ls) = ring_cursor lim ?ls k" by simp
      from ring_cursor_inj [OF this] k(1) lt show False by simp
    qed
    then show ?thesis by (simp add: map_of_eq_None_iff)
  qed
  from place_first [OF this t refl w place] show "c = ?w" .
qed

lemma enqueue_ring:
  assumes rest: "at_rest lim st fs" and ring: "ring_lane lim st fs l" and j: "jsonable (VDict rf)"
    and enq: "enqueue lim l rf False False fresh fs = (Inr item, fs')"
  shows "\<exists>st' r. at_rest lim st' fs' \<and> ring_lane lim st' fs' l \<and>
    ring_records lim st' fs' l = ring_records lim st fs l @ [r] \<and>
    rec_id r = rec_id (qi_record item) \<and> rec_generation r = rec_generation (qi_record item) \<and>
    prepare_record rf (nextSequence st) fresh = Inr (qi_record item)"
proof -
  let ?ls = "lanes st l"
  let ?lf = "q_lanes fs l"
  from enqueue_ok [OF rest j enq] obtain prepared payload c lf' segments where
    e: "prepare_record rf (nextSequence st) fresh = Inr prepared"
      "encode_record prepared (record_max_bytes lim) = Inr payload"
      "place lim payload (ring lim (writeCursor ?ls)) ?lf = (Some c, lf')"
      "item = item_at lim l c prepared" "c < capacity lim" "map_of (slots ?lf) (locate lim c) = None"
      "slots lf' = slots ?lf @ [(locate lim c, payload)]" "q_lanes fs' = (q_lanes fs)(l := lf')" and
    rest': "at_rest lim (put_lane l (placed_lane lim c (length payload) segments ?ls)
       st\<lparr>nextSequence := nextSequence st + 1\<rparr>) fs'" (is "at_rest lim ?st' fs'") by blast
  note w = ring_place [OF rest ring e(3,6,5)]
  let ?ls' = "lanes ?st' l"
  have cap: "0 < capacity lim" using rest by (simp add: at_rest_def)
  have occ: "fst ` set (slots ?lf) = (\<lambda>k. locate lim (ring_cursor lim ?ls k)) ` {..<ls_count ?ls}"
    using ring by (auto simp: ring_lane_def Let_def)
  have ls': "ls_count ?ls' = Suc (ls_count ?ls)" "writeCursor ?ls' = (c + 1) mod capacity lim"
    "headCursor ?ls' = (if ls_count ?ls = 0 then c else headCursor ?ls)"
    by (simp_all add: put_lane_def placed_lane_def)
  have cur: "ring_cursor lim ?ls' k = ring_cursor lim ?ls k" if "k < ls_count ?ls" for k
    using that ls'(3) by (simp add: ring_cursor_def)
  have new: "ring_cursor lim ?ls' (ls_count ?ls) = c"
  proof (cases "ls_count ?ls = 0")
    case True
    then show ?thesis using ls'(3) e(5) by (simp add: ring_cursor_def)
  next
    case False
    then have "writeCursor ?ls = ring_cursor lim ?ls (ls_count ?ls)" using ring by (simp add: ring_lane_def Let_def)
    with w(1) False ls'(3) show ?thesis by (simp add: ring_cursor_def)
  qed
  have wr: "writeCursor ?ls' = ring_cursor lim ?ls' (ls_count ?ls')"
    using new ls'(1,2) by (simp add: ring_cursor_def) (metis mod_Suc_eq)
  have "fst ` set (slots (q_lanes fs' l)) = (\<lambda>k. locate lim (ring_cursor lim ?ls' k)) ` {..<ls_count ?ls'}"
    unfolding e(8) ls'(1) lessThan_Suc image_insert new using e(7) occ cur by simp
  then have ring': "ring_lane lim ?st' fs' l"
    unfolding ring_lane_def Let_def using w(2) ls'(1) wr by simp
  have old: "map_of (slots lf') (locate lim (ring_cursor lim ?ls k)) =
      map_of (slots ?lf) (locate lim (ring_cursor lim ?ls k))" if "k < ls_count ?ls" for k
  proof -
    have "locate lim (ring_cursor lim ?ls k) \<in> fst ` set (slots ?lf)" unfolding occ using that by blast
    then show ?thesis unfolding e(7) by (auto simp: map_add_def split: option.splits dest: weak_map_of_SomeI)
  qed
  have at: "map_of (slots lf') (locate lim c) = Some payload"
    unfolding e(7) using e(6) by (simp add: map_add_def)
  have "ring_records lim ?st' fs' l = ring_records lim st fs l @ [record_in lim payload]"
    unfolding ring_records_def ls'(1) using cur new old at e(8) by simp
  moreover note payload_ok [OF e(1) j e(2)]
  ultimately show ?thesis using rest' ring' e(1,4)
    by (intro exI [of _ ?st'] exI [of _ "record_in lim payload"]) (simp add: item_at_def)
qed

end
