(* ===== verification/QueueFifo.thy ===== *)
theory QueueFifo
  imports QueueFacts
begin

section \<open>A lane is a first-in first-out queue\<close>

text \<open>
  The contract of a lane used through \<open>enqueue\<close>, \<open>peek\<close> and \<open>complete\<close>: the locale \<open>fifo\<close>, whose
  client is a run of puts and takes.  It is interpreted by the files of a lane whose records fill the
  ring from the head cursor, the shape a new queue has and every put and take keeps.
\<close>

subsection \<open>The contract\<close>

datatype 'x queue_op = Put 'x | Take

text \<open>A run of operations: the keys served and the queue left; None when an operation raises.\<close>

fun run_queue :: "('x \<Rightarrow> 'q \<Rightarrow> 'q option) \<Rightarrow> ('q \<Rightarrow> ('k \<times> 'q) option) \<Rightarrow> 'x queue_op list \<Rightarrow> 'q \<Rightarrow>
    ('k list \<times> 'q) option" where
  "run_queue enq take_one [] q = Some ([], q)"
| "run_queue enq take_one (Put x # ops) q =
     (case enq x q of None \<Rightarrow> None | Some q' \<Rightarrow> run_queue enq take_one ops q')"
| "run_queue enq take_one (Take # ops) q =
     (case take_one q of None \<Rightarrow> None
      | Some (k, q') \<Rightarrow> map_option (\<lambda>(ks, q''). (k # ks, q'')) (run_queue enq take_one ops q'))"

fun puts :: "('x \<Rightarrow> 'k) \<Rightarrow> 'x queue_op list \<Rightarrow> 'k list" where
  "puts key [] = []"
| "puts key (Put x # ops) = key x # puts key ops"
| "puts key (Take # ops) = puts key ops"

definition put_ops :: "'x queue_op list \<Rightarrow> 'x set" where
  "put_ops ops = {x. Put x \<in> set ops}"

locale fifo =
  fixes inv :: "'q \<Rightarrow> bool" and contents :: "'q \<Rightarrow> 'k list"
    and valid :: "'x \<Rightarrow> bool" and key :: "'x \<Rightarrow> 'k"
    and enq :: "'x \<Rightarrow> 'q \<Rightarrow> 'q option" and take_one :: "'q \<Rightarrow> ('k \<times> 'q) option"
  assumes enq_law: "inv q \<Longrightarrow> valid x \<Longrightarrow> enq x q = Some q' \<Longrightarrow>
      inv q' \<and> contents q' = contents q @ [key x]"
    and take_law: "inv q \<Longrightarrow> take_one q = Some (k, q') \<Longrightarrow>
      inv q' \<and> contents q = k # contents q'"
begin

lemma run_order:
  "inv q \<Longrightarrow> put_ops ops \<subseteq> Collect valid \<Longrightarrow> run_queue enq take_one ops q = Some (served, q') \<Longrightarrow>
     inv q' \<and> served @ contents q' = contents q @ puts key ops"
proof (induction ops arbitrary: q served)
  case (Cons op ops)
  have rest: "put_ops ops \<subseteq> Collect valid" using Cons.prems(2) by (auto simp: put_ops_def)
  show ?case
  proof (cases op)
    case (Put x)
    then have v: "valid x" using Cons.prems(2) by (auto simp: put_ops_def)
    from Put Cons.prems(3) obtain q1 where q1: "enq x q = Some q1"
      "run_queue enq take_one ops q1 = Some (served, q')" by (auto split: option.splits)
    note law = enq_law [OF Cons.prems(1) v q1(1)]
    with Cons.IH [OF conjunct1 [OF law] rest q1(2)] Put show ?thesis by simp
  next
    case Take
    with Cons.prems(3) obtain k q1 ks where q1: "take_one q = Some (k, q1)"
      "run_queue enq take_one ops q1 = Some (ks, q')" "served = k # ks"
      by (auto split: option.splits)
    note law = take_law [OF Cons.prems(1) q1(1)]
    with Cons.IH [OF conjunct1 [OF law] rest q1(2)] Take q1(3) show ?thesis by simp
  qed
qed (simp add: put_ops_def)

end

subsection \<open>Peek and complete on the ring\<close>

lemma ring_slot:
  assumes "ring_lane lim st fs l" "k < ls_count (lanes st l)"
  obtains p where "map_of (slots (q_lanes fs l)) (locate lim (ring_cursor lim (lanes st l) k)) = Some p"
proof -
  have "locate lim (ring_cursor lim (lanes st l) k) \<in> fst ` set (slots (q_lanes fs l))"
    using assms by (auto simp: ring_lane_def Let_def)
  then show ?thesis using that by (metis map_of_eq_None_iff not_Some_eq)
qed

lemma peek_ring:
  assumes rest: "at_rest lim st fs" and ring: "ring_lane lim st fs l"
  shows "peek lim l fs = (Inr (case ring_records lim st fs l of [] \<Rightarrow> None
    | r # _ \<Rightarrow> Some (item_at lim l (headCursor (lanes st l)) r)), fs)"
proof (cases "ls_count (lanes st l)")
  case 0
  moreover have "slots (q_lanes fs l) = []" using 0 rest by (simp add: at_rest_def counts_match_def)
  ultimately show ?thesis by (simp add: peek_ok(1) [OF rest] ring_records_def)
next
  case (Suc n)
  have cap: "0 < capacity lim" and range: "state_in_range lim st"
    and cnt: "ls_count (lanes st l) = length (slots (q_lanes fs l))"
    using rest decode_state_range by (auto simp: at_rest_def read_state_def counts_match_def)
  let ?h = "headCursor (lanes st l)"
  have h: "?h < capacity lim" using range by (simp add: state_in_range_def)
  then have c0: "ring_cursor lim (lanes st l) 0 = ?h" by (simp add: ring_cursor_def)
  obtain p where p: "map_of (slots (q_lanes fs l)) (locate lim ?h) = Some p"
    using ring_slot [OF ring, of 0] Suc c0 by auto
  have "find (\<lambda>c. map_of (slots (q_lanes fs l)) (locate lim c) \<noteq> None) (ring lim ?h) = Some ?h"
    by (subst ring_head [OF h]) (simp add: p)
  then have found: "map_option f (find (\<lambda>c. map_of (slots (q_lanes fs l)) (locate lim c) \<noteq> None) (ring lim ?h))
    = Some (f ?h)" for f :: "nat \<Rightarrow> QueueItem" by simp
  have recs: "ring_records lim st fs l = record_in lim p # map (\<lambda>k. record_in lim
      (the (map_of (slots (q_lanes fs l)) (locate lim (ring_cursor lim (lanes st l) k))))) [Suc 0..<Suc n]"
    unfolding ring_records_def Suc upt_conv_Cons [OF zero_less_Suc] by (simp add: c0 p)
  have "slots (q_lanes fs l) \<noteq> []" using Suc cnt by auto
  then show ?thesis unfolding peek_ok(1) [OF rest, of l] found recs p by simp
qed

lemma complete_ring:
  assumes rest: "at_rest lim st fs" and ring: "ring_lane lim st fs l"
    and recs: "ring_records lim st fs l = r # rs"
    and c: "complete_item lim (item_at lim l (headCursor (lanes st l)) r) fs = (None, fs')"
  shows "\<exists>st'. at_rest lim st' fs' \<and> ring_lane lim st' fs' l \<and> ring_records lim st' fs' l = rs"
proof -
  let ?ls = "lanes st l"
  let ?h = "headCursor ?ls"
  let ?lf = "q_lanes fs l"
  let ?item = "item_at lim l ?h r"
  have cap: "0 < capacity lim" and range: "state_in_range lim st"
    using rest decode_state_range by (auto simp: at_rest_def read_state_def)
  have h: "?h < capacity lim" using range by (simp add: state_in_range_def)
  have c0: "ring_cursor lim ?ls 0 = ?h" using h by (simp add: ring_cursor_def)
  obtain n where n: "ls_count ?ls = Suc n" using recs by (cases "ls_count ?ls") (auto simp: ring_records_def)
  obtain p where p: "map_of (slots ?lf) (locate lim ?h) = Some p"
    using ring_slot [OF ring, of 0] n c0 by auto
  have item: "qi_lane ?item = l" "(qi_segment ?item, qi_slot ?item) = locate lim ?h"
    "qi_segment ?item * segment_size lim + qi_slot ?item = ?h" by (simp_all add: item_at_def)
  let ?st = "put_lane l (completed_lane lim ?item (length p) ?ls) st"
  from complete_ok [OF rest _ c] p item
  have ok: "at_rest lim ?st fs'" "slots (q_lanes fs' l) = without (locate lim ?h) (slots ?lf)" by auto
  have ls': "lanes ?st l = ?ls\<lparr>ls_count := n, ls_bytes := ls_bytes ?ls - length p,
      headCursor := (?h + 1) mod capacity lim\<rparr>"
    using n item(3) by (simp add: put_lane_def completed_lane_def)
  have cur: "ring_cursor lim (lanes ?st l) k = ring_cursor lim ?ls (Suc k)" for k
    unfolding ls' by (simp add: ring_cursor_def mod_add_left_eq)
  have le: "Suc n \<le> capacity lim" and w: "writeCursor ?ls = ring_cursor lim ?ls (Suc n)"
    and occ: "fst ` set (slots ?lf) = (\<lambda>k. locate lim (ring_cursor lim ?ls k)) ` {..<Suc n}"
    using ring n by (auto simp: ring_lane_def Let_def)
  have other: "locate lim (ring_cursor lim ?ls (Suc k)) \<noteq> locate lim ?h" if "k < n" for k
  proof
    assume "locate lim (ring_cursor lim ?ls (Suc k)) = locate lim ?h"
    then have "ring_cursor lim ?ls (Suc k) = ring_cursor lim ?ls 0" using locate_inj c0 by simp
    then show False using ring_cursor_inj [of lim ?ls "Suc k" 0] that le by simp
  qed
  have "fst ` set (without (locate lim ?h) (slots ?lf)) = fst ` set (slots ?lf) - {locate lim ?h}"
    by (auto simp: without_def image_iff)
  also have "\<dots> = (\<lambda>k. locate lim (ring_cursor lim ?ls (Suc k))) ` {..<n}"
  proof -
    have "locate lim ?h \<notin> (\<lambda>k. locate lim (ring_cursor lim ?ls (Suc k))) ` {..<n}" using other by (auto dest: sym)
    then show ?thesis unfolding occ lessThan_Suc_eq_insert_0 by (simp add: image_image c0)
  qed
  finally have "ring_lane lim ?st fs' l"
    unfolding ring_lane_def Let_def using le w cur ls' ok(2) by simp
  moreover have "ring_records lim ?st fs' l = rs"
  proof -
    have "ring_records lim ?st fs' l = map (\<lambda>k. record_in lim (the (map_of (slots ?lf)
        (locate lim (ring_cursor lim ?ls (Suc k)))))) [0..<n]"
      unfolding ring_records_def ok(2) map_of_without cur using ls' other by simp
    also have "\<dots> = tl (ring_records lim st fs l)"
      unfolding ring_records_def n map_upt_Suc by simp
    finally show ?thesis using recs by simp
  qed
  ultimately show ?thesis using ok(1) by blast
qed

subsection \<open>The lanes of the maintenance queues\<close>

text \<open>A put enqueues a new record, one without an identifier, as \<open>enqueue\<close> is called by default: the
  identifier is the fresh one.  A take peeks and completes the item.\<close>

definition lane_put :: "QueueLimits \<Rightarrow> lane \<Rightarrow> qrecord \<times> string \<Rightarrow> queue_fs \<Rightarrow> queue_fs option" where
  "lane_put lim l x fs =
     (case enqueue lim l (fst x) True False (snd x) fs of (Inr _, fs') \<Rightarrow> Some fs' | (Inl _, _) \<Rightarrow> None)"

definition lane_take :: "QueueLimits \<Rightarrow> lane \<Rightarrow> queue_fs \<Rightarrow> (string \<times> queue_fs) option" where
  "lane_take lim l fs =
     (case peek lim l fs of
        (Inr (Some item), fs') \<Rightarrow>
          (case complete_item lim item fs' of
             (None, fs'') \<Rightarrow> Some (rec_id (qi_record item), fs'') | (Some _, _) \<Rightarrow> None)
      | _ \<Rightarrow> None)"

definition lane_ids :: "QueueLimits \<Rightarrow> lane \<Rightarrow> queue_fs \<Rightarrow> string list" where
  "lane_ids lim l fs = (case read_state lim fs of
     Inl _ \<Rightarrow> [] | Inr st \<Rightarrow> map rec_id (ring_records lim st fs l))"

definition lane_inv :: "QueueLimits \<Rightarrow> lane \<Rightarrow> queue_fs \<Rightarrow> bool" where
  "lane_inv lim l fs \<longleftrightarrow> (\<exists>st. at_rest lim st fs \<and> ring_lane lim st fs l)"

definition new_record :: "qrecord \<times> string \<Rightarrow> bool" where
  "new_record x \<longleftrightarrow> jsonable (VDict (fst x)) \<and> get (fst x) ''recordId'' = None"

definition fresh_id :: "qrecord \<times> string \<Rightarrow> string" where
  "fresh_id x = coalesce (canonical_uuid (snd x)) []"

lemma at_rest_read: "at_rest lim st fs \<Longrightarrow> read_state lim fs = Inr st"
  by (simp add: at_rest_def)

lemma lane_ids_at: "at_rest lim st fs \<Longrightarrow> lane_ids lim l fs = map rec_id (ring_records lim st fs l)"
  by (simp add: lane_ids_def at_rest_read)

lemma prepare_fresh:
  "get rf ''recordId'' = None \<Longrightarrow> prepare_record rf n fresh = Inr p \<Longrightarrow> rec_id p = fresh_id (rf, fresh)"
  by (auto simp: prepare_record_def Let_def uuid_field_def rec_id_def fresh_id_def split: option.splits)

lemma enqueue_new:
  "new_record (rf, fresh) \<Longrightarrow> enqueue lim l rf True False fresh fs = enqueue lim l rf False False fresh fs"
proof -
  assume "new_record (rf, fresh)"
  then have "duplicate lim fs l rf p True False = duplicate lim fs l rf p False False" for p
    by (simp add: duplicate_def new_record_def)
  then show ?thesis by (simp only: enqueue_def)
qed

interpretation lane_fifo: fifo "lane_inv lim l" "lane_ids lim l" new_record fresh_id
  "lane_put lim l" "lane_take lim l" for lim l
proof (unfold_locales, goal_cases)
  case (1 fs x fs')
  obtain rf fresh where x: "x = (rf, fresh)" by (cases x)
  from 1(1) obtain st where st: "at_rest lim st fs" "ring_lane lim st fs l" by (auto simp: lane_inv_def)
  from enqueue_new 1(2,3) x obtain item where e: "enqueue lim l rf False False fresh fs = (Inr item, fs')"
    by (auto simp: lane_put_def split: sum.splits prod.splits)
  have j: "jsonable (VDict rf)" "get rf ''recordId'' = None" using 1(2) x by (simp_all add: new_record_def)
  from enqueue_ring [OF st j(1) e] obtain st' r where r: "at_rest lim st' fs'" "ring_lane lim st' fs' l"
    "ring_records lim st' fs' l = ring_records lim st fs l @ [r]" "rec_id r = rec_id (qi_record item)"
    "prepare_record rf (nextSequence st) fresh = Inr (qi_record item)" by blast
  with prepare_fresh [OF j(2) r(5)] show ?case
    by (auto simp: x lane_inv_def lane_ids_at [OF st(1)] lane_ids_at [OF r(1)])
next
  case (2 fs k fs')
  from 2(1) obtain st where st: "at_rest lim st fs" "ring_lane lim st fs l" by (auto simp: lane_inv_def)
  from 2(2) peek_ring [OF st] obtain r rs where r: "ring_records lim st fs l = r # rs" "rec_id r = k"
    "complete_item lim (item_at lim l (headCursor (lanes st l)) r) fs = (None, fs')"
    by (auto simp: lane_take_def item_at_def split: list.splits option.splits prod.splits)
  from complete_ring [OF st r(1,3)] obtain st' where s': "at_rest lim st' fs'" "ring_lane lim st' fs' l"
    "ring_records lim st' fs' l = rs" by blast
  with r(1,2) show ?case by (auto simp: lane_inv_def lane_ids_at [OF st(1)] lane_ids_at [OF s'(1)])
qed

subsection \<open>Room for a record\<close>

lemma place_free:
  assumes "temps lf = []" "c \<in> set cursors" "map_of (slots lf) (locate lim c) = None"
  shows "\<exists>c' lf'. place lim payload cursors lf = (Some c', lf')"
  using assms
proof (induction lim payload cursors lf rule: place.induct)
  case (2 lim payload cursor cursors lf)
  let ?lf = "if fst (locate lim cursor) \<in> set (dirs lf) then lf else lf\<lparr>dirs := dirs lf @ [fst (locate lim cursor)]\<rparr>"
  have lf: "temps ?lf = []" "slots ?lf = slots lf" using "2.prems"(1) by auto
  show ?case
  proof (cases "map_of (slots ?lf) (locate lim cursor)")
    case None
    then show ?thesis using lf by (simp add: Let_def)
  next
    case (Some p)
    with "2.prems" lf have "c \<in> set cursors" by auto
    with "2.IH" [OF refl refl] lf Some "2.prems"(3) show ?thesis by (auto simp: Let_def)
  qed
qed simp

lemma free_slot:
  assumes "length (slots lf) < capacity lim"
  obtains c where "c < capacity lim" "map_of (slots lf) (locate lim c) = None"
proof -
  have "inj_on (locate lim) {..<capacity lim}" using locate_inj by (auto intro: inj_onI)
  then have "card (locate lim ` {..<capacity lim}) = capacity lim" by (simp add: card_image)
  moreover have "card (fst ` set (slots lf)) \<le> length (slots lf)"
    using card_length [of "map fst (slots lf)"] by simp
  ultimately have "\<not> locate lim ` {..<capacity lim} \<subseteq> fst ` set (slots lf)"
    using assms card_mono [of "fst ` set (slots lf)" "locate lim ` {..<capacity lim}"] by auto
  then obtain c where "c < capacity lim" "locate lim c \<notin> fst ` set (slots lf)" by blast
  then show ?thesis using that by (simp add: map_of_eq_None_iff)
qed

text \<open>The encoded state: its numbers and at most 400 other bytes.\<close>

definition digits :: "nat \<Rightarrow> nat" where
  "digits n = length (nat_str n)"

definition small_state :: "QueueState \<Rightarrow> bool" where
  "small_state st \<longleftrightarrow> nextSequence st < 10 ^ 100 \<and> capacityEvents st < 10 ^ 100"

definition roomy :: "QueueLimits \<Rightarrow> bool" where
  "roomy lim \<longleftrightarrow> capacity lim < 10 ^ 10 \<and> max_records lim < 10 ^ 10 \<and> max_record_bytes lim < 10 ^ 10 \<and>
     max_segments lim < 10 ^ 10 \<and> 2000 \<le> state_max_bytes lim"

lemma dumps_num: "length (dumps b isep ksep (num n)) = digits n"
  by (simp add: num_def int_str_def digits_def)

lemma plain_names: "plain_key ''bytes''" "plain_key ''count''" "plain_key ''headCursor''"
  "plain_key ''segments''" "plain_key ''writeCursor''" "plain_key ''capacityEvents''" "plain_key ''lanes''"
  "plain_key ''deferred''" "plain_key ''held''" "plain_key ''ready''" "plain_key ''nextSequence''"
  "plain_key ''version''"
  by (simp_all add: plain_key_def is_alpha_def is_lower_def is_upper_def code_def)

lemma lane_text_length:
  "length (dumps False '','' '':'' (sort_keys (lane_value ls))) \<le> 100 + digits (ls_bytes ls) +
     digits (ls_count ls) + digits (headCursor ls) + digits (ls_segments ls) + digits (writeCursor ls)"
  unfolding sorted_lane_value
  by (simp add: key_text_def length_plain_key plain_names dumps_num)

lemma state_text_length:
  assumes "state_in_range lim st" "roomy lim" "small_state st"
  shows "length (dumps_sorted (state_value st)) \<le> 2000"
proof -
  have d: "digits n \<le> k" if "n < 10 ^ k" "0 < k" for n k using length_nat_str that by (simp add: digits_def)
  have lane: "length (dumps False '','' '':'' (sort_keys (lane_value (lanes st l)))) \<le> 150" for l
  proof -
    have "ls_bytes (lanes st l) < 10 ^ 10" "ls_count (lanes st l) < 10 ^ 10" "headCursor (lanes st l) < 10 ^ 10"
      "ls_segments (lanes st l) < 10 ^ 10" "writeCursor (lanes st l) < 10 ^ 10"
      using assms(1,2) le_less_trans less_trans unfolding state_in_range_def roomy_def by blast+
    then show ?thesis
      using lane_text_length [of "lanes st l"] d [of "ls_bytes (lanes st l)" 10] d [of "ls_count (lanes st l)" 10]
        d [of "headCursor (lanes st l)" 10] d [of "ls_segments (lanes st l)" 10] d [of "writeCursor (lanes st l)" 10]
      by linarith
  qed
  have n: "digits (nextSequence st) \<le> 100" "digits (capacityEvents st) \<le> 100"
    using assms(3) d [of _ 100] by (simp_all add: small_state_def)
  have "length (dumps_sorted (state_value st)) = 86 + digits (capacityEvents st) + digits (nextSequence st) +
      length (dumps False '','' '':'' (sort_keys (lane_value (lanes st Deferred)))) +
      length (dumps False '','' '':'' (sort_keys (lane_value (lanes st Held)))) +
      length (dumps False '','' '':'' (sort_keys (lane_value (lanes st Ready))))"
    unfolding dumps_sorted_def dumps_sorted_eq sorted_state_value
    by (simp add: key_text_def length_plain_key plain_names dumps_num int_str_def nat_str.simps)
  then show ?thesis using lane [of Deferred] lane [of Held] lane [of Ready] n by linarith
qed

lemma write_state_ok:
  assumes "state_in_range lim st" "roomy lim" "small_state st"
  shows "\<exists>fs'. write_state lim st fs = (None, fs')"
proof -
  have "length (dumps_sorted (state_value st)) \<le> state_max_bytes lim"
    using state_text_length [OF assms] assms(2) by (simp add: roomy_def)
  then show ?thesis by (simp add: write_state_def encode_state_def)
qed

lemma insert_accepts:
  assumes rest: "at_rest lim st fs" and room: "roomy lim" "max_records lim \<le> capacity lim"
    and small: "small_state (st\<lparr>nextSequence := nextSequence st + 1\<rparr>)"
    and r: "readable lim payload" and n: "total ls_count st < max_records lim"
    and b: "total ls_bytes st + length payload \<le> max_record_bytes lim"
  shows "\<exists>item fs'. insert_record lim st l prepared payload fs = (Inr item, fs')"
proof -
  let ?lf = "q_lanes fs l"
  have cap: "0 < capacity lim" and wf: "lane_wf lim ?lf" and t: "temps ?lf = []"
    and range: "state_in_range lim st" and cnt: "ls_count (lanes st l) = length (slots ?lf)"
    using rest decode_state_range by (auto simp: at_rest_def read_state_def counts_match_def)
  have "length (slots ?lf) < capacity lim"
    using cnt n room(2) total_ge [of ls_count st l] by simp
  then obtain c where c: "c < capacity lim" "map_of (slots ?lf) (locate lim c) = None" by (rule free_slot)
  then have "c \<in> set (ring lim (writeCursor (lanes st l)))" using set_ring [OF cap] by simp
  from place_free [OF t this c(2)] obtain c' lf' where
    place: "place lim payload (ring lim (writeCursor (lanes st l))) ?lf = (Some c', lf')" by blast
  note pl = lane_wf_place [OF wf cap place r]
  let ?st = "put_lane l (placed_lane lim c' (length payload) (length (dirs lf')) (lanes st l))
      st\<lparr>nextSequence := nextSequence st + 1\<rparr>"
  have "ls_count (lanes st l) + 1 \<le> max_records lim" "ls_bytes (lanes st l) + length payload \<le> max_record_bytes lim"
    using n b total_ge [of ls_count st l] total_ge [of ls_bytes st l] by simp_all
  then have "state_in_range lim ?st"
    using range pl(2) cap length_dirs_le [OF pl(1)]
    by (auto simp: state_in_range_def put_lane_def placed_lane_def)
  moreover have "small_state ?st" using small by (simp add: small_state_def put_lane_def)
  ultimately obtain fs' where "write_state lim ?st (set_lane l lf' fs) = (None, fs')"
    using write_state_ok room(1) by blast
  then show ?thesis using n b place segment_names_wf(2) [OF pl(1)] by (simp add: insert_record_def)
qed

lemma complete_accepts:
  assumes rest: "at_rest lim st fs" and room: "roomy lim" "small_state st"
    and slot: "map_of (slots (q_lanes fs l)) (locate lim c) = Some p"
  shows "\<exists>fs'. complete_item lim (item_at lim l c (record_in lim p)) fs = (None, fs')"
proof -
  let ?lf = "q_lanes fs l" and ?item = "item_at lim l c (record_in lim p)"
  have read: "read_state lim fs = Inr st" and wf: "lane_wf lim ?lf" and cap: "0 < capacity lim"
    and range: "state_in_range lim st"
    using rest decode_state_range by (auto simp: at_rest_def read_state_def)
  have item: "qi_lane ?item = l" "qi_segment ?item = fst (locate lim c)" "qi_slot ?item = snd (locate lim c)"
    "qi_record ?item = record_in lim p" by (simp_all add: item_at_def)
  have dir: "fst (locate lim c) \<in> set (dirs ?lf)" using wf map_of_SomeD [OF slot] by (auto simp: lane_wf_def)
  let ?st = "put_lane l (completed_lane lim ?item (length p) (lanes st l)) st"
  have "state_in_range lim ?st"
    using range cap by (auto simp: state_in_range_def put_lane_def completed_lane_def intro: le_trans [OF diff_le_self])
  moreover have "small_state ?st" using room by (simp add: small_state_def put_lane_def)
  ultimately obtain fs' where
    "write_state lim ?st (set_lane l (?lf\<lparr>slots := without (locate lim c) (slots ?lf)\<rparr>) fs) = (None, fs')"
    using write_state_ok room(1) by blast
  then show ?thesis using read dir slot
    by (simp add: complete_item_def Let_def item read_slot_wf [OF wf])
qed

subsection \<open>Properties\<close>

text \<open>The records of a lane with their places, and what a state of the worker's queues must satisfy for
  its encoding to fit.\<close>

lemma roomy_limits: "roomy queue_limits" "max_records queue_limits \<le> capacity queue_limits"
  by (simp_all add: roomy_def queue_limits_def capacity_def)

lemma accepts_new:
  assumes "at_rest queue_limits st fs" "nextSequence st + 1 < 10 ^ 100" "capacityEvents st < 10 ^ 100"
    and "new_record (rf, fresh)" "prepare_record rf (nextSequence st) fresh = Inr prepared"
    and "length (dumps_sorted (VDict prepared)) \<le> 8192"
    and "total ls_count st < 4096" "total ls_bytes st + 8192 \<le> 16777216"
  shows "\<exists>item fs'. enqueue queue_limits l rf True False fresh fs = (Inr item, fs')"
proof -
  let ?p = "dumps_sorted (VDict prepared)"
  have j: "jsonable (VDict rf)" "get rf ''recordId'' = None" using assms(4) by (simp_all add: new_record_def)
  have lim: "record_max_bytes queue_limits = 8192" "max_records queue_limits = 4096"
    "max_record_bytes queue_limits = 16777216" by (simp_all add: queue_limits_def)
  have enc: "encode_record prepared (record_max_bytes queue_limits) = Inr ?p"
    using assms(6) by (simp add: encode_record_def lim)
  have small: "small_state (st\<lparr>nextSequence := nextSequence st + 1\<rparr>)"
    using assms(2,3) by (simp add: small_state_def)
  have room: "total ls_count st < max_records queue_limits"
    "total ls_bytes st + length ?p \<le> max_record_bytes queue_limits" using assms(6-8) unfolding lim by linarith+
  have "\<exists>item fs'. insert_record queue_limits st l prepared ?p fs = (Inr item, fs')"
    by (rule insert_accepts [OF assms(1) roomy_limits small payload_ok(1) [OF assms(5) j(1) enc] room])
  then show ?thesis unfolding enqueue_new [OF assms(4)]
    using assms(5) enc by (simp add: enqueue_def duplicate_def at_rest_read [OF assms(1)])
qed

text \<open>An enqueue of a new record that returns has added exactly one record to the lane, in a place
  that was free, under the fresh identifier, and the queue is consistent again.\<close>

theorem enqueue_adds_one:
  assumes "queue_ok lim fs" "new_record (rf, fresh)"
    and "enqueue lim l rf True False fresh fs = (Inr item, fs')"
  shows "queue_ok lim fs' \<and>
    (\<exists>loc r. records lim fs' l = records lim fs l @ [(loc, r)] \<and> loc \<notin> fst ` set (records lim fs l) \<and>
       rec_id r = fresh_id (rf, fresh) \<and> loc = (qi_segment item, qi_slot item)) \<and>
    (\<forall>l'. l' = l \<or> records lim fs' l' = records lim fs l')"
proof -
  from assms(1) obtain st where rest: "at_rest lim st fs" by (auto simp: queue_ok_iff)
  have j: "jsonable (VDict rf)" "get rf ''recordId'' = None" using assms(2) by (simp_all add: new_record_def)
  have e: "enqueue lim l rf False False fresh fs = (Inr item, fs')" using assms(3) enqueue_new [OF assms(2)] by simp
  from enqueue_ok [OF rest j(1) e] obtain prepared payload c lf' segments where
    x: "prepare_record rf (nextSequence st) fresh = Inr prepared"
      "encode_record prepared (record_max_bytes lim) = Inr payload" "item = item_at lim l c prepared"
      "map_of (slots (q_lanes fs l)) (locate lim c) = None"
      "slots lf' = slots (q_lanes fs l) @ [(locate lim c, payload)]" "q_lanes fs' = (q_lanes fs)(l := lf')"
      "at_rest lim (put_lane l (placed_lane lim c (length payload) segments (lanes st l))
         st\<lparr>nextSequence := nextSequence st + 1\<rparr>) fs'" by blast
  have "rec_id (record_in lim payload) = fresh_id (rf, fresh)"
    using payload_ok(2) [OF x(1) j(1) x(2)] prepare_fresh [OF j(2) x(1)] by simp
  moreover have "locate lim c \<notin> fst ` set (records lim fs l)"
    using x(4) by (auto simp: records_def map_of_eq_None_iff image_iff)
  moreover have "records lim fs' l = records lim fs l @ [(locate lim c, record_in lim payload)]"
    "\<forall>l'. l' = l \<or> records lim fs' l' = records lim fs l'" using x(5,6) by (simp_all add: records_def)
  ultimately show ?thesis using x(3,7) by (auto simp: queue_ok_iff item_at_def)
qed

text \<open>On the worker's limits an enqueue of a new record whose encoding fits is never refused while
  fewer than 4096 records and few enough bytes are queued.\<close>

theorem enqueue_accepts:
  assumes "at_rest queue_limits st fs" "nextSequence st + 1 < 10 ^ 100" "capacityEvents st < 10 ^ 100"
    and "new_record (rf, fresh)" "prepare_record rf (nextSequence st) fresh = Inr prepared"
    and "length (dumps_sorted (VDict prepared)) \<le> 8192"
    and "total ls_count st < 4096" "total ls_bytes st + 8192 \<le> 16777216"
  shows "\<exists>item fs'. enqueue queue_limits l rf True False fresh fs = (Inr item, fs')"
  using accepts_new [OF assms] .

text \<open>While a lane holds a record, peek finds one, completing it succeeds, removes exactly that
  record and leaves the queue consistent.\<close>

theorem take_serves:
  assumes "at_rest queue_limits st fs" "nextSequence st < 10 ^ 100" "capacityEvents st < 10 ^ 100"
    and "records queue_limits fs l \<noteq> []"
  shows "\<exists>item fs'. peek queue_limits l fs = (Inr (Some item), fs) \<and>
    complete_item queue_limits item fs = (None, fs') \<and> queue_ok queue_limits fs' \<and>
    ((qi_segment item, qi_slot item), qi_record item) \<in> set (records queue_limits fs l) \<and>
    records queue_limits fs' l =
      filter (\<lambda>x. fst x \<noteq> (qi_segment item, qi_slot item)) (records queue_limits fs l) \<and>
    (\<forall>l'. l' = l \<or> records queue_limits fs' l' = records queue_limits fs l')"
proof -
  let ?lim = queue_limits
  have "slots (q_lanes fs l) \<noteq> []" using assms(4) by (simp add: records_def)
  with peek_ok [OF assms(1), of l] obtain c where
    c: "find (\<lambda>c. map_of (slots (q_lanes fs l)) (locate ?lim c) \<noteq> None) (ring ?lim (headCursor (lanes st l))) = Some c"
    by (cases "find (\<lambda>c. map_of (slots (q_lanes fs l)) (locate ?lim c) \<noteq> None) (ring ?lim (headCursor (lanes st l)))")
       (auto simp del: split_paired_Ex)
  then obtain p where p: "map_of (slots (q_lanes fs l)) (locate ?lim c) = Some p" using find_SomeD by fastforce
  let ?item = "item_at ?lim l c (record_in ?lim p)"
  have peek: "peek ?lim l fs = (Inr (Some ?item), fs)"
    using peek_ok(1) [OF assms(1), of l] c p \<open>slots (q_lanes fs l) \<noteq> []\<close> by simp
  have item: "(qi_segment ?item, qi_slot ?item) = locate ?lim c" "qi_record ?item = record_in ?lim p"
    "qi_lane ?item = l" by (simp_all add: item_at_def)
  have small: "small_state st" using assms(2,3) by (simp add: small_state_def)
  from complete_accepts [OF assms(1) roomy_limits(1) small p] obtain fs' where
    fin: "complete_item ?lim ?item fs = (None, fs')" by blast
  have slot: "map_of (slots (q_lanes fs (qi_lane ?item))) (qi_segment ?item, qi_slot ?item) = Some p"
    using p item by simp
  note co = complete_ok [OF assms(1) slot fin]
  have "(locate ?lim c, record_in ?lim p) \<in> set (records ?lim fs l)"
    using map_of_SomeD [OF p] by (force simp: records_def)
  moreover have "records ?lim fs' l = filter (\<lambda>x. fst x \<noteq> locate ?lim c) (records ?lim fs l)"
    using co item by (auto simp: records_def without_def filter_map comp_def split_def)
  moreover have "queue_ok ?lim fs'" using co queue_ok_iff by blast
  moreover have "\<forall>l'. l' = l \<or> records ?lim fs' l' = records ?lim fs l'"
    using co item(3) by (auto simp: records_def)
  ultimately show ?thesis using peek fin item by metis
qed

text \<open>C18 A lane is first in, first out: over any run of puts and takes, the records served in their order,
  followed by those that remain, are those the lane held followed by those put.\<close>

theorem lane_first_in_first_out:
  assumes "lane_inv lim l fs" "put_ops ops \<subseteq> Collect new_record"
    and "run_queue (lane_put lim l) (lane_take lim l) ops fs = Some (served, fs')"
  shows "lane_inv lim l fs' \<and> served @ lane_ids lim l fs' = lane_ids lim l fs @ puts fresh_id ops"
  using lane_fifo.run_order [OF assms] .

subsection \<open>Witnesses\<close>

text \<open>A new queue, a record put into it and the queue after it.\<close>

definition tiny :: QueueLimits where
  "tiny = \<lparr>segment_size = 2, max_segments = 2, max_records = 3, max_record_bytes = 1000,
     record_max_bytes = 500, state_max_bytes = 2000, reconcile_max_mutations = 100\<rparr>"

definition new_queue :: "queue_fs" where
  "new_queue = \<lparr>q_state = Some (dumps_sorted (state_value initial_state)), q_lanes = (\<lambda>_. empty_fs)\<rparr>"

definition sample_record :: qrecord where
  "sample_record = [(KStr ''version'', VInt 2), (KStr ''kind'', VStr ''publication'')]"

definition sample_prepared :: qrecord where
  "sample_prepared = [(KStr ''version'', VInt 2), (KStr ''kind'', VStr ''publication''),
     (KStr ''recordId'', VStr (uuid_str 0)), (KStr ''generation'', VInt 0), (KStr ''sequence'', VInt 0)]"

lemma new_queue_at_rest: "at_rest queue_limits initial_state new_queue"
proof -
  have "state_in_range queue_limits initial_state"
    by (simp add: state_in_range_def initial_state_def empty_lane_def queue_limits_def capacity_def)
  then have "read_state queue_limits new_queue = Inr initial_state"
    using decode_encode_state [of initial_state "length (dumps_sorted (state_value initial_state))"]
    by (simp add: read_state_def new_queue_def encode_state_def)
  then show ?thesis
    by (simp add: at_rest_def new_queue_def empty_fs_def lane_wf_def counts_match_def lane_size_def
        initial_state_def empty_lane_def queue_limits_def capacity_def)
qed

lemma sample_new: "new_record (sample_record, uuid_str 0)"
  by (simp add: new_record_def sample_record_def get_def)

lemma sample_prepare: "prepare_record sample_record (nextSequence initial_state) (uuid_str 0) = Inr sample_prepared"
  by (simp add: prepare_record_def sample_record_def get_def uuid_field_def canonical_uuid_str put_def
      natural_def as_int_def sample_prepared_def initial_state_def num_def Let_def)

lemma sample_fits: "length (dumps_sorted (VDict sample_prepared)) \<le> 8192"
  by code_simp

lemma new_queue_empty: "total ls_count initial_state = 0" "total ls_bytes initial_state = 0"
  "capacityEvents initial_state = 0" "nextSequence initial_state = 0"
  by (simp_all add: total_def all_lanes_def initial_state_def empty_lane_def)

lemma sample_enqueue: "\<exists>item fs'. enqueue queue_limits Ready sample_record True False (uuid_str 0) new_queue = (Inr item, fs')"
  by (rule accepts_new [OF new_queue_at_rest _ _ sample_new sample_prepare sample_fits])
    (simp_all add: new_queue_empty)

theorem enqueue_accepts_witness:
  "\<exists>item fs'. enqueue queue_limits Ready sample_record True False (uuid_str 0) new_queue = (Inr item, fs')"
  by (rule enqueue_accepts [OF new_queue_at_rest _ _ sample_new sample_prepare sample_fits])
    (simp_all add: new_queue_empty)

text \<open>The queue after the record was put.\<close>

lemma sample_queued:
  "\<exists>item st fs. enqueue queue_limits Ready sample_record True False (uuid_str 0) new_queue = (Inr item, fs) \<and>
     at_rest queue_limits st fs \<and> ring_lane queue_limits st fs Ready \<and> ls_count (lanes st Ready) = 1 \<and>
     nextSequence st = 1 \<and> capacityEvents st = 0"
proof -
  obtain item fs where e: "enqueue queue_limits Ready sample_record True False (uuid_str 0) new_queue = (Inr item, fs)"
    using sample_enqueue by blast
  then have e': "enqueue queue_limits Ready sample_record False False (uuid_str 0) new_queue = (Inr item, fs)"
    by (simp add: enqueue_new [OF sample_new])
  have j: "jsonable (VDict sample_record)" using sample_new by (simp add: new_record_def)
  have ring: "ring_lane queue_limits initial_state new_queue Ready"
    by (simp add: ring_lane_def initial_state_def empty_lane_def new_queue_def empty_fs_def)
  from enqueue_ok [OF new_queue_at_rest j e'] obtain c segments and payload :: string where
    "at_rest queue_limits (put_lane Ready (placed_lane queue_limits c (length payload) segments
       (lanes initial_state Ready)) initial_state\<lparr>nextSequence := nextSequence initial_state + 1\<rparr>) fs"
    (is "at_rest _ ?st _") by blast
  note r = this
  from enqueue_ring [OF new_queue_at_rest ring j e'] obtain st' where st': "at_rest queue_limits st' fs"
    "ring_lane queue_limits st' fs Ready" by blast
  then have "st' = ?st" using at_rest_read [OF st'(1)] at_rest_read [OF r] by simp
  with r st' e show ?thesis
    by (intro exI [of _ item] exI [of _ ?st] exI [of _ fs])
      (simp add: put_lane_def placed_lane_def initial_state_def empty_lane_def)
qed

lemma take_accepts:
  assumes rest: "at_rest lim st fs" and ring: "ring_lane lim st fs l"
    and room: "roomy lim" "small_state st" "ls_count (lanes st l) \<noteq> 0"
  shows "\<exists>k fs'. lane_take lim l fs = Some (k, fs')"
proof -
  have cap: "0 < capacity lim" and h: "headCursor (lanes st l) < capacity lim"
    using rest decode_state_range by (auto simp: at_rest_def read_state_def state_in_range_def)
  from ring_slot [OF ring, of 0] room(3) obtain p where
    p: "map_of (slots (q_lanes fs l)) (locate lim (headCursor (lanes st l))) = Some p"
    using h by (auto simp: ring_cursor_def)
  have recs: "ring_records lim st fs l = record_in lim p # tl (ring_records lim st fs l)"
    using room(3) p h by (cases "ls_count (lanes st l)")
      (simp_all add: ring_records_def map_upt_Suc ring_cursor_def del: upt_Suc)
  from complete_accepts [OF rest room(1,2) p] obtain fs' where
    "complete_item lim (item_at lim l (headCursor (lanes st l)) (record_in lim p)) fs = (None, fs')" by blast
  then show ?thesis unfolding lane_take_def peek_ring [OF rest ring] by (subst recs) simp
qed

theorem enqueue_adds_one_witness:
  "\<exists>fs. queue_ok queue_limits fs \<and> map (rec_id \<circ> snd) (records queue_limits fs Ready) = [uuid_str 0]"
proof -
  obtain item fs where e: "enqueue queue_limits Ready sample_record True False (uuid_str 0) new_queue = (Inr item, fs)"
    using sample_enqueue by blast
  have "queue_ok queue_limits new_queue" using new_queue_at_rest queue_ok_iff by blast
  from enqueue_adds_one [OF this sample_new e] show ?thesis
    by (auto simp: fresh_id_def canonical_uuid_str records_def new_queue_def empty_fs_def)
qed

theorem take_serves_witness:
  "\<exists>fs item fs'. peek queue_limits Ready fs = (Inr (Some item), fs) \<and>
     complete_item queue_limits item fs = (None, fs') \<and> queue_ok queue_limits fs'"
proof -
  obtain st fs where s: "at_rest queue_limits st fs" "ls_count (lanes st Ready) = 1" "nextSequence st = 1"
    "capacityEvents st = 0" using sample_queued by blast
  have "records queue_limits fs Ready \<noteq> []"
    using s(1,2) by (auto simp: records_def at_rest_def counts_match_def)
  from take_serves [OF s(1) _ _ this] s(3,4) show ?thesis by (simp del: split_paired_Ex) blast
qed

theorem lane_first_in_first_out_witness:
  "\<exists>served fs. run_queue (lane_put queue_limits Ready) (lane_take queue_limits Ready)
     [Put (sample_record, uuid_str 0), Take] new_queue = Some (served, fs) \<and>
     served @ lane_ids queue_limits Ready fs = [uuid_str 0]"
proof -
  obtain item st fs where s: "enqueue queue_limits Ready sample_record True False (uuid_str 0) new_queue = (Inr item, fs)"
    "at_rest queue_limits st fs" "ring_lane queue_limits st fs Ready" "ls_count (lanes st Ready) = 1"
    "nextSequence st = 1" "capacityEvents st = 0" using sample_queued by blast
  have "small_state st" using s(5,6) by (simp add: small_state_def)
  from take_accepts [OF s(2,3) roomy_limits(1) this] s(4) obtain k fs' where
    t: "lane_take queue_limits Ready fs = Some (k, fs')" by auto
  have run: "run_queue (lane_put queue_limits Ready) (lane_take queue_limits Ready)
      [Put (sample_record, uuid_str 0), Take] new_queue = Some ([k], fs')"
    using s(1) t by (simp add: lane_put_def)
  have ring: "ring_lane queue_limits initial_state new_queue Ready"
    by (simp add: ring_lane_def initial_state_def empty_lane_def new_queue_def empty_fs_def)
  have inv: "lane_inv queue_limits Ready new_queue" using new_queue_at_rest ring by (auto simp: lane_inv_def)
  have ops: "put_ops [Put (sample_record, uuid_str 0), Take] \<subseteq> Collect new_record"
    using sample_new by (auto simp: put_ops_def)
  have "lane_ids queue_limits Ready new_queue = []"
    by (simp add: lane_ids_at [OF new_queue_at_rest] ring_records_def initial_state_def empty_lane_def)
  with lane_first_in_first_out [OF inv ops run] run show ?thesis
    by (simp add: fresh_id_def canonical_uuid_str)
qed

end
