(* ===== verification/QueueRecovery.thy ===== *)
theory QueueRecovery
  imports QueueFifo "HOL-Library.Multiset"
begin

section \<open>Reconciliation restores the queue\<close>

text \<open>
  After a crash a queue may hold temporary files, several records of one identifier and a state that does
  not count its files.  A reconciliation that returns leaves a queue at rest that holds, for every record
  identifier found, exactly the record of the highest generation, sequence and lane.
\<close>

subsection \<open>Files of a queue\<close>

text \<open>What holds of the files whatever the program was doing when it stopped: a file lies in a segment
  directory, its number is below the segment size, and a directory has one entry per name.\<close>

definition files_ok :: "QueueLimits \<Rightarrow> queue_fs \<Rightarrow> bool" where
  "files_ok lim fs \<longleftrightarrow> (\<forall>l. distinct (dirs (q_lanes fs l)) \<and> distinct (map fst (slots (q_lanes fs l))) \<and>
     (\<forall>loc\<in>fst ` set (slots (q_lanes fs l)) \<union> fst ` set (temps (q_lanes fs l)).
        fst loc \<in> set (dirs (q_lanes fs l)) \<and> snd loc < segment_size lim))"

definition all_places :: "QueueLimits \<Rightarrow> queue_fs \<Rightarrow> lane \<Rightarrow> (lane \<times> location) list" where
  "all_places lim fs l = concat (map (\<lambda>seg. map (\<lambda>k. (l, seg, k)) [0..<segment_size lim]) (dirs (q_lanes fs l)))"

lemma set_all_places:
  "(l', loc) \<in> set (all_places lim fs l) \<longleftrightarrow> l' = l \<and> fst loc \<in> set (dirs (q_lanes fs l)) \<and> snd loc < segment_size lim"
  by (cases loc) (auto simp: all_places_def image_iff)

lemma distinct_all_places: "distinct (dirs (q_lanes fs l)) \<Longrightarrow> distinct (all_places lim fs l)"
proof -
  have "distinct (concat (map (\<lambda>seg. map (\<lambda>k. (l, seg, k)) [0..<n]) ds))" if "distinct ds" for ds :: "nat list" and n
    using that by (induction ds) (auto simp: distinct_map inj_on_def)
  then show "distinct (dirs (q_lanes fs l)) \<Longrightarrow> distinct (all_places lim fs l)" by (simp add: all_places_def)
qed

subsection \<open>Runs of steps\<close>

lemma run_steps_append:
  "run_steps (fs @ gs) s = (case run_steps fs s of (Some e, s') \<Rightarrow> (Some e, s') | (None, s') \<Rightarrow> run_steps gs s')"
  by (induction fs s rule: run_steps.induct) (auto split: prod.splits option.splits)

lemma run_steps_Cons:
  "run_steps (f # fs) s = (None, s') \<longleftrightarrow> (\<exists>s1. f s = (None, s1) \<and> run_steps fs s1 = (None, s'))"
  by (auto split: prod.splits option.splits)

text \<open>A run of steps indexed by a list establishes what its steps establish one by one.\<close>

lemma run_steps_map:
  assumes "run_steps (map f xs) s = (None, s')" "P [] s"
    and "\<And>ys y s s1. set (ys @ [y]) \<subseteq> set xs \<Longrightarrow> P ys s \<Longrightarrow> f y s = (None, s1) \<Longrightarrow> P (ys @ [y]) s1"
  shows "P xs s'"
proof -
  have "P (ys @ zs) s'" if "run_steps (map f zs) s = (None, s')" "P ys s" "set (ys @ zs) \<subseteq> set xs" for ys zs s
    using that
  proof (induction zs arbitrary: ys s)
    case (Cons z zs)
    then obtain s1 where s1: "f z s = (None, s1)" "run_steps (map f zs) s1 = (None, s')"
      unfolding list.map run_steps_Cons by blast
    have "P (ys @ [z]) s1" using assms(3) [OF _ Cons.prems(2) s1(1)] Cons.prems(3) by simp
    from Cons.IH [OF s1(2) this] Cons.prems(3) show ?case by simp
  qed simp
  from this [of xs s "[]"] assms(1,2) show ?thesis by simp
qed

subsection \<open>The scan\<close>

definition observation :: "QueueLimits \<Rightarrow> queue_fs \<Rightarrow> lane \<times> location \<Rightarrow> ObservedItem list" where
  "observation lim fs pos = (case map_of (slots (q_lanes fs (fst pos))) (snd pos) of
     None \<Rightarrow> []
   | Some p \<Rightarrow> [\<lparr>ob_lane = fst pos, ob_segment = fst (snd pos), ob_slot = snd (snd pos),
        ob_record = record_in lim p, ob_size = length p\<rparr>])"

definition readable_at :: "QueueLimits \<Rightarrow> queue_fs \<Rightarrow> lane \<times> location \<Rightarrow> bool" where
  "readable_at lim fs pos \<longleftrightarrow>
     (\<forall>p. map_of (slots (q_lanes fs (fst pos))) (snd pos) = Some p \<longrightarrow> readable lim p)"

text \<open>The places scanned so far.\<close>

definition scanned :: "QueueLimits \<Rightarrow> queue_fs \<Rightarrow> (lane \<times> location) list \<Rightarrow> reconciling \<Rightarrow> bool" where
  "scanned lim fs places s \<longleftrightarrow>
     (\<forall>l. slots (q_lanes (rc_fs s) l) = slots (q_lanes fs l) \<and> dirs (q_lanes (rc_fs s) l) = dirs (q_lanes fs l) \<and>
        (\<forall>loc. map_of (temps (q_lanes (rc_fs s) l)) loc =
           (if (l, loc) \<in> set places then None else map_of (temps (q_lanes fs l)) loc))) \<and>
     rc_observed s = concat (map (observation lim fs) places) \<and> (\<forall>p\<in>set places. readable_at lim fs p) \<and>
     length (rc_observed s) \<le> max_records lim"

lemma read_slot_Inr:
  assumes "read_slot lim lf loc = Inr v"
  shows "v = (case map_of (slots lf) loc of None \<Rightarrow> None | Some p \<Rightarrow> Some (record_in lim p, length p))"
    "map_of (slots lf) loc = Some p \<Longrightarrow> readable lim p"
  using assms by (auto simp: read_slot_def readable_def record_in_def split: option.splits if_splits sum.splits)

lemma scan_place:
  assumes "scanned lim fs places s" "remove_temp l loc s = (None, s1)" "observe lim l loc s1 = (None, s2)"
  shows "scanned lim fs (places @ [(l, loc)]) s2"
proof -
  have s1: "s1 = (if map_of (temps (q_lanes (rc_fs s) l)) loc = None then s
      else mutate 1 (change_lane l (\<lambda>lf. lf\<lparr>temps := without loc (temps lf)\<rparr>) s))"
    using assms(2) by (simp add: remove_temp_def)
  have q1: "slots (q_lanes (rc_fs s1) l') = slots (q_lanes fs l')" "dirs (q_lanes (rc_fs s1) l') = dirs (q_lanes fs l')"
    "map_of (temps (q_lanes (rc_fs s1) l')) loc' =
       (if (l', loc') \<in> set (places @ [(l, loc)]) then None else map_of (temps (q_lanes fs l')) loc')"
    "rc_observed s1 = rc_observed s" for l' loc'
    using assms(1) by (auto simp: s1 scanned_def mutate_def change_lane_def map_of_without simp del: split_paired_All)
  obtain v where v: "read_slot lim (q_lanes (rc_fs s1) l) loc = Inr v"
    using assms(3) by (auto simp: observe_def split: sum.splits)
  note r = read_slot_Inr [OF v]
  have q2: "rc_fs s2 = rc_fs s1" using assms(3) v by (auto simp: observe_def Let_def split: option.splits if_splits)
  have obs: "rc_observed s2 = rc_observed s1 @ observation lim fs (l, loc)"
    using assms(3) v r(1) q1(1) by (auto simp: observe_def Let_def observation_def split: option.splits if_splits)
  have len: "length (rc_observed s2) \<le> max_records lim"
    using assms(3) v q1(4) assms(1) [unfolded scanned_def]
    by (auto simp: observe_def Let_def split: option.splits if_splits prod.splits)
  have "readable_at lim fs (l, loc)" using r(2) q1(1) by (auto simp: readable_at_def)
  with assms(1) q1 q2 obs len show ?thesis by (simp add: scanned_def)
qed

lemma run_pairs:
  assumes "run_steps (concat (map (\<lambda>x. [f x, g x]) xs)) s = (None, s')" "P [] s"
    and "\<And>ys y s s1 s2. P ys s \<Longrightarrow> f y s = (None, s1) \<Longrightarrow> g y s1 = (None, s2) \<Longrightarrow> P (ys @ [y]) s2"
  shows "P xs s'"
proof -
  have "P (ys @ zs) s'" if "run_steps (concat (map (\<lambda>x. [f x, g x]) zs)) s = (None, s')" "P ys s" for ys zs s
    using that
  proof (induction zs arbitrary: ys s)
    case (Cons z zs)
    then obtain s1 s2 where s1: "f z s = (None, s1)" "g z s1 = (None, s2)"
      "run_steps (concat (map (\<lambda>x. [f x, g x]) zs)) s2 = (None, s')"
      by (auto simp del: run_steps.simps simp: run_steps_Cons)
    from Cons.IH [OF s1(3) assms(3) [OF Cons.prems(2) s1(1,2)]] show ?case by simp
  qed simp
  from this [of xs s "[]"] assms(1,2) show ?thesis by simp
qed

lemma check_budget_same: "check_budget lim s = (None, s') \<Longrightarrow> s' = s"
  by (auto simp: check_budget_def split: if_splits)

lemma mutate_sel [simp]: "rc_fs (mutate n s) = rc_fs s" "rc_observed (mutate n s) = rc_observed s"
  by (simp_all add: mutate_def)

lemma scanned_mutate [simp]: "scanned lim fs places (mutate n s) = scanned lim fs places s"
  by (simp add: scanned_def)

lemma scan_segment_ok:
  assumes "scanned lim fs places s" "scan_segment lim l seg s = (None, s')"
  shows "scanned lim fs (places @ map (\<lambda>k. (l, seg, k)) [0..<segment_size lim]) s'"
proof -
  obtain s1 where run: "run_steps (concat (map (\<lambda>k. [remove_temp l (seg, k), observe lim l (seg, k)])
      [0..<segment_size lim])) s = (None, s1)" and s': "s' = s1 \<or> s' = mutate 1 s1"
    using assms(2) check_budget_same
    by (auto simp: scan_segment_def split: prod.splits option.splits if_splits)
  have "scanned lim fs (places @ map (\<lambda>k. (l, seg, k)) [0..<segment_size lim]) s1"
    by (rule run_pairs [OF run, where P = "\<lambda>ks s. scanned lim fs (places @ map (\<lambda>k. (l, seg, k)) ks) s"])
      (use assms(1) scan_place in force)+
  then show ?thesis using s' by auto
qed

lemma segment_names_Inr: "segment_names lim lf = Inr names \<Longrightarrow> names = dirs lf \<and> length names \<le> max_segments lim \<and>
    (\<forall>d\<in>set names. d < max_segments lim)"
proof -
  have "scan_segments lim found ds = Inr names \<Longrightarrow> length found \<le> max_segments lim \<Longrightarrow>
     names = found @ ds \<and> length names \<le> max_segments lim \<and> (\<forall>d\<in>set ds. d < max_segments lim)" for found ds
    by (induction lim found ds rule: scan_segments.induct) (auto split: if_splits)
  from this [of "[]" "dirs lf"] show "segment_names lim lf = Inr names \<Longrightarrow> ?thesis"
    by (auto simp: segment_names_def)
qed

lemma scan_lane_ok:
  assumes "scanned lim fs places s" "scan_lane lim l s = (None, s')"
  shows "scanned lim fs (places @ all_places lim fs l) s'"
proof -
  have "dirs (q_lanes (rc_fs s) l) = dirs (q_lanes fs l)" using assms(1) by (simp add: scanned_def)
  then have run: "run_steps (map (scan_segment lim l) (dirs (q_lanes fs l))) s = (None, s')"
    using assms(2) segment_names_Inr [of lim "q_lanes (rc_fs s) l"]
    by (auto simp: scan_lane_def split: sum.splits)
  have "scanned lim fs (places @ concat (map (\<lambda>seg. map (\<lambda>k. (l, seg, k)) [0..<segment_size lim])
      (dirs (q_lanes fs l)))) s'"
    by (rule run_steps_map [OF run, where P = "\<lambda>ds s. scanned lim fs (places @
          concat (map (\<lambda>seg. map (\<lambda>k. (l, seg, k)) [0..<segment_size lim]) ds)) s"])
      (use assms(1) scan_segment_ok in force)+
  then show ?thesis by (simp add: all_places_def)
qed

definition places_of :: "QueueLimits \<Rightarrow> queue_fs \<Rightarrow> (lane \<times> location) list" where
  "places_of lim fs = concat (map (all_places lim fs) all_lanes)"

lemma scan_ok:
  assumes "run_steps (map (scan_lane lim) all_lanes) \<lparr>rc_fs = fs, rc_mutations = 0, rc_observed = []\<rparr> = (None, s)"
  shows "scanned lim fs (places_of lim fs) s"
  unfolding places_of_def
proof (rule run_steps_map [OF assms, where P = "\<lambda>ls s. scanned lim fs (concat (map (all_places lim fs) ls)) s"])
  fix ls l s s1
  assume "scanned lim fs (concat (map (all_places lim fs) ls)) s" "scan_lane lim l s = (None, s1)"
  from scan_lane_ok [OF this] show "scanned lim fs (concat (map (all_places lim fs) (ls @ [l]))) s1" by simp
qed (simp add: scanned_def)

subsection \<open>The winners\<close>

definition obs_id :: "ObservedItem \<Rightarrow> string" where
  "obs_id i = rec_id (ob_record i)"

definition winners_ok :: "ObservedItem set \<Rightarrow> (string \<times> ObservedItem) list \<Rightarrow> bool" where
  "winners_ok seen ws \<longleftrightarrow> distinct (map fst ws) \<and> (\<forall>(k, w)\<in>set ws. w \<in> seen \<and> obs_id w = k) \<and>
     (\<forall>i\<in>seen. \<exists>w. map_of ws (obs_id i) = Some w \<and> rank i \<le> rank w)"

lemma map_of_distinct_mem: "distinct (map fst d) \<Longrightarrow> (k, v) \<in> set d \<longleftrightarrow> map_of d k = Some v"
  by (metis map_of_SomeD map_of_is_SomeI)

lemma winners_ok_better:
  assumes "winners_ok seen ws"
  shows "winners_ok (insert i seen) (better i ws)"
proof (cases "\<exists>w. map_of ws (obs_id i) = Some w \<and> \<not> rank w < rank i")
  case True
  then have "better i ws = ws" by (auto simp: better_def obs_id_def)
  with True assms show ?thesis by (fastforce simp: winners_ok_def)
next
  case False
  then have b: "better i ws = dict_put (obs_id i) i ws"
    by (auto simp: better_def obs_id_def split: option.splits)
  have d: "distinct (map fst ws)" and d': "distinct (map fst (dict_put (obs_id i) i ws))"
    using assms distinct_dict_put by (auto simp: winners_ok_def)
  have "w \<in> insert i seen \<and> obs_id w = k" if "(k, w) \<in> set (dict_put (obs_id i) i ws)" for k w
  proof -
    have "((map_of ws)(obs_id i \<mapsto> i)) k = Some w" using that map_of_distinct_mem [OF d'] by simp
    then show ?thesis using assms map_of_SomeD [of ws k w] by (auto simp: winners_ok_def split: if_splits)
  qed
  moreover have "\<exists>w. map_of (dict_put (obs_id i) i ws) (obs_id j) = Some w \<and> rank j \<le> rank w"
    if "j \<in> insert i seen" for j
  proof (cases "obs_id j = obs_id i")
    case True
    show ?thesis
    proof (cases "j = i")
      case False
      with that obtain w where "map_of ws (obs_id j) = Some w" "rank j \<le> rank w"
        using assms by (auto simp: winners_ok_def)
      moreover from this True \<open>\<not> (\<exists>w. _ w \<and> _ w)\<close> have "rank w < rank i" by auto
      ultimately show ?thesis using True by auto
    qed simp
  next
    case False
    with that have "j \<in> seen" by auto
    with assms False show ?thesis by (auto simp: winners_ok_def)
  qed
  ultimately show ?thesis unfolding b using d' by (auto simp: winners_ok_def)
qed

lemma winners_of_ok: "winners_ok (set seen) (winners_of seen)"
proof -
  have "winners_ok (seen1 \<union> set seen2) (fold better seen2 ws)" if "winners_ok seen1 ws" for seen1 seen2 ws
    using that
  proof (induction seen2 arbitrary: seen1 ws)
    case (Cons i seen2)
    from Cons.IH [OF winners_ok_better [OF Cons.prems]] show ?case by simp
  qed simp
  moreover have "winners_ok {} []" by (simp add: winners_ok_def)
  ultimately have "winners_ok ({} \<union> set seen) (fold better seen [])" by blast
  then show ?thesis by (simp add: winners_of_def)
qed

subsection \<open>Losers and empty segments\<close>

definition losing :: "(lane \<times> location) set \<Rightarrow> ObservedItem list \<Rightarrow> (lane \<times> location) set" where
  "losing kept items = place_of ` set items - kept"

definition removed :: "(lane \<times> location) set \<Rightarrow> queue_fs \<Rightarrow> ObservedItem list \<Rightarrow> reconciling \<Rightarrow> bool" where
  "removed kept fs items s \<longleftrightarrow> (\<forall>l. dirs (q_lanes (rc_fs s) l) = dirs (q_lanes fs l) \<and>
     temps (q_lanes (rc_fs s) l) = temps (q_lanes fs l) \<and>
     slots (q_lanes (rc_fs s) l) = filter (\<lambda>f. (l, fst f) \<notin> losing kept items) (slots (q_lanes fs l)))"

lemma without_absent: "map_of fs loc = None \<Longrightarrow> without loc fs = fs"
  by (auto simp: without_def map_of_eq_None_iff filter_id_conv)

lemma remove_loser_ok:
  assumes r: "removed kept fs items s" and step: "remove_loser lim kept i s = (None, s')"
  shows "removed kept fs (items @ [i]) s'"
proof (cases "place_of i \<in> kept")
  case True
  then have "losing kept (items @ [i]) = losing kept items" by (auto simp: losing_def)
  with r step True show ?thesis by (simp add: removed_def remove_loser_def)
next
  case False
  let ?l = "ob_lane i" and ?loc = "(ob_segment i, ob_slot i)"
  have lose: "losing kept (items @ [i]) = insert (?l, ?loc) (losing kept items)"
    using False by (auto simp: losing_def place_of_def)
  have lanes: "slots (q_lanes (rc_fs s') ?l) = without ?loc (slots (q_lanes (rc_fs s) ?l))"
    "\<And>l. l \<noteq> ?l \<Longrightarrow> q_lanes (rc_fs s') l = q_lanes (rc_fs s) l"
    "dirs (q_lanes (rc_fs s') ?l) = dirs (q_lanes (rc_fs s) ?l)"
    "temps (q_lanes (rc_fs s') ?l) = temps (q_lanes (rc_fs s) ?l)"
    using step False read_slot_Inr(1) [of lim "q_lanes (rc_fs s) ?l" ?loc None]
    by (auto simp: remove_loser_def change_lane_def without_absent dest!: check_budget_same
        split: sum.splits option.splits if_splits prod.splits)
  have "slots (q_lanes (rc_fs s') l) = filter (\<lambda>f. (l, fst f) \<notin> losing kept (items @ [i])) (slots (q_lanes fs l))" for l
  proof (cases "l = ?l")
    case True
    then show ?thesis using r lanes(1) by (simp add: removed_def lose without_def conj_commute)
  next
    case False
    then show ?thesis using r lanes(2) by (simp add: removed_def lose)
  qed
  moreover have "dirs (q_lanes (rc_fs s') l) = dirs (q_lanes fs l)"
    "temps (q_lanes (rc_fs s') l) = temps (q_lanes fs l)" for l
    using r lanes(2-4) by (cases "l = ?l"; simp add: removed_def)+
  ultimately show ?thesis by (simp add: removed_def)
qed

definition cleaned :: "QueueLimits \<Rightarrow> queue_fs \<Rightarrow> lane list \<Rightarrow> reconciling \<Rightarrow> bool" where
  "cleaned lim fs ls s \<longleftrightarrow> (\<forall>l. slots (q_lanes (rc_fs s) l) = slots (q_lanes fs l) \<and>
     temps (q_lanes (rc_fs s) l) = temps (q_lanes fs l) \<and>
     set (dirs (q_lanes (rc_fs s) l)) \<subseteq> set (dirs (q_lanes fs l)) \<and>
     (distinct (dirs (q_lanes fs l)) \<longrightarrow> distinct (dirs (q_lanes (rc_fs s) l))) \<and>
     (\<forall>d\<in>set (dirs (q_lanes fs l)). d \<in> fst ` fst ` set (slots (q_lanes fs l)) \<longrightarrow>
        d \<in> set (dirs (q_lanes (rc_fs s) l))) \<and>
     (l \<in> set ls \<longrightarrow> (\<forall>d\<in>set (dirs (q_lanes (rc_fs s) l)). d < max_segments lim)))"

lemma remove_segment_ok:
  assumes c: "cleaned lim fs ls s" and step: "remove_segment lim l seg s = (None, s')"
  shows "cleaned lim fs ls s'"
proof -
  let ?lf = "q_lanes (rc_fs s) l"
  from step consider "s' = s"
    | "rc_fs s' = set_lane l (?lf\<lparr>dirs := filter (\<lambda>d. d \<noteq> seg) (dirs ?lf)\<rparr>) (rc_fs s)"
      "seg \<notin> fst ` fst ` set (slots ?lf)"
    by (auto simp: remove_segment_def Let_def change_lane_def dest!: check_budget_same
        split: sum.splits option.splits if_splits)
  then show ?thesis
  proof cases
    case 2
    then show ?thesis using c unfolding cleaned_def by auto
  qed (use c in simp)
qed

lemma clean_lane_ok:
  assumes c: "cleaned lim fs ls s" and step: "clean_lane lim l s = (None, s')"
  shows "cleaned lim fs (ls @ [l]) s'"
proof -
  from step obtain names where n: "segment_names lim (q_lanes (rc_fs s) l) = Inr names"
    and run: "run_steps (map (remove_segment lim l) names) s = (None, s')"
    by (auto simp: clean_lane_def split: sum.splits prod.splits option.splits)
  have b: "\<forall>d\<in>set (dirs (q_lanes (rc_fs s) l)). d < max_segments lim" using segment_names_Inr [OF n] by auto
  have start: "cleaned lim fs (ls @ [l]) s" using c b by (simp add: cleaned_def)
  show ?thesis
    by (rule run_steps_map [OF run, where P = "\<lambda>_. cleaned lim fs (ls @ [l])", OF start])
      (rule remove_segment_ok)
qed

text \<open>The two phases after the scan.\<close>

lemma sweep_ok:
  assumes "run_steps (map (remove_loser lim kept) items @ map (clean_lane lim) all_lanes) s = (None, s')"
  shows "\<exists>s1. removed kept (rc_fs s) items s1 \<and> cleaned lim (rc_fs s1) all_lanes s'"
proof -
  from assms obtain s1 where r1: "run_steps (map (remove_loser lim kept) items) s = (None, s1)"
    and r2: "run_steps (map (clean_lane lim) all_lanes) s1 = (None, s')"
    by (auto simp: run_steps_append split: prod.splits option.splits)
  have "removed kept (rc_fs s) [] s" by (simp add: removed_def losing_def)
  with run_steps_map [OF r1, where P = "removed kept (rc_fs s)"] remove_loser_ok
  have "removed kept (rc_fs s) items s1" by blast
  moreover have "cleaned lim (rc_fs s1) [] s1" by (simp add: cleaned_def)
  with run_steps_map [OF r2, where P = "cleaned lim (rc_fs s1)"] clean_lane_ok
  have "cleaned lim (rc_fs s1) all_lanes s'" by blast
  ultimately show ?thesis by blast
qed

subsection \<open>What a scan saw\<close>

definition observed_as :: "QueueLimits \<Rightarrow> queue_fs \<Rightarrow> ObservedItem \<Rightarrow> bool" where
  "observed_as lim fs i \<longleftrightarrow> (\<exists>p. map_of (slots (q_lanes fs (ob_lane i))) (ob_segment i, ob_slot i) = Some p \<and>
     readable lim p \<and> ob_record i = record_in lim p \<and> ob_size i = length p)"

lemma set_places_of: "(l, loc) \<in> set (places_of lim fs) \<longleftrightarrow>
    fst loc \<in> set (dirs (q_lanes fs l)) \<and> snd loc < segment_size lim"
proof -
  have "l \<in> set all_lanes" by (cases l) (simp_all add: all_lanes_def)
  then show ?thesis by (auto simp: places_of_def set_all_places)
qed

lemma observation_place: "i \<in> set (observation lim fs pos) \<Longrightarrow> place_of i = pos"
  by (auto simp: observation_def place_of_def prod_eq_iff split: option.splits)

lemma observed_mem:
  assumes "scanned lim fs (places_of lim fs) s" "files_ok lim fs"
  shows "i \<in> set (rc_observed s) \<longleftrightarrow> observed_as lim fs i"
proof -
  have obs: "rc_observed s = concat (map (observation lim fs) (places_of lim fs))"
    and rd: "\<And>p. p \<in> set (places_of lim fs) \<Longrightarrow> readable_at lim fs p"
    using assms(1) by (auto simp: scanned_def)
  have places: "place_of i \<in> set (places_of lim fs)" if o: "observed_as lim fs i"
  proof -
    obtain p where "map_of (slots (q_lanes fs (ob_lane i))) (ob_segment i, ob_slot i) = Some p"
      using o by (auto simp: observed_as_def)
    from map_of_SomeD [OF this] have "(ob_segment i, ob_slot i) \<in> fst ` set (slots (q_lanes fs (ob_lane i)))" by force
    then show ?thesis using assms(2) unfolding files_ok_def place_of_def set_places_of by blast
  qed
  show ?thesis
  proof
    assume "i \<in> set (rc_observed s)"
    then obtain pos where pos: "pos \<in> set (places_of lim fs)" "i \<in> set (observation lim fs pos)"
      by (auto simp: obs)
    then show "observed_as lim fs i" using rd [OF pos(1)]
      by (cases "map_of (slots (q_lanes fs (fst pos))) (snd pos)")
        (auto simp: observed_as_def observation_def readable_at_def)
  next
    assume o: "observed_as lim fs i"
    then have "i \<in> set (observation lim fs (place_of i))"
      by (auto simp: observed_as_def observation_def place_of_def)
    with places [OF o] show "i \<in> set (rc_observed s)" by (auto simp: obs)
  qed
qed

lemma observed_inj:
  "observed_as lim fs i \<Longrightarrow> observed_as lim fs j \<Longrightarrow> place_of i = place_of j \<Longrightarrow> i = j"
  by (auto simp: observed_as_def place_of_def)

text \<open>The items a list of winners keeps in a lane are the slots left there.\<close>

lemma kept_slots:
  assumes fo: "files_ok lim fs" and W: "\<And>i. i \<in> set W \<Longrightarrow> observed_as lim fs i" "distinct W"
    and left: "slots lf = filter (\<lambda>f. (l, fst f) \<in> place_of ` set W) (slots (q_lanes fs l))"
  shows "mset (map (\<lambda>i. ((ob_segment i, ob_slot i), ob_record i, ob_size i)) (filter (\<lambda>i. ob_lane i = l) W)) =
    mset (map (\<lambda>(loc, p). (loc, record_in lim p, length p)) (slots lf))"
proof -
  let ?g = "\<lambda>i. ((ob_segment i, ob_slot i), ob_record i, ob_size i)"
  let ?h = "\<lambda>(loc, p). (loc, record_in lim p, length p)"
  let ?S = "slots (q_lanes fs l)"
  have ds: "distinct (map fst ?S)" using fo by (simp add: files_ok_def)
  have "inj_on ?g (set (filter (\<lambda>i. ob_lane i = l) W))"
    using W(1) observed_inj by (auto simp: inj_on_def place_of_def)
  then have d1: "distinct (map ?g (filter (\<lambda>i. ob_lane i = l) W))" using W(2) by (simp add: distinct_map)
  have "distinct (map fst (slots lf))" using ds by (simp add: left distinct_map_filter)
  then have "distinct (map fst (map ?h (slots lf)))" by (simp add: comp_def split_def)
  then have d2: "distinct (map ?h (slots lf))" unfolding distinct_map by blast
  have "set (map ?g (filter (\<lambda>i. ob_lane i = l) W)) = set (map ?h (slots lf))"
  proof (rule set_eqI)
    fix x
    have "x \<in> set (map ?g (filter (\<lambda>i. ob_lane i = l) W)) \<longleftrightarrow>
        (\<exists>i\<in>set W. ob_lane i = l \<and> x = ?g i)" by auto
    also have "\<dots> \<longleftrightarrow> (\<exists>loc p. map_of ?S loc = Some p \<and> (l, loc) \<in> place_of ` set W \<and> x = ?h (loc, p))"
    proof
      assume "\<exists>i\<in>set W. ob_lane i = l \<and> x = ?g i"
      then obtain i where i: "i \<in> set W" "ob_lane i = l" "x = ?g i" by blast
      with W(1) [OF i(1)] obtain p where p: "map_of ?S (ob_segment i, ob_slot i) = Some p"
        "ob_record i = record_in lim p" "ob_size i = length p" by (auto simp: observed_as_def)
      have "(l, ob_segment i, ob_slot i) \<in> place_of ` set W"
        using i by (auto simp: place_of_def image_iff)
      with p i(3) show "\<exists>loc p. map_of ?S loc = Some p \<and> (l, loc) \<in> place_of ` set W \<and> x = ?h (loc, p)"
        by (intro exI [of _ "(ob_segment i, ob_slot i)"] exI [of _ p]) simp
    next
      assume "\<exists>loc p. map_of ?S loc = Some p \<and> (l, loc) \<in> place_of ` set W \<and> x = ?h (loc, p)"
      then obtain loc p i where i: "map_of ?S loc = Some p" "i \<in> set W" "(l, loc) = place_of i" "x = ?h (loc, p)"
        by blast
      with W(1) [OF i(2)] show "\<exists>i\<in>set W. ob_lane i = l \<and> x = ?g i"
        by (intro bexI [of _ i]) (auto simp: observed_as_def place_of_def)
    qed
    also have "\<dots> \<longleftrightarrow> x \<in> set (map ?h (slots lf))"
      using map_of_distinct_mem [OF ds] by (force simp: left)
    finally show "x \<in> set (map ?g (filter (\<lambda>i. ob_lane i = l) W)) \<longleftrightarrow> x \<in> set (map ?h (slots lf))" .
  qed
  then show ?thesis using set_eq_iff_mset_eq_distinct [OF d1 d2] by blast
qed

subsection \<open>The rebuilt state\<close>

lemma fold_max_ge: "x \<in> set xs \<or> x \<le> a \<Longrightarrow> (x :: nat) \<le> fold max xs a"
proof (induction xs arbitrary: a)
  case (Cons y ys)
  have "x \<in> set ys \<or> x \<le> max y a" using Cons.prems by auto
  from Cons.IH [OF this] show ?case by simp
qed simp

lemma cursor_of_less:
  assumes "ob_segment i < max_segments lim" "ob_slot i < segment_size lim"
  shows "cursor_of lim i < capacity lim"
proof -
  have "cursor_of lim i < Suc (ob_segment i) * segment_size lim" using assms(2) by (simp add: cursor_of_def)
  also have "\<dots> \<le> max_segments lim * segment_size lim" using assms(1) by (intro mult_le_mono1) simp
  finally show ?thesis by (simp add: capacity_def mult.commute)
qed

lemma set_lane_winners: "set (lane_winners l ws) = {i \<in> snd ` set ws. ob_lane i = l}"
  by (auto simp: lane_winners_def)

lemma mset_lane_winners: "mset (lane_winners l ws) = mset (filter (\<lambda>i. ob_lane i = l) (map snd ws))"
  by (simp add: lane_winners_def)

text \<open>A reconciliation that returns: the files before the state is written and the winners.\<close>

lemma reconcile_steps:
  assumes "reconcile lim fs = (None, fs')" "files_ok lim fs"
  shows "\<exists>s2 ws events. winners_ok {i. observed_as lim fs i} ws \<and> length ws \<le> max_records lim \<and>
    (\<forall>l. distinct (dirs (q_lanes s2 l)) \<and> (\<forall>d\<in>set (dirs (q_lanes s2 l)). d < max_segments lim) \<and>
       temps (q_lanes s2 l) = [] \<and>
       slots (q_lanes s2 l) = filter (\<lambda>f. (l, fst f) \<in> place_of ` snd ` set ws) (slots (q_lanes fs l)) \<and>
       (\<forall>loc\<in>fst ` set (slots (q_lanes s2 l)). fst loc \<in> set (dirs (q_lanes s2 l)))) \<and>
    total ls_bytes (rebuilt_state lim events ws s2) \<le> max_record_bytes lim \<and>
    write_state lim (rebuilt_state lim events ws s2) s2 = (None, fs') \<and> 0 < capacity lim \<and>
    (\<forall>l. \<forall>f\<in>set (slots (q_lanes fs l)). readable lim (snd f))"
proof -
  from assms(1) obtain previous s where prev: "read_state lim fs = Inr previous"
    and scan: "run_steps (map (scan_lane lim) all_lanes) \<lparr>rc_fs = fs, rc_mutations = 0, rc_observed = []\<rparr> = (None, s)"
    by (auto simp: reconcile_def split: sum.splits prod.splits option.splits)
  let ?ws = "winners_of (rc_observed s)"
  let ?kept = "set (map (place_of \<circ> snd) ?ws)"
  from assms(1) prev scan obtain s' where
    sweep: "run_steps (map (remove_loser lim ?kept) (rc_observed s) @ map (clean_lane lim) all_lanes) s = (None, s')"
    and small: "total ls_bytes (rebuilt_state lim (capacityEvents previous) ?ws (rc_fs s')) \<le> max_record_bytes lim"
    and wr: "write_state lim (rebuilt_state lim (capacityEvents previous) ?ws (rc_fs s')) (rc_fs s') = (None, fs')"
    by (auto simp: reconcile_def Let_def split: prod.splits option.splits if_splits)
  have sc: "scanned lim fs (places_of lim fs) s" using scan by (rule scan_ok)
  have seen: "set (rc_observed s) = {i. observed_as lim fs i}" using observed_mem [OF sc assms(2)] by auto
  then have win: "winners_ok {i. observed_as lim fs i} ?ws" using winners_of_ok [of "rc_observed s"] by simp
  have len: "length ?ws \<le> max_records lim"
  proof -
    have keys: "distinct (map fst ?ws)" "\<forall>(k, w)\<in>set ?ws. w \<in> set (rc_observed s) \<and> obs_id w = k"
      using win seen by (simp_all add: winners_ok_def)
    then have "set (map fst ?ws) \<subseteq> obs_id ` set (rc_observed s)" by auto
    then have "card (set (map fst ?ws)) \<le> card (obs_id ` set (rc_observed s))" by (intro card_mono) auto
    also have "\<dots> \<le> length (rc_observed s)"
      using card_image_le [of "set (rc_observed s)" obs_id] card_length [of "rc_observed s"] by simp
    also have "\<dots> \<le> max_records lim" using sc [unfolded scanned_def] by blast
    finally show ?thesis using distinct_card [OF keys(1)] by simp
  qed
  from sweep_ok [OF sweep] obtain s1 where rem: "removed ?kept (rc_fs s) (rc_observed s) s1"
    and cl: "cleaned lim (rc_fs s1) all_lanes s'" by blast
  have rd: "(l, loc) \<in> set (places_of lim fs)" "readable lim p" "map_of (slots (q_lanes fs l)) loc = Some p"
    if "(loc, p) \<in> set (slots (q_lanes fs l))" for l loc p
  proof -
    have "distinct (map fst (slots (q_lanes fs l)))" using assms(2) by (simp add: files_ok_def)
    with that show m: "map_of (slots (q_lanes fs l)) loc = Some p" by simp
    show "(l, loc) \<in> set (places_of lim fs)" using that assms(2) unfolding files_ok_def set_places_of by force
    then show "readable lim p" using sc m by (auto simp: scanned_def readable_at_def)
  qed
  have fin: "distinct (dirs (q_lanes (rc_fs s') l)) \<and> (\<forall>d\<in>set (dirs (q_lanes (rc_fs s') l)). d < max_segments lim) \<and>
       temps (q_lanes (rc_fs s') l) = [] \<and>
       slots (q_lanes (rc_fs s') l) = filter (\<lambda>f. (l, fst f) \<in> place_of ` snd ` set ?ws) (slots (q_lanes fs l)) \<and>
       (\<forall>loc\<in>fst ` set (slots (q_lanes (rc_fs s') l)). fst loc \<in> set (dirs (q_lanes (rc_fs s') l)))" for l
  proof -
    have l: "l \<in> set all_lanes" by (cases l) (simp_all add: all_lanes_def)
    have same: "dirs (q_lanes (rc_fs s1) l) = dirs (q_lanes fs l)" "slots (q_lanes (rc_fs s') l) = slots (q_lanes (rc_fs s1) l)"
      "temps (q_lanes (rc_fs s') l) = temps (q_lanes (rc_fs s) l)" "slots (q_lanes (rc_fs s) l) = slots (q_lanes fs l)"
      using rem cl sc by (simp_all add: removed_def cleaned_def scanned_def)
    have temps: "map_of (temps (q_lanes (rc_fs s) l)) loc = None" for loc
    proof (cases "(l, loc) \<in> set (places_of lim fs)")
      case False
      then have "loc \<notin> fst ` set (temps (q_lanes fs l))"
        using assms(2) unfolding files_ok_def set_places_of by blast
      then show ?thesis using sc by (simp add: scanned_def map_of_eq_None_iff del: split_paired_All)
    qed (use sc in \<open>simp add: scanned_def del: split_paired_All\<close>)
    have "slots (q_lanes (rc_fs s1) l) = filter (\<lambda>f. (l, fst f) \<notin> losing ?kept (rc_observed s)) (slots (q_lanes fs l))"
      using rem same(4) by (simp add: removed_def)
    also have "\<dots> = filter (\<lambda>f. (l, fst f) \<in> ?kept) (slots (q_lanes fs l))"
    proof (rule filter_cong [OF refl])
      fix f
      assume f: "f \<in> set (slots (q_lanes fs l))"
      obtain loc p where fp: "f = (loc, p)" by (cases f)
      have "observed_as lim fs \<lparr>ob_lane = l, ob_segment = fst loc, ob_slot = snd loc,
          ob_record = record_in lim p, ob_size = length p\<rparr>"
        using rd [of loc p l] f fp by (simp add: observed_as_def)
      then have "(l, loc) \<in> place_of ` set (rc_observed s)"
        unfolding seen by (force simp: place_of_def image_iff)
      then show "((l, fst f) \<notin> losing ?kept (rc_observed s)) = ((l, fst f) \<in> ?kept)"
        by (auto simp: losing_def fp)
    qed
    finally have slots': "slots (q_lanes (rc_fs s1) l) = filter (\<lambda>f. (l, fst f) \<in> place_of ` snd ` set ?ws) (slots (q_lanes fs l))"
      by (simp add: image_comp)
    have "fst loc \<in> set (dirs (q_lanes (rc_fs s') l))" if "loc \<in> fst ` set (slots (q_lanes (rc_fs s1) l))" for loc
    proof -
      have "loc \<in> fst ` set (slots (q_lanes fs l))" using that slots' by auto
      then have "fst loc \<in> set (dirs (q_lanes (rc_fs s1) l))"
        using assms(2) same(1) unfolding files_ok_def by (metis UnI1)
      then show ?thesis using cl that unfolding cleaned_def by blast
    qed
    moreover have "temps (q_lanes (rc_fs s) l) = []" using temps map_of_eq_None_iff
      by (metis list.set_intros(1) list.exhaust image_eqI)
    ultimately show ?thesis using cl same slots' l assms(2)
      by (auto simp: cleaned_def files_ok_def)
  qed
  have "0 < capacity lim" using prev decode_state_range [of lim "q_state fs" previous]
    by (auto simp: read_state_def state_in_range_def)
  moreover have "\<forall>l. \<forall>f\<in>set (slots (q_lanes fs l)). readable lim (snd f)" using rd(2) by auto
  ultimately show ?thesis using win len fin small wr by blast
qed

text \<open>Every record of a queue with its lane and place, and its rank.\<close>

definition stored :: "QueueLimits \<Rightarrow> queue_fs \<Rightarrow> (lane \<times> location \<times> qrecord) list" where
  "stored lim fs = concat (map (\<lambda>l. map (\<lambda>(loc, r). (l, loc, r)) (records lim fs l)) all_lanes)"

definition stored_id :: "lane \<times> location \<times> qrecord \<Rightarrow> string" where
  "stored_id x = rec_id (snd (snd x))"

definition stored_rank :: "lane \<times> location \<times> qrecord \<Rightarrow> nat \<times> nat \<times> nat" where
  "stored_rank x = (rec_generation (snd (snd x)), rec_sequence (snd (snd x)), lane_priority (fst x))"

lemma set_stored: "(l, loc, r) \<in> set (stored lim fs) \<longleftrightarrow> (\<exists>p. (loc, p) \<in> set (slots (q_lanes fs l)) \<and> r = record_in lim p)"
proof -
  have "l \<in> set all_lanes" by (cases l) (simp_all add: all_lanes_def)
  then show ?thesis by (force simp: stored_def records_def)
qed

lemma distinct_stored:
  assumes "\<And>l. distinct (map fst (slots (q_lanes fs l)))"
  shows "distinct (stored lim fs)"
proof -
  have one: "distinct (map (\<lambda>(loc, r). (l, loc, r)) (records lim fs l))" for l
  proof -
    have "map fst (map snd (map (\<lambda>(loc, r). (l, loc, r)) (records lim fs l))) = map fst (slots (q_lanes fs l))"
      by (simp add: records_def comp_def split_def)
    with assms [of l] show ?thesis by (metis distinct_map)
  qed
  then show ?thesis unfolding stored_def
    using one [of Ready] one [of Deferred] one [of Held] by (auto simp: all_lanes_def)
qed

definition item_of :: "ObservedItem \<Rightarrow> lane \<times> location \<times> qrecord" where
  "item_of i = (ob_lane i, (ob_segment i, ob_slot i), ob_record i)"

lemma observed_stored:
  assumes "files_ok lim fs"
  shows "(\<exists>i. observed_as lim fs i \<and> item_of i = x) \<longrightarrow> x \<in> set (stored lim fs)"
    and "x \<in> set (stored lim fs) \<Longrightarrow> \<forall>l. \<forall>f\<in>set (slots (q_lanes fs l)). readable lim (snd f) \<Longrightarrow>
      \<exists>i. observed_as lim fs i \<and> item_of i = x"
proof -
  obtain l loc r where x: "x = (l, loc, r)" by (cases x)
  have ds: "distinct (map fst (slots (q_lanes fs l)))" using assms by (simp add: files_ok_def)
  show "(\<exists>i. observed_as lim fs i \<and> item_of i = x) \<longrightarrow> x \<in> set (stored lim fs)"
    using map_of_SomeD by (fastforce simp: x set_stored item_of_def observed_as_def)
  assume s: "x \<in> set (stored lim fs)" and rd: "\<forall>l. \<forall>f\<in>set (slots (q_lanes fs l)). readable lim (snd f)"
  then obtain p where p: "(loc, p) \<in> set (slots (q_lanes fs l))" "r = record_in lim p" by (auto simp: x set_stored)
  then have m: "map_of (slots (q_lanes fs l)) loc = Some p" using ds by simp
  show "\<exists>i. observed_as lim fs i \<and> item_of i = x"
    using m p bspec [OF spec [OF rd, of l] p(1)] by (intro exI [of _ "\<lparr>ob_lane = l, ob_segment = fst loc, ob_slot = snd loc, ob_record = r,
        ob_size = length p\<rparr>"]) (simp add: observed_as_def item_of_def x)
qed

lemma lane_counts:
  assumes fo: "files_ok lim fs" and win: "winners_ok {i. observed_as lim fs i} ws"
    and left: "slots (q_lanes s2 l) = filter (\<lambda>f. (l, fst f) \<in> place_of ` snd ` set ws) (slots (q_lanes fs l))"
  shows "length (lane_winners l ws) = length (slots (q_lanes s2 l))"
    "sum_list (map ob_size (lane_winners l ws)) = lane_size (q_lanes s2 l)"
    "(\<lambda>i. ((ob_segment i, ob_slot i), ob_record i)) ` set (lane_winners l ws) =
       (\<lambda>(loc, p). (loc, record_in lim p)) ` set (slots (q_lanes s2 l))"
proof -
  let ?g = "\<lambda>i. ((ob_segment i, ob_slot i), ob_record i, ob_size i)"
  let ?h = "\<lambda>(loc, p). (loc, record_in lim p, length p)"
  let ?W = "map snd ws"
  have ws: "\<And>i. i \<in> set ?W \<Longrightarrow> observed_as lim fs i" "distinct ?W"
  proof -
    show "\<And>i. i \<in> set ?W \<Longrightarrow> observed_as lim fs i" using win by (auto simp: winners_ok_def)
    have "map obs_id ?W = map fst ws" using win by (auto simp: winners_ok_def)
    then show "distinct ?W" using win by (metis distinct_map winners_ok_def)
  qed
  have left': "slots (q_lanes s2 l) = filter (\<lambda>f. (l, fst f) \<in> place_of ` set ?W) (slots (q_lanes fs l))"
    using left by simp
  have "mset (map ?g (lane_winners l ws)) = mset (map ?g (filter (\<lambda>i. ob_lane i = l) ?W))"
    by (simp add: mset_lane_winners)
  with kept_slots [OF fo ws left'] have m: "mset (map ?g (lane_winners l ws)) = mset (map ?h (slots (q_lanes s2 l)))"
    by simp
  from arg_cong [OF m, of size] show "length (lane_winners l ws) = length (slots (q_lanes s2 l))" by simp
  from arg_cong [OF m, of "\<lambda>x. sum_mset (image_mset (snd \<circ> snd) x)"]
  show "sum_list (map ob_size (lane_winners l ws)) = lane_size (q_lanes s2 l)"
    by (simp add: lane_size_def sum_mset_sum_list [symmetric] image_mset.compositionality comp_def split_def)
  from arg_cong [OF m, of "\<lambda>x. (\<lambda>(a, b, c). (a, b)) ` set_mset x"]
  show "(\<lambda>i. ((ob_segment i, ob_slot i), ob_record i)) ` set (lane_winners l ws) =
       (\<lambda>(loc, p). (loc, record_in lim p)) ` set (slots (q_lanes s2 l))"
    by (simp add: image_comp comp_def split_def)
qed

text \<open>After a reconciliation: the queue is at rest and holds exactly the winners.\<close>

lemma reconcile_ok:
  assumes rec: "reconcile lim fs = (None, fs')" and fo: "files_ok lim fs"
  shows "queue_ok lim fs'"
    and "\<exists>ws. winners_ok {i. observed_as lim fs i} ws \<and> set (stored lim fs') = item_of ` snd ` set ws"
    and "\<forall>l. distinct (map fst (slots (q_lanes fs' l)))"
    and "\<forall>l. \<forall>f\<in>set (slots (q_lanes fs l)). readable lim (snd f)"
proof -
  from reconcile_steps [OF rec fo] obtain s2 ws events where
    win: "winners_ok {i. observed_as lim fs i} ws" and len: "length ws \<le> max_records lim"
    and lane: "\<forall>l. distinct (dirs (q_lanes s2 l)) \<and> (\<forall>d\<in>set (dirs (q_lanes s2 l)). d < max_segments lim) \<and>
       temps (q_lanes s2 l) = [] \<and>
       slots (q_lanes s2 l) = filter (\<lambda>f. (l, fst f) \<in> place_of ` snd ` set ws) (slots (q_lanes fs l)) \<and>
       (\<forall>loc\<in>fst ` set (slots (q_lanes s2 l)). fst loc \<in> set (dirs (q_lanes s2 l)))"
    and small: "total ls_bytes (rebuilt_state lim events ws s2) \<le> max_record_bytes lim"
    and wr: "write_state lim (rebuilt_state lim events ws s2) s2 = (None, fs')" and cap: "0 < capacity lim"
    and rd: "\<forall>l. \<forall>f\<in>set (slots (q_lanes fs l)). readable lim (snd f)" by blast
  let ?st = "rebuilt_state lim events ws s2"
  note lc = lane_counts [OF fo win, of s2]
  have left: "slots (q_lanes s2 l) = filter (\<lambda>f. (l, fst f) \<in> place_of ` snd ` set ws) (slots (q_lanes fs l))" for l
    using lane by blast
  have wf: "lane_wf lim (q_lanes s2 l)" for l
  proof -
    have "distinct (map fst (slots (q_lanes s2 l)))"
      using fo left [of l] by (simp add: files_ok_def distinct_map_filter)
    moreover have "fst loc \<in> set (dirs (q_lanes s2 l)) \<and> snd loc < segment_size lim \<and> readable lim p"
      if "(loc, p) \<in> set (slots (q_lanes s2 l))" for loc p
    proof -
      have "(loc, p) \<in> set (slots (q_lanes fs l))" using that left by simp
      then have "readable lim p" "snd loc < segment_size lim"
        using bspec [OF spec [OF rd, of l], of "(loc, p)"] fo unfolding files_ok_def by (simp, force)
      moreover have "fst loc \<in> set (dirs (q_lanes s2 l))" using lane that by (metis fst_conv image_eqI)
      ultimately show ?thesis by blast
    qed
    ultimately show ?thesis using lane unfolding lane_wf_def by blast
  qed
  have cursor: "cursor_of lim i < capacity lim" if i: "i \<in> set (lane_winners l ws)" for i l
  proof -
    from i lc(3) [OF left, of l] obtain p where "((ob_segment i, ob_slot i), p) \<in> set (slots (q_lanes s2 l))" by force
    then have "ob_segment i \<in> set (dirs (q_lanes s2 l))" "ob_slot i < segment_size lim"
      using wf [of l] by (auto simp: lane_wf_def)
    then show ?thesis using lane by (auto intro: cursor_of_less)
  qed
  have lanes: "lanes ?st l = rebuilt_lane lim (lane_winners l ws) (length (dirs (q_lanes s2 l)))" for l
    by (simp add: rebuilt_state_def)
  have "length (lane_winners l ws) \<le> length ws" for l
    by (simp add: lane_winners_def le_trans [OF length_filter_le])
  then have "length (lane_winners l ws) \<le> max_records lim" for l using len le_trans by blast
  moreover have "sum_list (map ob_size (lane_winners l ws)) \<le> max_record_bytes lim" for l
    using small total_ge [of ls_bytes ?st l] by (simp add: lanes rebuilt_lane_def)
  ultimately have range: "state_in_range lim ?st"
    using cursor [OF hd_in_set] cap length_dirs_le [OF wf] by (auto simp: state_in_range_def lanes rebuilt_lane_def)
  note ws = write_state_Some [OF wr range]
  have seq: "rec_sequence (record_in lim p) < nextSequence ?st" if "(loc, p) \<in> set (slots (q_lanes s2 l))" for l loc p
  proof -
    have "(loc, record_in lim p) \<in> (\<lambda>(loc, p). (loc, record_in lim p)) ` set (slots (q_lanes s2 l))"
      using that by force
    then obtain i where "i \<in> set (lane_winners l ws)" "ob_record i = record_in lim p"
      unfolding lc(3) [OF left, of l, symmetric] by auto
    then obtain k where "(k, i) \<in> set ws" "ob_record i = record_in lim p" by (auto simp: set_lane_winners)
    then have "rec_sequence (record_in lim p) + 1 \<in> set (map (\<lambda>(_, i). rec_sequence (ob_record i) + 1) ws)" by force
    then have "rec_sequence (record_in lim p) + 1 \<le> nextSequence ?st"
      unfolding rebuilt_state_def by (simp add: fold_max_ge)
    then show ?thesis by simp
  qed
  have "at_rest lim ?st fs'" unfolding at_rest_def counts_match_def
    using ws cap wf lane lc(1,2) [OF left] seq by (auto simp: lanes rebuilt_lane_def)
  then show "queue_ok lim fs'" using queue_ok_iff by blast
  have mem: "(l, loc, r) \<in> set (stored lim fs') \<longleftrightarrow> (l, loc, r) \<in> item_of ` snd ` set ws" for l loc r
  proof -
    have "(l, loc, r) \<in> set (stored lim fs') \<longleftrightarrow> (loc, r) \<in> (\<lambda>(loc, p). (loc, record_in lim p)) ` set (slots (q_lanes s2 l))"
      unfolding set_stored ws(2) by auto
    also have "\<dots> \<longleftrightarrow> (loc, r) \<in> (\<lambda>i. ((ob_segment i, ob_slot i), ob_record i)) ` {i \<in> snd ` set ws. ob_lane i = l}"
      unfolding lc(3) [OF left, symmetric] set_lane_winners ..
    also have "\<dots> \<longleftrightarrow> (l, loc, r) \<in> item_of ` snd ` set ws" unfolding item_of_def by blast
    finally show ?thesis .
  qed
  have "set (stored lim fs') = item_of ` snd ` set ws" by (rule set_eqI) (metis mem prod_cases3)
  with win show "\<exists>ws. winners_ok {i. observed_as lim fs i} ws \<and> set (stored lim fs') = item_of ` snd ` set ws" by blast
  show "\<forall>l. distinct (map fst (slots (q_lanes fs' l)))" using wf ws(2) by (simp add: lane_wf_def)
qed (use reconcile_steps [OF rec fo] in blast)

lemma reconcile_keeps:
  assumes "files_ok lim fs" "reconcile lim fs = (None, fs')"
  shows "queue_ok lim fs' \<and> set (stored lim fs') \<subseteq> set (stored lim fs) \<and>
    distinct (map stored_id (stored lim fs')) \<and>
    set (stored lim fs) \<subseteq> {x. \<exists>y. y \<in> set (stored lim fs') \<and> stored_id y = stored_id x \<and> stored_rank x \<le> stored_rank y}"
proof -
  note ok = reconcile_ok [OF assms(2,1)]
  from ok(2) obtain ws where win: "winners_ok {i. observed_as lim fs i} ws"
    and st: "set (stored lim fs') = item_of ` snd ` set ws" by blast
  have ids: "stored_id (item_of i) = obs_id i" "stored_rank (item_of i) = rank i" for i
    by (simp_all add: stored_id_def stored_rank_def item_of_def obs_id_def rank_def)
  have sub: "set (stored lim fs') \<subseteq> set (stored lim fs)"
  proof
    fix x
    assume "x \<in> set (stored lim fs')"
    then obtain k i where "(k, i) \<in> set ws" "x = item_of i" unfolding st by auto
    moreover from this win have "observed_as lim fs i" by (auto simp: winners_ok_def)
    ultimately show "x \<in> set (stored lim fs)" using observed_stored(1) [OF assms(1)] by blast
  qed
  have "inj_on stored_id (set (stored lim fs'))"
  proof (rule inj_onI)
    fix x y
    assume "x \<in> set (stored lim fs')" "y \<in> set (stored lim fs')" and eq: "stored_id x = stored_id y"
    then obtain k i k' j where ij: "(k, i) \<in> set ws" "x = item_of i" "(k', j) \<in> set ws" "y = item_of j"
      unfolding st by auto
    have d: "distinct (map fst ws)" and "obs_id i = k" "obs_id j = k'" using win ij by (auto simp: winners_ok_def)
    then have "k = k'" using eq ij by (simp add: ids)
    then have "i = j" using map_of_distinct_mem [OF d] ij by (metis option.inject)
    then show "x = y" using ij by simp
  qed
  then have "distinct (map stored_id (stored lim fs'))"
    using distinct_stored ok(3) by (simp add: distinct_map)
  moreover have "\<exists>y. y \<in> set (stored lim fs') \<and> stored_id y = stored_id x \<and> stored_rank x \<le> stored_rank y"
    if x: "x \<in> set (stored lim fs)" for x
  proof -
    from observed_stored(2) [OF assms(1) x ok(4)] obtain i where i: "observed_as lim fs i" "item_of i = x" by blast
    with win obtain w where "map_of ws (obs_id i) = Some w" "rank i \<le> rank w" by (auto simp: winners_ok_def)
    then show ?thesis using win map_of_SomeD [of ws "obs_id i" w] i
      by (intro exI [of _ "item_of w"]) (force simp: st ids winners_ok_def)
  qed
  ultimately show ?thesis using ok(1) sub by blast
qed

text \<open>C17 A reconciliation that returns restores the queue from whatever files a crash left: the invariant
  holds, every record left was there before, no two have the same identifier, and for every record that
  was there one of its identifier and of at least its rank is left.\<close>

theorem reconcile_recovers:
  assumes "files_ok lim fs" "reconcile lim fs = (None, fs')"
  shows "queue_ok lim fs' \<and> set (stored lim fs') \<subseteq> set (stored lim fs) \<and>
    distinct (map stored_id (stored lim fs')) \<and>
    set (stored lim fs) \<subseteq> {x. \<exists>y. y \<in> set (stored lim fs') \<and> stored_id y = stored_id x \<and> stored_rank x \<le> stored_rank y}"
  using reconcile_keeps [OF assms] .

subsection \<open>Witness\<close>

text \<open>A queue of two slots a segment whose move of a record from the ready to the deferred lane stopped after
  the link: the record is in both lanes and the temporary file is left.\<close>

definition sample_text :: "nat \<Rightarrow> string" where
  "sample_text g = dumps_sorted (VDict [(KStr ''version'', VInt 2), (KStr ''recordId'', VStr (uuid_str 0)),
     (KStr ''generation'', num g), (KStr ''sequence'', num g)])"

definition sample_stored :: "nat \<Rightarrow> qrecord" where
  "sample_stored g = [(KStr ''generation'', num g), (KStr ''recordId'', VStr (uuid_str 0)),
     (KStr ''sequence'', num g), (KStr ''version'', VInt 2)]"

definition one_lane :: LaneState where
  "one_lane = \<lparr>headCursor = 0, writeCursor = 1, ls_count = 1, ls_bytes = 91, ls_segments = 1\<rparr>"

definition one_state :: QueueState where
  "one_state = \<lparr>nextSequence = 1, capacityEvents = 0, lanes = (lanes initial_state)(Ready := one_lane)\<rparr>"

definition one_queue :: queue_fs where
  "one_queue = \<lparr>q_state = Some (dumps_sorted (state_value one_state)),
     q_lanes = (\<lambda>_. empty_fs)(Ready := \<lparr>dirs = [0], slots = [((0, 0), sample_text 0)], temps = []\<rparr>)\<rparr>"

definition crashed :: queue_fs where
  "crashed = set_lane Deferred
     \<lparr>dirs = [0], slots = [((0, 0), sample_text 1)], temps = [((0, 0), sample_text 1)]\<rparr> one_queue"

lemma sample_decode: "length (sample_text g) \<le> 500 \<Longrightarrow> decode_record (sample_text g) 500 = Inr (sample_stored g)"
proof -
  have j: "jsonable (VDict [(KStr ''version'', VInt 2), (KStr ''recordId'', VStr (uuid_str 0)),
     (KStr ''generation'', num g), (KStr ''sequence'', num g)])" by (simp add: num_def)
  have l: "loads (sample_text g) = Some (VDict (sample_stored g))"
    unfolding sample_text_def loads_dumps_sorted [OF j]
    by (simp add: sample_stored_def num_def key_text_def code_def)
  show "length (sample_text g) \<le> 500 \<Longrightarrow> ?thesis"
    by (simp add: decode_record_def l) (simp add: sample_stored_def get_def version_is_def as_int_def
        num_def natural_def uuid_field_def canonical_uuid_str put_def)
qed

lemma sample_length: "length (sample_text 0) = 91" "length (sample_text 1) = 91"
  "length (sample_text (Suc 0)) = 91"
proof -
  show "length (sample_text 0) = 91" by code_simp
  show one: "length (sample_text 1) = 91" by code_simp
  then show "length (sample_text (Suc 0)) = 91" by simp
qed

lemma sample_fields: "rec_id (sample_stored g) = uuid_str 0" "rec_generation (sample_stored g) = g"
  "rec_sequence (sample_stored g) = g"
  by (simp_all add: rec_id_def rec_generation_def rec_sequence_def sample_stored_def get_def natural_def
      as_int_def num_def)

lemma tiny_simps: "segment_size tiny = 2" "max_records tiny = 3" "max_segments tiny = 2"
  "reconcile_max_mutations tiny = 100" "record_max_bytes tiny = 500" "max_record_bytes tiny = 1000"
  "capacity tiny = 4" "roomy tiny"
  by (simp_all add: tiny_def capacity_def roomy_def)

lemma one_range: "state_in_range tiny one_state"
  by (simp add: state_in_range_def one_state_def initial_state_def empty_lane_def one_lane_def tiny_simps)

lemma one_read: "read_state tiny one_queue = Inr one_state" "read_state tiny crashed = Inr one_state"
  using decode_encode_state [of one_state "length (dumps_sorted (state_value one_state))", OF _ one_range]
  by (simp_all add: read_state_def crashed_def one_queue_def encode_state_def)

lemma crashed_lanes: "q_lanes crashed = (\<lambda>_. empty_fs)
    (Ready := \<lparr>dirs = [0], slots = [((0, 0), sample_text 0)], temps = []\<rparr>,
     Deferred := \<lparr>dirs = [0], slots = [((0, 0), sample_text 1)], temps = [((0, 0), sample_text 1)]\<rparr>)"
  by (simp add: crashed_def one_queue_def)

lemma crashed_files: "files_ok tiny crashed"
  by (simp add: files_ok_def crashed_lanes empty_fs_def tiny_simps)

lemma crashed_reconciles: "\<exists>fs'. reconcile tiny crashed = (None, fs')"
  apply (simp add: reconcile_def one_read all_lanes_def scan_lane_def segment_names_def crashed_lanes
      empty_fs_def tiny_simps scan_segment_def upt_rec remove_temp_def observe_def read_slot_def
      sample_decode sample_length Let_def change_lane_def mutate_def has_temp_def check_budget_def
      without_def set_lane_def)
  apply (simp add: winners_of_def better_def sample_fields rank_def place_of_def remove_loser_def
      read_slot_def sample_decode sample_length tiny_simps check_budget_def change_lane_def mutate_def
      without_def set_lane_def clean_lane_def segment_names_def remove_segment_def upt_rec
      count_segments_def Let_def empty_fs_def rebuilt_state_def lane_winners_def total_def all_lanes_def
      rebuilt_lane_def)
  apply (rule write_state_ok)
    apply (simp add: state_in_range_def tiny_simps cursor_of_def sample_length)
   apply (simp add: tiny_simps)
  apply (simp add: small_state_def one_state_def)
  done

theorem reconcile_recovers_witness:
  "\<exists>fs'. reconcile tiny crashed = (None, fs') \<and> queue_ok tiny fs' \<and>
     stored_id ` set (stored tiny fs') = {uuid_str 0} \<and> distinct (map stored_id (stored tiny fs'))"
proof -
  obtain fs' where r: "reconcile tiny crashed = (None, fs')" using crashed_reconciles by blast
  note rc = reconcile_recovers [OF crashed_files r]
  have "set (stored tiny crashed) = {(Ready, (0, 0), record_in tiny (sample_text 0)),
      (Deferred, (0, 0), record_in tiny (sample_text 1))}"
    by (auto simp: stored_def records_def all_lanes_def crashed_lanes empty_fs_def)
  moreover have "record_in tiny (sample_text g) = sample_stored g" if "length (sample_text g) = 91" for g
    using sample_decode [of g] that by (simp add: record_in_def tiny_simps)
  ultimately have c: "stored_id ` set (stored tiny crashed) = {uuid_str 0}"
    using sample_length by (simp add: stored_id_def sample_fields)
  have "stored_id ` set (stored tiny fs') \<subseteq> stored_id ` set (stored tiny crashed)"
    using rc by (intro image_mono) blast
  moreover have "set (stored tiny crashed) \<noteq> {}" using c by (metis image_empty insert_not_empty)
  then obtain x where x: "x \<in> set (stored tiny crashed)" using ex_in_conv by metis
  from subsetD [OF conjunct2 [OF conjunct2 [OF conjunct2 [OF rc]]] x]
  have "\<exists>y. y \<in> set (stored tiny fs')" by (simp only: mem_Collect_eq) (elim exE conjE, rule exI)
  then have "stored_id ` set (stored tiny fs') \<noteq> {}" unfolding image_is_empty ex_in_conv .
  ultimately have "stored_id ` set (stored tiny fs') = {uuid_str 0}" unfolding c subset_singleton_iff by (simp only: simp_thms)
  with r rc show ?thesis by blast
qed

end
