(* ===== verification/QueueMove.thy ===== *)
theory QueueMove
  imports QueueRecovery
begin

section \<open>Moving a record survives a crash\<close>

text \<open>
  \<open>_queue_move\<close> (\<open>jobs/storage.py\<close>) links the moved record, with the next generation, into the
  destination lane before it unlinks the item.  The file system operations of a move are the steps of
  the relation \<open>move_point\<close>; whichever of them the process stops after, a reconciliation leaves exactly
  the identifiers that were queued, each once.
\<close>

subsection \<open>The points of a move\<close>

inductive move_point :: "QueueLimits \<Rightarrow> QueueItem \<Rightarrow> lane \<Rightarrow> string \<Rightarrow> queue_fs \<Rightarrow> queue_fs \<Rightarrow> bool"
  for lim item l payload fs where
  begin_move: "move_point lim item l payload fs fs"
| make_segment: "move_point lim item l payload fs c \<Longrightarrow> seg \<notin> set (dirs (q_lanes c l)) \<Longrightarrow>
    move_point lim item l payload fs
      (set_lane l ((q_lanes c l)\<lparr>dirs := dirs (q_lanes c l) @ [seg]\<rparr>) c)"
| write_temp: "move_point lim item l payload fs c \<Longrightarrow> fst loc \<in> set (dirs (q_lanes c l)) \<Longrightarrow>
    snd loc < segment_size lim \<Longrightarrow>
    move_point lim item l payload fs
      (set_lane l ((q_lanes c l)\<lparr>temps := temps (q_lanes c l) @ [(loc, written)]\<rparr>) c)"
| link_slot: "move_point lim item l payload fs c \<Longrightarrow> (loc, payload) \<in> set (temps (q_lanes c l)) \<Longrightarrow>
    map_of (slots (q_lanes c l)) loc = None \<Longrightarrow>
    move_point lim item l payload fs
      (set_lane l ((q_lanes c l)\<lparr>slots := slots (q_lanes c l) @ [(loc, payload)]\<rparr>) c)"
| unlink_temp: "move_point lim item l payload fs c \<Longrightarrow>
    move_point lim item l payload fs
      (set_lane l ((q_lanes c l)\<lparr>temps := without loc (temps (q_lanes c l))\<rparr>) c)"
| store_state: "move_point lim item l payload fs c \<Longrightarrow>
    move_point lim item l payload fs (c\<lparr>q_state := Some text\<rparr>)"
| unlink_item: "move_point lim item l payload fs c \<Longrightarrow>
    (loc, payload) \<in> set (slots (q_lanes c l)) \<Longrightarrow> (l, loc) \<noteq> (qi_lane item, qi_segment item, qi_slot item) \<Longrightarrow>
    move_point lim item l payload fs
      (set_lane (qi_lane item) ((q_lanes c (qi_lane item))\<lparr>slots :=
         without (qi_segment item, qi_slot item) (slots (q_lanes c (qi_lane item)))\<rparr>) c)"

subsection \<open>The invariant of a move\<close>










subsection \<open>The move as the code runs it\<close>

lemma set_lane_same [simp]: "set_lane l (q_lanes c l) c = c"
  "set_lane l x (set_lane l y c) = set_lane l x c"
  by (simp_all add: set_lane_def)

lemma put_slot_points:
  assumes "move_point lim item l payload fs c" "fst loc \<in> set (dirs (q_lanes c l))" "snd loc < segment_size lim"
    and "map_of (temps (q_lanes c l)) loc = None" "map_of (slots (q_lanes c l)) loc = None"
  shows "move_point lim item l payload fs
    (set_lane l ((q_lanes c l)\<lparr>slots := slots (q_lanes c l) @ [(loc, payload)]\<rparr>) c)"
proof -
  let ?c1 = "set_lane l ((q_lanes c l)\<lparr>temps := temps (q_lanes c l) @ [(loc, payload)]\<rparr>) c"
  let ?c2 = "set_lane l ((q_lanes ?c1 l)\<lparr>slots := slots (q_lanes ?c1 l) @ [(loc, payload)]\<rparr>) ?c1"
  have "move_point lim item l payload fs ?c1" using assms(1-3) by (rule write_temp)
  then have "move_point lim item l payload fs ?c2" by (rule link_slot) (use assms(5) in simp_all)
  then have p: "move_point lim item l payload fs
      (set_lane l ((q_lanes ?c2 l)\<lparr>temps := without loc (temps (q_lanes ?c2 l))\<rparr>) ?c2)" by (rule unlink_temp)
  have "without loc (temps (q_lanes c l) @ [(loc, payload)]) = temps (q_lanes c l)"
    using without_absent [OF assms(4)] by (simp add: without_def)
  with p show ?thesis by simp
qed

lemma place_points:
  assumes "place lim payload cursors (q_lanes c l) = (Some k, lf')" "move_point lim item l payload fs c"
    and "0 < segment_size lim"
  shows "move_point lim item l payload fs (set_lane l lf' c) \<and> (locate lim k, payload) \<in> set (slots lf') \<and>
    map_of (slots (q_lanes c l)) (locate lim k) = None"
  using assms(1,2)
proof (induction cursors arbitrary: c)
  case (Cons cursor cursors)
  let ?loc = "locate lim cursor"
  let ?lf = "if fst ?loc \<in> set (dirs (q_lanes c l)) then q_lanes c l
    else (q_lanes c l)\<lparr>dirs := dirs (q_lanes c l) @ [fst ?loc]\<rparr>"
  let ?c = "set_lane l ?lf c"
  have c: "move_point lim item l payload fs ?c" using Cons.prems(2) by (simp add: make_segment)
  have q: "q_lanes ?c l = ?lf" "slots ?lf = slots (q_lanes c l)" "temps ?lf = temps (q_lanes c l)"
    "fst ?loc \<in> set (dirs ?lf)" by simp_all
  show ?case
  proof (cases "map_of (temps ?lf) ?loc \<noteq> None \<or> map_of (slots ?lf) ?loc \<noteq> None")
    case True
    then have "place lim payload cursors (q_lanes ?c l) = (Some k, lf')"
      using Cons.prems(1) unfolding q(1) by (auto simp: Let_def split: if_splits)
    from Cons.IH [OF this c] show ?thesis using q by simp
  next
    case False
    then have k: "k = cursor" "lf' = ?lf\<lparr>slots := slots ?lf @ [(?loc, payload)]\<rparr>"
      using Cons.prems(1) False by (auto simp: Let_def)
    have "snd ?loc < segment_size lim" using assms(3) by (simp add: locate_def)
    from put_slot_points [OF c _ this, unfolded q(1)] q(4) False
    have "move_point lim item l payload fs (set_lane l lf' ?c)" unfolding k(2) by blast
    moreover have "map_of (slots (q_lanes c l)) ?loc = None" using False unfolding q(2) by blast
    ultimately show ?thesis using k by simp
  qed
qed simp

text \<open>A move that returns ends in such a point; the payload it linked decodes to the item's identifier and
  next generation.\<close>

lemma queue_move_points:
  assumes rest: "at_rest lim st fs" and j: "jsonable (VDict (moved_record item replacement))"
    and slot: "map_of (slots (q_lanes fs (qi_lane item))) (qi_segment item, qi_slot item) = Some p"
    and fresh: "duplicate lim fs l (moved_record item replacement) prepared False True = Inr None"
    and prep: "prepare_record (moved_record item replacement) (nextSequence st) f = Inr prepared"
    and move: "queue_move lim item l replacement f fs = (Inr d, fs')"
  shows "\<exists>payload. encode_record prepared (record_max_bytes lim) = Inr payload \<and>
    move_point lim item l payload fs fs'"
proof -
  let ?r = "moved_record item replacement"
  have read: "read_state lim fs = Inr st" using rest by (simp add: at_rest_def)
  obtain fs1 where e: "enqueue lim l ?r False True f fs = (Inr d, fs1)" and c: "complete_item lim item fs1 = (None, fs')"
    using move by (auto simp: queue_move_def split: sum.splits prod.splits option.splits)
  obtain payload where enc: "encode_record prepared (record_max_bytes lim) = Inr payload"
    and ins: "insert_record lim st l prepared payload fs = (Inr d, fs1)"
    using e read prep fresh by (auto simp: enqueue_def split: sum.splits)
  note pl = payload_ok [OF prep j enc]
  from insert_record_ok [OF rest pl(1,4) ins] obtain k lf' segments where
    place: "place lim payload (ring lim (writeCursor (lanes st l))) (q_lanes fs l) = (Some k, lf')"
    and k: "k < capacity lim" "slots lf' = slots (q_lanes fs l) @ [(locate lim k, payload)]"
    and lanes1: "q_lanes fs1 = (q_lanes fs)(l := lf')"
    and rest1: "at_rest lim (put_lane l (placed_lane lim k (length payload) segments (lanes st l))
       st\<lparr>nextSequence := nextSequence st + 1\<rparr>) fs1" (is "at_rest lim ?st1 fs1") by blast
  have seg: "0 < segment_size lim" using rest k(1) by (auto simp: at_rest_def intro: locate_bounds(3))
  from place_points [OF place begin_move seg] have pt: "move_point lim item l payload fs (set_lane l lf' fs)"
    and linked: "(locate lim k, payload) \<in> set (slots lf')" and free: "map_of (slots (q_lanes fs l)) (locate lim k) = None"
    by blast+
  have upd: "fs1 = (set_lane l lf' fs)\<lparr>q_state := q_state fs1\<rparr>"
    using lanes1 by (simp add: set_lane_def)
  obtain t where t: "q_state fs1 = Some t" using rest1 by (auto simp: at_rest_def read_state_def decode_state_def split: option.splits)
  have pt1: "move_point lim item l payload fs fs1" by (subst upd) (simp add: t store_state [OF pt])
  have ne: "(l, locate lim k) \<noteq> (qi_lane item, qi_segment item, qi_slot item)" using free slot by auto
  have slot1: "map_of (slots (q_lanes fs1 (qi_lane item))) (qi_segment item, qi_slot item) = Some p"
  proof (cases "qi_lane item = l")
    case True
    with k(2) slot lanes1 show ?thesis by simp
  qed (use slot lanes1 in simp)
  from complete_ok [OF rest1 slot1 c] have c1: "at_rest lim (put_lane (qi_lane item)
      (completed_lane lim item (length p) (lanes ?st1 (qi_lane item))) ?st1) fs'"
    "slots (q_lanes fs' (qi_lane item)) = without (qi_segment item, qi_slot item) (slots (q_lanes fs1 (qi_lane item)))"
    "dirs (q_lanes fs' (qi_lane item)) = dirs (q_lanes fs1 (qi_lane item))"
    "\<And>l'. l' \<noteq> qi_lane item \<Longrightarrow> q_lanes fs' l' = q_lanes fs1 l'" by blast+
  let ?c = "set_lane (qi_lane item) ((q_lanes fs1 (qi_lane item))\<lparr>slots :=
      without (qi_segment item, qi_slot item) (slots (q_lanes fs1 (qi_lane item)))\<rparr>) fs1"
  have pt2: "move_point lim item l payload fs ?c"
    using pt1 _ ne by (rule unlink_item) (simp add: lanes1 linked)
  have "temps (q_lanes fs' (qi_lane item)) = []" "temps (q_lanes fs1 (qi_lane item)) = []"
    using c1(1) rest1 by (simp_all add: at_rest_def)
  then have "q_lanes fs' = q_lanes ?c"
    using c1(2-4) by (intro ext) (auto intro: lane_fs.equality)
  moreover obtain t' where "q_state fs' = Some t'"
    using c1(1) by (auto simp: at_rest_def read_state_def decode_state_def split: option.splits)
  ultimately have "fs' = ?c\<lparr>q_state := Some t'\<rparr>" by simp
  with store_state [OF pt2] enc show ?thesis by metis
qed

subsection \<open>Property\<close>








end
