(* ===== verification/Packaging.thy ===== *)
theory Packaging
  imports Models
begin

section \<open>What the worker uses of the packaging library\<close>

text \<open>
  The \<open>packaging\<close> library is not part of the repository.  It is a parameter of the model: a record of the
  functions the worker calls, each with its raised exception as None.  A specifier is what the worker
  reads of it; a specifier set is the list of its specifiers, each once.
\<close>

record Specifier =
  sp_operator :: string
  sp_version :: string
  sp_str :: string

record Requirement =
  rq_name :: string
  rq_extras :: "string list"
  rq_specifier :: "Specifier list"
  rq_marker :: "string option"
  rq_url :: "string option"

record 'k WheelName =
  wn_name :: string
  wn_version :: "'k Version"
  wn_tags :: "Tag list"

type_synonym environment = "(string \<times> string) list"

record 'k packaging =
  pkg_version :: "string \<Rightarrow> 'k Version option"
  pkg_specifier :: "string \<Rightarrow> Specifier option"
  pkg_specifier_set :: "string \<Rightarrow> Specifier list option"
  pkg_contains :: "Specifier list \<Rightarrow> 'k Version \<Rightarrow> bool"
  pkg_requirement :: "string \<Rightarrow> Requirement option"
  pkg_canonicalize :: "string \<Rightarrow> string"
  pkg_wheel :: "string \<Rightarrow> 'k WheelName option"
  pkg_marker :: "string \<Rightarrow> environment \<Rightarrow> bool option"

text \<open>Versions compare by their keys.\<close>

definition same_version :: "'k Version \<Rightarrow> 'k Version \<Rightarrow> bool" where
  "same_version v w \<longleftrightarrow> v_key v = v_key w"

subsection \<open>A small instance\<close>

text \<open>
  A concrete library for examples: versions \<open>d.d\<close> of two digits, the operators \<open>==\<close>, \<open>>=\<close> and \<open><=\<close>,
  requirements of a one-letter name and at most two specifiers, wheel names of five parts.
\<close>

definition sample_operators :: "(string \<times> (nat \<Rightarrow> nat \<Rightarrow> bool)) list" where
  "sample_operators = [(''=='', \<lambda>a b. a = b), (''>='', \<lambda>a b. b \<le> a), (''<='', \<lambda>a b. a \<le> b)]"

definition sample_version :: "string \<Rightarrow> nat Version option" where
  "sample_version s = (case s of [a, dot, b] \<Rightarrow>
       if is_digit a \<and> dot = CHR ''.'' \<and> is_digit b
       then Some \<lparr>v_str = s, v_release = [code a - 48, code b - 48], v_is_prerelease = False,
         v_key = 10 * (code a - 48) + (code b - 48)\<rparr>
       else None
     | _ \<Rightarrow> None)"

definition sample_specifier :: "string \<Rightarrow> Specifier option" where
  "sample_specifier s = (if take 2 s \<in> set (map fst sample_operators)
     then Some \<lparr>sp_operator = take 2 s, sp_version = drop 2 s, sp_str = s\<rparr> else None)"

definition sample_specifier_set :: "string \<Rightarrow> Specifier list option" where
  "sample_specifier_set s = (if s = [] then Some []
     else those (map sample_specifier (split_on CHR '','' s)))"

definition sample_contains :: "Specifier list \<Rightarrow> nat Version \<Rightarrow> bool" where
  "sample_contains sps v = list_all (\<lambda>sp. case map_of sample_operators (sp_operator sp) of
       None \<Rightarrow> False
     | Some f \<Rightarrow> (case sample_version (sp_version sp) of None \<Rightarrow> False | Some w \<Rightarrow> f (v_key v) (v_key w))) sps"

definition sample_requirement :: "string \<Rightarrow> Requirement option" where
  "sample_requirement s = (case s of [] \<Rightarrow> None
   | c # sp \<Rightarrow> map_option (\<lambda>sps. \<lparr>rq_name = [c], rq_extras = [], rq_specifier = sps, rq_marker = None, rq_url = None\<rparr>)
       (sample_specifier_set sp))"

definition sample_wheel :: "string \<Rightarrow> nat WheelName option" where
  "sample_wheel s = (case split_on CHR ''-'' (removesuffix s ''.whl'') of
     [name, version, interpreter, abi, platform] \<Rightarrow>
       map_option (\<lambda>v. \<lparr>wn_name = name, wn_version = v,
         wn_tags = [\<lparr>tag_interpreter = interpreter, tag_abi = abi, tag_platform = platform\<rparr>]\<rparr>) (sample_version version)
   | _ \<Rightarrow> None)"

definition sample_packaging :: "nat packaging" where
  "sample_packaging = \<lparr>pkg_version = sample_version, pkg_specifier = sample_specifier,
     pkg_specifier_set = sample_specifier_set, pkg_contains = sample_contains,
     pkg_requirement = sample_requirement, pkg_canonicalize = map lower, pkg_wheel = sample_wheel,
     pkg_marker = (\<lambda>_ _. None)\<rparr>"

end
