(* ===== verification/Candidates.thy ===== *)
theory Candidates
  imports Packaging "HOL-Library.Multiset"
begin

section \<open>The order of candidate versions (\<open>resolver/candidates.py\<close>)\<close>

text \<open>
  Which versions may replace a pinned one and in which order they are tried.  A Python set of versions is
  the list of its members, equal versions once.
\<close>

definition normalized_release :: "'k Version \<Rightarrow> nat \<times> nat \<times> nat" where
  "normalized_release v = (let r = v_release v @ [0, 0, 0] in (r ! 0, r ! 1, r ! 2))"

definition major :: "'k Version \<Rightarrow> nat" where
  "major v = fst (normalized_release v)"

definition minor :: "'k Version \<Rightarrow> nat" where
  "minor v = fst (snd (normalized_release v))"

definition within_boundary :: "'k Version \<Rightarrow> 'k Version \<Rightarrow> bool" where
  "within_boundary original candidate \<longleftrightarrow>
     (if major original = 0 then major candidate = major original \<and> minor candidate = minor original
      else major candidate = major original)"

definition same_minor :: "'k Version \<Rightarrow> 'k Version \<Rightarrow> bool" where
  "same_minor original candidate \<longleftrightarrow> major candidate = major original \<and> minor candidate = minor original"

definition set_add :: "'k Version \<Rightarrow> 'k Version list \<Rightarrow> 'k Version list" where
  "set_add v vs = (if list_ex (same_version v) vs then vs else vs @ [v])"

definition version_set :: "'k Version list \<Rightarrow> 'k Version list" where
  "version_set vs = fold set_add vs []"

definition eligible :: "'k Version \<Rightarrow> 'k Version \<Rightarrow> bool" where
  "eligible original candidate \<longleftrightarrow> \<not> same_version candidate original \<and>
     (v_is_prerelease original \<or> \<not> v_is_prerelease candidate) \<and> within_boundary original candidate"

definition ordered_candidates :: "('k :: linorder) Version \<Rightarrow> 'k Version list \<Rightarrow> 'k Version list" where
  "ordered_candidates original available =
     (let candidates = version_set (filter (eligible original) available);
          same_minor_higher = sort_key v_key (filter (\<lambda>c. same_minor original c \<and> v_key original < v_key c) candidates);
          same_minor_lower = rev (sort_key v_key
            (filter (\<lambda>c. same_minor original c \<and> v_key c < v_key original) candidates));
          higher_minors = sort_key v_key (filter (\<lambda>c. minor original < minor c) candidates);
          lower_minors = rev (sort_key v_key (filter (\<lambda>c. minor c < minor original) candidates))
      in same_minor_higher @ same_minor_lower @ higher_minors @ lower_minors)"

subsection \<open>Sets of versions\<close>

lemma set_add_mem: "v_key ` set (set_add v vs) = insert (v_key v) (v_key ` set vs)"
  by (auto simp: set_add_def list_ex_iff same_version_def image_iff)

lemma version_set_facts:
  "v_key ` set (version_set vs) = v_key ` set vs" "distinct (map v_key (version_set vs))"
  "set (version_set vs) \<subseteq> set vs"
proof -
  have "v_key ` set (fold set_add vs acc) = v_key ` set acc \<union> v_key ` set vs \<and>
      (distinct (map v_key acc) \<longrightarrow> distinct (map v_key (fold set_add vs acc))) \<and>
      set (fold set_add vs acc) \<subseteq> set acc \<union> set vs" for acc
  proof (induction vs arbitrary: acc)
    case (Cons v vs)
    have "distinct (map v_key acc) \<longrightarrow> distinct (map v_key (set_add v acc))"
      by (auto simp: set_add_def list_ex_iff same_version_def)
    moreover have "set (set_add v acc) \<subseteq> insert v (set acc)" by (auto simp: set_add_def)
    ultimately show ?case using Cons.IH [of "set_add v acc"] set_add_mem [of v acc] by auto
  qed simp
  from this [of "[]"] show "v_key ` set (version_set vs) = v_key ` set vs" "distinct (map v_key (version_set vs))"
    "set (version_set vs) \<subseteq> set vs" by (simp_all add: version_set_def)
qed

subsection \<open>The preference\<close>

text \<open>The group of a candidate: same minor and newer, same minor and older, newer minor, older minor; within
  a group the version nearest the original first.\<close>

definition group_of :: "('k :: linorder) Version \<Rightarrow> 'k Version \<Rightarrow> nat" where
  "group_of original c =
     (if same_minor original c then if v_key original < v_key c then 0 else 1
      else if minor original < minor c then 2 else 3)"

definition preferred :: "('k :: linorder) Version \<Rightarrow> 'k Version \<Rightarrow> 'k Version \<Rightarrow> bool" where
  "preferred original c d \<longleftrightarrow> group_of original c < group_of original d \<or>
     group_of original c = group_of original d \<and>
       (if group_of original c \<in> {0, 2} then v_key c < v_key d else v_key d < v_key c)"

lemma sorted_distinct_strict:
  fixes f :: "'a \<Rightarrow> 'b :: linorder"
  assumes "distinct (map f xs)"
  shows "sorted_wrt (\<lambda>a b. f a < f b) (sort_key f xs)"
proof -
  have "distinct (map f (sort_key f xs))" using assms mset_eq_imp_distinct_iff [of "map f (sort_key f xs)" "map f xs"] by simp
  moreover have "sorted (map f (sort_key f xs))" by simp
  ultimately have "sorted_wrt (<) (map f (sort_key f xs))" by (simp add: strict_sorted_iff)
  then show ?thesis by (simp add: sorted_wrt_map)
qed

lemma eligible_groups:
  fixes original :: "('k :: linorder) Version"
  assumes "eligible original c"
  shows "(same_minor original c \<and> v_key original < v_key c) \<or> (same_minor original c \<and> v_key c < v_key original) \<or>
    minor original < minor c \<or> minor c < (minor original :: nat)"
  using assms less_linear [of "v_key c" "v_key original"]
  by (auto simp: eligible_def same_version_def within_boundary_def same_minor_def split: if_splits)

lemma group_of_cases:
  "same_minor original c \<Longrightarrow> v_key original < v_key c \<Longrightarrow> group_of original c = 0"
  "same_minor original c \<Longrightarrow> v_key c < v_key original \<Longrightarrow> group_of original c = 1"
  "minor original < minor c \<Longrightarrow> group_of original c = 2"
  "minor c < minor original \<Longrightarrow> group_of original c = 3"
  by (auto simp: group_of_def same_minor_def)

lemma sorted_wrt_groups:
  fixes g :: "'a \<Rightarrow> nat"
  assumes "sorted_wrt P a" "sorted_wrt P b" "sorted_wrt P c" "sorted_wrt P d"
    and "\<And>x. x \<in> set a \<Longrightarrow> g x = 0" "\<And>x. x \<in> set b \<Longrightarrow> g x = 1"
    and "\<And>x. x \<in> set c \<Longrightarrow> g x = 2" "\<And>x. x \<in> set d \<Longrightarrow> g x = 3"
    and "\<And>x y. g x < g y \<Longrightarrow> P x y"
  shows "sorted_wrt P (a @ b @ c @ d)"
  using assms by (auto simp: sorted_wrt_append)

lemma set_groups:
  "(\<And>x. x \<in> set xs \<Longrightarrow> P x \<or> Q x \<or> R x \<or> S x) \<Longrightarrow>
     set (filter P xs) \<union> (set (filter Q xs) \<union> (set (filter R xs) \<union> set (filter S xs))) = set xs"
  by auto

lemma sorted_wrt_distinct: "sorted_wrt (\<lambda>x y. f x \<noteq> f y) xs \<Longrightarrow> distinct (map f xs)"
  by (induction xs) auto

text \<open>The candidates tried are exactly the eligible versions, each once, in the order of the
  preference: first the newer versions of the same minor, then its older ones, then newer minors, then
  older ones, the nearest first.\<close>

theorem ordered_candidates_spec:
  fixes original :: "('k :: linorder) Version"
  shows "v_key ` set (ordered_candidates original available) = v_key ` set (filter (eligible original) available) \<and>
    distinct (map v_key (ordered_candidates original available)) \<and>
    sorted_wrt (preferred original) (ordered_candidates original available)"
proof -
  let ?C = "version_set (filter (eligible original) available)"
  let ?f = "\<lambda>P. filter P ?C"
  let ?P1 = "\<lambda>c. same_minor original c \<and> v_key original < v_key c"
  let ?P2 = "\<lambda>c. same_minor original c \<and> v_key c < v_key original"
  let ?P3 = "\<lambda>c. minor original < minor c" and ?P4 = "\<lambda>c. minor c < minor original"
  have R: "ordered_candidates original available =
      sort_key v_key (?f ?P1) @ rev (sort_key v_key (?f ?P2)) @ sort_key v_key (?f ?P3) @ rev (sort_key v_key (?f ?P4))"
    by (simp add: ordered_candidates_def Let_def)
  note C = version_set_facts [of "filter (eligible original) available"]
  have el: "eligible original c" if "c \<in> set ?C" for c using C(3) that by auto
  have set_R: "set (ordered_candidates original available) = set ?C"
    unfolding R set_append set_sort set_rev by (rule set_groups) (rule eligible_groups [OF el])
  have d: "distinct (map v_key (?f P))" for P using C(2) by (rule distinct_map_filter)
  have up: "sorted_wrt (preferred original) (sort_key v_key (?f P))"
    if "\<And>c. P c \<Longrightarrow> group_of original c = g" "g \<in> {0, 2}" for P g
    by (rule sorted_wrt_mono_rel [OF _ sorted_distinct_strict [OF d]]) (use that in \<open>auto simp: preferred_def\<close>)
  have down: "sorted_wrt (preferred original) (rev (sort_key v_key (?f P)))"
    if "\<And>c. P c \<Longrightarrow> group_of original c = g" "g \<in> {1, 3}" for P g
    unfolding sorted_wrt_rev
    by (rule sorted_wrt_mono_rel [OF _ sorted_distinct_strict [OF d]]) (use that in \<open>auto simp: preferred_def\<close>)
  have sorted: "sorted_wrt (preferred original) (ordered_candidates original available)"
  proof -
    have cross: "preferred original c d" if "group_of original c < group_of original d" for c d
      using that by (simp add: preferred_def)
    have g: "\<And>c. ?P1 c \<Longrightarrow> group_of original c = 0" "\<And>c. ?P2 c \<Longrightarrow> group_of original c = 1"
      "\<And>c. ?P3 c \<Longrightarrow> group_of original c = 2" "\<And>c. ?P4 c \<Longrightarrow> group_of original c = 3"
      by (blast intro: group_of_cases)+
    have G: "\<And>c. c \<in> set (sort_key v_key (?f ?P1)) \<Longrightarrow> group_of original c = 0"
      "\<And>c. c \<in> set (rev (sort_key v_key (?f ?P2))) \<Longrightarrow> group_of original c = 1"
      "\<And>c. c \<in> set (sort_key v_key (?f ?P3)) \<Longrightarrow> group_of original c = 2"
      "\<And>c. c \<in> set (rev (sort_key v_key (?f ?P4))) \<Longrightarrow> group_of original c = 3"
      using g by (simp_all only: set_sort set_rev set_filter mem_Collect_eq)
    have p: "sorted_wrt (preferred original) (sort_key v_key (?f ?P1))"
      "sorted_wrt (preferred original) (rev (sort_key v_key (?f ?P2)))"
      "sorted_wrt (preferred original) (sort_key v_key (?f ?P3))"
      "sorted_wrt (preferred original) (rev (sort_key v_key (?f ?P4)))"
      by (rule up [OF g(1)] down [OF g(2)] up [OF g(3)] down [OF g(4)]; simp)+
    show ?thesis unfolding R by (rule sorted_wrt_groups [where g = "group_of original", OF p]) (erule G cross)+
  qed
  have "sorted_wrt (\<lambda>c d. v_key c \<noteq> v_key d) (ordered_candidates original available)"
  proof (rule sorted_wrt_mono_rel [OF _ sorted])
    fix c d assume "c \<in> set (ordered_candidates original available)" "d \<in> set (ordered_candidates original available)"
      and pref: "preferred original c d"
    then have "v_key c = v_key d \<Longrightarrow> c = d" using C(2) by (auto simp: set_R distinct_map dest: inj_onD)
    then show "v_key c \<noteq> v_key d" using pref by (auto simp: preferred_def split: if_splits)
  qed
  then have "distinct (map v_key (ordered_candidates original available))" by (rule sorted_wrt_distinct)
  then show ?thesis using set_R C(1) sorted by simp
qed

end
