(* ===== verification/Target.thy ===== *)
theory Target
  imports Packaging JsonParse Uuids
begin

section \<open>Target profiles and wheel tags (\<open>target/models.py\<close>, \<open>target/tags.py\<close>, \<open>target/markers.py\<close>)\<close>

text \<open>
  A target profile as the validators accept it, the environment its markers are evaluated in and the
  wheel tags it can install.  The last section gives the tags a declarative description.
\<close>

subsection \<open>Profiles\<close>

record TargetProfile =
  tp_profile_id :: string
  tp_profile_code :: string
  tp_os :: string
  tp_architecture :: string
  tp_python_implementation :: string
  tp_python_version :: string
  tp_python_full_version :: string
  tp_platform_tag :: string
  tp_abi_tags :: "string list"
  tp_validation_type :: string
  tp_validation_policy_version :: string
  tp_profile_version :: int

definition TARGET_MATRIX :: "((string \<times> string) \<times> string) list" where
  "TARGET_MATRIX =
     [((''LINUX'', ''X86_64''), ''manylinux2014_x86_64''),
      ((''LINUX'', ''AARCH64''), ''manylinux2014_aarch64''),
      ((''WINDOWS'', ''AMD64''), ''win_amd64''),
      ((''WINDOWS'', ''ARM64''), ''win_arm64'')]"

definition target_platform_tag :: "string \<Rightarrow> string \<Rightarrow> string option" where
  "target_platform_tag os architecture = map_of TARGET_MATRIX (os, architecture)"

text \<open>The regular expressions \<open>_PYTHON_VERSION\<close> and \<open>_PYTHON_FULL_VERSION\<close> under \<open>fullmatch\<close>.\<close>

definition PYTHON_MINORS :: "string list" where
  "PYTHON_MINORS = [''9'', ''10'', ''11'', ''12'', ''13'']"

definition python_version_ok :: "string \<Rightarrow> bool" where
  "python_version_ok v \<longleftrightarrow> v \<in> set (map (\<lambda>m. ''3.'' @ m) PYTHON_MINORS)"

definition python_full_version_ok :: "string \<Rightarrow> bool" where
  "python_full_version_ok v \<longleftrightarrow> (\<exists>m\<in>set PYTHON_MINORS.
     let p = ''3.'' @ m @ ''.'' in
     startswith v p \<and> drop (length p) v \<noteq> [] \<and> list_all is_digit (drop (length p) v))"

text \<open>The two numbers of a version text: \<open>major, minor = v.split(".")\<close>.\<close>

definition major_minor :: "string \<Rightarrow> (string \<times> string) option" where
  "major_minor v = (case split_on CHR ''.'' v of [major, minor] \<Rightarrow> Some (major, minor) | _ \<Rightarrow> None)"

definition interpreter_tag :: "string \<Rightarrow> string \<Rightarrow> string" where
  "interpreter_tag prefix v = (case major_minor v of Some (major, minor) \<Rightarrow> prefix @ major @ minor | None \<Rightarrow> [])"

definition cpython_tag :: "TargetProfile \<Rightarrow> string" where
  "cpython_tag p = interpreter_tag ''cp'' (tp_python_version p)"

definition python_tag :: "TargetProfile \<Rightarrow> string" where
  "python_tag p = interpreter_tag ''py'' (tp_python_version p)"

text \<open>\<open>normalize_abi_tags\<close>: three tags, the expected ones in any order.\<close>

definition normalize_abi_tags :: "string list \<Rightarrow> string \<Rightarrow> string list option" where
  "normalize_abi_tags abi_tags v =
     (if \<not> python_version_ok v then Some abi_tags
      else
        (let expected = [interpreter_tag ''cp'' v, ''abi3'', ''none''] in
         if card (set abi_tags) \<noteq> 3 \<or> set abi_tags \<noteq> set expected then None else Some expected))"

definition profile_strings :: "TargetProfile \<Rightarrow> string list" where
  "profile_strings p = [tp_profile_id p, tp_profile_code p, tp_os p, tp_architecture p,
     tp_python_implementation p, tp_python_version p, tp_python_full_version p, tp_platform_tag p,
     tp_validation_type p, tp_validation_policy_version p]"

text \<open>The field and model validators of \<open>TargetProfile\<close>: the validated profile, or None for a validation
  error.\<close>

definition validate_target :: "TargetProfile \<Rightarrow> TargetProfile option" where
  "validate_target p =
     (if list_ex (\<lambda>s. strip s = []) (profile_strings p) then None
      else if length (tp_abi_tags p) \<noteq> 3 then None
      else if tp_profile_version p < 0 then None
      else if \<not> validate_canonical_uuid (tp_profile_id p) then None
      else if tp_python_implementation p \<noteq> ''CPYTHON'' then None
      else if \<not> python_version_ok (tp_python_version p) then None
      else if \<not> python_full_version_ok (tp_python_full_version p) then None
      else if tp_validation_type p \<noteq> ''STATIC'' then None
      else if tp_validation_policy_version p \<noteq> ''wheel-tags-v1'' then None
      else (case normalize_abi_tags (tp_abi_tags p) (tp_python_version p) of
          None \<Rightarrow> None
        | Some abi_tags \<Rightarrow>
            (case target_platform_tag (tp_os p) (tp_architecture p) of
               None \<Rightarrow> None
             | Some platform \<Rightarrow>
                 if tp_platform_tag p \<noteq> platform then None
                 else if join_with ''.'' (take 2 (split_on CHR ''.'' (tp_python_full_version p)))
                      \<noteq> tp_python_version p then None
                 else Some (p\<lparr>tp_abi_tags := abi_tags\<rparr>))))"

subsection \<open>The marker environment\<close>

definition MARKER_MATRIX :: "((string \<times> string) \<times> (string \<times> string) list) list" where
  "MARKER_MATRIX =
     [((''LINUX'', ''X86_64''), [(''os_name'', ''posix''), (''platform_machine'', ''x86_64''),
         (''platform_system'', ''Linux''), (''sys_platform'', ''linux'')]),
      ((''LINUX'', ''AARCH64''), [(''os_name'', ''posix''), (''platform_machine'', ''aarch64''),
         (''platform_system'', ''Linux''), (''sys_platform'', ''linux'')]),
      ((''WINDOWS'', ''AMD64''), [(''os_name'', ''nt''), (''platform_machine'', ''AMD64''),
         (''platform_system'', ''Windows''), (''sys_platform'', ''win32'')]),
      ((''WINDOWS'', ''ARM64''), [(''os_name'', ''nt''), (''platform_machine'', ''ARM64''),
         (''platform_system'', ''Windows''), (''sys_platform'', ''win32'')])]"

text \<open>None is the KeyError of a profile outside the matrix, which no validated profile is.\<close>

definition marker_environment :: "TargetProfile \<Rightarrow> environment option" where
  "marker_environment p =
     (case map_of MARKER_MATRIX (tp_os p, tp_architecture p) of
        None \<Rightarrow> None
      | Some values \<Rightarrow> (let value = (\<lambda>k. the (map_of values k)) in Some
          [(''implementation_name'', ''cpython''),
           (''implementation_version'', tp_python_full_version p),
           (''os_name'', value ''os_name''),
           (''platform_machine'', value ''platform_machine''),
           (''platform_python_implementation'', ''CPython''),
           (''platform_release'', ''0''),
           (''platform_system'', value ''platform_system''),
           (''platform_version'', ''0''),
           (''python_full_version'', tp_python_full_version p),
           (''python_version'', tp_python_version p),
           (''sys_platform'', value ''sys_platform'')]))"

subsection \<open>Compatible tags\<close>

definition LINUX_ARCHITECTURES :: "(string \<times> string) list" where
  "LINUX_ARCHITECTURES = [(''X86_64'', ''x86_64''), (''AARCH64'', ''aarch64'')]"

definition manylinux_2 :: "nat \<Rightarrow> string \<Rightarrow> string" where
  "manylinux_2 minor architecture = ''manylinux_2_'' @ nat_str minor @ ''_'' @ architecture"

definition compatible_platform_tags :: "TargetProfile \<Rightarrow> string list" where
  "compatible_platform_tags p =
     (if tp_os p \<noteq> ''LINUX'' then [tp_platform_tag p]
      else
        (let architecture = the (map_of LINUX_ARCHITECTURES (tp_architecture p))
         in map fst (dict_of (map (\<lambda>t. (t, ()))
              ([tp_platform_tag p, manylinux_2 17 architecture] @
               map (\<lambda>minor. manylinux_2 minor architecture) (rev [0..<17]) @
               (if architecture = ''x86_64'' then [''manylinux2010_x86_64'', ''manylinux1_x86_64''] else []))))))"

definition compatible_abi3_interpreters :: "TargetProfile \<Rightarrow> string list" where
  "compatible_abi3_interpreters p =
     (let target_minor = decimal_value (split_on CHR ''.'' (tp_python_version p) ! 1)
      in map (\<lambda>minor. ''cp3'' @ nat_str minor) [2..<target_minor + 1])"

definition mk_tag :: "string \<Rightarrow> string \<Rightarrow> string \<Rightarrow> Tag" where
  "mk_tag interpreter abi platform = \<lparr>tag_interpreter = interpreter, tag_abi = abi, tag_platform = platform\<rparr>"

definition compatible_tags :: "TargetProfile \<Rightarrow> Tag list" where
  "compatible_tags p = remdups
     (concat (map (\<lambda>platform.
          [mk_tag (cpython_tag p) (cpython_tag p) platform, mk_tag (cpython_tag p) ''abi3'' platform,
           mk_tag (cpython_tag p) ''none'' platform, mk_tag (python_tag p) ''none'' platform,
           mk_tag ''py3'' ''none'' platform] @
          map (\<lambda>interpreter. mk_tag interpreter ''abi3'' platform) (compatible_abi3_interpreters p))
        (compatible_platform_tags p)) @
      map (\<lambda>interpreter. mk_tag interpreter ''none'' ''any'') [python_tag p, ''py3''])"

definition wheel_is_compatible :: "'k packaging \<Rightarrow> string \<Rightarrow> TargetProfile \<Rightarrow> bool" where
  "wheel_is_compatible pkg filename p =
     (case pkg_wheel pkg filename of
        None \<Rightarrow> False
      | Some w \<Rightarrow> list_ex (\<lambda>tag. tag \<in> set (compatible_tags p)) (wn_tags w))"

subsection \<open>Validated profiles\<close>

lemma validate_target_Some:
  assumes "validate_target p = Some q"
  shows "q = p\<lparr>tp_abi_tags := tp_abi_tags q\<rparr>" "python_version_ok (tp_python_version q)"
    "target_platform_tag (tp_os q) (tp_architecture q) = Some (tp_platform_tag q)"
    "tp_abi_tags q = [cpython_tag q, ''abi3'', ''none'']"
    "normalize_abi_tags (tp_abi_tags p) (tp_python_version p) = Some (tp_abi_tags q)"
  using assms
  by (auto simp: validate_target_def Let_def normalize_abi_tags_def cpython_tag_def
      split: if_splits option.splits)

lemma target_cases:
  assumes "validate_target p = Some q"
  obtains "tp_os q = ''LINUX''" "tp_architecture q = ''X86_64''" "tp_platform_tag q = ''manylinux2014_x86_64''"
    | "tp_os q = ''LINUX''" "tp_architecture q = ''AARCH64''" "tp_platform_tag q = ''manylinux2014_aarch64''"
    | "tp_os q = ''WINDOWS''" "tp_architecture q = ''AMD64''" "tp_platform_tag q = ''win_amd64''"
    | "tp_os q = ''WINDOWS''" "tp_architecture q = ''ARM64''" "tp_platform_tag q = ''win_arm64''"
  using validate_target_Some(3) [OF assms]
  by (auto simp: target_platform_tag_def TARGET_MATRIX_def split: if_splits)

text \<open>The minor number of a validated Python version.\<close>

lemma validated_minor:
  assumes "python_version_ok v"
  shows "\<exists>m\<in>{9..13}. v = ''3.'' @ nat_str m \<and> (\<forall>x. interpreter_tag x v = x @ ''3'' @ nat_str m) \<and>
    decimal_value (split_on CHR ''.'' v ! 1) = m"
proof -
  have n: "nat_str 9 = ''9''" "nat_str 10 = ''10''" "nat_str 11 = ''11''" "nat_str 12 = ''12''" "nat_str 13 = ''13''"
    by code_simp+
  from assms consider "v = ''3.9''" | "v = ''3.10''" | "v = ''3.11''" | "v = ''3.12''" | "v = ''3.13''"
    by (auto simp: python_version_ok_def PYTHON_MINORS_def)
  then show ?thesis
  proof cases
    case 1
    show ?thesis by (rule bexI [of _ 9]) (simp_all add: 1 n interpreter_tag_def major_minor_def decimal_value_def digit_value_def code_def)
  next
    case 2
    show ?thesis by (rule bexI [of _ 10]) (simp_all add: 2 n interpreter_tag_def major_minor_def decimal_value_def digit_value_def code_def)
  next
    case 3
    show ?thesis by (rule bexI [of _ 11]) (simp_all add: 3 n interpreter_tag_def major_minor_def decimal_value_def digit_value_def code_def)
  next
    case 4
    show ?thesis by (rule bexI [of _ 12]) (simp_all add: 4 n interpreter_tag_def major_minor_def decimal_value_def digit_value_def code_def)
  next
    case 5
    show ?thesis by (rule bexI [of _ 13]) (simp_all add: 5 n interpreter_tag_def major_minor_def decimal_value_def digit_value_def code_def)
  qed
qed

lemma mem_dict_of: "x \<in> set (map fst (dict_of (map (\<lambda>t. (t, ())) ts))) \<longleftrightarrow> x \<in> set ts"
proof -
  have "fst ` set (dict_of kvs) = fst ` set kvs" for kvs :: "('a \<times> unit) list"
    using map_of_dict_of [of kvs] by (metis dom_map_of_conv_image_fst set_rev)
  then show ?thesis by (auto simp: image_image)
qed

subsection \<open>The tags a target installs\<close>

text \<open>PEP 425 and 600: the platforms of a target, and the interpreter and ABI pairs of a minor version.\<close>

definition target_platforms :: "string \<Rightarrow> string \<Rightarrow> string set" where
  "target_platforms os architecture =
     (if os = ''WINDOWS'' then {if architecture = ''AMD64'' then ''win_amd64'' else ''win_arm64''}
      else if architecture = ''X86_64''
      then {''manylinux2014_x86_64'', ''manylinux2010_x86_64'', ''manylinux1_x86_64''} \<union>
        (\<lambda>k. ''manylinux_2_'' @ nat_str k @ ''_x86_64'') ` {0..17}
      else {''manylinux2014_aarch64''} \<union> (\<lambda>k. ''manylinux_2_'' @ nat_str k @ ''_aarch64'') ` {0..17})"

definition installable :: "nat \<Rightarrow> string set \<Rightarrow> Tag \<Rightarrow> bool" where
  "installable m platforms t \<longleftrightarrow>
     (tag_platform t \<in> platforms \<and>
        (tag_interpreter t = ''cp3'' @ nat_str m \<and> tag_abi t \<in> {''cp3'' @ nat_str m, ''none''} \<or>
         tag_interpreter t \<in> (\<lambda>k. ''cp3'' @ nat_str k) ` {2..m} \<and> tag_abi t = ''abi3'' \<or>
         tag_interpreter t \<in> {''py3'' @ nat_str m, ''py3''} \<and> tag_abi t = ''none'')) \<or>
     (tag_platform t = ''any'' \<and> tag_abi t = ''none'' \<and> tag_interpreter t \<in> {''py3'' @ nat_str m, ''py3''})"

lemma rev_upt_set: "set (rev [0..<17]) = {0..<17 :: nat}" by simp

lemma platforms_validated:
  assumes "validate_target p = Some q"
  shows "set (compatible_platform_tags q) = target_platforms (tp_os q) (tp_architecture q)"
proof -
  have ivl: "{0..17 :: nat} = insert 17 {0..<17}" by auto
  show ?thesis
  proof (rule target_cases [OF assms])
    assume "tp_os q = ''LINUX''" "tp_architecture q = ''X86_64''" "tp_platform_tag q = ''manylinux2014_x86_64''"
    then show ?thesis
      unfolding compatible_platform_tags_def Let_def
      by (simp only: refl if_False if_True mem_dict_of set_eq_iff not_True_eq_False)
        (auto simp: target_platforms_def LINUX_ARCHITECTURES_def manylinux_2_def ivl)
  next
    assume "tp_os q = ''LINUX''" "tp_architecture q = ''AARCH64''" "tp_platform_tag q = ''manylinux2014_aarch64''"
    then show ?thesis
      unfolding compatible_platform_tags_def Let_def
      by (simp only: refl if_False if_True mem_dict_of set_eq_iff not_True_eq_False)
        (auto simp: target_platforms_def LINUX_ARCHITECTURES_def manylinux_2_def ivl)
  qed (simp_all add: compatible_platform_tags_def target_platforms_def)
qed

lemma tag_eq_iff: "t = mk_tag i a pl \<longleftrightarrow> tag_interpreter t = i \<and> tag_abi t = a \<and> tag_platform t = pl"
  by (cases t) (auto simp: mk_tag_def)

lemma tag_sets:
  "c \<in> A \<Longrightarrow>
     ((\<exists>pl\<in>P. (i = c \<and> a = c \<and> p = pl) \<or> (i = c \<and> a = st \<and> p = pl) \<or> (i = c \<and> a = none \<and> p = pl) \<or>
        (i = y \<and> a = none \<and> p = pl) \<or> (i = z \<and> a = none \<and> p = pl) \<or> (\<exists>j\<in>A. i = j \<and> a = st \<and> p = pl)) \<or>
      (i = y \<and> a = none \<and> p = any) \<or> (i = z \<and> a = none \<and> p = any)) \<longleftrightarrow>
     (p \<in> P \<and> (i = c \<and> a \<in> {c, none} \<or> i \<in> A \<and> a = st \<or> i \<in> {y, z} \<and> a = none)) \<or>
     (p = any \<and> a = none \<and> i \<in> {y, z})"
  by auto

lemma tags_installable:
  assumes v: "validate_target p = Some q" and m: "m \<in> {9..13}" "tp_python_version q = ''3.'' @ nat_str m"
  shows "t \<in> set (compatible_tags q) \<longleftrightarrow> installable m (target_platforms (tp_os q) (tp_architecture q)) t"
proof -
  obtain k where k: "tp_python_version q = ''3.'' @ nat_str k"
    "\<And>x. interpreter_tag x (tp_python_version q) = x @ ''3'' @ nat_str k"
    "decimal_value (split_on CHR ''.'' (tp_python_version q) ! 1) = k"
    using validated_minor [OF validate_target_Some(2) [OF v]] by blast
  have "nat_str k = nat_str m" using k(1) m(2) by simp
  then have km: "k = m" by (metis decimal_nat_str)
  have tags: "cpython_tag q = ''cp3'' @ nat_str m" "python_tag q = ''py3'' @ nat_str m"
    using k(2) km by (simp_all add: cpython_tag_def python_tag_def)
  have abi3: "set (compatible_abi3_interpreters q) = (\<lambda>k. ''cp3'' @ nat_str k) ` {2..m}"
    using k(3) km by (auto simp: compatible_abi3_interpreters_def Let_def)
  have "2 \<le> m" using m(1) by simp
  have mem: "t \<in> set (compatible_tags q) \<longleftrightarrow>
      (\<exists>pl\<in>set (compatible_platform_tags q). t = mk_tag (cpython_tag q) (cpython_tag q) pl \<or>
         t = mk_tag (cpython_tag q) ''abi3'' pl \<or> t = mk_tag (cpython_tag q) ''none'' pl \<or>
         t = mk_tag (python_tag q) ''none'' pl \<or> t = mk_tag ''py3'' ''none'' pl \<or>
         (\<exists>i\<in>set (compatible_abi3_interpreters q). t = mk_tag i ''abi3'' pl)) \<or>
      t = mk_tag (python_tag q) ''none'' ''any'' \<or> t = mk_tag ''py3'' ''none'' ''any''"
    unfolding compatible_tags_def set_remdups by auto
  have m_in: "''cp3'' @ nat_str m \<in> (\<lambda>k. ''cp3'' @ nat_str k) ` {2..m}" using \<open>2 \<le> m\<close> by (intro imageI) simp
  show ?thesis
    unfolding mem tag_eq_iff installable_def platforms_validated [OF v] abi3 tags
    by (rule tag_sets [OF m_in])
qed

text \<open>C19 A validated profile installs exactly the tags of its CPython version and its own or an older
  stable ABI on its own platforms, and pure Python wheels.\<close>

theorem compatible_tags_spec:
  assumes "validate_target p = Some q"
  shows "\<exists>m. m \<in> {9..13} \<and> tp_python_version q = ''3.'' @ nat_str m \<and>
    {t. t \<in> set (compatible_tags q)} = {t. installable m (target_platforms (tp_os q) (tp_architecture q)) t}"
proof -
  obtain m where m: "m \<in> {9..13}" "tp_python_version q = ''3.'' @ nat_str m"
    using validated_minor [OF validate_target_Some(2) [OF assms]] by blast
  with tags_installable [OF assms m] show ?thesis by blast
qed

text \<open>The third character from the end of a platform tells the target.\<close>

lemma platform_mark:
  "x \<in> target_platforms ''LINUX'' ''X86_64'' \<Longrightarrow> take 3 (rev x) = ''46_''"
  "x \<in> target_platforms ''LINUX'' ''AARCH64'' \<Longrightarrow> take 3 (rev x) = ''46h''"
  "x \<in> target_platforms ''WINDOWS'' ''AMD64'' \<Longrightarrow> take 3 (rev x) = ''46d''"
  "x \<in> target_platforms ''WINDOWS'' ''ARM64'' \<Longrightarrow> take 3 (rev x) = ''46m''"
  by (auto simp: target_platforms_def)

lemma platforms_disjoint:
  assumes "validate_target p = Some q" "validate_target p' = Some q'"
    and "x \<in> target_platforms (tp_os q) (tp_architecture q)" "x \<in> target_platforms (tp_os q') (tp_architecture q')"
  shows "tp_os q = tp_os q' \<and> tp_architecture q = tp_architecture q'"
  using assms(3,4)
  by (rule_tac target_cases [OF assms(1)]; rule_tac target_cases [OF assms(2)])
    (auto dest!: platform_mark)

lemma installable_any: "installable m P t \<Longrightarrow> tag_platform t \<noteq> ''any'' \<Longrightarrow> tag_platform t \<in> P"
  by (auto simp: installable_def)

text \<open>C20 A wheel tag of a particular platform that two validated profiles both install pins their
  operating system and architecture: no binary wheel crosses targets.\<close>

theorem no_cross_platform_wheel:
  assumes "validate_target p = Some q" "validate_target p' = Some q'"
    and "t \<in> set (compatible_tags q)" "t \<in> set (compatible_tags q')" "tag_platform t \<noteq> ''any''"
  shows "tp_os q = tp_os q' \<and> tp_architecture q = tp_architecture q'"
proof -
  obtain m m' where m: "m \<in> {9..13}" "tp_python_version q = ''3.'' @ nat_str m"
    "m' \<in> {9..13}" "tp_python_version q' = ''3.'' @ nat_str m'"
    using validated_minor [OF validate_target_Some(2) [OF assms(1)]]
      validated_minor [OF validate_target_Some(2) [OF assms(2)]] by blast
  have "tag_platform t \<in> target_platforms (tp_os q) (tp_architecture q)"
    "tag_platform t \<in> target_platforms (tp_os q') (tp_architecture q')"
    using tags_installable [OF assms(1) m(1,2)] tags_installable [OF assms(2) m(3,4)] assms(3-5) installable_any
    by blast+
  then show ?thesis by (rule platforms_disjoint [OF assms(1,2)])
qed

text \<open>C21 A validated profile is well formed: validating it again changes nothing, its marker environment
  is defined, and its ABI tags are its CPython tag, abi3 and none.\<close>

theorem validated_profile_well_formed:
  assumes "validate_target p = Some q"
  shows "validate_target q = Some q \<and> (\<exists>env. marker_environment q = Some env) \<and>
    tp_abi_tags q = [cpython_tag q, ''abi3'', ''none''] \<and>
    target_platform_tag (tp_os q) (tp_architecture q) = Some (tp_platform_tag q)"
proof -
  note v = validate_target_Some [OF assms]
  obtain m where "\<And>x. interpreter_tag x (tp_python_version q) = x @ ''3'' @ nat_str m"
    using validated_minor [OF v(2)] by blast
  then have "cpython_tag q = ''cp3'' @ nat_str m" by (simp add: cpython_tag_def)
  then have "card (set (tp_abi_tags q)) = 3" unfolding v(4) by simp
  then have n: "normalize_abi_tags (tp_abi_tags q) (tp_python_version q) = Some (tp_abi_tags q)"
    using v(2,4) by (simp add: normalize_abi_tags_def cpython_tag_def)
  obtain tags where q: "q = p\<lparr>tp_abi_tags := tags\<rparr>" using v(1) by blast
  have strings: "length (tp_abi_tags q) = 3" "profile_strings q = profile_strings p"
    unfolding v(4) by simp (simp add: q profile_strings_def)
  have same: "tp_profile_version q = tp_profile_version p" "tp_profile_id q = tp_profile_id p"
    "tp_python_implementation q = tp_python_implementation p" "tp_python_version q = tp_python_version p"
    "tp_python_full_version q = tp_python_full_version p" "tp_validation_type q = tp_validation_type p"
    "tp_validation_policy_version q = tp_validation_policy_version p" "tp_os q = tp_os p"
    "tp_architecture q = tp_architecture p" "tp_platform_tag q = tp_platform_tag p"
    by (simp_all add: q)
  have "validate_target q = Some q"
    using assms [unfolded validate_target_def] strings n
    unfolding validate_target_def same by (simp split: if_splits option.splits)
  moreover have "\<exists>env. marker_environment q = Some env"
    by (rule target_cases [OF assms]) (simp_all add: marker_environment_def MARKER_MATRIX_def Let_def)
  ultimately show ?thesis using v(3,4) by blast
qed

subsection \<open>Witnesses\<close>

definition sample_profile :: TargetProfile where
  "sample_profile = \<lparr>tp_profile_id = uuid_str 0, tp_profile_code = ''linux-py311'', tp_os = ''LINUX'',
     tp_architecture = ''X86_64'', tp_python_implementation = ''CPYTHON'', tp_python_version = ''3.11'',
     tp_python_full_version = ''3.11.9'', tp_platform_tag = ''manylinux2014_x86_64'',
     tp_abi_tags = [''cp311'', ''abi3'', ''none''], tp_validation_type = ''STATIC'',
     tp_validation_policy_version = ''wheel-tags-v1'', tp_profile_version = 1\<rparr>"

lemma uuid_str_ok: "validate_canonical_uuid (uuid_str 0)" "strip (uuid_str 0) \<noteq> []"
proof -
  show "validate_canonical_uuid (uuid_str 0)" by (simp add: validate_canonical_uuid_def canonical_uuid_str)
  show "strip (uuid_str 0) \<noteq> []" by code_simp
qed

lemma sample_validated: "validate_target sample_profile = Some sample_profile"
proof -
  have "\<not> list_ex (\<lambda>s. strip s = []) (tl (profile_strings sample_profile))" by code_simp
  then have "\<not> list_ex (\<lambda>s. strip s = []) (profile_strings sample_profile)"
    using uuid_str_ok(2) by (simp add: profile_strings_def) (simp add: sample_profile_def)
  moreover have "python_full_version_ok ''3.11.9''" by code_simp
  ultimately show ?thesis
    by (simp add: validate_target_def uuid_str_ok(1) normalize_abi_tags_def python_version_ok_def
        PYTHON_MINORS_def interpreter_tag_def major_minor_def target_platform_tag_def TARGET_MATRIX_def Let_def
        sample_profile_def)
qed

theorem compatible_tags_spec_witness:
  "\<exists>m. m \<in> {9..13} \<and> tp_python_version sample_profile = ''3.'' @ nat_str m \<and>
    {t. t \<in> set (compatible_tags sample_profile)} = {t. installable m (target_platforms ''LINUX'' ''X86_64'') t}"
  using compatible_tags_spec [OF sample_validated] by (simp add: sample_profile_def)

theorem no_cross_platform_wheel_witness:
  "mk_tag ''cp311'' ''cp311'' ''manylinux2014_x86_64'' \<in> set (compatible_tags sample_profile) \<and>
     tp_os sample_profile = tp_os sample_profile"
proof -
  let ?t = "mk_tag ''cp311'' ''cp311'' ''manylinux2014_x86_64''"
  have n: "nat_str 11 = ''11''" by code_simp
  have "installable 11 (target_platforms (tp_os sample_profile) (tp_architecture sample_profile)) ?t"
    by (simp add: installable_def mk_tag_def target_platforms_def sample_profile_def n)
  moreover have "tp_python_version sample_profile = ''3.'' @ nat_str 11" by (simp add: n sample_profile_def)
  ultimately have t: "?t \<in> set (compatible_tags sample_profile)"
    using tags_installable [OF sample_validated, of 11] by simp
  have "tag_platform (mk_tag ''cp311'' ''cp311'' ''manylinux2014_x86_64'') \<noteq> ''any''" by (simp add: mk_tag_def)
  from no_cross_platform_wheel [OF sample_validated sample_validated t t this] t show ?thesis by blast
qed

theorem validated_profile_well_formed_witness:
  "\<exists>env. marker_environment sample_profile = Some env"
  using validated_profile_well_formed [OF sample_validated] by blast

end
