(* ===== verification/Observations.thy ===== *)
theory Observations
  imports Candidates Target
begin

section \<open>From provider data to candidate options (\<open>resolver/compatible.py\<close>)\<close>

text \<open>
  What the compatible resolver makes of the releases a candidate provider reports for one pin: bounded
  observations, their filtering and the options in preference order.  Provider data is untrusted: a field
  of the wrong Python type is None (or a constructor of its own), an iterator is the function from the
  index to the next event, so it may also never end.
\<close>

subsection \<open>Provider data\<close>

datatype requires_python = NoRequires | RequiresText string | RequiresOther

text \<open>A \<open>CandidateMetadata\<close> whose fields may have any type.\<close>

record CandidateMetadata =
  cm_version :: "string option"
  cm_yanked :: "bool option"
  cm_requires_python :: requires_python
  cm_wheel_filenames :: "string option list option"

datatype release_event = Release CandidateMetadata | NotMetadata | IterationEnds | IterationRaises string

datatype provider_answer = ProviderRaises string | NotIterable | Releases "nat \<Rightarrow> release_event"

record 'k Observation =
  ob_source :: PackageSource
  ob_metadata :: CandidateMetadata
  ob_version :: "'k Version"

record 'k CandidateOptions =
  co_versions :: "'k Version list"
  co_eligible_sources :: "('k Version \<times> PackageSource list) list"

definition supports :: "'k CandidateOptions \<Rightarrow> 'k Version \<Rightarrow> PackageSource \<Rightarrow> bool" where
  "supports options version source \<longleftrightarrow>
     list_ex (\<lambda>(candidate, sources). same_version candidate version \<and> source \<in> set sources) (co_eligible_sources options)"

record 'k RelaxablePin =
  rp_item_index :: nat
  rp_package :: string
  rp_original :: "'k Version"

definition MAX_PROVIDER_RELEASES :: nat where "MAX_PROVIDER_RELEASES = 2000"
definition MAX_RESOLUTION_OBSERVATIONS :: nat where "MAX_RESOLUTION_OBSERVATIONS = 2000"
definition MAX_RESOLUTION_REJECTIONS :: nat where "MAX_RESOLUTION_REJECTIONS = 2000"
definition MAX_VERSION_CHARS :: nat where "MAX_VERSION_CHARS = 512"
definition MAX_REQUIRES_PYTHON_CHARS :: nat where "MAX_REQUIRES_PYTHON_CHARS = 1024"
definition MAX_WHEELS_PER_RELEASE :: nat where "MAX_WHEELS_PER_RELEASE = 256"
definition MAX_WHEEL_FILENAME_CHARS :: nat where "MAX_WHEEL_FILENAME_CHARS = 1024"

subsection \<open>Bounded rejections and the observation budget\<close>

record BoundedRejections =
  br_items :: "CandidateRejection list"
  br_omitted :: nat

definition rejections_append :: "CandidateRejection \<Rightarrow> BoundedRejections \<Rightarrow> BoundedRejections" where
  "rejections_append item r =
     (if length (br_items r) < MAX_RESOLUTION_REJECTIONS then r\<lparr>br_items := br_items r @ [item]\<rparr>
      else r\<lparr>br_omitted := br_omitted r + 1\<rparr>)"

definition reject ::
  "string \<Rightarrow> string \<Rightarrow> PackageSource \<Rightarrow> CandidateRejectionCode \<Rightarrow> string \<Rightarrow> BoundedRejections \<Rightarrow> BoundedRejections" where
  "reject package version source rejection reason r = rejections_append
     \<lparr>cr_package = package, cr_version = version, cr_source = source, cr_code = rejection, cr_reason = reason\<rparr> r"

record ObservationBudget =
  bu_limit :: nat
  bu_accepted :: nat
  bu_truncated :: bool

definition observations_remaining :: "ObservationBudget \<Rightarrow> nat" where
  "observations_remaining b = bu_limit b - bu_accepted b"

definition reserve_observation :: "ObservationBudget \<Rightarrow> bool \<times> ObservationBudget" where
  "reserve_observation b =
     (if bu_limit b \<le> bu_accepted b then (False, b\<lparr>bu_truncated := True\<rparr>)
      else (True, b\<lparr>bu_accepted := bu_accepted b + 1\<rparr>))"

subsection \<open>Reading the releases\<close>

text \<open>The checks of one release: an observation, or a rejection.\<close>

definition observe ::
  "'k packaging \<Rightarrow> string \<Rightarrow> PackageSource \<Rightarrow> CandidateMetadata \<Rightarrow> BoundedRejections \<Rightarrow>
     'k Observation option \<times> BoundedRejections" where
  "observe P package source metadata r =
     (let malformed = (\<lambda>version reason. (None, reject package version source MALFORMED_PROVIDER_DATA reason r))
      in case cm_version metadata of
           None \<Rightarrow> malformed [] ''candidate version must be a nonempty string''
         | Some version_text \<Rightarrow>
             if version_text = [] then malformed [] ''candidate version must be a nonempty string''
             else if MAX_VERSION_CHARS < length version_text
             then malformed (take MAX_VERSION_CHARS version_text) ''candidate version exceeds limit 512''
             else if cm_yanked metadata = None
             then malformed version_text ''candidate yanked state must be boolean''
             else (case pkg_version P version_text of
                 None \<Rightarrow> malformed version_text ''candidate version is malformed''
               | Some version \<Rightarrow>
                   (Some \<lparr>ob_source = source, ob_metadata = metadata, ob_version = version\<rparr>, r)))"

text \<open>The loop from an index on.  An exception of the iteration discards the observations of the call.\<close>

function observe_from ::
  "'k packaging \<Rightarrow> string \<Rightarrow> PackageSource \<Rightarrow> (nat \<Rightarrow> release_event) \<Rightarrow> nat \<Rightarrow> BoundedRejections \<Rightarrow>
     ObservationBudget \<Rightarrow> (string + 'k Observation list) \<times> BoundedRejections \<times> ObservationBudget" where
  "observe_from P package source events index r b = (case events index of
     IterationEnds \<Rightarrow> (Inr [], r, b)
   | IterationRaises e \<Rightarrow> (Inl e, r, b)
   | event \<Rightarrow>
       if MAX_PROVIDER_RELEASES \<le> index
       then (Inr [], reject package [] source MALFORMED_PROVIDER_DATA ''candidate release count exceeds limit 2000'' r, b)
       else let (reserved, b) = reserve_observation b
         in if \<not> reserved then (Inr [], r, b)
            else let (found, r) = (case event of
                   Release metadata \<Rightarrow> observe P package source metadata r
                 | _ \<Rightarrow> (None, reject package [] source MALFORMED_PROVIDER_DATA ''candidate entry has an invalid type'' r));
                   (rest, r, b) = observe_from P package source events (Suc index) r b
              in (map_sum id (\<lambda>os. (case found of None \<Rightarrow> [] | Some ob \<Rightarrow> [ob]) @ os) rest, r, b))"
  by pat_completeness auto
termination
  by (relation "measure (\<lambda>(P, package, source, events, index, r, b). MAX_PROVIDER_RELEASES - index)") auto

declare observe_from.simps [simp del]

definition bounded_observations ::
  "'k packaging \<Rightarrow> string \<Rightarrow> PackageSource \<Rightarrow> provider_answer \<Rightarrow> BoundedRejections \<Rightarrow> ObservationBudget \<Rightarrow>
     (string + 'k Observation list) \<times> BoundedRejections \<times> ObservationBudget" where
  "bounded_observations P package source releases r b = (case releases of
     ProviderRaises e \<Rightarrow> (Inl e, r, b)
   | NotIterable \<Rightarrow>
       (Inr [], reject package [] source MALFORMED_PROVIDER_DATA ''candidate releases are not iterable'' r, b)
   | Releases events \<Rightarrow> observe_from P package source events 0 r b)"

subsection \<open>Compatibility with the target\<close>

definition ob_text :: "'k Observation \<Rightarrow> string" where
  "ob_text ob = coalesce (cm_version (ob_metadata ob)) []"

text \<open>A rejection of an observation.\<close>

definition reject_observation ::
  "string \<Rightarrow> 'k Observation \<Rightarrow> CandidateRejectionCode \<Rightarrow> string \<Rightarrow> BoundedRejections \<Rightarrow> BoundedRejections" where
  "reject_observation package ob rejection reason r = reject package (ob_text ob) (ob_source ob) rejection reason r"

text \<open>The version of a validated profile is a version of the library, so its parsing does not raise.\<close>

definition python_compatible ::
  "'k packaging \<Rightarrow> string \<Rightarrow> 'k Observation \<Rightarrow> TargetProfile \<Rightarrow> BoundedRejections \<Rightarrow> bool \<times> BoundedRejections" where
  "python_compatible P package ob profile r =
     (let malformed = (\<lambda>reason. (False, reject_observation package ob MALFORMED_PROVIDER_DATA reason r))
      in case cm_requires_python (ob_metadata ob) of
           NoRequires \<Rightarrow> (True, r)
         | RequiresOther \<Rightarrow> malformed ''Requires-Python is not a bounded string''
         | RequiresText text \<Rightarrow>
             if MAX_REQUIRES_PYTHON_CHARS < length text then malformed ''Requires-Python is not a bounded string''
             else (case pkg_specifier_set P text of
                 None \<Rightarrow> malformed ''Requires-Python is malformed''
               | Some specifier \<Rightarrow>
                   if \<not> (case pkg_version P (tp_python_full_version profile) of
                         None \<Rightarrow> False | Some python \<Rightarrow> pkg_contains P specifier python)
                   then (False, reject_observation package ob REQUIRES_PYTHON
                     (''Requires-Python '' @ py_repr text @ '' excludes target '' @ tp_python_full_version profile) r)
                   else (True, r)))"

text \<open>One file name: whether it is a wheel of the candidate that the target installs.\<close>

definition wheel_step ::
  "'k packaging \<Rightarrow> string \<Rightarrow> 'k Observation \<Rightarrow> TargetProfile \<Rightarrow> string option \<Rightarrow> BoundedRejections \<Rightarrow>
     bool \<times> BoundedRejections" where
  "wheel_step P package ob profile filename r =
     (let malformed = (\<lambda>reason. (False, reject_observation package ob MALFORMED_PROVIDER_DATA reason r))
      in case filename of
           None \<Rightarrow> malformed ''Wheel filename is not a bounded nonempty string''
         | Some name \<Rightarrow>
             if name = [] \<or> MAX_WHEEL_FILENAME_CHARS < length name
             then malformed ''Wheel filename is not a bounded nonempty string''
             else (case pkg_wheel P name of
                 None \<Rightarrow> malformed (''Wheel filename is malformed: '' @ take 256 name)
               | Some wheel \<Rightarrow>
                   if pkg_canonicalize P (wn_name wheel) \<noteq> package \<or> \<not> same_version (wn_version wheel) (ob_version ob)
                   then malformed ''Wheel filename does not match the candidate package and version''
                   else (wheel_is_compatible P name profile, r)))"

fun wheel_steps ::
  "'k packaging \<Rightarrow> string \<Rightarrow> 'k Observation \<Rightarrow> TargetProfile \<Rightarrow> string option list \<Rightarrow> bool \<Rightarrow> BoundedRejections \<Rightarrow>
     bool \<times> BoundedRejections" where
  "wheel_steps P package ob profile [] compatible r = (compatible, r)"
| "wheel_steps P package ob profile (f # fs) compatible r =
     (let (ok, r) = wheel_step P package ob profile f r in wheel_steps P package ob profile fs (compatible \<or> ok) r)"

definition has_target_wheel ::
  "'k packaging \<Rightarrow> string \<Rightarrow> 'k Observation \<Rightarrow> TargetProfile \<Rightarrow> BoundedRejections \<Rightarrow> bool \<times> BoundedRejections" where
  "has_target_wheel P package ob profile r =
     (let unbounded = (False, reject_observation package ob MALFORMED_PROVIDER_DATA
            ''Wheel filename collection is not a bounded tuple'' r)
      in case cm_wheel_filenames (ob_metadata ob) of
           None \<Rightarrow> unbounded
         | Some filenames \<Rightarrow>
             if MAX_WHEELS_PER_RELEASE < length filenames then unbounded
             else let (compatible, r) = wheel_steps P package ob profile filenames False r
               in if compatible then (True, r)
                  else (False, reject_observation package ob NO_TARGET_WHEEL
                    ''candidate has no syntactically valid Wheel for the target profile'' r))"

subsection \<open>The options of a pin\<close>

text \<open>\<open>eligible_sources.setdefault(version, set()).add(source)\<close>: the first of equal versions is the key.\<close>

fun add_source :: "'k Version \<Rightarrow> PackageSource \<Rightarrow> ('k Version \<times> PackageSource list) list \<Rightarrow>
    ('k Version \<times> PackageSource list) list" where
  "add_source version source [] = [(version, [source])]"
| "add_source version source ((v, sources) # d) =
     (if same_version v version then (v, if source \<in> set sources then sources else sources @ [source]) # d
      else (v, sources) # add_source version source d)"

definition sources_of :: "('k Version \<times> PackageSource list) list \<Rightarrow> 'k Version \<Rightarrow> PackageSource list" where
  "sources_of d version = (case find (\<lambda>e. same_version (fst e) version) d of None \<Rightarrow> [] | Some e \<Rightarrow> snd e)"

definition original_is_yanked :: "'k RelaxablePin \<Rightarrow> 'k Observation list \<Rightarrow> PackageSource \<Rightarrow> bool" where
  "original_is_yanked pin observations source \<longleftrightarrow>
     list_ex (\<lambda>ob. ob_source ob = source \<and> same_version (ob_version ob) (rp_original pin) \<and>
       cm_yanked (ob_metadata ob) = Some True) observations"

text \<open>The checks of one observation against the pin and the target.\<close>

definition eligible_observation ::
  "'k packaging \<Rightarrow> 'k RelaxablePin \<Rightarrow> TargetProfile \<Rightarrow> 'k Observation list \<Rightarrow> 'k Observation \<Rightarrow> BoundedRejections \<Rightarrow>
     bool \<times> BoundedRejections" where
  "eligible_observation P pin profile observations ob r =
     (let version = ob_version ob; rejected = (\<lambda>rejection reason.
            (False, reject_observation (rp_package pin) ob rejection reason r))
      in if same_version version (rp_original pin) then (False, r)
         else if \<not> v_is_prerelease (rp_original pin) \<and> v_is_prerelease version
         then rejected PRERELEASE ''prerelease is not permitted for a stable original pin''
         else if \<not> within_boundary (rp_original pin) version
         then rejected OUTSIDE_COMPATIBILITY_BOUNDARY ''candidate crosses the allowed compatibility boundary''
         else if cm_yanked (ob_metadata ob) = Some True \<and> \<not> original_is_yanked pin observations (ob_source ob)
         then rejected YANKED ''yanked candidate is not permitted for a non-yanked original pin''
         else let (ok, r) = python_compatible P (rp_package pin) ob profile r
           in if \<not> ok then (False, r) else has_target_wheel P (rp_package pin) ob profile r)"

fun collect_sources ::
  "'k packaging \<Rightarrow> 'k RelaxablePin \<Rightarrow> TargetProfile \<Rightarrow> 'k Observation list \<Rightarrow> 'k Observation list \<Rightarrow>
     ('k Version \<times> PackageSource list) list \<Rightarrow> BoundedRejections \<Rightarrow>
     ('k Version \<times> PackageSource list) list \<times> BoundedRejections" where
  "collect_sources P pin profile observations [] d r = (d, r)"
| "collect_sources P pin profile observations (ob # obs) d r =
     (let (ok, r) = eligible_observation P pin profile observations ob r
      in collect_sources P pin profile observations obs
           (if ok then add_source (ob_version ob) (ob_source ob) d else d) r)"

definition reject_omitted ::
  "'k RelaxablePin \<Rightarrow> PackageSource list \<Rightarrow> ('k Version \<times> PackageSource list) list \<Rightarrow> 'k Version list \<Rightarrow>
     BoundedRejections \<Rightarrow> BoundedRejections" where
  "reject_omitted pin sources d versions r =
     fold (\<lambda>version. fold (\<lambda>source r. if source \<in> set (sources_of d version)
         then reject (rp_package pin) (v_str version) source CANDIDATE_LIMIT
           ''candidate omitted by the per-requirement candidate limit'' r
         else r) sources) versions r"

definition candidate_options_for_observations ::
  "('k :: linorder) packaging \<Rightarrow> 'k RelaxablePin \<Rightarrow> TargetProfile \<Rightarrow> PackageSource list \<Rightarrow> ResolveLimits \<Rightarrow>
     'k Observation list \<Rightarrow> BoundedRejections \<Rightarrow> 'k CandidateOptions \<times> BoundedRejections" where
  "candidate_options_for_observations P pin profile sources limits observations r =
     (let (d, r) = collect_sources P pin profile observations observations [] r;
          ordered = ordered_candidates (rp_original pin) (map fst d);
          limit = nat (lim_max_candidates_per_requirement limits);
          accepted = take limit ordered;
          r = reject_omitted pin sources d (drop limit ordered) r
      in (\<lparr>co_versions = accepted, co_eligible_sources = map (\<lambda>v. (v, sources_of d v)) accepted\<rparr>, r))"

end
