(* ===== verification/Utf8.thy ===== *)
theory Utf8
  imports Prelude
begin

section \<open>UTF-8\<close>

text \<open>
  Python's strict \<open>utf-8\<close> codec from bytes (numbers below 256) to code points, with its rejections of
  overlong forms, surrogates and points beyond the last plane, and the encoder on the strings of the
  development, whose code points are below 256.
\<close>

definition in_range :: "nat \<Rightarrow> nat \<Rightarrow> nat \<Rightarrow> bool" where
  "in_range lo hi b \<longleftrightarrow> lo \<le> b \<and> b \<le> hi"

definition tail_byte :: "nat \<Rightarrow> bool" where
  "tail_byte b \<longleftrightarrow> in_range 128 191 b"

text \<open>The second byte a leading byte admits: it excludes overlong forms, surrogates and values beyond
  0x10FFFF.\<close>

definition second3 :: "nat \<Rightarrow> nat \<Rightarrow> bool" where
  "second3 a b \<longleftrightarrow> (if a = 224 then in_range 160 191 b else if a = 237 then in_range 128 159 b else tail_byte b)"

definition second4 :: "nat \<Rightarrow> nat \<Rightarrow> bool" where
  "second4 a b \<longleftrightarrow> (if a = 240 then in_range 144 191 b else if a = 244 then in_range 128 143 b else tail_byte b)"

fun utf8_decode :: "nat list \<Rightarrow> nat list option" where
  "utf8_decode [] = Some []"
| "utf8_decode (a # bs) =
     (if a < 128 then map_option (Cons a) (utf8_decode bs)
      else (case bs of
        [] \<Rightarrow> None
      | b # bs' \<Rightarrow>
          if in_range 194 223 a then
            if tail_byte b then map_option (Cons ((a - 192) * 64 + (b - 128))) (utf8_decode bs') else None
          else (case bs' of
            [] \<Rightarrow> None
          | c # bs'' \<Rightarrow>
              if in_range 224 239 a then
                if second3 a b \<and> tail_byte c
                then map_option (Cons ((a - 224) * 4096 + (b - 128) * 64 + (c - 128))) (utf8_decode bs'') else None
              else (case bs'' of
                [] \<Rightarrow> None
              | d # ds \<Rightarrow>
                  if in_range 240 244 a \<and> second4 a b \<and> tail_byte c \<and> tail_byte d
                  then map_option (Cons ((a - 240) * 262144 + (b - 128) * 4096 + (c - 128) * 64 + (d - 128)))
                    (utf8_decode ds)
                  else None))))"

definition utf8_char :: "char \<Rightarrow> nat list" where
  "utf8_char c = (if code c < 128 then [code c] else [192 + code c div 64, 128 + code c mod 64])"

definition utf8_encode :: "string \<Rightarrow> nat list" where
  "utf8_encode s = concat (map utf8_char s)"

text \<open>The text of a list of code points, when the strings of the development hold it.\<close>

definition text_of_points :: "nat list \<Rightarrow> string option" where
  "text_of_points ps = (if list_all (\<lambda>p. p < 256) ps then Some (map char_of ps) else None)"

lemma decode_char: "utf8_decode (utf8_char c @ bs) = map_option (Cons (code c)) (utf8_decode bs)"
proof (cases "code c < 128")
  case False
  define q r where q: "q = code c div 64" and r: "r = code c mod 64"
  have "2 \<le> q" "q < 4" "r \<le> 63"
    using False code_bound [of c] div_le_mono [of 128 "code c" 64] mod_less_divisor [of 64 "code c"]
    by (simp_all add: q r less_mult_imp_div_less)
  moreover have "q * 64 + r = code c" "utf8_char c = [192 + q, 128 + r]" using False by (simp_all add: q r utf8_char_def)
  ultimately show ?thesis by (simp add: in_range_def tail_byte_def)
qed (simp add: utf8_char_def)

theorem utf8_roundtrip: "utf8_decode (utf8_encode s) = Some (map code s)"
  unfolding utf8_encode_def by (induction s) (simp_all add: decode_char)

lemma text_of_points_codes [simp]: "text_of_points (map code s) = Some s"
  by (simp add: text_of_points_def list_all_iff code_bound) (simp add: code_def map_idI)

end
