(* ===== verification/Requirements.thy ===== *)
theory Requirements
  imports Packaging PyRegex Utf8 "HOL-Library.Option_ord"
begin

section \<open>Parsing a requirements file (\<open>parser/requirements.py\<close>)\<close>

text \<open>
  The parser of an uploaded requirements file: decoding, lines, the texts pip would read differently, PEP
  508 parsing by the \<open>packaging\<close> library (a parameter), and the merging of lines for the same package and
  marker.  The table of Python's \<open>gbk\<close> codec is a parameter.  The strings of the development hold code
  points below 256; a file with other characters ends with \<open>OutsideStrings\<close>, which no exception of the
  source corresponds to.
\<close>

datatype parse_error =
    InputTooLargeError nat nat
  | TooManyLinesError nat nat
  | RequirementsDecodeError
  | InvalidRequirementError string int string
  | UnsupportedRequirementSyntax string int string
  | RequirementConstraintConflictError string int string
  | DuplicateRequirementConflictError string int string int
  | OutsideStrings

definition MAX_INPUT_BYTES :: nat where "MAX_INPUT_BYTES = 512 * 1024"
definition MAX_LOGICAL_LINES :: nat where "MAX_LOGICAL_LINES = 2000"

definition tab_char :: char where "tab_char = CHR 0x09"
definition newline :: char where "newline = CHR 0x0A"
definition carriage_return :: char where "carriage_return = CHR 0x0D"
definition reverse_solidus :: char where "reverse_solidus = CHR 0x5C"

definition PIP_ARGUMENT :: regex where
  "PIP_ARGUMENT = Sqs [Alt StartOfText (Cls (\<lambda>c. c = CHR '' '' \<or> c = tab_char)), Cls (\<lambda>c. c = CHR ''-''),
     Opt (Cls (\<lambda>c. c = CHR ''-'')), Cls is_alpha]"

text \<open>\<open>$\<close> matches at the end and before a final newline.\<close>

definition PIP_FILE_COMMENT :: regex where
  "PIP_FILE_COMMENT = Sqs [Alt StartOfText (Plus (Cls is_space)), Cls (\<lambda>c. c = CHR ''#''),
     Star (Cls (\<lambda>c. c \<noteq> newline)), Alt EndOfText (Sq (Cls (\<lambda>c. c = newline)) EndOfText)]"

definition PIP_ENVIRONMENT_VARIABLE :: regex where
  "PIP_ENVIRONMENT_VARIABLE = Sqs [Lit ''${'', Plus (Cls (\<lambda>c. is_upper c \<or> is_digit c \<or> c = CHR ''_'')),
     Cls (\<lambda>c. c = CHR ''}'')]"

definition WINDOWS_DRIVE_PATH :: regex where
  "WINDOWS_DRIVE_PATH = Sqs [Cls is_alpha, Cls (\<lambda>c. c = CHR '':''), Cls (\<lambda>c. c = reverse_solidus \<or> c = CHR ''/'')]"

definition ARCHIVE_SUFFIXES :: "string list" where
  "ARCHIVE_SUFFIXES = [''.whl'', ''.tar.gz'', ''.tar.bz2'', ''.tgz'', ''.zip'']"

definition VCS_PREFIXES :: "string list" where
  "VCS_PREFIXES = [''git+'', ''hg+'', ''svn+'', ''bzr+'']"

definition SUPPORTED_OPERATORS :: "string list" where
  "SUPPORTED_OPERATORS = [''=='', ''>='', ''<='', ''~='']"

definition OPERATOR_ORDER :: "(string \<times> nat) list" where
  "OPERATOR_ORDER = [(''=='', 0), (''~='', 1), (''>='', 2), (''<='', 3)]"

definition UNSUPPORTED_LINE_SEPARATORS :: "char list" where
  "UNSUPPORTED_LINE_SEPARATORS = [CHR 0x0B, CHR 0x0C, CHR 0x1C, CHR 0x1D, CHR 0x1E, CHR 0x85]"

subsection \<open>Bytes to lines\<close>

definition decode_requirements :: "(nat list \<Rightarrow> nat list option) \<Rightarrow> nat list \<Rightarrow> parse_error + string \<times> string" where
  "decode_requirements gbk raw =
     (let text = (\<lambda>points encoding. case text_of_points points of
            None \<Rightarrow> Inl OutsideStrings | Some t \<Rightarrow> Inr (t, encoding));
          fallback = (case gbk raw of None \<Rightarrow> Inl RequirementsDecodeError | Some points \<Rightarrow> text points ''gbk'')
      in if take 3 raw = [239, 187, 191]
         then (case utf8_decode (drop 3 raw) of Some points \<Rightarrow> text points ''utf-8-sig'' | None \<Rightarrow> fallback)
         else (case utf8_decode raw of Some points \<Rightarrow> text points ''utf-8'' | None \<Rightarrow> fallback))"

text \<open>\<open>text.replace("\r\n", "\n").replace("\r", "\n")\<close>\<close>

fun replace_crlf :: "string \<Rightarrow> string" where
  "replace_crlf [] = []"
| "replace_crlf [c] = [c]"
| "replace_crlf (c # d # s) =
     (if c = carriage_return \<and> d = newline then newline # replace_crlf s else c # replace_crlf (d # s))"

definition normalize_newlines :: "string \<Rightarrow> string" where
  "normalize_newlines s = map (\<lambda>c. if c = carriage_return then newline else c) (replace_crlf s)"

definition logical_lines :: "string \<Rightarrow> string list" where
  "logical_lines text =
     (if text = [] then []
      else if last text = newline then butlast (split_on newline text)
      else split_on newline text)"

subsection \<open>The text of one line\<close>

text \<open>The loop of \<open>_find_unquoted\<close>: the open quote, whether the next character is escaped, the previous
  character and the index.\<close>

fun find_unquoted_from ::
  "char \<Rightarrow> bool \<Rightarrow> char option \<Rightarrow> bool \<Rightarrow> char option \<Rightarrow> nat \<Rightarrow> string \<Rightarrow> nat option" where
  "find_unquoted_from target ws quote escaped prev i [] = None"
| "find_unquoted_from target ws quote escaped prev i (c # s) =
     (case quote of
        Some q \<Rightarrow>
          if escaped then find_unquoted_from target ws quote False (Some c) (Suc i) s
          else if c = reverse_solidus then find_unquoted_from target ws quote True (Some c) (Suc i) s
          else if c = q then find_unquoted_from target ws None False (Some c) (Suc i) s
          else find_unquoted_from target ws quote False (Some c) (Suc i) s
      | None \<Rightarrow>
          if c = CHR 0x22 \<or> c = CHR 0x27 then find_unquoted_from target ws (Some c) escaped (Some c) (Suc i) s
          else if c = target \<and> (\<not> ws \<or> prev = Some (CHR '' '') \<or> prev = Some tab_char) then Some i
          else find_unquoted_from target ws None escaped (Some c) (Suc i) s)"

definition find_unquoted :: "string \<Rightarrow> char \<Rightarrow> bool \<Rightarrow> nat option" where
  "find_unquoted text target ws = find_unquoted_from target ws None False None 0 text"

text \<open>\<open>str.casefold\<close> below 256: ASCII and Latin-1 capitals to small letters, sharp s to \<open>ss\<close>.  The micro
  sign folds to a character outside the strings; it stays here, as no text compared with the result
  contains either.\<close>

definition fold_char :: "char \<Rightarrow> string" where
  "fold_char c =
     (if is_upper c then [lower c]
      else if 192 \<le> code c \<and> code c \<le> 222 \<and> code c \<noteq> 215 then [char_of (code c + 32)]
      else if code c = 223 then ''ss'' else [c])"

definition casefold :: "string \<Rightarrow> string" where
  "casefold s = concat (map fold_char s)"

definition reject_unsafe_text :: "string \<Rightarrow> int \<Rightarrow> string \<Rightarrow> parse_error + unit" where
  "reject_unsafe_text text line_no original_text =
     (let requirement_part = rstrip (case find_unquoted text CHR '';'' False of
            None \<Rightarrow> text | Some marker_index \<Rightarrow> take marker_index text);
          lowered = casefold requirement_part;
          unsupported = (\<lambda>message. Inl (UnsupportedRequirementSyntax message line_no original_text))
      in if re_search PIP_ARGUMENT requirement_part
         then unsupported ''pip options and file includes are not supported''
         else if CHR ''@'' \<in> set requirement_part \<or> contains lowered ''://'' \<or> startswith lowered ''file:''
         then unsupported ''direct references and URLs are not supported''
         else if list_ex (contains lowered) VCS_PREFIXES
         then unsupported ''version control references are not supported''
         else if list_ex (startswith requirement_part) [''/'', ''./'', ''../'', ''~/'', [reverse_solidus]]
           \<or> match_at WINDOWS_DRIVE_PATH requirement_part 0 \<noteq> None
           \<or> CHR ''/'' \<in> set requirement_part \<or> reverse_solidus \<in> set requirement_part
           \<or> list_ex (endswith lowered) ARCHIVE_SUFFIXES
         then unsupported ''local paths and package archives are not supported''
         else Inr ())"

definition requirement_text :: "string \<Rightarrow> int \<Rightarrow> parse_error + string option" where
  "requirement_text original_text line_no =
     (if list_ex (\<lambda>c. c \<in> set original_text) UNSUPPORTED_LINE_SEPARATORS
      then Inl (UnsupportedRequirementSyntax
        ''additional line separators recognized by pip are not supported'' line_no original_text)
      else if CHR 0x00 \<in> set original_text
      then Inl (UnsupportedRequirementSyntax ''NUL bytes are not supported'' line_no original_text)
      else let stripped = strip original_text
        in if stripped = [] \<or> startswith stripped ''#'' then Inr None
           else let stripped = (case find_unquoted stripped CHR ''#'' True of
                    None \<Rightarrow> stripped | Some comment_index \<Rightarrow> rstrip (take comment_index stripped))
             in if endswith stripped [reverse_solidus]
                then Inl (UnsupportedRequirementSyntax ''line continuation is not supported'' line_no original_text)
                else if stripped = [] then Inr None
                else (case reject_unsafe_text stripped line_no original_text of
                    Inl e \<Rightarrow> Inl e | Inr _ \<Rightarrow> Inr (Some stripped)))"

definition pip_file_safe :: "string \<Rightarrow> string option" where
  "pip_file_safe line =
     (if re_search PIP_FILE_COMMENT line then Some ''markers that pip interprets as comments are not supported''
      else if list_ex (\<lambda>token. startswith token ''-'') (split_on CHR '' '' line)
      then Some ''markers that pip interprets as options are not supported''
      else if re_search PIP_ENVIRONMENT_VARIABLE line
      then Some ''pip environment variable expansion is not supported''
      else None)"

definition ensure_pip_file_safe :: "string \<Rightarrow> int \<Rightarrow> string \<Rightarrow> parse_error + unit" where
  "ensure_pip_file_safe line line_no original_text = (case pip_file_safe line of
     Some message \<Rightarrow> Inl (UnsupportedRequirementSyntax message line_no original_text)
   | None \<Rightarrow> Inr ())"

subsection \<open>Constraints\<close>

definition sp_key :: "Specifier \<Rightarrow> string \<times> string" where
  "sp_key sp = (sp_operator sp, sp_version sp)"

text \<open>The order of the rendered constraints.  Their versions have been parsed before.\<close>

definition sort_rank :: "('k :: linorder) packaging \<Rightarrow> Specifier \<Rightarrow> nat option \<times> 'k option \<times> string" where
  "sort_rank P sp = (map_of OPERATOR_ORDER (sp_operator sp), map_option v_key (pkg_version P (sp_version sp)), sp_version sp)"

definition deduplicate_specifiers :: "('k :: linorder) packaging \<Rightarrow> Specifier list \<Rightarrow> Specifier list" where
  "deduplicate_specifiers P constraints =
     sort_key (sort_rank P) (map snd (dict_of (map (\<lambda>sp. (sp_key sp, sp)) constraints)))"

text \<open>\<open>SpecifierSet(str(specifier)).contains(v, prereleases=True)\<close>; the text of a specifier is always a
  specifier set.\<close>

definition spec_contains :: "'k packaging \<Rightarrow> Specifier \<Rightarrow> 'k Version \<Rightarrow> bool" where
  "spec_contains P sp v = (case pkg_specifier_set P (sp_str sp) of None \<Rightarrow> False | Some specifiers \<Rightarrow> pkg_contains P specifiers v)"

definition parsed_versions :: "'k packaging \<Rightarrow> string list \<Rightarrow> Specifier list \<Rightarrow> 'k Version list" where
  "parsed_versions P operators constraints =
     List.map_filter (\<lambda>sp. if sp_operator sp \<in> set operators then pkg_version P (sp_version sp) else None) constraints"

definition max_version :: "('k :: linorder) Version \<Rightarrow> 'k Version list \<Rightarrow> 'k Version" where
  "max_version v vs = foldl (\<lambda>m w. if v_key m < v_key w then w else m) v vs"

definition constraints_conflict :: "('k :: linorder) packaging \<Rightarrow> Specifier list \<Rightarrow> bool" where
  "constraints_conflict P constraints =
     (let exact_candidates = parsed_versions P [''==''] constraints
      in if exact_candidates \<noteq> []
         then \<not> list_ex (\<lambda>candidate. list_all (\<lambda>sp. spec_contains P sp candidate) constraints) exact_candidates
         else (case parsed_versions P [''>='', ''~=''] constraints of
             [] \<Rightarrow> False
           | v # vs \<Rightarrow> list_ex (\<lambda>sp. \<not> spec_contains P sp (max_version v vs)) constraints))"

definition format_specifiers :: "Specifier list \<Rightarrow> string" where
  "format_specifiers constraints = join_with '','' (map sp_str constraints)"

definition format_item :: "RequirementItem \<Rightarrow> string" where
  "format_item item =
     it_name item
       @ (if it_extras item = [] then [] else ''['' @ join_with '','' (it_extras item) @ '']'')
       @ it_specifier item
       @ (case it_marker item of None \<Rightarrow> [] | Some m \<Rightarrow> ''; '' @ m)"

fun check_specifiers :: "'k packaging \<Rightarrow> Specifier list \<Rightarrow> int \<Rightarrow> string \<Rightarrow> parse_error + unit" where
  "check_specifiers P [] line_no original_text = Inr ()"
| "check_specifiers P (sp # sps) line_no original_text =
     (if sp_operator sp \<notin> set SUPPORTED_OPERATORS \<or> CHR ''*'' \<in> set (sp_version sp)
      then Inl (UnsupportedRequirementSyntax (''specifier '' @ sp_str sp @ '' is not supported'') line_no original_text)
      else if pkg_version P (sp_version sp) = None
      then Inl (InvalidRequirementError (''invalid version in '' @ sp_str sp) line_no original_text)
      else check_specifiers P sps line_no original_text)"

definition parse_line ::
  "('k :: linorder) packaging \<Rightarrow> string \<Rightarrow> int \<Rightarrow> string \<Rightarrow> parse_error + Requirement \<times> Specifier list" where
  "parse_line P text line_no original_text = (case pkg_requirement P text of
     None \<Rightarrow> Inl (InvalidRequirementError ''invalid PEP 508 requirement'' line_no original_text)
   | Some parsed \<Rightarrow>
       if rq_url parsed \<noteq> None
       then Inl (UnsupportedRequirementSyntax ''direct references and URLs are not supported'' line_no original_text)
       else (case check_specifiers P (rq_specifier parsed) line_no original_text of
           Inl e \<Rightarrow> Inl e
         | Inr _ \<Rightarrow> Inr (parsed, deduplicate_specifiers P (rq_specifier parsed))))"

subsection \<open>The loop over the lines\<close>

type_synonym item_key = "string \<times> string option"

record parsing =
  ps_items :: "RequirementItem list"
  ps_indexes :: "(item_key \<times> nat) list"
  ps_constraints :: "(item_key \<times> Specifier list) list"

definition item_key :: "RequirementItem \<Rightarrow> item_key" where
  "item_key item = (it_name item, it_marker item)"

text \<open>One line up to its own conflict check: nothing, or an item with its constraints.\<close>

definition line_entry ::
  "('k :: linorder) packaging \<Rightarrow> int \<Rightarrow> string \<Rightarrow> parse_error + (RequirementItem \<times> Specifier list) option" where
  "line_entry P line_no original_text = (case requirement_text original_text line_no of
     Inl e \<Rightarrow> Inl e
   | Inr None \<Rightarrow> Inr None
   | Inr (Some text) \<Rightarrow> (case parse_line P text line_no original_text of
       Inl e \<Rightarrow> Inl e
     | Inr (parsed, constraints) \<Rightarrow>
         let item = \<lparr>it_line_no = line_no, it_name = pkg_canonicalize P (rq_name parsed),
               it_extras = sort (map (pkg_canonicalize P) (rq_extras parsed)),
               it_specifier = format_specifiers constraints, it_marker = rq_marker parsed,
               it_original_text = original_text\<rparr>
         in case ensure_pip_file_safe (format_item item) line_no original_text of
              Inl e \<Rightarrow> Inl e
            | Inr _ \<Rightarrow>
                if constraints_conflict P constraints
                then Inl (RequirementConstraintConflictError (it_name item) line_no original_text)
                else Inr (Some (item, constraints))))"

text \<open>The rest of the loop body: a new item, or the merge with the item of the same key.\<close>

definition merge_entry ::
  "('k :: linorder) packaging \<Rightarrow> RequirementItem \<Rightarrow> Specifier list \<Rightarrow> parsing \<Rightarrow> parse_error + parsing" where
  "merge_entry P item constraints st =
     (let key = item_key item
      in case map_of (ps_indexes st) key of
           None \<Rightarrow> Inr \<lparr>ps_items = ps_items st @ [item],
               ps_indexes = dict_put key (length (ps_items st)) (ps_indexes st),
               ps_constraints = dict_put key constraints (ps_constraints st)\<rparr>
         | Some existing_index \<Rightarrow>
             let existing = ps_items st ! existing_index;
                 merged_constraints = deduplicate_specifiers P
                   (coalesce (map_of (ps_constraints st) key) [] @ constraints)
             in if constraints_conflict P merged_constraints
                then Inl (DuplicateRequirementConflictError (it_name item) (it_line_no item) (it_original_text item)
                  (it_line_no existing))
                else Inr (st\<lparr>ps_constraints := dict_put key merged_constraints (ps_constraints st),
                    ps_items := (ps_items st)[existing_index :=
                      existing\<lparr>it_extras := sort (remdups (it_extras existing @ it_extras item)),
                        it_specifier := format_specifiers merged_constraints\<rparr>]\<rparr>))"

fun parse_lines :: "('k :: linorder) packaging \<Rightarrow> int \<Rightarrow> string list \<Rightarrow> parsing \<Rightarrow> parse_error + parsing" where
  "parse_lines P line_no [] st = Inr st"
| "parse_lines P line_no (original_text # lines) st = (case line_entry P line_no original_text of
     Inl e \<Rightarrow> Inl e
   | Inr None \<Rightarrow> parse_lines P (line_no + 1) lines st
   | Inr (Some (item, constraints)) \<Rightarrow> (case merge_entry P item constraints st of
       Inl e \<Rightarrow> Inl e
     | Inr st' \<Rightarrow> parse_lines P (line_no + 1) lines st'))"

fun ensure_items_safe :: "RequirementItem list \<Rightarrow> parse_error + unit" where
  "ensure_items_safe [] = Inr ()"
| "ensure_items_safe (item # items) =
     (case ensure_pip_file_safe (format_item item) (it_line_no item) (it_original_text item) of
        Inl e \<Rightarrow> Inl e
      | Inr _ \<Rightarrow> ensure_items_safe items)"

definition parse_requirements ::
  "('k :: linorder) packaging \<Rightarrow> (nat list \<Rightarrow> nat list option) \<Rightarrow> nat list \<Rightarrow> parse_error + ParsedRequirements" where
  "parse_requirements P gbk raw =
     (if MAX_INPUT_BYTES < length raw then Inl (InputTooLargeError (length raw) MAX_INPUT_BYTES)
      else case decode_requirements gbk raw of
        Inl e \<Rightarrow> Inl e
      | Inr (text, encoding) \<Rightarrow>
          let lines = logical_lines (normalize_newlines text)
          in if MAX_LOGICAL_LINES < length lines then Inl (TooManyLinesError (length lines) MAX_LOGICAL_LINES)
             else case parse_lines P 1 lines \<lparr>ps_items = [], ps_indexes = [], ps_constraints = []\<rparr> of
               Inl e \<Rightarrow> Inl e
             | Inr st \<Rightarrow> (case ensure_items_safe (ps_items st) of
                 Inl e \<Rightarrow> Inl e
               | Inr _ \<Rightarrow> Inr \<lparr>pr_normalized_text = join_with [newline] (map format_item (ps_items st)) @ [newline],
                     pr_items = ps_items st, pr_encoding = encoding\<rparr>))"

end
