(* ===== verification/Compatible.thy ===== *)
theory Compatible
  imports Observations Requirements
begin

section \<open>The compatible resolver (\<open>resolver/compatible.py\<close>)\<close>

text \<open>
  The bounded search for a set of compatible versions.  Its collaborators are parameters of the model: the
  clock (the reading of each call, in microseconds), the strict resolver and the candidate provider, whose
  answers may depend on the number of the call.  The mutable objects of one \<open>resolve\<close> are the record
  \<open>search\<close>; a step returns an exception or a value with the new state.
\<close>

datatype raised =
    InvalidSpecifier | InvalidVersion | UnsafeRebuild string | ParseRaised parse_error
  | StrictRaised string | ValueRaised string

datatype exit = StopResolution CompatibilityFailureCode | Raised raised

text \<open>What one call of the strict resolver does: return a result, raise a \<open>ResolverError\<close> (its type name and
  message), or raise something else.\<close>

datatype 'k strict_outcome = StrictResult "'k ResolutionResult" | ResolverError string string | StrictOther string

record 'k resolver =
  rs_packaging :: "'k packaging"
  rs_gbk :: "nat list \<Rightarrow> nat list option"
  rs_clock :: "nat \<Rightarrow> time"
  rs_strict :: "nat \<Rightarrow> ParsedRequirements \<Rightarrow> TargetProfile \<Rightarrow> string \<Rightarrow> 'k strict_outcome"
  rs_candidates :: "nat \<Rightarrow> string \<Rightarrow> PackageSource \<Rightarrow> provider_answer"
  rs_candidates_bounded :: "(nat \<Rightarrow> string \<Rightarrow> PackageSource \<Rightarrow> nat \<Rightarrow> provider_answer) option"
  rs_max_observations :: nat
  rs_max_combinations :: nat

definition MAX_RESOLUTION_COMBINATIONS :: nat where "MAX_RESOLUTION_COMBINATIONS = 10000"

definition STRICT_TIMEOUT_REASON :: string where
  "STRICT_TIMEOUT_REASON = ''strict invocation exceeded compatibility deadline''"

text \<open>The constructor.\<close>

definition make_resolver :: "'k resolver \<Rightarrow> int \<Rightarrow> int \<Rightarrow> 'k resolver option" where
  "make_resolver R max_observations max_combinations =
     (if \<not> (1 \<le> max_observations \<and> max_observations \<le> int MAX_RESOLUTION_OBSERVATIONS) then None
      else if \<not> (1 \<le> max_combinations \<and> max_combinations \<le> int MAX_RESOLUTION_COMBINATIONS) then None
      else Some (R\<lparr>rs_max_observations := nat max_observations, rs_max_combinations := nat max_combinations\<rparr>))"

record CombinationBudget =
  cb_limit :: nat
  cb_visited :: nat

definition reserve_combination :: "CombinationBudget \<Rightarrow> bool \<times> CombinationBudget" where
  "reserve_combination b = (if cb_limit b \<le> cb_visited b then (False, b) else (True, b\<lparr>cb_visited := cb_visited b + 1\<rparr>))"

record 'k search =
  se_ticks :: nat
  se_calls :: nat
  se_attempts :: "'k ResolutionAttempt list"
  se_rejections :: BoundedRejections
  se_observations :: ObservationBudget
  se_combinations :: CombinationBudget
  se_attempted :: "('k Version list \<times> PackageSource) list"

type_synonym ('k, 'a) step = "'k search \<Rightarrow> (exit + 'a) \<times> 'k search"

text \<open>One step after another, and a raised exception.\<close>

definition andthen :: "('k, 'a) step \<Rightarrow> ('a \<Rightarrow> ('k, 'b) step) \<Rightarrow> ('k, 'b) step" where
  "andthen m f st = (case m st of (Inl e, st') \<Rightarrow> (Inl e, st') | (Inr a, st') \<Rightarrow> f a st')"

definition stop :: "CompatibilityFailureCode \<Rightarrow> ('k, 'a) step" where
  "stop c st = (Inl (StopResolution c), st)"

subsection \<open>Pins, selections and rebuilt requirements\<close>

definition exact_specifiers :: "'k packaging \<Rightarrow> RequirementItem \<Rightarrow> Specifier list option" where
  "exact_specifiers P item = map_option (filter (\<lambda>sp. sp_operator sp = ''==''))  (pkg_specifier_set P (it_specifier item))"

fun pins_from :: "'k packaging \<Rightarrow> nat \<Rightarrow> RequirementItem list \<Rightarrow> raised + 'k RelaxablePin list" where
  "pins_from P index [] = Inr []"
| "pins_from P index (item # items) = (case exact_specifiers P item of
     None \<Rightarrow> Inl InvalidSpecifier
   | Some [sp] \<Rightarrow> (case pkg_version P (sp_version sp) of
       None \<Rightarrow> Inl InvalidVersion
     | Some v \<Rightarrow> map_sum id (Cons \<lparr>rp_item_index = index, rp_package = it_name item, rp_original = v\<rparr>)
         (pins_from P (Suc index) items))
   | Some _ \<Rightarrow> pins_from P (Suc index) items)"

definition relaxable_pins :: "'k packaging \<Rightarrow> ParsedRequirements \<Rightarrow> raised + 'k RelaxablePin list" where
  "relaxable_pins P parsed = pins_from P 0 (pr_items parsed)"

definition selections_of :: "'k RelaxablePin list \<Rightarrow> 'k Version list \<Rightarrow> 'k CandidateSelection list" where
  "selections_of pins versions = map (\<lambda>(pin, v). \<lparr>cs_package = rp_package pin, cs_version = v\<rparr>) (zip pins versions)"

text \<open>The item with another specifier text, and the loop over its components.\<close>

definition format_with :: "RequirementItem \<Rightarrow> string \<Rightarrow> string" where
  "format_with item specifier =
     it_name item
       @ (if it_extras item = [] then [] else ''['' @ join_with '','' (it_extras item) @ '']'')
       @ specifier
       @ (case it_marker item of None \<Rightarrow> [] | Some m \<Rightarrow> ''; '' @ m)"

fun rebuilt_components :: "'k packaging \<Rightarrow> 'k Version \<Rightarrow> string list \<Rightarrow> raised + string list" where
  "rebuilt_components P version [] = Inr []"
| "rebuilt_components P version (component # components) = (case pkg_specifier P component of
     None \<Rightarrow> Inl InvalidSpecifier
   | Some sp \<Rightarrow> map_sum id (Cons (if sp_operator sp = ''=='' then ''=='' @ v_str version else component))
       (rebuilt_components P version components))"

fun rebuilt_lines ::
  "'k packaging \<Rightarrow> (nat \<times> 'k Version) list \<Rightarrow> nat \<Rightarrow> RequirementItem list \<Rightarrow> raised + string list" where
  "rebuilt_lines P replacements index [] = Inr []"
| "rebuilt_lines P replacements index (item # items) = (case map_of replacements index of
     None \<Rightarrow> map_sum id (Cons (format_with item (it_specifier item))) (rebuilt_lines P replacements (Suc index) items)
   | Some version \<Rightarrow> (case rebuilt_components P version (split_on CHR '','' (it_specifier item)) of
       Inl e \<Rightarrow> Inl e
     | Inr components \<Rightarrow>
         let line = format_with item (join_with '','' components)
         in case pkg_requirement P line of
              None \<Rightarrow> Inl (UnsafeRebuild ''candidate requirement could not be rebuilt safely'')
            | Some rebuilt \<Rightarrow>
                if rq_url rebuilt \<noteq> None then Inl (UnsafeRebuild ''candidate requirement must not contain a URL'')
                else map_sum id (Cons line) (rebuilt_lines P replacements (Suc index) items)))"

definition rebuild_requirements ::
  "('k :: linorder) resolver \<Rightarrow> ParsedRequirements \<Rightarrow> 'k RelaxablePin list \<Rightarrow> 'k Version list \<Rightarrow> raised + ParsedRequirements"
where
  "rebuild_requirements R original pins versions =
     (case rebuilt_lines (rs_packaging R) (zip (map rp_item_index pins) versions) 0 (pr_items original) of
        Inl e \<Rightarrow> Inl e
      | Inr lines \<Rightarrow> map_sum ParseRaised id (parse_requirements (rs_packaging R) (rs_gbk R)
          (utf8_encode (join_with [newline] lines @ [newline]))))"

subsection \<open>Results and failures\<close>

definition exact_version :: "'k packaging \<Rightarrow> RequirementItem \<Rightarrow> 'k Version option" where
  "exact_version P item = (case exact_specifiers P item of
     Some [sp] \<Rightarrow> pkg_version P (sp_version sp)
   | _ \<Rightarrow> None)"

text \<open>A later package of the same name replaces an earlier one in the dictionary.\<close>

definition resolved_version :: "'k ResolutionResult \<Rightarrow> string \<Rightarrow> 'k Version option" where
  "resolved_version result name = map_of (dict_of (map (\<lambda>p. (pk_name p, pk_version p)) (rr_packages result))) name"

definition version_change ::
  "('k :: linorder) packaging \<Rightarrow> 'k ResolutionResult \<Rightarrow> PackageSource \<Rightarrow> RequirementItem \<Rightarrow> 'k VersionChange" where
  "version_change P result source item =
     (let original_version = exact_version P item;
          resolved = resolved_version result (it_name item);
          (kind, reason) = (case resolved of
              None \<Rightarrow> (UNRESOLVED, ''direct requirement is inactive or absent from the strict result'')
            | Some v \<Rightarrow> (case original_version of
                None \<Rightarrow> (UNCHANGED, ''original non-exact constraint was preserved'')
              | Some w \<Rightarrow>
                  if v_key w < v_key v then (UPGRADE, ''strict full-graph resolution selected a higher compatible version'')
                  else if v_key v < v_key w
                  then (DOWNGRADE, ''strict full-graph resolution selected a lower compatible version'')
                  else (UNCHANGED, ''strict full-graph resolution retained the original version'')))
      in \<lparr>vc_package = it_name item, vc_kind = kind, vc_original_constraint = it_specifier item,
           vc_original_version = original_version, vc_resolved_version = resolved, vc_reason = reason,
           vc_source = Some source\<rparr>)"

definition version_changes ::
  "('k :: linorder) packaging \<Rightarrow> ParsedRequirements \<Rightarrow> 'k ResolutionResult \<Rightarrow> PackageSource \<Rightarrow> 'k VersionChange list" where
  "version_changes P original result source = map (version_change P result source) (pr_items original)"

definition successful_result ::
  "('k :: linorder) resolver \<Rightarrow> 'k ResolutionResult \<Rightarrow> ParsedRequirements \<Rightarrow> PackageSource \<Rightarrow> 'k search \<Rightarrow>
     'k ResolutionResult" where
  "successful_result R result baseline source st = result\<lparr>
     rr_attempts := se_attempts st, rr_rejections := br_items (se_rejections st),
     rr_changes := version_changes (rs_packaging R) baseline result source, rr_source := Some source,
     rr_rejections_omitted := rr_rejections_omitted result + int (br_omitted (se_rejections st)),
     rr_observations_truncated := rr_observations_truncated result \<or> bu_truncated (se_observations st)\<rparr>"

record 'k CompatibilityResolutionError =
  ce_code :: CompatibilityFailureCode
  ce_attempts :: "'k ResolutionAttempt list"
  ce_rejections :: "CandidateRejection list"
  ce_changes :: "'k VersionChange list"
  ce_rejections_omitted :: nat
  ce_observations_truncated :: bool

definition resolution_failure ::
  "('k :: linorder) resolver \<Rightarrow> CompatibilityFailureCode \<Rightarrow> ParsedRequirements \<Rightarrow> 'k search \<Rightarrow>
     'k CompatibilityResolutionError" where
  "resolution_failure R failure parsed st = \<lparr>ce_code = failure, ce_attempts = se_attempts st,
     ce_rejections = br_items (se_rejections st),
     ce_changes = map (\<lambda>item. \<lparr>vc_package = it_name item, vc_kind = UNRESOLVED,
        vc_original_constraint = it_specifier item, vc_original_version = exact_version (rs_packaging R) item,
        vc_resolved_version = None, vc_reason = ''no bounded strict full-graph attempt resolved this requirement'',
        vc_source = None\<rparr>) (pr_items parsed),
     ce_rejections_omitted = br_omitted (se_rejections st),
     ce_observations_truncated = bu_truncated (se_observations st)\<rparr>"

subsection \<open>The clock and the attempts\<close>

definition clock :: "'k resolver \<Rightarrow> ('k, time) step" where
  "clock R st = (Inr (rs_clock R (se_ticks st)), st\<lparr>se_ticks := se_ticks st + 1\<rparr>)"

definition check_deadline :: "'k resolver \<Rightarrow> time \<Rightarrow> ResolveLimits \<Rightarrow> ('k, unit) step" where
  "check_deadline R started limits = andthen (clock R) (\<lambda>now.
     if lim_timeout limits \<le> now - started then stop TIMEOUT else Pair (Inr ()))"

definition guard :: "'k resolver \<Rightarrow> time \<Rightarrow> ResolveLimits \<Rightarrow> ('k, unit) step" where
  "guard R started limits = andthen (check_deadline R started limits) (\<lambda>_ st.
     if lim_max_resolution_attempts limits \<le> int (length (se_attempts st)) then stop ATTEMPT_LIMIT st else (Inr (), st))"

definition add_attempt ::
  "'k CandidateSelection list \<Rightarrow> PackageSource \<Rightarrow> CompatibilityFailureCode option \<Rightarrow> string \<Rightarrow> 'k search \<Rightarrow> 'k search" where
  "add_attempt selections source failure reason st = st\<lparr>se_attempts := se_attempts st @
     [\<lparr>ra_selections = selections, ra_source = source, ra_failure = failure, ra_reason = reason\<rparr>]\<rparr>"

definition record_timeout_attempt_if_expired ::
  "'k resolver \<Rightarrow> time \<Rightarrow> ResolveLimits \<Rightarrow> 'k CandidateSelection list \<Rightarrow> PackageSource \<Rightarrow> ('k, unit) step" where
  "record_timeout_attempt_if_expired R started limits selections source = andthen (clock R) (\<lambda>now st.
     if now - started < lim_timeout limits then (Inr (), st)
     else stop TIMEOUT (add_attempt selections source (Some TIMEOUT) STRICT_TIMEOUT_REASON st))"

definition attempt ::
  "'k resolver \<Rightarrow> ParsedRequirements \<Rightarrow> TargetProfile \<Rightarrow> PackageSource \<Rightarrow> 'k CandidateSelection list \<Rightarrow> time \<Rightarrow>
     ResolveLimits \<Rightarrow> ('k, 'k ResolutionResult option) step" where
  "attempt R parsed profile source selections started limits st =
     (let outcome = rs_strict R (se_calls st) parsed profile (source_value source);
          st = st\<lparr>se_calls := se_calls st + 1\<rparr>;
          expired = record_timeout_attempt_if_expired R started limits selections source
      in case outcome of
           StrictOther e \<Rightarrow> (Inl (Raised (StrictRaised e)), st)
         | ResolverError name message \<Rightarrow> andthen expired (\<lambda>_ st. (Inr None,
             add_attempt selections source (Some STRICT_RESOLUTION) (name @ '': '' @ take 1024 message) st)) st
         | StrictResult result \<Rightarrow> andthen expired (\<lambda>_ st. (Inr (Some result),
             add_attempt selections source None ''strict graph resolved'' st)) st)"

text \<open>The first loop: the original requirements at each source.\<close>

fun attempt_originals ::
  "('k :: linorder) resolver \<Rightarrow> ParsedRequirements \<Rightarrow> TargetProfile \<Rightarrow> 'k CandidateSelection list \<Rightarrow> time \<Rightarrow> ResolveLimits \<Rightarrow>
     PackageSource list \<Rightarrow> ('k, 'k ResolutionResult option) step" where
  "attempt_originals R parsed profile selections started limits [] st = (Inr None, st)"
| "attempt_originals R parsed profile selections started limits (source # sources) st =
     andthen (guard R started limits) (\<lambda>_.
       andthen (attempt R parsed profile source selections started limits) (\<lambda>result st. case result of
           Some r \<Rightarrow> (Inr (Some (successful_result R r parsed source st)), st)
         | None \<Rightarrow> attempt_originals R parsed profile selections started limits sources st)) st"

subsection \<open>Discovering candidates\<close>

definition provider_releases :: "'k resolver \<Rightarrow> 'k RelaxablePin \<Rightarrow> PackageSource \<Rightarrow> 'k search \<Rightarrow> provider_answer" where
  "provider_releases R pin source st = (case rs_candidates_bounded R of
     Some bounded \<Rightarrow> bounded (se_calls st) (rp_package pin) source (observations_remaining (se_observations st))
   | None \<Rightarrow> rs_candidates R (se_calls st) (rp_package pin) source)"

text \<open>Asking the provider for the releases of a pin at one source; whatever it raises is a rejection.\<close>

definition ask_provider :: "'k resolver \<Rightarrow> 'k RelaxablePin \<Rightarrow> PackageSource \<Rightarrow> 'k search \<Rightarrow> 'k Observation list \<times> 'k search" where
  "ask_provider R pin source st =
     (let releases = provider_releases R pin source st;
          (found, rejections, budget) = bounded_observations (rs_packaging R) (rp_package pin) source releases
            (se_rejections st) (se_observations st);
          st = st\<lparr>se_calls := se_calls st + 1, se_rejections := rejections, se_observations := budget\<rparr>
      in case found of
           Inr observations \<Rightarrow> (observations, st)
         | Inl error \<Rightarrow> ([], st\<lparr>se_rejections := reject (rp_package pin) [] source MALFORMED_PROVIDER_DATA
             (''candidate provider failed: '' @ error) (se_rejections st)\<rparr>))"

definition truncate_observations :: "'k search \<Rightarrow> 'k search" where
  "truncate_observations st = st\<lparr>se_observations := (se_observations st)\<lparr>bu_truncated := True\<rparr>\<rparr>"

definition options_step ::
  "('k :: linorder) resolver \<Rightarrow> 'k RelaxablePin \<Rightarrow> TargetProfile \<Rightarrow> PackageSource list \<Rightarrow> ResolveLimits \<Rightarrow>
     'k Observation list \<Rightarrow> 'k search \<Rightarrow> 'k CandidateOptions \<times> 'k search" where
  "options_step R pin profile sources limits observations st =
     (let (options, r) = candidate_options_for_observations (rs_packaging R) pin profile sources limits observations
            (se_rejections st)
      in (options, st\<lparr>se_rejections := r\<rparr>))"

text \<open>The loop over the sources still to ask, with the observations so far.\<close>

fun discover_from ::
  "('k :: linorder) resolver \<Rightarrow> 'k RelaxablePin \<Rightarrow> TargetProfile \<Rightarrow> PackageSource list \<Rightarrow> ResolveLimits \<Rightarrow> time \<Rightarrow>
     PackageSource list \<Rightarrow> 'k Observation list \<Rightarrow> ('k, 'k CandidateOptions \<times> bool) step" where
  "discover_from R pin profile sources limits started [] observations st =
     (let (options, st) = options_step R pin profile sources limits observations st
      in (Inr (options, bu_truncated (se_observations st)), st))"
| "discover_from R pin profile sources limits started (source # rest) observations st =
     andthen (guard R started limits) (\<lambda>_ st.
       if observations_remaining (se_observations st) = 0 then stop RESOURCE_LIMIT (truncate_observations st)
       else let (found, st) = ask_provider R pin source st; observations = observations @ found
         in if observations_remaining (se_observations st) = 0 \<and> rest \<noteq> []
            then let (options, st) = options_step R pin profile sources limits observations (truncate_observations st)
              in (Inr (options, True), st)
            else discover_from R pin profile sources limits started rest observations st) st"

definition discover_candidates ::
  "('k :: linorder) resolver \<Rightarrow> 'k RelaxablePin \<Rightarrow> TargetProfile \<Rightarrow> PackageSource list \<Rightarrow> ResolveLimits \<Rightarrow> time \<Rightarrow>
     ('k, 'k CandidateOptions \<times> bool) step" where
  "discover_candidates R pin profile sources limits started =
     discover_from R pin profile sources limits started sources []"

subsection \<open>The frontier\<close>

definition source_supports_substitutions ::
  "PackageSource \<Rightarrow> 'k RelaxablePin list \<Rightarrow> 'k Version list \<Rightarrow> 'k CandidateOptions list \<Rightarrow> bool" where
  "source_supports_substitutions source pins versions options \<longleftrightarrow>
     list_all (\<lambda>(pin, version, candidate_options).
       same_version version (rp_original pin) \<or> supports candidate_options version source)
       (zip pins (zip versions options))"

definition same_attempt :: "'k Version list \<times> PackageSource \<Rightarrow> 'k Version list \<times> PackageSource \<Rightarrow> bool" where
  "same_attempt a b \<longleftrightarrow> map v_key (fst a) = map v_key (fst b) \<and> snd a = snd b"

definition attempted :: "'k search \<Rightarrow> 'k Version list \<times> PackageSource \<Rightarrow> bool" where
  "attempted st key \<longleftrightarrow> list_ex (same_attempt key) (se_attempted st)"

fun viable_sources ::
  "'k resolver \<Rightarrow> time \<Rightarrow> ResolveLimits \<Rightarrow> 'k RelaxablePin list \<Rightarrow> 'k CandidateOptions list \<Rightarrow> 'k Version list \<Rightarrow>
     PackageSource list \<Rightarrow> ('k, PackageSource list) step" where
  "viable_sources R started limits pins options versions [] st = (Inr [], st)"
| "viable_sources R started limits pins options versions (source # sources) st =
     andthen (guard R started limits) (\<lambda>_ st.
       andthen (viable_sources R started limits pins options versions sources) (\<lambda>viable st'.
         (Inr (if \<not> attempted st (versions, source) \<and> source_supports_substitutions source pins versions options
           then source # viable else viable), st')) st) st"

text \<open>The attempts of one combination at its viable sources.\<close>

fun attempt_viable ::
  "('k :: linorder) resolver \<Rightarrow> ParsedRequirements \<Rightarrow> TargetProfile \<Rightarrow> time \<Rightarrow> ResolveLimits \<Rightarrow> 'k Version list \<Rightarrow>
     ParsedRequirements \<Rightarrow> 'k CandidateSelection list \<Rightarrow> PackageSource list \<Rightarrow> ('k, 'k ResolutionResult option) step" where
  "attempt_viable R parsed profile started limits versions candidate_parsed selections [] st = (Inr None, st)"
| "attempt_viable R parsed profile started limits versions candidate_parsed selections (source # sources) st =
     andthen (guard R started limits) (\<lambda>_.
       andthen (attempt R candidate_parsed profile source selections started limits) (\<lambda>result st. case result of
           Some r \<Rightarrow> (Inr (Some (successful_result R r parsed source st)), st)
         | None \<Rightarrow> attempt_viable R parsed profile started limits versions candidate_parsed selections sources st))
       (st\<lparr>se_attempted := se_attempted st @ [(versions, source)]\<rparr>)"

definition combination_step ::
  "('k :: linorder) resolver \<Rightarrow> ParsedRequirements \<Rightarrow> TargetProfile \<Rightarrow> PackageSource list \<Rightarrow> 'k RelaxablePin list \<Rightarrow>
     'k CandidateOptions list \<Rightarrow> time \<Rightarrow> ResolveLimits \<Rightarrow> 'k Version list \<Rightarrow> ('k, 'k ResolutionResult option) step" where
  "combination_step R parsed profile source_order pins options started limits versions =
     andthen (guard R started limits) (\<lambda>_ st.
       let (reserved, budget) = reserve_combination (se_combinations st); st = st\<lparr>se_combinations := budget\<rparr>
       in if \<not> reserved then stop RESOURCE_LIMIT st
          else andthen (viable_sources R started limits pins options versions source_order) (\<lambda>viable st.
            if viable = [] then (Inr None, st)
            else case rebuild_requirements R parsed pins versions of
                Inl e \<Rightarrow> (Inl (Raised e), st)
              | Inr candidate_parsed \<Rightarrow>
                  attempt_viable R parsed profile started limits versions candidate_parsed
                    (selections_of pins versions) viable st) st)"

fun try_combinations ::
  "('k :: linorder) resolver \<Rightarrow> ParsedRequirements \<Rightarrow> TargetProfile \<Rightarrow> PackageSource list \<Rightarrow> 'k RelaxablePin list \<Rightarrow>
     'k CandidateOptions list \<Rightarrow> time \<Rightarrow> ResolveLimits \<Rightarrow> 'k Version list list \<Rightarrow> ('k, 'k ResolutionResult option) step" where
  "try_combinations R parsed profile source_order pins options started limits [] st = (Inr None, st)"
| "try_combinations R parsed profile source_order pins options started limits (versions # combinations) st =
     andthen (combination_step R parsed profile source_order pins options started limits versions) (\<lambda>result st.
       case result of
         Some r \<Rightarrow> (Inr (Some r), st)
       | None \<Rightarrow> try_combinations R parsed profile source_order pins options started limits combinations st) st"

text \<open>\<open>itertools.product\<close> is \<open>product_lists\<close>.  The combinations of a frontier: any known versions before it, a candidate at it, the originals after it.\<close>

definition frontier_combinations ::
  "'k RelaxablePin list \<Rightarrow> 'k CandidateOptions list \<Rightarrow> nat \<Rightarrow> 'k Version list list" where
  "frontier_combinations pins options frontier_index =
     (let prefixes = product_lists (map (\<lambda>(pin, o'). rp_original pin # co_versions o')
            (zip (take frontier_index pins) (take frontier_index options)));
          current_options = co_versions (options ! frontier_index);
          trailing_originals = map rp_original (drop (Suc frontier_index) pins)
      in concat (map (\<lambda>prefix. map (\<lambda>current. prefix @ [current] @ trailing_originals) current_options) prefixes))"

definition attempt_candidate_frontier ::
  "('k :: linorder) resolver \<Rightarrow> ParsedRequirements \<Rightarrow> TargetProfile \<Rightarrow> PackageSource list \<Rightarrow> 'k RelaxablePin list \<Rightarrow>
     'k CandidateOptions list \<Rightarrow> nat \<Rightarrow> time \<Rightarrow> ResolveLimits \<Rightarrow> ('k, 'k ResolutionResult option) step" where
  "attempt_candidate_frontier R parsed profile source_order pins discovered frontier_index started limits =
     (let options = discovered @ replicate (length pins - length discovered) \<lparr>co_versions = [], co_eligible_sources = []\<rparr>
      in try_combinations R parsed profile source_order pins options started limits
           (frontier_combinations pins options frontier_index))"

subsection \<open>The search\<close>

text \<open>The loop over the pins not discovered yet.\<close>

fun search_pins ::
  "('k :: linorder) resolver \<Rightarrow> ParsedRequirements \<Rightarrow> TargetProfile \<Rightarrow> PackageSource list \<Rightarrow> 'k RelaxablePin list \<Rightarrow> time \<Rightarrow>
     ResolveLimits \<Rightarrow> 'k RelaxablePin list \<Rightarrow> 'k CandidateOptions list \<Rightarrow> ('k, 'k ResolutionResult option) step" where
  "search_pins R parsed profile source_order pins started limits [] candidate_options st = (Inr None, st)"
| "search_pins R parsed profile source_order pins started limits (pin # rest) candidate_options st =
     andthen (guard R started limits) (\<lambda>_.
       andthen (discover_candidates R pin profile source_order limits started) (\<lambda>(alternatives, discovery_incomplete).
         andthen (attempt_candidate_frontier R parsed profile source_order pins (candidate_options @ [alternatives])
             (length candidate_options) started limits) (\<lambda>result st.
           if result \<noteq> None then (Inr result, st)
           else if discovery_incomplete \<or> (observations_remaining (se_observations st) = 0 \<and> rest \<noteq> [])
           then stop RESOURCE_LIMIT (truncate_observations st)
           else search_pins R parsed profile source_order pins started limits rest (candidate_options @ [alternatives]) st))) st"

definition start_search :: "'k resolver \<Rightarrow> 'k search" where
  "start_search R = \<lparr>se_ticks = 1, se_calls = 0, se_attempts = [], se_rejections = \<lparr>br_items = [], br_omitted = 0\<rparr>,
     se_observations = \<lparr>bu_limit = rs_max_observations R, bu_accepted = 0, bu_truncated = False\<rparr>,
     se_combinations = \<lparr>cb_limit = rs_max_combinations R, cb_visited = 0\<rparr>, se_attempted = []\<rparr>"

definition run_search ::
  "('k :: linorder) resolver \<Rightarrow> ParsedRequirements \<Rightarrow> TargetProfile \<Rightarrow> PackageSource list \<Rightarrow> 'k RelaxablePin list \<Rightarrow>
     ResolveLimits \<Rightarrow> ('k, 'k ResolutionResult option) step" where
  "run_search R parsed profile sources pins limits =
     (let started = rs_clock R 0
      in andthen (attempt_originals R parsed profile (selections_of pins (map rp_original pins)) started limits sources)
        (\<lambda>result. if result \<noteq> None then Pair (Inr result)
           else search_pins R parsed profile sources pins started limits pins []))"

datatype 'k resolve_error = Incompatible "'k CompatibilityResolutionError" | ResolveRaised raised

definition resolve ::
  "('k :: linorder) resolver \<Rightarrow> ParsedRequirements \<Rightarrow> TargetProfile \<Rightarrow> PackageSource list \<Rightarrow> ResolveLimits \<Rightarrow>
     'k resolve_error + 'k ResolutionResult" where
  "resolve R parsed profile sources limits =
     (if sources = [] \<or> \<not> distinct sources
      then Inl (ResolveRaised (ValueRaised ''sources must be nonempty unique builtin package source identities''))
      else case relaxable_pins (rs_packaging R) parsed of
        Inl e \<Rightarrow> Inl (ResolveRaised e)
      | Inr pins \<Rightarrow> (case run_search R parsed profile sources pins limits (start_search R) of
          (Inl (StopResolution c), st) \<Rightarrow> Inl (Incompatible (resolution_failure R c parsed st))
        | (Inl (Raised e), st) \<Rightarrow> Inl (ResolveRaised e)
        | (Inr (Some result), st) \<Rightarrow> Inr result
        | (Inr None, st) \<Rightarrow> Inl (Incompatible (resolution_failure R
            (if bu_truncated (se_observations st) then RESOURCE_LIMIT else EXHAUSTED) parsed st))))"

end
