(* ===== verification/SearchBounds.thy ===== *)
theory SearchBounds
  imports Compatible
begin

section \<open>The bounds of the search and what its failures mean\<close>

text \<open>
  Pre- and postconditions of the steps of the search, the invariant of its budgets and the reason behind
  every way a search stops.
\<close>

subsection \<open>Triples\<close>

text \<open>From a state with \<open>P\<close> a step ends normally with \<open>Q\<close> or stops with \<open>E\<close>.\<close>

definition triple ::
  "('k search \<Rightarrow> bool) \<Rightarrow> ('k, 'a) step \<Rightarrow> ('a \<Rightarrow> 'k search \<Rightarrow> bool) \<Rightarrow> (exit \<Rightarrow> 'k search \<Rightarrow> bool) \<Rightarrow> bool" where
  "triple P m Q E \<longleftrightarrow> (\<forall>st. P st \<longrightarrow> (case m st of (Inr a, st') \<Rightarrow> Q a st' | (Inl e, st') \<Rightarrow> E e st'))"

lemma triple_andthen:
  assumes "triple P m Q' E" "\<And>a. triple (Q' a) (f a) Q E"
  shows "triple P (andthen m f) Q E"
  unfolding triple_def
proof (intro allI impI)
  fix st assume "P st"
  obtain x st' where x: "m st = (x, st')" by (cases "m st")
  show "case andthen m f st of (Inr a, st') \<Rightarrow> Q a st' | (Inl e, st') \<Rightarrow> E e st'"
  proof (cases x)
    case (Inl e)
    with assms(1) \<open>P st\<close> x show ?thesis by (auto simp: triple_def andthen_def)
  next
    case (Inr a)
    with assms(1) \<open>P st\<close> x have "Q' a st'" by (auto simp: triple_def)
    with assms(2) x Inr show ?thesis by (auto simp: triple_def andthen_def)
  qed
qed

lemma triple_pre: "triple P' m Q E \<Longrightarrow> (\<And>st. P st \<Longrightarrow> P' st) \<Longrightarrow> triple P m Q E"
  by (auto simp: triple_def)

lemma triple_post:
  assumes "triple P m Q' E'" "\<And>a st. Q' a st \<Longrightarrow> Q a st" "\<And>e st. E' e st \<Longrightarrow> E e st"
  shows "triple P m Q E"
  unfolding triple_def
proof (intro allI impI)
  fix st assume "P st"
  obtain x st' where "m st = (x, st')" by (cases "m st")
  with assms \<open>P st\<close> show "case m st of (Inr a, st') \<Rightarrow> Q a st' | (Inl e, st') \<Rightarrow> E e st'"
    by (cases x) (fastforce simp: triple_def)+
qed

lemma triple_fun: "(\<And>st. f st = g st) \<Longrightarrow> triple P g Q E \<Longrightarrow> triple P f Q E"
  by (simp add: triple_def)

lemma triple_return: "(\<And>st. P st \<Longrightarrow> Q a st) \<Longrightarrow> triple P (Pair (Inr a)) Q E"
  and triple_stop: "(\<And>st. P st \<Longrightarrow> E (StopResolution c) st) \<Longrightarrow> triple P (stop c) Q E"
  by (simp_all add: triple_def stop_def)

lemma tripleD:
  assumes "triple P m Q E" "P st"
  shows "m st = (Inr a, st') \<Longrightarrow> Q a st'" "m st = (Inl e, st') \<Longrightarrow> E e st'"
  using assms by (auto simp: triple_def dest: spec [of _ st])

subsection \<open>The primitive steps\<close>

lemma guard_cases:
  assumes "guard R started limits st = (x, st')"
  obtains (timeout) "x = Inl (StopResolution TIMEOUT)" "lim_timeout limits \<le> rs_clock R (se_ticks st) - started"
      "st' = st\<lparr>se_ticks := se_ticks st + 1\<rparr>"
  | (attempts) "x = Inl (StopResolution ATTEMPT_LIMIT)" "st' = st\<lparr>se_ticks := se_ticks st + 1\<rparr>"
      "lim_max_resolution_attempts limits \<le> int (length (se_attempts st))"
  | (ok) "x = Inr ()" "st' = st\<lparr>se_ticks := se_ticks st + 1\<rparr>"
      "int (length (se_attempts st)) < lim_max_resolution_attempts limits"
  using assms by (auto simp: guard_def check_deadline_def clock_def andthen_def stop_def split: if_splits)

text \<open>What an attempt does: at most one new entry, for its selections and source.\<close>

lemma attempt_cases:
  assumes "attempt R parsed profile source selections started limits st = (x, st')"
  obtains (raises) e where "x = Inl (Raised e)" "st' = st\<lparr>se_calls := se_calls st + 1\<rparr>"
  | (timeout) reason where "x = Inl (StopResolution TIMEOUT)"
      "lim_timeout limits \<le> rs_clock R (se_ticks st) - started"
      "st' = add_attempt selections source (Some TIMEOUT) reason
        (st\<lparr>se_calls := se_calls st + 1, se_ticks := se_ticks st + 1\<rparr>)"
  | (fails) reason where "x = Inr None"
      "st' = add_attempt selections source (Some STRICT_RESOLUTION) reason
        (st\<lparr>se_calls := se_calls st + 1, se_ticks := se_ticks st + 1\<rparr>)"
  | (succeeds) reason r where "x = Inr (Some r)"
      "rs_strict R (se_calls st) parsed profile (source_value source) = StrictResult r"
      "st' = add_attempt selections source None reason (st\<lparr>se_calls := se_calls st + 1, se_ticks := se_ticks st + 1\<rparr>)"
  using assms
  by (simp add: attempt_def Let_def record_timeout_attempt_if_expired_def clock_def andthen_def stop_def
      split: strict_outcome.splits if_splits) (metis linorder_not_less)+

lemma add_attempt_select [simp]:
  "se_attempts (add_attempt selections source failure reason st) = se_attempts st @
     [\<lparr>ra_selections = selections, ra_source = source, ra_failure = failure, ra_reason = reason\<rparr>]"
  "se_ticks (add_attempt selections source failure reason st) = se_ticks st"
  "se_calls (add_attempt selections source failure reason st) = se_calls st"
  "se_rejections (add_attempt selections source failure reason st) = se_rejections st"
  "se_observations (add_attempt selections source failure reason st) = se_observations st"
  "se_combinations (add_attempt selections source failure reason st) = se_combinations st"
  "se_attempted (add_attempt selections source failure reason st) = se_attempted st"
  by (simp_all add: add_attempt_def)

subsection \<open>Rejections and observations stay bounded\<close>

definition few :: "BoundedRejections \<Rightarrow> bool" where
  "few r \<longleftrightarrow> length (br_items r) \<le> MAX_RESOLUTION_REJECTIONS"

lemma few_reject [inv_intros]: "few r \<Longrightarrow> few (reject package version source c reason r)"
  by (simp add: few_def reject_def rejections_append_def)

lemma few_reject_observation [inv_intros]: "few r \<Longrightarrow> few (reject_observation package ob c reason r)"
  by (simp add: reject_observation_def few_reject)

lemma few_observe: "few r \<Longrightarrow> few (snd (observe P package source metadata r))"
  by (simp add: observe_def Let_def few_reject split: option.splits)

lemma few_python: "few r \<Longrightarrow> few (snd (python_compatible P package ob profile r))"
  by (simp add: python_compatible_def Let_def few_reject_observation split: requires_python.splits option.splits)

lemma few_wheel_step: "few r \<Longrightarrow> few (snd (wheel_step P package ob profile f r))"
  by (simp add: wheel_step_def Let_def few_reject_observation split: option.splits)

lemma few_wheel_steps: "few r \<Longrightarrow> few (snd (wheel_steps P package ob profile fs c r))"
proof (induction fs arbitrary: c r)
  case (Cons f fs)
  then show ?case by (simp add: Let_def split_beta few_wheel_step)
qed simp

lemma few_target_wheel: "few r \<Longrightarrow> few (snd (has_target_wheel P package ob profile r))"
  by (simp add: has_target_wheel_def Let_def split_beta few_wheel_steps few_reject_observation split: option.splits)

lemma few_eligible: "few r \<Longrightarrow> few (snd (eligible_observation P pin profile observations ob r))"
  by (simp add: eligible_observation_def Let_def split_beta few_python few_target_wheel few_reject_observation)

lemma few_collect: "few r \<Longrightarrow> few (snd (collect_sources P pin profile observations obs d r))"
proof (induction obs arbitrary: d r)
  case (Cons ob obs)
  then show ?case by (simp add: Let_def split_beta few_eligible)
qed simp

lemma few_omitted: "few r \<Longrightarrow> few (reject_omitted pin sources d versions r)"
proof -
  have step: "few (fold (\<lambda>source r. if source \<in> set (sources_of d version)
      then reject (rp_package pin) (v_str version) source CANDIDATE_LIMIT
        ''candidate omitted by the per-requirement candidate limit'' r else r) sources r)" if "few r" for version r
    using that by (induction sources arbitrary: r) (simp_all add: few_reject)
  show "few r \<Longrightarrow> few (reject_omitted pin sources d versions r)"
    unfolding reject_omitted_def by (induction versions arbitrary: r) (simp_all add: step)
qed

lemma few_options: "few r \<Longrightarrow> few (snd (candidate_options_for_observations P pin profile sources limits observations r))"
  by (simp add: candidate_options_for_observations_def Let_def split_beta few_omitted few_collect)

definition budget_ok :: "ObservationBudget \<Rightarrow> bool" where
  "budget_ok b \<longleftrightarrow> bu_accepted b \<le> bu_limit b"

text \<open>One release of the loop, whatever it is: the bound is reached, the budget is spent, or it is read.\<close>

definition read_event ::
  "'k packaging \<Rightarrow> string \<Rightarrow> PackageSource \<Rightarrow> release_event \<Rightarrow> BoundedRejections \<Rightarrow> 'k Observation option \<times> BoundedRejections"
where
  "read_event P package source event r = (case event of
     Release metadata \<Rightarrow> observe P package source metadata r
   | _ \<Rightarrow> (None, reject package [] source MALFORMED_PROVIDER_DATA ''candidate entry has an invalid type'' r))"

lemma observe_from_cases:
  assumes "observe_from P package source events index r b = (found, r', b')"
  obtains (ends) "found = Inr []" "r' = r" "b' = b"
  | (raises) e where "found = Inl e" "r' = r" "b' = b"
  | (bound) "found = Inr []" "r' = reject package [] source MALFORMED_PROVIDER_DATA
      ''candidate release count exceeds limit 2000'' r" "b' = b"
  | (spent) "found = Inr []" "r' = r" "b' = b\<lparr>bu_truncated := True\<rparr>" "bu_limit b \<le> bu_accepted b"
  | (read) rest where "index < MAX_PROVIDER_RELEASES" "bu_accepted b < bu_limit b"
      "events index \<in> insert NotMetadata (range Release)"
      "observe_from P package source events (Suc index) (snd (read_event P package source (events index) r))
         (b\<lparr>bu_accepted := bu_accepted b + 1\<rparr>) = (rest, r', b')"
      "found = map_sum id (\<lambda>os. (case fst (read_event P package source (events index) r) of
         None \<Rightarrow> [] | Some ob \<Rightarrow> [ob]) @ os) rest"
proof (cases "events index \<in> insert NotMetadata (range Release)")
  case False
  then show ?thesis using assms ends raises
    by (cases "events index") (auto simp: observe_from.simps [of P package source events index])
next
  case True
  define after where "after = observe_from P package source events (Suc index)
    (snd (read_event P package source (events index) r)) (b\<lparr>bu_accepted := bu_accepted b + 1\<rparr>)"
  have "observe_from P package source events index r b =
     (if MAX_PROVIDER_RELEASES \<le> index
      then (Inr [], reject package [] source MALFORMED_PROVIDER_DATA ''candidate release count exceeds limit 2000'' r, b)
      else if bu_limit b \<le> bu_accepted b then (Inr [], r, b\<lparr>bu_truncated := True\<rparr>)
      else (map_sum id (\<lambda>os. (case fst (read_event P package source (events index) r) of
         None \<Rightarrow> [] | Some ob \<Rightarrow> [ob]) @ os) (fst after), snd after))"
    using True by (auto simp: observe_from.simps [of P package source events index] reserve_observation_def after_def
        read_event_def Let_def split_beta)
  moreover obtain rest r1 b1 where "after = (rest, r1, b1)" by (cases after)
  ultimately show ?thesis using assms True bound spent read [of rest] by (simp add: after_def split: if_splits)
qed

lemma few_read_event: "few r \<Longrightarrow> few (snd (read_event P package source event r))"
  by (simp add: read_event_def few_observe few_reject split: release_event.splits)

lemma observe_from_bounds:
  assumes "few r" "budget_ok b" "observe_from P package source events index r b = (found, r', b')"
  shows "few r' \<and> budget_ok b' \<and> bu_limit b' = bu_limit b \<and> bu_accepted b \<le> bu_accepted b' \<and>
    (\<forall>os. found = Inr os \<longrightarrow> length os \<le> bu_accepted b' - bu_accepted b)"
  using assms
proof (induction "MAX_PROVIDER_RELEASES - index" arbitrary: index r b found r' b')
  case 0
  from 0(4) show ?case by (cases rule: observe_from_cases) (use 0 in \<open>auto simp: few_reject budget_ok_def\<close>)
next
  case (Suc n)
  from Suc.prems(3) show ?case
  proof (cases rule: observe_from_cases)
    case (read rest)
    have "n = MAX_PROVIDER_RELEASES - Suc index" using Suc.hyps(2) by simp
    from Suc.hyps(1) [OF this few_read_event [OF Suc.prems(1)] _ read(4)] read(2)
    have "few r' \<and> budget_ok b' \<and> bu_limit b' = bu_limit b \<and> bu_accepted b + 1 \<le> bu_accepted b' \<and>
      (\<forall>os. rest = Inr os \<longrightarrow> length os \<le> bu_accepted b' - (bu_accepted b + 1))" by (simp add: budget_ok_def)
    with read(5) show ?thesis by (cases rest) (auto split: option.splits)
  qed (use Suc.prems in \<open>auto simp: few_reject budget_ok_def\<close>)
qed

lemma bounded_observations_bounds:
  assumes "few r" "budget_ok b" "bounded_observations P package source releases r b = (found, r', b')"
  shows "few r' \<and> budget_ok b' \<and> bu_limit b' = bu_limit b"
  using assms observe_from_bounds [of r b P package source _ 0 found r' b']
  by (auto simp: bounded_observations_def few_reject split: provider_answer.splits)

subsection \<open>The invariant of the budgets\<close>

definition within_budgets :: "'k resolver \<Rightarrow> ResolveLimits \<Rightarrow> 'k search \<Rightarrow> bool" where
  "within_budgets R limits st \<longleftrightarrow>
     int (length (se_attempts st)) \<le> lim_max_resolution_attempts limits \<and>
     few (se_rejections st) \<and> budget_ok (se_observations st) \<and>
     bu_limit (se_observations st) = rs_max_observations R \<and>
     cb_limit (se_combinations st) = rs_max_combinations R \<and>
     cb_visited (se_combinations st) \<le> cb_limit (se_combinations st)"

text \<open>The reason of a stop.\<close>

definition justified :: "'k resolver \<Rightarrow> time \<Rightarrow> ResolveLimits \<Rightarrow> exit \<Rightarrow> 'k search \<Rightarrow> bool" where
  "justified R started limits e st \<longleftrightarrow> (case e of
     Raised _ \<Rightarrow> True
   | StopResolution TIMEOUT \<Rightarrow> (\<exists>t<se_ticks st. lim_timeout limits \<le> rs_clock R t - started)
   | StopResolution ATTEMPT_LIMIT \<Rightarrow> int (length (se_attempts st)) = lim_max_resolution_attempts limits
   | StopResolution RESOURCE_LIMIT \<Rightarrow>
       bu_truncated (se_observations st) \<or> cb_visited (se_combinations st) = rs_max_combinations R
   | StopResolution _ \<Rightarrow> False)"

definition stops :: "'k resolver \<Rightarrow> time \<Rightarrow> ResolveLimits \<Rightarrow> exit \<Rightarrow> 'k search \<Rightarrow> bool" where
  "stops R started limits e st \<longleftrightarrow> within_budgets R limits st \<and> justified R started limits e st"

definition can_attempt :: "'k resolver \<Rightarrow> ResolveLimits \<Rightarrow> 'k search \<Rightarrow> bool" where
  "can_attempt R limits st \<longleftrightarrow> within_budgets R limits st \<and>
     int (length (se_attempts st)) < lim_max_resolution_attempts limits"

text \<open>A step that stays within the budgets and stops for a reason.\<close>

definition bounded :: "'k resolver \<Rightarrow> time \<Rightarrow> ResolveLimits \<Rightarrow> ('k, 'a) step \<Rightarrow> bool" where
  "bounded R started limits m \<longleftrightarrow> triple (within_budgets R limits) m (\<lambda>_. within_budgets R limits) (stops R started limits)"

named_theorems bounded_intros \<open>steps that stay within the budgets\<close>

lemma triple_cases:
  "(\<And>st x st'. P st \<Longrightarrow> m st = (x, st') \<Longrightarrow> (case x of Inr a \<Rightarrow> Q a st' | Inl e \<Rightarrow> E e st')) \<Longrightarrow> triple P m Q E"
  by (auto simp: triple_def split: prod.splits sum.splits)

lemma within_update [simp]:
  "within_budgets R limits (st\<lparr>se_ticks := t\<rparr>) = within_budgets R limits st"
  "within_budgets R limits (st\<lparr>se_calls := c\<rparr>) = within_budgets R limits st"
  "within_budgets R limits (st\<lparr>se_attempted := as\<rparr>) = within_budgets R limits st"
  by (simp_all add: within_budgets_def)

lemma guard_triple: "triple (within_budgets R limits) (guard R started limits) (\<lambda>_. can_attempt R limits) (stops R started limits)"
proof (rule triple_cases)
  fix st x st' assume w: "within_budgets R limits st" and g: "guard R started limits st = (x, st')"
  from g show "case x of Inr a \<Rightarrow> can_attempt R limits st' | Inl e \<Rightarrow> stops R started limits e st'"
    by (cases rule: guard_cases) (use w in \<open>auto simp: stops_def justified_def can_attempt_def within_budgets_def\<close>)
qed

lemma bounded_guard [bounded_intros]: "bounded R started limits (guard R started limits)"
  unfolding bounded_def by (rule triple_post [OF guard_triple]) (simp_all add: can_attempt_def)

lemma attempt_triple:
  "triple (can_attempt R limits) (attempt R parsed profile source selections started limits) (\<lambda>_. within_budgets R limits)
     (stops R started limits)"
proof (rule triple_cases)
  fix st x st' assume w: "can_attempt R limits st"
    and g: "attempt R parsed profile source selections started limits st = (x, st')"
  from g show "case x of Inr a \<Rightarrow> within_budgets R limits st' | Inl e \<Rightarrow> stops R started limits e st'"
    by (cases rule: attempt_cases)
      (use w in \<open>auto simp: stops_def justified_def can_attempt_def within_budgets_def\<close>)
qed

lemma guarded_attempt:
  "(\<And>a. bounded R started limits (f a)) \<Longrightarrow> bounded R started limits (andthen (guard R started limits) (\<lambda>_.
     andthen (attempt R parsed profile source selections started limits) f))"
  unfolding bounded_def by (rule triple_andthen [OF guard_triple triple_andthen [OF attempt_triple]])

lemma bounded_andthen [bounded_intros]:
  "bounded R started limits m \<Longrightarrow> (\<And>a. bounded R started limits (f a)) \<Longrightarrow> bounded R started limits (andthen m f)"
  unfolding bounded_def by (rule triple_andthen)

lemma bounded_pure [bounded_intros]:
  "bounded R started limits (\<lambda>st. (Inr (f st), st))" "bounded R started limits (\<lambda>st. (Inl (Raised e), st))"
  by (simp_all add: bounded_def triple_def stops_def justified_def)

lemma bounded_if [bounded_intros]:
  "bounded R started limits m \<Longrightarrow> bounded R started limits m' \<Longrightarrow> bounded R started limits (\<lambda>st. if b then m st else m' st)"
  by (cases b) simp_all

lemma bounded_option:
  assumes "bounded R started limits m" "\<And>a. bounded R started limits (m' a)"
  shows "bounded R started limits (\<lambda>st. case o' of None \<Rightarrow> m st | Some a \<Rightarrow> m' a st)"
  using assms by (cases o') simp_all

lemma bounded_originals: "bounded R started limits (attempt_originals R parsed profile selections started limits sources)"
proof (induction sources)
  case Nil
  then show ?case using bounded_pure(1) [of R started limits "\<lambda>_. None"]
    by (simp add: bounded_def triple_def)
next
  case (Cons source sources)
  have "attempt_originals R parsed profile selections started limits (source # sources) =
     andthen (guard R started limits) (\<lambda>_.
       andthen (attempt R parsed profile source selections started limits) (\<lambda>result st. case result of
         None \<Rightarrow> attempt_originals R parsed profile selections started limits sources st
       | Some r \<Rightarrow> (Inr (Some (successful_result R r parsed source st)), st)))"
    by (rule ext) simp
  then show ?case by (simp only:) (intro guarded_attempt bounded_option Cons bounded_pure)
qed

lemma bounded_dep: "(\<And>s. bounded R started limits (m s)) \<Longrightarrow> bounded R started limits (\<lambda>st. m st st)"
  by (simp add: bounded_def triple_def)

lemma bounded_update:
  "(\<And>st. within_budgets R limits st \<Longrightarrow> within_budgets R limits (h st)) \<Longrightarrow> bounded R started limits m \<Longrightarrow>
     bounded R started limits (\<lambda>st. m (h st))"
  by (simp add: bounded_def triple_def)

lemma bounded_viable_sources: "bounded R started limits (viable_sources R started limits pins options versions sources)"
proof (induction sources)
  case Nil
  then show ?case by (simp add: bounded_def triple_def)
next
  case (Cons source sources)
  have "viable_sources R started limits pins options versions (source # sources) =
     andthen (guard R started limits) (\<lambda>_ st.
       andthen (viable_sources R started limits pins options versions sources) (\<lambda>viable st'.
         (Inr (if \<not> attempted st (versions, source) \<and> source_supports_substitutions source pins versions options
           then source # viable else viable), st')) st)"
    by (rule ext) simp
  moreover have "bounded R started limits (andthen (viable_sources R started limits pins options versions sources)
      (\<lambda>viable st'. (Inr (if \<not> attempted s (versions, source) \<and>
         source_supports_substitutions source pins versions options then source # viable else viable), st')))" for s
    by (intro bounded_andthen Cons bounded_pure)
  ultimately show ?case by (simp only:) (rule bounded_andthen [OF bounded_guard bounded_dep])
qed

lemma bounded_attempt_viable:
  "bounded R started limits (attempt_viable R parsed profile started limits versions candidate_parsed selections sources)"
proof (induction sources)
  case Nil
  then show ?case by (simp add: bounded_def triple_def)
next
  case (Cons source sources)
  have "attempt_viable R parsed profile started limits versions candidate_parsed selections (source # sources) = (\<lambda>st.
     andthen (guard R started limits) (\<lambda>_.
       andthen (attempt R candidate_parsed profile source selections started limits) (\<lambda>result st. case result of
           None \<Rightarrow> attempt_viable R parsed profile started limits versions candidate_parsed selections sources st
         | Some r \<Rightarrow> (Inr (Some (successful_result R r parsed source st)), st)))
       (st\<lparr>se_attempted := se_attempted st @ [(versions, source)]\<rparr>))"
    by (rule ext) simp
  moreover have "bounded R started limits (andthen (guard R started limits) (\<lambda>_.
     andthen (attempt R candidate_parsed profile source selections started limits) (\<lambda>result st. case result of
         None \<Rightarrow> attempt_viable R parsed profile started limits versions candidate_parsed selections sources st
       | Some r \<Rightarrow> (Inr (Some (successful_result R r parsed source st)), st))))"
    by (intro guarded_attempt bounded_option Cons bounded_pure)
  ultimately show ?case
    using bounded_update [of R limits "\<lambda>st. st\<lparr>se_attempted := se_attempted st @ [(versions, source)]\<rparr>"] by simp
qed

lemma within_combinations:
  "within_budgets R limits st \<Longrightarrow> reserve_combination (se_combinations st) = (ok, b) \<Longrightarrow>
     within_budgets R limits (st\<lparr>se_combinations := b\<rparr>) \<and> (\<not> ok \<longrightarrow> cb_visited b = rs_max_combinations R)"
  by (auto simp: reserve_combination_def within_budgets_def split: if_splits)

lemma bounded_combination:
  "bounded R started limits (combination_step R parsed profile source_order pins options started limits versions)"
proof -
  let ?rest = "andthen (viable_sources R started limits pins options versions source_order) (\<lambda>viable st.
    if viable = [] then (Inr None, st)
    else case rebuild_requirements R parsed pins versions of
        Inl e \<Rightarrow> (Inl (Raised e), st)
      | Inr candidate_parsed \<Rightarrow>
          attempt_viable R parsed profile started limits versions candidate_parsed (selections_of pins versions) viable st)"
  have rest: "bounded R started limits ?rest"
  proof (intro bounded_andthen bounded_viable_sources bounded_if bounded_pure)
    fix viable
    show "bounded R started limits (\<lambda>st. case rebuild_requirements R parsed pins versions of
        Inl e \<Rightarrow> (Inl (Raised e), st)
      | Inr candidate_parsed \<Rightarrow>
          attempt_viable R parsed profile started limits versions candidate_parsed (selections_of pins versions) viable st)"
      by (cases "rebuild_requirements R parsed pins versions") (simp_all add: bounded_pure bounded_attempt_viable)
  qed
  have "bounded R started limits (\<lambda>st.
      let (reserved, budget) = reserve_combination (se_combinations st); st = st\<lparr>se_combinations := budget\<rparr>
      in if \<not> reserved then stop RESOURCE_LIMIT st else ?rest st)"
    unfolding bounded_def
  proof (rule triple_cases)
    fix st x st'
    assume w: "within_budgets R limits st" and m: "(let (reserved, budget) = reserve_combination (se_combinations st);
      st = st\<lparr>se_combinations := budget\<rparr> in if \<not> reserved then stop RESOURCE_LIMIT st else ?rest st) = (x, st')"
    obtain ok b where b: "reserve_combination (se_combinations st) = (ok, b)" by (cases "reserve_combination (se_combinations st)")
    note w' = within_combinations [OF w b]
    show "case x of Inr a \<Rightarrow> within_budgets R limits st' | Inl e \<Rightarrow> stops R started limits e st'"
    proof (cases ok)
      case True
      with m b have "?rest (st\<lparr>se_combinations := b\<rparr>) = (x, st')" by simp
      then show ?thesis using tripleD [OF rest [unfolded bounded_def], of "st\<lparr>se_combinations := b\<rparr>"] w' by (cases x) auto
    next
      case False
      with m b w' show ?thesis by (auto simp: stop_def stops_def justified_def)
    qed
  qed
  then show ?thesis unfolding combination_step_def by (intro bounded_andthen bounded_guard)
qed

lemma bounded_combinations:
  "bounded R started limits (try_combinations R parsed profile source_order pins options started limits combinations)"
proof (induction combinations)
  case Nil
  then show ?case by (simp add: bounded_def triple_def)
next
  case (Cons versions combinations)
  have "try_combinations R parsed profile source_order pins options started limits (versions # combinations) =
     andthen (combination_step R parsed profile source_order pins options started limits versions) (\<lambda>result st.
       case result of
         None \<Rightarrow> try_combinations R parsed profile source_order pins options started limits combinations st
       | Some r \<Rightarrow> (Inr (Some r), st))"
    by (rule ext) simp
  then show ?case by (simp only:) (intro bounded_andthen bounded_combination bounded_option Cons bounded_pure)
qed

subsection \<open>Discovery within the budgets\<close>

lemma ask_provider_cases:
  assumes "ask_provider R pin source st = (observations, st')"
  obtains found r b where
    "bounded_observations (rs_packaging R) (rp_package pin) source (provider_releases R pin source st)
       (se_rejections st) (se_observations st) = (found, r, b)"
    "observations = (case found of Inl _ \<Rightarrow> [] | Inr os \<Rightarrow> os)"
    "st' = st\<lparr>se_calls := se_calls st + 1, se_observations := b, se_rejections := (case found of
       Inl e \<Rightarrow> reject (rp_package pin) [] source MALFORMED_PROVIDER_DATA (''candidate provider failed: '' @ e) r
     | Inr _ \<Rightarrow> r)\<rparr>"
proof -
  obtain found r b where f: "bounded_observations (rs_packaging R) (rp_package pin) source (provider_releases R pin source st)
       (se_rejections st) (se_observations st) = (found, r, b)" by (metis prod_cases3)
  show thesis by (rule that [OF f])
    (use assms f in \<open>auto simp: ask_provider_def Let_def split: sum.splits\<close>)
qed

lemma within_ask:
  assumes "within_budgets R limits st"
  shows "within_budgets R limits (snd (ask_provider R pin source st))"
proof -
  obtain observations st' where a: "ask_provider R pin source st = (observations, st')"
    by (cases "ask_provider R pin source st")
  then show ?thesis
  proof (cases rule: ask_provider_cases)
    case (1 found r b)
    from assms have "few (se_rejections st)" "budget_ok (se_observations st)" by (simp_all add: within_budgets_def)
    from bounded_observations_bounds [OF this 1(1)] assms show ?thesis
      unfolding a snd_conv 1(3) by (cases found) (simp_all add: within_budgets_def few_reject)
  qed
qed

lemma within_options: "within_budgets R limits st \<Longrightarrow>
    within_budgets R limits (snd (options_step R pin profile sources limits observations st))"
  by (simp add: options_step_def Let_def split_beta within_budgets_def few_options)

lemma within_truncate [simp]: "within_budgets R limits (truncate_observations st) = within_budgets R limits st"
  by (simp add: truncate_observations_def within_budgets_def budget_ok_def)

lemma truncated [simp]: "bu_truncated (se_observations (truncate_observations st))"
  by (simp add: truncate_observations_def)

lemma stops_truncated: "within_budgets R limits st \<Longrightarrow> stops R started limits (StopResolution RESOURCE_LIMIT) (truncate_observations st)"
  by (simp add: stops_def justified_def)

lemma bounded_discover_from:
  "bounded R started limits (discover_from R pin profile sources limits started rest observations)"
proof (induction rest arbitrary: observations)
  case Nil
  show ?case by (simp add: bounded_def triple_def split_beta within_options)
next
  case (Cons source rest)
  let ?body = "\<lambda>st. if observations_remaining (se_observations st) = 0 then stop RESOURCE_LIMIT (truncate_observations st)
       else let (found, st) = ask_provider R pin source st; observations = observations @ found
         in if observations_remaining (se_observations st) = 0 \<and> rest \<noteq> []
            then let (options, st) = options_step R pin profile sources limits observations (truncate_observations st)
              in (Inr (options, True), st)
            else discover_from R pin profile sources limits started rest observations st"
  have "bounded R started limits ?body"
    unfolding bounded_def
  proof (rule triple_cases)
    fix st x st' assume w: "within_budgets R limits st" and m: "?body st = (x, st')"
    obtain found st1 where f: "ask_provider R pin source st = (found, st1)" by (cases "ask_provider R pin source st")
    with within_ask [OF w, of pin source] have w1: "within_budgets R limits st1" by simp
    consider "observations_remaining (se_observations st) = 0"
      | "observations_remaining (se_observations st) \<noteq> 0" "observations_remaining (se_observations st1) = 0 \<and> rest \<noteq> []"
      | "observations_remaining (se_observations st) \<noteq> 0" "\<not> (observations_remaining (se_observations st1) = 0 \<and> rest \<noteq> [])"
      by blast
    then show "case x of Inr a \<Rightarrow> within_budgets R limits st' | Inl e \<Rightarrow> stops R started limits e st'"
    proof cases
      case 1
      with m w show ?thesis by (auto simp: stop_def stops_truncated)
    next
      case 2
      then have "(case options_step R pin profile sources limits (observations @ found) (truncate_observations st1) of
          (options, st) \<Rightarrow> (Inr (options, True), st)) = (x, st')" using m f by simp
      then show ?thesis
        using within_options [of R limits "truncate_observations st1" pin profile sources "observations @ found"] w1
        by (auto split: prod.splits)
    next
      case 3
      then have "discover_from R pin profile sources limits started rest (observations @ found) st1 = (x, st')"
        using m f by (simp add: Let_def split: if_splits)
      then show ?thesis using tripleD [OF Cons [of "observations @ found", unfolded bounded_def] w1] by (cases x) auto
    qed
  qed
  then have "bounded R started limits (andthen (guard R started limits) (\<lambda>_. ?body))"
    by (intro bounded_andthen bounded_guard)
  moreover have "discover_from R pin profile sources limits started (source # rest) observations =
      andthen (guard R started limits) (\<lambda>_. ?body)" by (rule ext) simp
  ultimately show ?case by simp
qed

subsection \<open>The whole search\<close>

lemma bounded_search_pins:
  "bounded R started limits (search_pins R parsed profile source_order pins started limits rest candidate_options)"
proof (induction rest arbitrary: candidate_options)
  case Nil
  then show ?case by (simp add: bounded_def triple_def)
next
  case (Cons pin rest)
  have "bounded R started limits (\<lambda>st.
      if result \<noteq> None then (Inr result, st)
      else if incomplete \<or> (observations_remaining (se_observations st) = 0 \<and> rest \<noteq> [])
      then stop RESOURCE_LIMIT (truncate_observations st)
      else search_pins R parsed profile source_order pins started limits rest options st)" for result incomplete options
    unfolding bounded_def
  proof (rule triple_cases)
    fix st x st' assume w: "within_budgets R limits st" and m: "(if result \<noteq> None then (Inr result, st)
      else if incomplete \<or> (observations_remaining (se_observations st) = 0 \<and> rest \<noteq> [])
      then stop RESOURCE_LIMIT (truncate_observations st)
      else search_pins R parsed profile source_order pins started limits rest options st) = (x, st')"
    with w show "case x of Inr a \<Rightarrow> within_budgets R limits st' | Inl e \<Rightarrow> stops R started limits e st'"
      using tripleD [OF Cons [of options, unfolded bounded_def] w]
      by (cases x) (auto simp: stop_def stops_truncated split: if_splits)
  qed
  then have "bounded R started limits (andthen (guard R started limits) (\<lambda>_.
       andthen (discover_candidates R pin profile source_order limits started) (\<lambda>(alternatives, discovery_incomplete).
         andthen (attempt_candidate_frontier R parsed profile source_order pins (candidate_options @ [alternatives])
             (length candidate_options) started limits) (\<lambda>result st.
           if result \<noteq> None then (Inr result, st)
           else if discovery_incomplete \<or> (observations_remaining (se_observations st) = 0 \<and> rest \<noteq> [])
           then stop RESOURCE_LIMIT (truncate_observations st)
           else search_pins R parsed profile source_order pins started limits rest (candidate_options @ [alternatives]) st))))"
    by (intro bounded_andthen bounded_guard)
      (auto simp: discover_candidates_def attempt_candidate_frontier_def Let_def split_beta
        intro!: bounded_andthen bounded_discover_from bounded_combinations)
  moreover have "search_pins R parsed profile source_order pins started limits (pin # rest) candidate_options =
    andthen (guard R started limits) (\<lambda>_.
       andthen (discover_candidates R pin profile source_order limits started) (\<lambda>(alternatives, discovery_incomplete).
         andthen (attempt_candidate_frontier R parsed profile source_order pins (candidate_options @ [alternatives])
             (length candidate_options) started limits) (\<lambda>result st.
           if result \<noteq> None then (Inr result, st)
           else if discovery_incomplete \<or> (observations_remaining (se_observations st) = 0 \<and> rest \<noteq> [])
           then stop RESOURCE_LIMIT (truncate_observations st)
           else search_pins R parsed profile source_order pins started limits rest (candidate_options @ [alternatives]) st)))"
    by (rule ext) simp
  ultimately show ?case by simp
qed

lemma bounded_run_search:
  "bounded R (rs_clock R 0) limits (run_search R parsed profile sources pins limits)"
proof -
  have "bounded R (rs_clock R 0) limits (if result \<noteq> None then Pair (Inr result)
      else search_pins R parsed profile sources pins (rs_clock R 0) limits pins [])" for result
    using bounded_pure(1) [of R "rs_clock R 0" limits "\<lambda>_. result"]
    by (cases result) (simp_all add: bounded_search_pins)
  then show ?thesis unfolding run_search_def Let_def by (intro bounded_andthen bounded_originals)
qed

lemma start_within: "0 \<le> lim_max_resolution_attempts limits \<Longrightarrow> within_budgets R limits (start_search R)"
  by (simp add: within_budgets_def start_search_def few_def budget_ok_def)

text \<open>The two ways \<open>resolve\<close> ends after its arguments were accepted.\<close>

lemma resolve_cases:
  assumes "resolve R parsed profile sources limits = out" "out \<notin> range (Inl \<circ> ResolveRaised)"
  obtains pins x st where "sources \<noteq> []" "distinct sources" "relaxable_pins (rs_packaging R) parsed = Inr pins"
    "run_search R parsed profile sources pins limits (start_search R) = (x, st)"
    "(\<exists>c. x = Inl (StopResolution c) \<and> out = Inl (Incompatible (resolution_failure R c parsed st))) \<or>
     (\<exists>result. x = Inr (Some result) \<and> out = Inr result) \<or>
     (x = Inr None \<and> out = Inl (Incompatible (resolution_failure R
        (if bu_truncated (se_observations st) then RESOURCE_LIMIT else EXHAUSTED) parsed st)))"
proof -
  have s: "sources \<noteq> [] \<and> distinct sources" using assms by (auto simp: resolve_def split: if_splits)
  obtain pins where pins: "relaxable_pins (rs_packaging R) parsed = Inr pins"
    using assms s by (cases "relaxable_pins (rs_packaging R) parsed") (auto simp: resolve_def)
  obtain x st where run: "run_search R parsed profile sources pins limits (start_search R) = (x, st)"
    by (cases "run_search R parsed profile sources pins limits (start_search R)")
  show thesis
    by (rule that [OF _ _ pins run]) (use assms s pins run in \<open>auto simp: resolve_def split: sum.splits option.splits exit.splits\<close>)
qed

end
