(* ===== verification/OptionFacts.thy ===== *)
theory OptionFacts
  imports SearchBounds
begin

section \<open>What a candidate option stands for\<close>

text \<open>
  The options of a pin against the data the candidate provider reported: every accepted version lies within
  the boundary of the pin, and a source supports it only where it reported a release of that version whose
  Requires-Python admits the target and that has a wheel the target installs.
\<close>

text \<open>A release some call of the provider reported for a package at a source.\<close>

definition reported :: "'k resolver \<Rightarrow> string \<Rightarrow> PackageSource \<Rightarrow> CandidateMetadata \<Rightarrow> bool" where
  "reported R package source metadata \<longleftrightarrow>
     (\<exists>call events i. events i = Release metadata \<and>
       (case rs_candidates_bounded R of
          None \<Rightarrow> rs_candidates R call package source = Releases events
        | Some by_limit \<Rightarrow> \<exists>limit. by_limit call package source limit = Releases events))"

definition python_fits :: "'k packaging \<Rightarrow> TargetProfile \<Rightarrow> CandidateMetadata \<Rightarrow> bool" where
  "python_fits P profile metadata \<longleftrightarrow> cm_requires_python metadata = NoRequires \<or>
     (\<exists>text specifier python. cm_requires_python metadata = RequiresText text \<and>
       pkg_specifier_set P text = Some specifier \<and> pkg_version P (tp_python_full_version profile) = Some python \<and>
       pkg_contains P specifier python)"

definition wheel_fits :: "'k packaging \<Rightarrow> TargetProfile \<Rightarrow> string \<Rightarrow> CandidateMetadata \<Rightarrow> 'k Version \<Rightarrow> bool" where
  "wheel_fits P profile package metadata version \<longleftrightarrow>
     (\<exists>filenames name wheel. cm_wheel_filenames metadata = Some filenames \<and> Some name \<in> set filenames \<and>
       pkg_wheel P name = Some wheel \<and> pkg_canonicalize P (wn_name wheel) = package \<and>
       same_version (wn_version wheel) version \<and> wheel_is_compatible P name profile)"

definition fits_target :: "'k packaging \<Rightarrow> TargetProfile \<Rightarrow> string \<Rightarrow> 'k Observation \<Rightarrow> bool" where
  "fits_target P profile package ob \<longleftrightarrow> python_fits P profile (ob_metadata ob) \<and>
     wheel_fits P profile package (ob_metadata ob) (ob_version ob)"

lemma python_compatible_iff:
  "fst (python_compatible P package ob profile r) \<Longrightarrow> python_fits P profile (ob_metadata ob)"
  by (auto simp: python_compatible_def python_fits_def Let_def split: requires_python.splits option.splits if_splits)

lemma wheel_step_fits:
  "fst (wheel_step P package ob profile f r) \<Longrightarrow> \<exists>name wheel. f = Some name \<and> pkg_wheel P name = Some wheel \<and>
     pkg_canonicalize P (wn_name wheel) = package \<and> same_version (wn_version wheel) (ob_version ob) \<and>
     wheel_is_compatible P name profile"
  by (auto simp: wheel_step_def Let_def split: option.splits if_splits)

lemma wheel_steps_fits:
  "fst (wheel_steps P package ob profile fs c r) \<Longrightarrow> c \<or> (\<exists>f\<in>set fs. \<exists>r. fst (wheel_step P package ob profile f r))"
proof (induction fs arbitrary: c r)
  case (Cons f fs)
  from Cons.prems have "fst (wheel_steps P package ob profile fs (c \<or> fst (wheel_step P package ob profile f r))
      (snd (wheel_step P package ob profile f r)))" by (simp add: Let_def split_beta)
  from Cons.IH [OF this] show ?case by auto
qed simp

lemma has_target_wheel_fits:
  assumes "fst (has_target_wheel P package ob profile r)"
  shows "wheel_fits P profile package (ob_metadata ob) (ob_version ob)"
proof -
  obtain fs where fs: "cm_wheel_filenames (ob_metadata ob) = Some fs" and ok: "fst (wheel_steps P package ob profile fs False r)"
    using assms by (auto simp: has_target_wheel_def Let_def split_beta split: option.splits if_splits)
  obtain f r' where f: "f \<in> set fs" and step: "fst (wheel_step P package ob profile f r')"
    using wheel_steps_fits [OF ok] by blast
  obtain name wheel where "f = Some name" "pkg_wheel P name = Some wheel"
    "pkg_canonicalize P (wn_name wheel) = package" "same_version (wn_version wheel) (ob_version ob)"
    "wheel_is_compatible P name profile" using wheel_step_fits [OF step] by blast
  with fs f show ?thesis unfolding wheel_fits_def by blast
qed

lemma eligible_observation_fits:
  assumes "fst (eligible_observation P pin profile observations ob r)"
  shows "eligible (rp_original pin) (ob_version ob)" "fits_target P profile (rp_package pin) ob"
    "cm_yanked (ob_metadata ob) = Some True \<Longrightarrow> original_is_yanked pin observations (ob_source ob)"
proof -
  have e: "\<not> same_version (ob_version ob) (rp_original pin)"
    "v_is_prerelease (rp_original pin) \<or> \<not> v_is_prerelease (ob_version ob)"
    "within_boundary (rp_original pin) (ob_version ob)"
    "\<not> (cm_yanked (ob_metadata ob) = Some True \<and> \<not> original_is_yanked pin observations (ob_source ob))"
    "fst (python_compatible P (rp_package pin) ob profile r)"
    "fst (has_target_wheel P (rp_package pin) ob profile (snd (python_compatible P (rp_package pin) ob profile r)))"
    using assms by (auto simp: eligible_observation_def Let_def split_beta split: if_splits)
  from e(1-3) show "eligible (rp_original pin) (ob_version ob)" by (auto simp: eligible_def)
  from e(5,6) show "fits_target P profile (rp_package pin) ob"
    unfolding fits_target_def using python_compatible_iff has_target_wheel_fits by blast
  from e(4) show "cm_yanked (ob_metadata ob) = Some True \<Longrightarrow> original_is_yanked pin observations (ob_source ob)" by simp
qed

text \<open>The sources of a version come from observations that pass.\<close>

definition passes :: "'k packaging \<Rightarrow> 'k RelaxablePin \<Rightarrow> TargetProfile \<Rightarrow> 'k Observation list \<Rightarrow> 'k Version \<Rightarrow> PackageSource \<Rightarrow> bool"
where
  "passes P pin profile observations v source \<longleftrightarrow>
     (\<exists>ob\<in>set observations. ob_source ob = source \<and> same_version (ob_version ob) v \<and>
       eligible (rp_original pin) (ob_version ob) \<and> fits_target P profile (rp_package pin) ob \<and>
       (cm_yanked (ob_metadata ob) = Some True \<longrightarrow> original_is_yanked pin observations source))"

lemma add_source_mem:
  "(v, ss) \<in> set (add_source version source d) \<Longrightarrow> s \<in> set ss \<Longrightarrow>
     (\<exists>ss'. (v, ss') \<in> set d \<and> s \<in> set ss') \<or> (s = source \<and> same_version version v)"
  by (induction version source d rule: add_source.induct) (auto simp: same_version_def split: if_splits)

lemma add_source_versions: "fst ` set (add_source version source d) \<subseteq> insert version (fst ` set d)"
  by (induction version source d rule: add_source.induct) auto

lemma collect_sources_pass:
  assumes "\<And>v ss s. (v, ss) \<in> set d \<Longrightarrow> s \<in> set ss \<Longrightarrow> passes P pin profile observations v s"
    and "\<And>v. v \<in> fst ` set d \<Longrightarrow> eligible (rp_original pin) v" and "set obs \<subseteq> set observations"
  shows "(v, ss) \<in> set (fst (collect_sources P pin profile observations obs d r)) \<Longrightarrow> s \<in> set ss \<Longrightarrow>
      passes P pin profile observations v s"
    and "v \<in> fst ` set (fst (collect_sources P pin profile observations obs d r)) \<Longrightarrow> eligible (rp_original pin) v"
proof -
  have "(\<forall>(v, ss)\<in>set (fst (collect_sources P pin profile observations obs d r)). eligible (rp_original pin) v \<and>
      (\<forall>s\<in>set ss. passes P pin profile observations v s))"
    using assms
  proof (induction obs arbitrary: d r)
    case Nil
    then show ?case by (fastforce simp: image_iff)
  next
    case (Cons ob obs)
    let ?e = "eligible_observation P pin profile observations ob r"
    show ?case
    proof (cases "fst ?e")
      case True
      note f = eligible_observation_fits [OF True]
      have p: "passes P pin profile observations v (ob_source ob)" if "same_version (ob_version ob) v" for v
        unfolding passes_def using Cons.prems(3) f that by auto
      have d1: "passes P pin profile observations v s"
        if "(v, ss) \<in> set (add_source (ob_version ob) (ob_source ob) d)" "s \<in> set ss" for v ss s
        using add_source_mem [OF that] p Cons.prems(1) by auto
      have d2: "eligible (rp_original pin) v" if "v \<in> fst ` set (add_source (ob_version ob) (ob_source ob) d)" for v
        using subsetD [OF add_source_versions that] f(1) Cons.prems(2) by auto
      have "set obs \<subseteq> set observations" using Cons.prems(3) by simp
      from Cons.IH [OF d1 d2 this] True show ?thesis by (simp add: Let_def split_beta)
    next
      case False
      have "set obs \<subseteq> set observations" using Cons.prems(3) by simp
      from Cons.IH [OF Cons.prems(1,2) this] False show ?thesis by (simp add: Let_def split_beta)
    qed
  qed
  then show "(v, ss) \<in> set (fst (collect_sources P pin profile observations obs d r)) \<Longrightarrow> s \<in> set ss \<Longrightarrow>
      passes P pin profile observations v s"
    "v \<in> fst ` set (fst (collect_sources P pin profile observations obs d r)) \<Longrightarrow> eligible (rp_original pin) v"
    by auto
qed

subsection \<open>Observations come from reports\<close>

definition observed :: "'k resolver \<Rightarrow> string \<Rightarrow> 'k Observation \<Rightarrow> bool" where
  "observed R package ob \<longleftrightarrow> reported R package (ob_source ob) (ob_metadata ob) \<and>
     (\<exists>text. cm_version (ob_metadata ob) = Some text \<and> pkg_version (rs_packaging R) text = Some (ob_version ob))"

lemma observe_Some:
  "fst (observe P package source metadata r) = Some ob \<Longrightarrow> ob_source ob = source \<and> ob_metadata ob = metadata \<and>
     (\<exists>text. cm_version metadata = Some text \<and> pkg_version P text = Some (ob_version ob))"
  by (auto simp: observe_def Let_def split: option.splits if_splits)

lemma read_event_Some:
  "fst (read_event P package source event r) = Some ob \<Longrightarrow> \<exists>metadata. event = Release metadata \<and>
     ob_source ob = source \<and> ob_metadata ob = metadata \<and>
     (\<exists>text. cm_version metadata = Some text \<and> pkg_version P text = Some (ob_version ob))"
  by (auto simp: read_event_def dest: observe_Some split: release_event.splits)

lemma observe_from_mem:
  assumes "observe_from P package source events index r b = (Inr os, r', b')" "ob \<in> set os"
  shows "ob_source ob = source \<and> (\<exists>i. events i = Release (ob_metadata ob)) \<and>
    (\<exists>text. cm_version (ob_metadata ob) = Some text \<and> pkg_version P text = Some (ob_version ob))"
  using assms
proof (induction "MAX_PROVIDER_RELEASES - index" arbitrary: index r b os)
  case 0
  from 0(2) show ?case by (cases rule: observe_from_cases) (use 0 in auto)
next
  case (Suc n)
  from Suc.prems(1) show ?case
  proof (cases rule: observe_from_cases)
    case (read rest)
    then obtain os1 where os1: "rest = Inr os1"
      and os: "os = (case fst (read_event P package source (events index) r) of None \<Rightarrow> [] | Some ob \<Rightarrow> [ob]) @ os1"
      by (cases rest) auto
    have n: "n = MAX_PROVIDER_RELEASES - Suc index" using Suc.hyps(2) by simp
    show ?thesis
    proof (cases "ob \<in> set os1")
      case True
      from Suc.hyps(1) [OF n read(4) [unfolded os1] True] show ?thesis .
    next
      case False
      with Suc.prems(2) os have "fst (read_event P package source (events index) r) = Some ob" by (auto split: option.splits)
      from read_event_Some [OF this] show ?thesis by blast
    qed
  qed (use Suc.prems(2) in auto)
qed

lemma provider_reported:
  assumes "provider_releases R pin source st = Releases events" "events i = Release metadata"
  shows "reported R (rp_package pin) source metadata"
  using assms by (auto simp: provider_releases_def reported_def split: option.splits)

lemma ask_provider_observed:
  assumes "ask_provider R pin source st = (observations, st')" "ob \<in> set observations"
  shows "observed R (rp_package pin) ob \<and> ob_source ob = source"
  using assms(1)
proof (cases rule: ask_provider_cases)
  case (1 found r b)
  with assms(2) obtain os where os: "found = Inr os" "ob \<in> set os" by (auto split: sum.splits)
  then obtain events where ev: "provider_releases R pin source st = Releases events"
    and o: "observe_from (rs_packaging R) (rp_package pin) source events 0 (se_rejections st) (se_observations st) = (Inr os, r, b)"
    using 1(1) by (auto simp: bounded_observations_def split: provider_answer.splits)
  from observe_from_mem [OF o os(2)] provider_reported [OF ev] show ?thesis by (auto simp: observed_def)
qed

subsection \<open>The options\<close>

definition offered :: "'k resolver \<Rightarrow> TargetProfile \<Rightarrow> string \<Rightarrow> 'k Version \<Rightarrow> PackageSource \<Rightarrow> bool" where
  "offered R profile package version source \<longleftrightarrow>
     (\<exists>metadata text v. reported R package source metadata \<and> cm_version metadata = Some text \<and>
       pkg_version (rs_packaging R) text = Some v \<and> same_version v version \<and>
       python_fits (rs_packaging R) profile metadata \<and> wheel_fits (rs_packaging R) profile package metadata v)"

definition sound_options ::
  "('k :: linorder) resolver \<Rightarrow> TargetProfile \<Rightarrow> ResolveLimits \<Rightarrow> 'k RelaxablePin \<Rightarrow> 'k CandidateOptions \<Rightarrow> bool" where
  "sound_options R profile limits pin options \<longleftrightarrow>
     length (co_versions options) \<le> nat (lim_max_candidates_per_requirement limits) \<and>
     (\<forall>v\<in>set (co_versions options). eligible (rp_original pin) v) \<and>
     (\<forall>v source. supports options v source \<longrightarrow> offered R profile (rp_package pin) v source)"

lemma ordered_subset: "set (ordered_candidates original available) \<subseteq> set available"
  using version_set_facts(3) [of "filter (eligible original) available"]
  by (auto simp: ordered_candidates_def Let_def)

lemma passes_offered:
  assumes "passes (rs_packaging R) pin profile observations v s" "\<forall>ob\<in>set observations. observed R (rp_package pin) ob"
    and "same_version v w"
  shows "offered R profile (rp_package pin) w s"
  using assms unfolding passes_def offered_def observed_def fits_target_def same_version_def by metis

lemma options_for_observations_sound:
  assumes "\<forall>ob\<in>set observations. observed R (rp_package pin) ob"
  shows "sound_options R profile limits pin
    (fst (candidate_options_for_observations (rs_packaging R) pin profile sources limits observations r))"
proof -
  let ?d = "fst (collect_sources (rs_packaging R) pin profile observations observations [] r)"
  let ?accepted = "take (nat (lim_max_candidates_per_requirement limits)) (ordered_candidates (rp_original pin) (map fst ?d))"
  have o: "fst (candidate_options_for_observations (rs_packaging R) pin profile sources limits observations r) =
      \<lparr>co_versions = ?accepted, co_eligible_sources = map (\<lambda>v. (v, sources_of ?d v)) ?accepted\<rparr>"
    by (simp add: candidate_options_for_observations_def Let_def split_beta)
  note c = collect_sources_pass [of "[]" "rs_packaging R" pin profile observations observations, simplified]
  have "set ?accepted \<subseteq> fst ` set ?d"
    using ordered_subset [of "rp_original pin" "map fst ?d"] set_take_subset by fastforce
  then have e: "\<forall>v\<in>set ?accepted. eligible (rp_original pin) v" using c(2) by blast
  have "offered R profile (rp_package pin) w s" if s: "s \<in> set (sources_of ?d v)" and "same_version v w" for v w s
  proof -
    obtain x ss where "find (\<lambda>e. same_version (fst e) v) ?d = Some (x, ss)" "s \<in> set ss"
      using s by (cases "find (\<lambda>e. same_version (fst e) v) ?d") (auto simp: sources_of_def)
    then have "(x, ss) \<in> set ?d" "same_version x v" "s \<in> set ss" using find_SomeD by fastforce+
    then have "passes (rs_packaging R) pin profile observations x s" using c(1) by blast
    then show ?thesis
      by (rule passes_offered [OF _ assms]) (use \<open>same_version x v\<close> that(2) in \<open>simp add: same_version_def\<close>)
  qed
  then show ?thesis using e unfolding o sound_options_def supports_def list_ex_iff by auto
qed

lemma discover_from_sound:
  assumes "discover_from R pin profile sources limits started rest observations st = (Inr (options, incomplete), st')"
    and "\<forall>ob\<in>set observations. observed R (rp_package pin) ob"
  shows "sound_options R profile limits pin options"
  using assms
proof (induction rest arbitrary: observations st)
  case Nil
  then show ?case using options_for_observations_sound [OF Nil(2)]
    by (simp add: options_step_def Let_def split_beta) (metis fst_conv)
next
  case (Cons source rest)
  obtain y st0 where g: "guard R started limits st = (y, st0)" by (cases "guard R started limits st")
  obtain found st1 where f: "ask_provider R pin source st0 = (found, st1)" by (cases "ask_provider R pin source st0")
  have obs: "\<forall>ob\<in>set (observations @ found). observed R (rp_package pin) ob"
    using Cons.prems(2) ask_provider_observed [OF f] by auto
  have y: "y = Inr ()" "observations_remaining (se_observations st0) \<noteq> 0"
    using Cons.prems(1) g by (cases y; simp add: andthen_def stop_def split: if_splits)+
  show ?case
  proof (cases "observations_remaining (se_observations st1) = 0 \<and> rest \<noteq> []")
    case True
    with Cons.prems(1) g f y have "fst (options_step R pin profile sources limits (observations @ found) (truncate_observations st1)) = options"
      by (simp add: andthen_def Let_def split_beta)
    then show ?thesis using options_for_observations_sound [OF obs]
      by (simp add: options_step_def Let_def split_beta) blast
  next
    case False
    with Cons.prems(1) g f y have "discover_from R pin profile sources limits started rest (observations @ found) st1 =
        (Inr (options, incomplete), st')" by (simp add: andthen_def Let_def split: if_splits)
    from Cons.IH [OF this obs] show ?thesis .
  qed
qed

lemma discover_sound:
  "discover_candidates R pin profile sources limits started st = (Inr (options, incomplete), st') \<Longrightarrow>
     sound_options R profile limits pin options"
  unfolding discover_candidates_def by (erule discover_from_sound) (simp only: list.set ball_empty)

end
