(* ===== verification/SearchFacts.thy ===== *)
theory SearchFacts
  imports OptionFacts
begin

section \<open>The structure of the search\<close>

text \<open>
  Which attempts the search makes: none twice, all of them when it ends without a result and without
  running out of a budget, and where a result comes from.
\<close>

subsection \<open>Keys of attempts\<close>

definition attempt_key :: "'k ResolutionAttempt \<Rightarrow> 'k list \<times> PackageSource" where
  "attempt_key a = (map (\<lambda>s. v_key (cs_version s)) (ra_selections a), ra_source a)"

definition goal_key :: "'k Version list \<times> PackageSource \<Rightarrow> 'k list \<times> PackageSource" where
  "goal_key g = (map v_key (fst g), snd g)"

definition original_keys :: "'k RelaxablePin list \<Rightarrow> 'k list" where
  "original_keys pins = map (\<lambda>pin. v_key (rp_original pin)) pins"

lemma selections_key:
  "length versions = length pins \<Longrightarrow> map (\<lambda>s. v_key (cs_version s)) (selections_of pins versions) = map v_key versions"
  by (induction pins versions rule: list_induct2') (auto simp: selections_of_def)

lemma attempted_iff: "attempted st g \<longleftrightarrow> goal_key g \<in> goal_key ` set (se_attempted st)"
  by (auto simp: attempted_def same_attempt_def goal_key_def list_ex_iff image_iff)

text \<open>No attempt is repeated, and the attempts are those of the originals or the recorded ones.\<close>

definition tidy :: "'k RelaxablePin list \<Rightarrow> 'k search \<Rightarrow> bool" where
  "tidy pins st \<longleftrightarrow> distinct (map attempt_key (se_attempts st)) \<and>
     (\<forall>a\<in>set (se_attempts st). fst (attempt_key a) = original_keys pins \<or>
       attempt_key a \<in> goal_key ` set (se_attempted st)) \<and>
     (\<forall>g\<in>set (se_attempted st). fst (goal_key g) \<noteq> original_keys pins)"

text \<open>Between two steps every recorded attempt has been made and has failed.\<close>

definition settled :: "'k RelaxablePin list \<Rightarrow> 'k search \<Rightarrow> bool" where
  "settled pins st \<longleftrightarrow> tidy pins st \<and> goal_key ` set (se_attempted st) \<subseteq> attempt_key ` set (se_attempts st) \<and>
     (\<forall>a\<in>set (se_attempts st). ra_failure a = Some STRICT_RESOLUTION)"

text \<open>A result is the strict resolver's answer for some requirements at a source, recorded as the last
  attempt.\<close>

definition answered ::
  "('k :: linorder) resolver \<Rightarrow> ParsedRequirements \<Rightarrow> TargetProfile \<Rightarrow> 'k RelaxablePin list \<Rightarrow> 'k Version list \<Rightarrow>
     ParsedRequirements \<Rightarrow> PackageSource \<Rightarrow> 'k search \<Rightarrow> 'k ResolutionResult \<Rightarrow> bool" where
  "answered R parsed profile pins versions req source st result \<longleftrightarrow>
     (\<exists>call r earlier a. rs_strict R call req profile (source_value source) = StrictResult r \<and>
       result = successful_result R r parsed source st \<and> se_attempts st = earlier @ [a] \<and>
       ra_selections a = selections_of pins versions \<and> ra_source a = source \<and> ra_failure a = None \<and>
       (\<forall>b\<in>set earlier. ra_failure b = Some STRICT_RESOLUTION))"

lemma guarded_attempt_cases:
  assumes "andthen (guard R started limits) (\<lambda>_. andthen (attempt R req profile source selections started limits) f) st =
    (x, st')"
  obtains (stops) e as where "x = Inl e" "se_attempts st' = se_attempts st @ as" "length as \<le> 1"
      "\<forall>a\<in>set as. ra_selections a = selections \<and> ra_source a = source" "se_attempted st' = se_attempted st"
  | (fails) st1 a where "f None st1 = (x, st')" "se_attempts st1 = se_attempts st @ [a]"
      "ra_selections a = selections" "ra_source a = source" "ra_failure a = Some STRICT_RESOLUTION"
      "se_attempted st1 = se_attempted st"
  | (succeeds) st1 a r call where "f (Some r) st1 = (x, st')" "se_attempts st1 = se_attempts st @ [a]"
      "ra_selections a = selections" "ra_source a = source" "ra_failure a = None"
      "se_attempted st1 = se_attempted st" "rs_strict R call req profile (source_value source) = StrictResult r"
proof -
  obtain y st0 where g: "guard R started limits st = (y, st0)" by (cases "guard R started limits st")
  from g show thesis
  proof (cases rule: guard_cases)
    case ok
    obtain z st1 where t: "attempt R req profile source selections started limits st0 = (z, st1)"
      by (cases "attempt R req profile source selections started limits st0")
    from t show thesis
    proof (cases rule: attempt_cases)
      case (raises e)
      with assms g t ok show thesis by (intro stops [of "Raised e" "[]"]) (auto simp: andthen_def)
    next
      case (timeout reason)
      with assms g t ok show thesis
        by (intro stops [of "StopResolution TIMEOUT" "[\<lparr>ra_selections = selections, ra_source = source,
            ra_failure = Some TIMEOUT, ra_reason = reason\<rparr>]"]) (auto simp: andthen_def)
    next
      case (fails reason)
      with assms g t ok show thesis
        by (intro that(2) [of st1 "\<lparr>ra_selections = selections, ra_source = source,
            ra_failure = Some STRICT_RESOLUTION, ra_reason = reason\<rparr>"]) (auto simp: andthen_def)
    next
      case (succeeds reason r)
      with assms g t ok show thesis
        by (intro that(3) [of r st1 "\<lparr>ra_selections = selections, ra_source = source,
            ra_failure = None, ra_reason = reason\<rparr>"]) (auto simp: andthen_def)
    qed
  qed (use assms g in \<open>auto simp: andthen_def intro: stops [of _ "[]"]\<close>)
qed

text \<open>Recording a new attempt, and making it.\<close>

lemma attempt_key_selections:
  "length versions = length pins \<Longrightarrow> ra_selections a = selections_of pins versions \<Longrightarrow>
     attempt_key a = goal_key (versions, ra_source a)"
  by (simp add: attempt_key_def goal_key_def selections_key)

lemma tidy_attempt:
  assumes "settled pins st" "\<not> attempted st (versions, source)" "map v_key versions \<noteq> original_keys pins"
    and "length versions = length pins" "se_attempts st' = se_attempts st @ as" "length as \<le> 1"
    and "\<forall>a\<in>set as. ra_selections a = selections_of pins versions \<and> ra_source a = source"
    and "se_attempted st' = se_attempted st @ [(versions, source)]"
  shows "tidy pins st'" "as \<noteq> [] \<Longrightarrow> \<forall>a\<in>set as. ra_failure a = Some STRICT_RESOLUTION \<Longrightarrow> settled pins st'"
proof -
  have key: "attempt_key a = goal_key (versions, source)" if "a \<in> set as" for a
    using attempt_key_selections [OF assms(4), of a] assms(7) that by auto
  have differs: "fst (goal_key (versions, source)) \<noteq> original_keys pins" using assms(3) by (simp add: goal_key_def)
  have "attempt_key a \<noteq> goal_key (versions, source)" if a: "a \<in> set (se_attempts st)" for a
  proof
    assume "attempt_key a = goal_key (versions, source)"
    moreover have "fst (attempt_key a) = original_keys pins \<or> attempt_key a \<in> goal_key ` set (se_attempted st)"
      using assms(1) a by (simp add: settled_def tidy_def)
    ultimately show False using differs assms(2) by (auto simp: attempted_iff)
  qed
  then have new: "goal_key (versions, source) \<notin> attempt_key ` set (se_attempts st)" by (metis imageE)
  have "distinct (map attempt_key as)" using assms(6) by (cases as) auto
  with new key assms(1) have d: "distinct (map attempt_key (se_attempts st'))"
    by (auto simp: assms(5) settled_def tidy_def)
  from differs d assms(1) key show t: "tidy pins st'"
    unfolding tidy_def assms(5,8) by (auto simp: settled_def tidy_def)
  show "settled pins st'" if "as \<noteq> []" "\<forall>a\<in>set as. ra_failure a = Some STRICT_RESOLUTION"
  proof -
    have "goal_key (versions, source) \<in> attempt_key ` set as" using key \<open>as \<noteq> []\<close> by (cases as) force+
    with t that assms(1) show ?thesis unfolding settled_def assms(5,8) by auto
  qed
qed

subsection \<open>Steps that make no attempt\<close>

definition same_goals :: "'k search \<Rightarrow> 'k search \<Rightarrow> bool" where
  "same_goals st st' \<longleftrightarrow> se_attempts st' = se_attempts st \<and> se_attempted st' = se_attempted st"

lemma same_goals_settled: "same_goals st st' \<Longrightarrow> settled pins st' = settled pins st"
  and same_goals_tidy: "same_goals st st' \<Longrightarrow> tidy pins st' = tidy pins st"
  and same_goals_attempted: "same_goals st st' \<Longrightarrow> attempted st' = attempted st"
  and same_goals_trans: "same_goals st st' \<Longrightarrow> same_goals st' st'' \<Longrightarrow> same_goals st st''"
  by (auto simp: same_goals_def settled_def tidy_def attempted_def fun_eq_iff)

lemma settled_tidy: "settled pins st \<Longrightarrow> tidy pins st"
  by (simp add: settled_def)

text \<open>A step that changes neither the attempts nor their record.\<close>

definition silent :: "('k, 'a) step \<Rightarrow> bool" where
  "silent m \<longleftrightarrow> (\<forall>st. same_goals st (snd (m st)))"

lemma silentD: "silent m \<Longrightarrow> m st = (x, st') \<Longrightarrow> same_goals st st'"
  by (metis silent_def snd_conv)

lemma silent_andthen: "silent m \<Longrightarrow> (\<And>a. silent (f a)) \<Longrightarrow> silent (andthen m f)"
  unfolding silent_def andthen_def by (auto split: prod.splits sum.splits) (metis same_goals_trans snd_conv)+

lemma silent_guard: "silent (guard R started limits)"
  unfolding silent_def
proof
  fix st
  obtain x st' where "guard R started limits st = (x, st')" by (cases "guard R started limits st")
  then show "same_goals st (snd (guard R started limits st))"
    by (cases rule: guard_cases) (simp_all add: \<open>guard R started limits st = (x, st')\<close> same_goals_def)
qed

lemma silent_stop_truncated: "silent (\<lambda>st. stop c (truncate_observations st))"
  by (simp add: silent_def stop_def same_goals_def truncate_observations_def)

lemma viable_sources_result:
  assumes "viable_sources R started limits pins options versions sources st = (x, st')"
  shows "same_goals st st' \<and> (\<forall>v. x = Inr v \<longrightarrow>
    v = filter (\<lambda>s. \<not> attempted st (versions, s) \<and> source_supports_substitutions s pins versions options) sources)"
  using assms
proof (induction sources arbitrary: st x st')
  case Nil
  then show ?case by (auto simp: same_goals_def)
next
  case (Cons source sources)
  obtain y st0 where g: "guard R started limits st = (y, st0)" by (cases "guard R started limits st")
  then have s0: "same_goals st st0" by (rule silentD [OF silent_guard])
  show ?case
  proof (cases y)
    case (Inl e)
    with Cons.prems g s0 show ?thesis by (auto simp: andthen_def)
  next
    case (Inr u)
    obtain z st1 where v: "viable_sources R started limits pins options versions sources st0 = (z, st1)"
      by (cases "viable_sources R started limits pins options versions sources st0")
    from Cons.IH [OF this] have s1: "same_goals st0 st1" and
      z: "\<forall>v. z = Inr v \<longrightarrow> v = filter (\<lambda>s. \<not> attempted st0 (versions, s) \<and>
        source_supports_substitutions s pins versions options) sources" by auto
    show ?thesis using Cons.prems g Inr v z same_goals_trans [OF s0 s1] same_goals_attempted [OF s0]
      by (cases z) (auto simp: andthen_def split: if_splits)
  qed
qed

subsection \<open>The attempts of a combination\<close>

text \<open>What a part of the search leaves behind: no repeated attempt, the earlier record, and, when it ends
  without a result, everything settled.\<close>

definition leaves :: "'k RelaxablePin list \<Rightarrow> 'k search \<Rightarrow> (exit + 'k ResolutionResult option) \<Rightarrow> 'k search \<Rightarrow> bool" where
  "leaves pins st x st' \<longleftrightarrow> tidy pins st' \<and> set (se_attempted st) \<subseteq> set (se_attempted st') \<and>
     set (se_attempts st) \<subseteq> set (se_attempts st') \<and> (x = Inr None \<longrightarrow> settled pins st')"

lemma leaves_same: "settled pins st \<Longrightarrow> same_goals st st' \<Longrightarrow> leaves pins st x st'"
  by (simp add: leaves_def settled_tidy same_goals_tidy same_goals_settled) (simp add: same_goals_def)

lemma leaves_trans:
  "set (se_attempted st) \<subseteq> set (se_attempted st1) \<Longrightarrow> set (se_attempts st) \<subseteq> set (se_attempts st1) \<Longrightarrow> leaves pins st1 x st' \<Longrightarrow> leaves pins st x st'"
  by (auto simp: leaves_def)

lemma attempt_viable_result:
  assumes "attempt_viable R parsed profile started limits versions req (selections_of pins versions) sources st = (x, st')"
    and "settled pins st" "distinct sources" "\<forall>s\<in>set sources. \<not> attempted st (versions, s)"
    and "length versions = length pins" "map v_key versions \<noteq> original_keys pins"
  shows "leaves pins st x st' \<and> (x = Inr None \<longrightarrow> (\<forall>s\<in>set sources. attempted st' (versions, s))) \<and>
    (\<forall>result. x = Inr (Some result) \<longrightarrow>
      (\<exists>source\<in>set sources. answered R parsed profile pins versions req source st' result))"
  using assms(1-4)
proof (induction sources arbitrary: st)
  case Nil
  then show ?case by (auto simp: leaves_def settled_tidy)
next
  case (Cons source sources)
  let ?st = "st\<lparr>se_attempted := se_attempted st @ [(versions, source)]\<rparr>"
  have new: "\<not> attempted st (versions, source)" using Cons.prems(4) by simp
  from Cons.prems(1) have "andthen (guard R started limits) (\<lambda>_.
       andthen (attempt R req profile source (selections_of pins versions) started limits) (\<lambda>result st. case result of
         Some r \<Rightarrow> (Inr (Some (successful_result R r parsed source st)), st)
       | None \<Rightarrow> attempt_viable R parsed profile started limits versions req (selections_of pins versions) sources st)) ?st =
    (x, st')" by simp
  then show ?case
  proof (cases rule: guarded_attempt_cases)
    case (stops e as)
    have "tidy pins st'"
      by (rule tidy_attempt(1) [OF Cons.prems(2) new assms(6,5), of st' as]) (use stops in auto)
    with stops show ?thesis by (auto simp: leaves_def)
  next
    case (fails st1 a)
    have settled: "settled pins st1"
      by (rule tidy_attempt(2) [OF Cons.prems(2) new assms(6,5), of st1 "[a]"]) (use fails in auto)
    have rest: "\<forall>s\<in>set sources. \<not> attempted st1 (versions, s)"
      using Cons.prems(3,4) fails(6) by (auto simp: attempted_iff goal_key_def)
    have "attempt_viable R parsed profile started limits versions req (selections_of pins versions) sources st1 = (x, st')"
      using fails(1) by simp
    from Cons.IH [OF this settled _ rest] Cons.prems(3) have
      ih: "leaves pins st1 x st'" "x = Inr None \<longrightarrow> (\<forall>s\<in>set sources. attempted st' (versions, s))"
      "\<forall>result. x = Inr (Some result) \<longrightarrow> (\<exists>source\<in>set sources. answered R parsed profile pins versions req source st' result)"
      by auto
    have "(versions, source) \<in> set (se_attempted st')" using ih(1) fails(6) by (auto simp: leaves_def)
    then have "attempted st' (versions, source)" by (simp add: attempted_iff)
    moreover have "leaves pins st x st'" by (rule leaves_trans [OF _ _ ih(1)]) (simp_all add: fails(2,6) subset_insertI)
    ultimately show ?thesis using ih(2,3) by auto
  next
    case (succeeds st1 a r call)
    then have x: "x = Inr (Some (successful_result R r parsed source st1))" "st' = st1" by auto
    have "tidy pins st'"
      by (rule tidy_attempt(1) [OF Cons.prems(2) new assms(6,5), of st' "[a]"]) (use succeeds x in auto)
    moreover have "answered R parsed profile pins versions req source st' (successful_result R r parsed source st1)"
      unfolding answered_def
      by (intro exI [of _ call] exI [of _ r] exI [of _ "se_attempts st"] exI [of _ a])
        (use succeeds x Cons.prems(2) in \<open>auto simp: settled_def\<close>)
    ultimately show ?thesis using x succeeds(2,6) by (auto simp: leaves_def)
  qed
qed

subsection \<open>The combinations\<close>

lemma attempted_mono: "attempted st g \<Longrightarrow> leaves pins st x st' \<Longrightarrow> attempted st' g"
  by (auto simp: attempted_iff leaves_def)

text \<open>A result found for a combination.\<close>

definition substituted ::
  "('k :: linorder) resolver \<Rightarrow> ParsedRequirements \<Rightarrow> TargetProfile \<Rightarrow> PackageSource list \<Rightarrow> 'k RelaxablePin list \<Rightarrow>
     'k CandidateOptions list \<Rightarrow> 'k Version list \<Rightarrow> 'k search \<Rightarrow> 'k ResolutionResult \<Rightarrow> bool" where
  "substituted R parsed profile sources pins options versions st result \<longleftrightarrow>
     (\<exists>source req. source \<in> set sources \<and> rebuild_requirements R parsed pins versions = Inr req \<and>
       source_supports_substitutions source pins versions options \<and>
       answered R parsed profile pins versions req source st result)"

text \<open>All goals of a combination have been tried.\<close>

definition exhausted ::
  "PackageSource list \<Rightarrow> 'k RelaxablePin list \<Rightarrow> 'k CandidateOptions list \<Rightarrow> 'k Version list \<Rightarrow> 'k search \<Rightarrow> bool" where
  "exhausted sources pins options versions st \<longleftrightarrow>
     (\<forall>s\<in>set sources. source_supports_substitutions s pins versions options \<longrightarrow> attempted st (versions, s))"

lemma exhausted_mono: "exhausted sources pins options versions st \<Longrightarrow> leaves pins st x st' \<Longrightarrow>
    exhausted sources pins options versions st'"
  by (auto simp: exhausted_def intro: attempted_mono)

definition proper :: "'k RelaxablePin list \<Rightarrow> 'k Version list \<Rightarrow> bool" where
  "proper pins versions \<longleftrightarrow> length versions = length pins \<and> map v_key versions \<noteq> original_keys pins"

lemma combination_result:
  assumes "combination_step R parsed profile sources pins options started limits versions st = (x, st')"
    and "settled pins st" "distinct sources" "proper pins versions"
  shows "leaves pins st x st' \<and> (x = Inr None \<longrightarrow> exhausted sources pins options versions st') \<and>
    (\<forall>result. x = Inr (Some result) \<longrightarrow> substituted R parsed profile sources pins options versions st' result)"
proof -
  obtain y st0 where g: "guard R started limits st = (y, st0)" by (cases "guard R started limits st")
  then have s0: "same_goals st st0" by (rule silentD [OF silent_guard])
  show ?thesis
  proof (cases y)
    case (Inl e)
    with assms(1) g have "x = Inl e" "st' = st0" by (auto simp: combination_step_def andthen_def)
    then show ?thesis using leaves_same [OF assms(2) s0] by simp
  next
    case (Inr u)
    obtain ok b where r: "reserve_combination (se_combinations st0) = (ok, b)" by (cases "reserve_combination (se_combinations st0)")
    let ?st = "st0\<lparr>se_combinations := b\<rparr>"
    have s1: "same_goals st ?st" using s0 by (simp add: same_goals_def)
    show ?thesis
    proof (cases ok)
      case False
      with assms(1) g Inr r have "x = Inl (StopResolution RESOURCE_LIMIT)" "st' = ?st"
        by (auto simp: combination_step_def andthen_def stop_def)
      then show ?thesis using leaves_same [OF assms(2) s1] by simp
    next
      case True
      obtain z st2 where v: "viable_sources R started limits pins options versions sources ?st = (z, st2)"
        by (cases "viable_sources R started limits pins options versions sources ?st")
      from viable_sources_result [OF v] have s2: "same_goals st st2" and z: "\<forall>v. z = Inr v \<longrightarrow>
          v = filter (\<lambda>s. \<not> attempted st2 (versions, s) \<and> source_supports_substitutions s pins versions options) sources"
        using same_goals_trans [OF s1] same_goals_attempted [of ?st st2] by auto
      have settled: "settled pins st2" using assms(2) same_goals_settled [OF s2] by simp
      have sub: "set (se_attempted st) \<subseteq> set (se_attempted st2)" "set (se_attempts st) \<subseteq> set (se_attempts st2)" using s2 by (simp_all add: same_goals_def)
      show ?thesis
      proof (cases z)
        case (Inl e)
        with assms(1) g Inr r True v have "x = Inl e" "st' = st2" by (auto simp: combination_step_def andthen_def)
        then show ?thesis using leaves_same [OF assms(2) s2] by simp
      next
        case viable: (Inr viable)
        with z have vs: "viable = filter (\<lambda>s. \<not> attempted st2 (versions, s) \<and>
            source_supports_substitutions s pins versions options) sources" by simp
        have m: "(if viable = [] then (Inr None, st2) else case rebuild_requirements R parsed pins versions of
            Inl e \<Rightarrow> (Inl (Raised e), st2)
          | Inr req \<Rightarrow> attempt_viable R parsed profile started limits versions req (selections_of pins versions) viable st2)
          = (x, st')" using assms(1) g Inr r True v viable by (simp add: combination_step_def andthen_def)
        show ?thesis
        proof (cases "viable = []")
          case True
          with m have x: "x = Inr None" "st' = st2" by simp_all
          have "exhausted sources pins options versions st2"
            using True vs by (auto simp: exhausted_def filter_empty_conv)
          then show ?thesis using x leaves_same [OF assms(2) s2] by simp
        next
          case False
          show ?thesis
          proof (cases "rebuild_requirements R parsed pins versions")
            case (Inl e)
            with m False have "x = Inl (Raised e)" "st' = st2" by auto
            then show ?thesis using leaves_same [OF assms(2) s2] by simp
          next
            case req: (Inr req)
            with m False have a: "attempt_viable R parsed profile started limits versions req (selections_of pins versions)
                viable st2 = (x, st')" by simp
            have "distinct viable" "\<forall>s\<in>set viable. \<not> attempted st2 (versions, s)"
              using assms(3) by (simp_all add: vs)
            from attempt_viable_result [OF a settled this] assms(4) have
              l: "leaves pins st2 x st'" and none: "x = Inr None \<longrightarrow> (\<forall>s\<in>set viable. attempted st' (versions, s))"
              and some: "\<forall>result. x = Inr (Some result) \<longrightarrow>
                (\<exists>source\<in>set viable. answered R parsed profile pins versions req source st' result)"
              by (simp_all add: proper_def)
            have "exhausted sources pins options versions st'" if "x = Inr None"
              unfolding exhausted_def
            proof (intro ballI impI)
              fix s assume "s \<in> set sources" "source_supports_substitutions s pins versions options"
              then have "attempted st2 (versions, s) \<or> s \<in> set viable" by (auto simp: vs)
              then show "attempted st' (versions, s)" using attempted_mono [OF _ l] none that by blast
            qed
            moreover have "substituted R parsed profile sources pins options versions st' result"
              if x: "x = Inr (Some result)" for result
            proof -
              obtain source where "source \<in> set viable" "answered R parsed profile pins versions req source st' result"
                using some x by blast
              then show ?thesis unfolding substituted_def using req by (auto simp: vs)
            qed
            ultimately show ?thesis using leaves_trans [OF sub l] by blast
          qed
        qed
      qed
    qed
  qed
qed

lemma combinations_result:
  assumes "try_combinations R parsed profile sources pins options started limits combinations st = (x, st')"
    and "settled pins st" "distinct sources" "\<forall>versions\<in>set combinations. proper pins versions"
  shows "leaves pins st x st' \<and>
    (x = Inr None \<longrightarrow> (\<forall>versions\<in>set combinations. exhausted sources pins options versions st')) \<and>
    (\<forall>result. x = Inr (Some result) \<longrightarrow>
      (\<exists>versions\<in>set combinations. substituted R parsed profile sources pins options versions st' result))"
  using assms(1,2,4)
proof (induction combinations arbitrary: st)
  case Nil
  then show ?case by (auto simp: leaves_def settled_tidy)
next
  case (Cons versions combinations)
  obtain y st1 where c: "combination_step R parsed profile sources pins options started limits versions st = (y, st1)"
    by (cases "combination_step R parsed profile sources pins options started limits versions st")
  have one: "leaves pins st y st1" "y = Inr None \<longrightarrow> exhausted sources pins options versions st1"
    "\<forall>result. y = Inr (Some result) \<longrightarrow> substituted R parsed profile sources pins options versions st1 result"
    using combination_result [OF c Cons.prems(2) assms(3)] Cons.prems(3) by auto
  consider (none) "y = Inr None" | (other) "y \<noteq> Inr None" by blast
  then show ?case
  proof cases
    case none
    then have "try_combinations R parsed profile sources pins options started limits combinations st1 = (x, st')"
      using Cons.prems(1) c by (simp add: andthen_def)
    from Cons.IH [OF this] one(1) none Cons.prems(3) have
      rest: "leaves pins st1 x st'" "x = Inr None \<longrightarrow> (\<forall>versions\<in>set combinations. exhausted sources pins options versions st')"
      "\<forall>result. x = Inr (Some result) \<longrightarrow>
        (\<exists>versions\<in>set combinations. substituted R parsed profile sources pins options versions st' result)"
      by (simp_all add: leaves_def)
    have "set (se_attempted st) \<subseteq> set (se_attempted st1)" "set (se_attempts st) \<subseteq> set (se_attempts st1)"
      using one(1) by (simp_all add: leaves_def)
    then have "leaves pins st x st'" by (rule leaves_trans [OF _ _ rest(1)])
    then show ?thesis using rest one(2) none exhausted_mono [OF _ rest(1)] by auto
  next
    case other
    then have "x = y" "st' = st1" using Cons.prems(1) c by (auto simp: andthen_def split: sum.splits option.splits)
    then show ?thesis using one other by auto
  qed
qed

subsection \<open>Frontiers\<close>

definition known_version :: "'k RelaxablePin list \<Rightarrow> 'k CandidateOptions list \<Rightarrow> nat \<Rightarrow> 'k Version \<Rightarrow> bool" where
  "known_version pins options j v \<longleftrightarrow> v = rp_original (pins ! j) \<or> v \<in> set (co_versions (options ! j))"

lemma frontier_mem:
  assumes "i < length pins" "length options = length pins"
  shows "versions \<in> set (frontier_combinations pins options i) \<longleftrightarrow> length versions = length pins \<and>
    (\<forall>j<i. known_version pins options j (versions ! j)) \<and> versions ! i \<in> set (co_versions (options ! i)) \<and>
    (\<forall>j<length pins. i < j \<longrightarrow> versions ! j = rp_original (pins ! j))"
proof
  let ?factors = "map (\<lambda>(pin, o'). rp_original pin # co_versions o') (zip (take i pins) (take i options))"
  let ?trail = "map rp_original (drop (Suc i) pins)"
  have factors: "length ?factors = i" "\<And>j. j < i \<Longrightarrow> ?factors ! j = rp_original (pins ! j) # co_versions (options ! j)"
    using assms by auto
  have prefix: "p \<in> set (product_lists ?factors) \<longleftrightarrow> length p = i \<and> (\<forall>j<i. known_version pins options j (p ! j))" for p
    unfolding product_lists_set mem_Collect_eq list_all2_conv_all_nth using factors by (auto simp: known_version_def)
  have mem: "versions \<in> set (frontier_combinations pins options i) \<longleftrightarrow>
      (\<exists>p c. p \<in> set (product_lists ?factors) \<and> c \<in> set (co_versions (options ! i)) \<and> versions = p @ [c] @ ?trail)"
    by (auto simp: frontier_combinations_def Let_def)
  show "length versions = length pins \<and> (\<forall>j<i. known_version pins options j (versions ! j)) \<and>
      versions ! i \<in> set (co_versions (options ! i)) \<and> (\<forall>j<length pins. i < j \<longrightarrow> versions ! j = rp_original (pins ! j))"
    if front: "versions \<in> set (frontier_combinations pins options i)"
  proof -
    obtain p c where p: "p \<in> set (product_lists ?factors)" "c \<in> set (co_versions (options ! i))"
      and v: "versions = p @ [c] @ ?trail" using front mem by blast
    have len: "length p = i" and known: "\<forall>j<i. known_version pins options j (p ! j)" using p(1) prefix by auto
    have "versions ! j = rp_original (pins ! j)" if "j < length pins" "i < j" for j
      using that len by (simp add: v nth_append nth_Cons') 
    then show ?thesis using len known p(2) assms(1) by (simp add: v nth_append)
  qed
  show "versions \<in> set (frontier_combinations pins options i)"
    if v: "length versions = length pins \<and> (\<forall>j<i. known_version pins options j (versions ! j)) \<and>
      versions ! i \<in> set (co_versions (options ! i)) \<and> (\<forall>j<length pins. i < j \<longrightarrow> versions ! j = rp_original (pins ! j))"
  proof -
    have "drop (Suc i) versions = ?trail"
      by (rule nth_equalityI) (use v assms(1) in auto)
    then have "versions = take i versions @ [versions ! i] @ ?trail"
      using v assms(1) id_take_nth_drop [of i versions] by simp
    moreover have "take i versions \<in> set (product_lists ?factors)" unfolding prefix using v assms(1) by simp
    ultimately show ?thesis using mem v by blast
  qed
qed

lemma eligible_differs: "eligible (rp_original pin) v \<Longrightarrow> v_key v \<noteq> v_key (rp_original pin)"
  by (simp add: eligible_def same_version_def)

lemma frontier_proper:
  assumes "i < length pins" "length options = length pins" "versions \<in> set (frontier_combinations pins options i)"
    and "\<forall>v\<in>set (co_versions (options ! i)). eligible (rp_original (pins ! i)) v"
  shows "proper pins versions"
proof -
  have v: "length versions = length pins" "versions ! i \<in> set (co_versions (options ! i))"
    using frontier_mem [OF assms(1,2)] assms(3) by auto
  then have "map v_key versions ! i \<noteq> original_keys pins ! i"
    using eligible_differs [OF bspec [OF assms(4) v(2)]] assms(1) by (simp add: original_keys_def)
  then show ?thesis using v(1) by (auto simp: proper_def)
qed

subsection \<open>Discovery makes no attempt\<close>

lemma same_goals_ask: "ask_provider R pin source st = (obs, st') \<Longrightarrow> same_goals st st'"
  by (erule ask_provider_cases) (simp add: same_goals_def)

lemma same_goals_options: "options_step R pin profile sources limits observations st = (o', st') \<Longrightarrow> same_goals st st'"
  by (auto simp: options_step_def Let_def split_beta same_goals_def)

lemma same_goals_truncate: "same_goals st (truncate_observations st)"
  by (simp add: same_goals_def truncate_observations_def)

lemma silent_discover_from: "silent (discover_from R pin profile sources limits started rest observations)"
proof (induction rest arbitrary: observations)
  case Nil
  show ?case by (simp add: silent_def split_beta same_goals_options [OF surjective_pairing])
next
  case (Cons source rest)
  have body: "silent (\<lambda>st. if observations_remaining (se_observations st) = 0 then stop RESOURCE_LIMIT (truncate_observations st)
       else let (found, st) = ask_provider R pin source st; observations = observations @ found
         in if observations_remaining (se_observations st) = 0 \<and> rest \<noteq> []
            then let (options, st) = options_step R pin profile sources limits observations (truncate_observations st)
              in (Inr (options, True), st)
            else discover_from R pin profile sources limits started rest observations st)" (is "silent ?body")
    unfolding silent_def
  proof
    fix st
    obtain found st1 where f: "ask_provider R pin source st = (found, st1)" by (cases "ask_provider R pin source st")
    obtain o' st2 where o: "options_step R pin profile sources limits (observations @ found) (truncate_observations st1) = (o', st2)"
      by (cases "options_step R pin profile sources limits (observations @ found) (truncate_observations st1)")
    have s: "same_goals st st1" "same_goals st st2"
      using same_goals_ask [OF f] same_goals_options [OF o] same_goals_truncate [of st1] same_goals_trans by blast+
    have r: "same_goals st (snd (discover_from R pin profile sources limits started rest (observations @ found) st1))"
      using Cons [of "observations @ found"] s(1) same_goals_trans unfolding silent_def by blast
    show "same_goals st (snd (?body st))"
      using s r same_goals_truncate [of st] by (simp add: f o stop_def Let_def)
  qed
  have "discover_from R pin profile sources limits started (source # rest) observations =
      andthen (guard R started limits) (\<lambda>_. ?body)" by (rule ext) simp
  then show ?case using silent_andthen [OF silent_guard body] by simp
qed

subsection \<open>The original requirements\<close>

definition tried_originals :: "'k RelaxablePin list \<Rightarrow> PackageSource list \<Rightarrow> 'k search \<Rightarrow> bool" where
  "tried_originals pins tried st \<longleftrightarrow> map attempt_key (se_attempts st) = map (Pair (original_keys pins)) tried \<and>
     se_attempted st = [] \<and> (\<forall>a\<in>set (se_attempts st). ra_failure a = Some STRICT_RESOLUTION)"

lemma originals_tidy:
  assumes "map attempt_key (se_attempts st) = map (Pair (original_keys pins)) tried" "se_attempted st = []" "distinct tried"
  shows "tidy pins st"
proof -
  have "distinct (map (Pair (original_keys pins)) tried)" using assms(3) by (simp add: distinct_map inj_on_def)
  moreover have "fst (attempt_key a) = original_keys pins" if "a \<in> set (se_attempts st)" for a
  proof -
    have "attempt_key a \<in> set (map (Pair (original_keys pins)) tried)" using that by (simp flip: assms(1))
    then show ?thesis by auto
  qed
  ultimately show ?thesis using assms(1,2) by (simp add: tidy_def)
qed

lemma tried_settled: "tried_originals pins tried st \<Longrightarrow> distinct tried \<Longrightarrow> settled pins st"
  using originals_tidy by (auto simp: tried_originals_def settled_def)

lemma original_attempt_key:
  "ra_selections a = selections_of pins (map rp_original pins) \<Longrightarrow> attempt_key a = (original_keys pins, ra_source a)"
  by (simp add: attempt_key_def selections_key original_keys_def)

lemma originals_result:
  assumes "attempt_originals R parsed profile (selections_of pins (map rp_original pins)) started limits sources st = (x, st')"
    and "tried_originals pins tried st" "distinct (tried @ sources)"
  shows "tidy pins st' \<and> (x = Inr None \<longrightarrow> tried_originals pins (tried @ sources) st') \<and>
    (\<forall>result. x = Inr (Some result) \<longrightarrow>
      (\<exists>source\<in>set sources. answered R parsed profile pins (map rp_original pins) parsed source st' result))"
  using assms
proof (induction sources arbitrary: st tried)
  case Nil
  then show ?case using tried_settled by (auto simp: settled_def)
next
  case (Cons source sources)
  let ?sel = "selections_of pins (map rp_original pins)"
  have keys: "map attempt_key (se_attempts st) = map (Pair (original_keys pins)) tried" and none: "se_attempted st = []"
    and failed: "\<forall>a\<in>set (se_attempts st). ra_failure a = Some STRICT_RESOLUTION"
    using Cons.prems(2) by (simp_all add: tried_originals_def)
  from Cons.prems(1) have "andthen (guard R started limits) (\<lambda>_.
       andthen (attempt R parsed profile source ?sel started limits) (\<lambda>result st. case result of
           Some r \<Rightarrow> (Inr (Some (successful_result R r parsed source st)), st)
         | None \<Rightarrow> attempt_originals R parsed profile ?sel started limits sources st)) st = (x, st')" by simp
  then show ?case
  proof (cases rule: guarded_attempt_cases)
    case (stops e as)
    have "attempt_key a = (original_keys pins, source)" if "a \<in> set as" for a
      using original_attempt_key stops(4) that by metis
    then have "map attempt_key as = map (\<lambda>_. (original_keys pins, source)) as" by simp
    moreover have "as = [] \<or> (\<exists>a. as = [a])" using stops(3) by (cases as) auto
    ultimately have "map attempt_key (se_attempts st') = map (Pair (original_keys pins)) tried \<or>
        map attempt_key (se_attempts st') = map (Pair (original_keys pins)) (tried @ [source])"
      using stops(2) keys by auto
    then have "tidy pins st'"
      using originals_tidy [of st' pins tried] originals_tidy [of st' pins "tried @ [source]"] Cons.prems(3) stops(5) none by auto
    then show ?thesis using stops(1) by simp
  next
    case (fails st1 a)
    have "tried_originals pins (tried @ [source]) st1"
      unfolding tried_originals_def using fails keys none failed original_attempt_key [OF fails(3)] by simp
    moreover have "attempt_originals R parsed profile ?sel started limits sources st1 = (x, st')" using fails(1) by simp
    ultimately show ?thesis using Cons.IH [of st1 "tried @ [source]"] Cons.prems(3) by auto
  next
    case (succeeds st1 a r call)
    then have x: "x = Inr (Some (successful_result R r parsed source st1))" "st' = st1" by auto
    have "map attempt_key (se_attempts st') = map (Pair (original_keys pins)) (tried @ [source])"
      using succeeds x keys original_attempt_key [OF succeeds(3)] by simp
    then have "tidy pins st'"
      using originals_tidy [of st' pins "tried @ [source]"] Cons.prems(3) succeeds(6) x none by auto
    moreover have "answered R parsed profile pins (map rp_original pins) parsed source st' (successful_result R r parsed source st1)"
      unfolding answered_def
      by (intro exI [of _ call] exI [of _ r] exI [of _ "se_attempts st"] exI [of _ a])
        (use succeeds x failed in auto)
    ultimately show ?thesis using x by auto
  qed
qed

subsection \<open>The loop over the pins\<close>

definition no_options :: "'k CandidateOptions" where
  "no_options = \<lparr>co_versions = [], co_eligible_sources = []\<rparr>"

text \<open>The options known at a frontier, padded for the pins after it.\<close>

definition padded :: "'k RelaxablePin list \<Rightarrow> 'k CandidateOptions list \<Rightarrow> 'k CandidateOptions list" where
  "padded pins options = options @ replicate (length pins - length options) no_options"

definition sound_list ::
  "('k :: linorder) resolver \<Rightarrow> TargetProfile \<Rightarrow> ResolveLimits \<Rightarrow> 'k RelaxablePin list \<Rightarrow> 'k CandidateOptions list \<Rightarrow> bool" where
  "sound_list R profile limits pins options \<longleftrightarrow> length options \<le> length pins \<and>
     (\<forall>j<length options. sound_options R profile limits (pins ! j) (options ! j))"

definition discovered ::
  "('k :: linorder) resolver \<Rightarrow> TargetProfile \<Rightarrow> PackageSource list \<Rightarrow> ResolveLimits \<Rightarrow> time \<Rightarrow> 'k RelaxablePin \<Rightarrow>
     'k CandidateOptions \<Rightarrow> bool" where
  "discovered R profile sources limits started pin options \<longleftrightarrow>
     (\<exists>st st'. discover_candidates R pin profile sources limits started st = (Inr (options, False), st'))"

lemma padded_length: "length options \<le> length pins \<Longrightarrow> length (padded pins options) = length pins"
  by (simp add: padded_def)

lemma padded_nth: "j < length options \<Longrightarrow> padded pins options ! j = options ! j"
  by (simp add: padded_def nth_append)

text \<open>A result found at some frontier.\<close>

definition found_at_frontier ::
  "('k :: linorder) resolver \<Rightarrow> ParsedRequirements \<Rightarrow> TargetProfile \<Rightarrow> PackageSource list \<Rightarrow> ResolveLimits \<Rightarrow>
     'k RelaxablePin list \<Rightarrow> 'k search \<Rightarrow> 'k ResolutionResult \<Rightarrow> bool" where
  "found_at_frontier R parsed profile sources limits pins st result \<longleftrightarrow>
     (\<exists>options i versions. i < length options \<and> sound_list R profile limits pins options \<and>
       versions \<in> set (frontier_combinations pins (padded pins options) i) \<and>
       substituted R parsed profile sources pins (padded pins options) versions st result)"

lemma drop_ConsD: "y # ys = drop n xs \<Longrightarrow> n < length xs \<and> y = xs ! n \<and> ys = drop (Suc n) xs"
  by (induction xs arbitrary: n) (auto simp: drop_Cons split: nat.splits)

lemma silent_discover: "silent (discover_candidates R pin profile sources limits started)"
  unfolding discover_candidates_def by (rule silent_discover_from)

lemma frontier_step:
  assumes "attempt_candidate_frontier R parsed profile sources pins options i started limits st = (x, st')"
    and "options = before @ [alternatives]" "i = length before" "i < length pins"
    and "sound_list R profile limits pins options" "settled pins st" "distinct sources"
  shows "leaves pins st x st' \<and>
    (x = Inr None \<longrightarrow> (\<forall>versions\<in>set (frontier_combinations pins (padded pins options) i).
       exhausted sources pins (padded pins options) versions st')) \<and>
    (\<forall>result. x = Inr (Some result) \<longrightarrow> found_at_frontier R parsed profile sources limits pins st' result)"
proof -
  have len: "length (padded pins options) = length pins" using assms(5) by (simp add: padded_length sound_list_def)
  have "padded pins options ! i = options ! i" "i < length options" using assms(2,3) by (simp_all add: padded_nth)
  then have "\<forall>v\<in>set (co_versions (padded pins options ! i)). eligible (rp_original (pins ! i)) v"
    using assms(5) by (simp add: sound_list_def sound_options_def)
  then have proper: "\<forall>versions\<in>set (frontier_combinations pins (padded pins options) i). proper pins versions"
    using frontier_proper [OF assms(4) len] by blast
  have "try_combinations R parsed profile sources pins (padded pins options) started limits
      (frontier_combinations pins (padded pins options) i) st = (x, st')"
    using assms(1) by (simp add: attempt_candidate_frontier_def Let_def padded_def no_options_def)
  from combinations_result [OF this assms(6,7) proper] show ?thesis
    using \<open>i < length options\<close> assms(5) unfolding found_at_frontier_def by blast
qed

lemma search_pins_result:
  assumes "search_pins R parsed profile sources pins started limits rest options st = (x, st')"
    and "rest = drop (length options) pins" "sound_list R profile limits pins options"
    and "settled pins st" "distinct sources"
  shows "leaves pins st x st' \<and>
    (x = Inr None \<longrightarrow> (\<exists>os. length os = length pins \<and> take (length options) os = options \<and>
      sound_list R profile limits pins os \<and>
      (\<forall>i<length pins. length options \<le> i \<longrightarrow> discovered R profile sources limits started (pins ! i) (os ! i) \<and>
        (\<forall>versions\<in>set (frontier_combinations pins (padded pins (take (Suc i) os)) i).
          exhausted sources pins (padded pins (take (Suc i) os)) versions st')))) \<and>
    (\<forall>result. x = Inr (Some result) \<longrightarrow> found_at_frontier R parsed profile sources limits pins st' result)"
  using assms(1-4)
proof (induction rest arbitrary: options st)
  case Nil
  then have "length options = length pins" by (simp add: sound_list_def)
  with Nil show ?case by (auto simp: leaves_def settled_tidy intro!: exI [of _ options])
next
  case (Cons pin rest)
  let ?n = "length options"
  have n: "?n < length pins" "pin = pins ! ?n" "rest = drop (Suc ?n) pins"
    using drop_ConsD [OF Cons.prems(2)] by simp_all
  obtain y st0 where g: "guard R started limits st = (y, st0)" by (cases "guard R started limits st")
  note s0 = silentD [OF silent_guard g]
  show ?case
  proof (cases y)
    case (Inl e)
    with Cons.prems(1) g have "x = Inl e" "st' = st0" by (auto simp: andthen_def)
    then show ?thesis using leaves_same [OF Cons.prems(4) s0] by simp
  next
    case (Inr u)
    obtain z st1 where d: "discover_candidates R pin profile sources limits started st0 = (z, st1)"
      by (cases "discover_candidates R pin profile sources limits started st0")
    note s1 = same_goals_trans [OF s0 silentD [OF silent_discover d]]
    show ?thesis
    proof (cases z)
      case (Inl e)
      with Cons.prems(1) g Inr d have "x = Inl e" "st' = st1" by (auto simp: andthen_def)
      then show ?thesis using leaves_same [OF Cons.prems(4) s1] by simp
    next
      case z: (Inr p)
      obtain alternatives incomplete where p: "p = (alternatives, incomplete)" by (cases p)
      let ?options = "options @ [alternatives]"
      obtain w st2 where f: "attempt_candidate_frontier R parsed profile sources pins ?options ?n started limits st1 = (w, st2)"
        by (cases "attempt_candidate_frontier R parsed profile sources pins ?options ?n started limits st1")
      have "sound_options R profile limits pin alternatives" using discover_sound d z p by blast
      then have sound: "sound_list R profile limits pins ?options"
        using Cons.prems(3) n(1,2) by (auto simp: sound_list_def nth_append less_Suc_eq)
      have settled1: "settled pins st1" using Cons.prems(4) same_goals_settled [OF s1] by simp
      note fr = frontier_step [OF f refl refl n(1) sound settled1 assms(5)]
      have sub: "set (se_attempted st) \<subseteq> set (se_attempted st1)" "set (se_attempts st) \<subseteq> set (se_attempts st1)" using s1 by (simp_all add: same_goals_def)
      have leaves2: "leaves pins st w st2" using fr leaves_trans [OF sub] by blast
      have m: "w \<noteq> Inr None \<Longrightarrow> x = w \<and> st' = st2"
        using Cons.prems(1) g Inr d z p f by (auto simp: andthen_def split: sum.splits)
      have m_none: "w = Inr None \<Longrightarrow> (if incomplete \<or> (observations_remaining (se_observations st2) = 0 \<and> rest \<noteq> [])
          then stop RESOURCE_LIMIT (truncate_observations st2)
          else search_pins R parsed profile sources pins started limits rest ?options st2) = (x, st')"
        using Cons.prems(1) g Inr d z p f by (simp add: andthen_def)
      show ?thesis
      proof (cases "w = Inr None \<and> \<not> (incomplete \<or> (observations_remaining (se_observations st2) = 0 \<and> rest \<noteq> []))")
        case True
        then have rec: "search_pins R parsed profile sources pins started limits rest ?options st2 = (x, st')"
          and w: "w = Inr None" "\<not> incomplete" using m_none by auto
        have settled2: "settled pins st2" using leaves2 w by (simp add: leaves_def)
        have rest: "rest = drop (length ?options) pins" using n(3) by simp
        note ih = Cons.IH [OF rec rest sound settled2]
        have "leaves pins st x st'" using leaves2 ih leaves_trans [of st st2 pins x st'] by (simp add: leaves_def)
        moreover have "\<exists>os. length os = length pins \<and> take ?n os = options \<and> sound_list R profile limits pins os \<and>
            (\<forall>i<length pins. ?n \<le> i \<longrightarrow> discovered R profile sources limits started (pins ! i) (os ! i) \<and>
              (\<forall>versions\<in>set (frontier_combinations pins (padded pins (take (Suc i) os)) i).
                exhausted sources pins (padded pins (take (Suc i) os)) versions st'))" if x: "x = Inr None"
        proof -
          obtain os where os: "length os = length pins" "take (length ?options) os = ?options"
            "sound_list R profile limits pins os"
            and each: "\<forall>i<length pins. length ?options \<le> i \<longrightarrow> discovered R profile sources limits started (pins ! i) (os ! i) \<and>
              (\<forall>versions\<in>set (frontier_combinations pins (padded pins (take (Suc i) os)) i).
                exhausted sources pins (padded pins (take (Suc i) os)) versions st')"
            using ih x by blast
          have os_n: "take ?n os = options" "os ! ?n = alternatives" "take (Suc ?n) os = ?options"
            using os(2) by (auto simp: take_Suc_conv_app_nth n(1) os(1))
          have "discovered R profile sources limits started (pins ! ?n) (os ! ?n)"
            unfolding discovered_def os_n(2) using d [unfolded z p n(2)] w(2) by auto
          moreover have "\<forall>versions\<in>set (frontier_combinations pins (padded pins (take (Suc ?n) os)) ?n).
              exhausted sources pins (padded pins (take (Suc ?n) os)) versions st'"
            unfolding os_n(3) using fr w(1) ih exhausted_mono by blast
          ultimately have "\<forall>i<length pins. ?n \<le> i \<longrightarrow> discovered R profile sources limits started (pins ! i) (os ! i) \<and>
              (\<forall>versions\<in>set (frontier_combinations pins (padded pins (take (Suc i) os)) i).
                exhausted sources pins (padded pins (take (Suc i) os)) versions st')"
            using each by (metis Suc_leI le_neq_implies_less length_append_singleton)
          with os(1,3) os_n(1) show ?thesis by blast
        qed
        ultimately show ?thesis using ih by blast
      next
        case False
        then consider (stop) "w = Inr None" "x = Inl (StopResolution RESOURCE_LIMIT)" "st' = truncate_observations st2"
          | (same) "x = w" "st' = st2" "w \<noteq> Inr None"
          using m m_none by (cases "w = Inr None") (auto simp: stop_def split: if_splits)
        then show ?thesis
        proof cases
          case stop
          have "same_goals st2 st'" using stop(3) same_goals_truncate by simp
          then have "leaves pins st x st'" using leaves2 stop(2) same_goals_tidy [of st2 st' pins]
            by (simp add: leaves_def same_goals_def)
          then show ?thesis using stop(2) by simp
        next
          case same
          then show ?thesis using leaves2 fr by auto
        qed
      qed
    qed
  qed
qed

end
