(* ===== verification/SearchProperties.thy ===== *)
theory SearchProperties
  imports SearchFacts
begin

section \<open>What \<open>CompatibleResolver.resolve\<close> guarantees\<close>

text \<open>
  The properties of the compatible resolver on the definitions of Compatible: its bounds, that it never
  repeats an attempt, where its results come from, that it gives up only after every combination, and what
  its failure codes mean.
\<close>

subsection \<open>A search from its start\<close>

lemma start_settled: "tried_originals pins [] (start_search R)"
  by (simp add: tried_originals_def start_search_def)

lemma run_search_result:
  assumes "run_search R parsed profile sources pins limits (start_search R) = (x, st)" "distinct sources"
  shows "tidy pins st \<and>
    (x = Inr None \<longrightarrow> settled pins st \<and> (\<forall>s\<in>set sources. \<exists>a\<in>set (se_attempts st). attempt_key a = (original_keys pins, s)) \<and>
      (\<exists>os. length os = length pins \<and> sound_list R profile limits pins os \<and>
      (\<forall>i<length pins. discovered R profile sources limits (rs_clock R 0) (pins ! i) (os ! i) \<and>
        (\<forall>versions\<in>set (frontier_combinations pins (padded pins (take (Suc i) os)) i).
          exhausted sources pins (padded pins (take (Suc i) os)) versions st)))) \<and>
    (\<forall>result. x = Inr (Some result) \<longrightarrow>
      (\<exists>source\<in>set sources. answered R parsed profile pins (map rp_original pins) parsed source st result) \<or>
      found_at_frontier R parsed profile sources limits pins st result)"
proof -
  let ?go = "attempt_originals R parsed profile (selections_of pins (map rp_original pins)) (rs_clock R 0) limits sources"
  obtain y st1 where o: "?go (start_search R) = (y, st1)" by (cases "?go (start_search R)")
  have one: "tidy pins st1" "y = Inr None \<longrightarrow> tried_originals pins sources st1"
    "\<forall>result. y = Inr (Some result) \<longrightarrow>
      (\<exists>source\<in>set sources. answered R parsed profile pins (map rp_original pins) parsed source st1 result)"
    using originals_result [OF o start_settled] assms(2) by simp_all
  show ?thesis
  proof (cases "y = Inr None")
    case False
    with assms(1) o have "x = y" "st = st1" by (auto simp: run_search_def andthen_def Let_def split: sum.splits if_splits)
    then show ?thesis using one False by auto
  next
    case True
    with assms(1) o have s: "search_pins R parsed profile sources pins (rs_clock R 0) limits pins [] st1 = (x, st)"
      by (simp add: run_search_def andthen_def Let_def)
    have tried: "tried_originals pins sources st1" using one(2) True by simp
    have settled: "settled pins st1" by (rule tried_settled [OF tried assms(2)])
    have "sound_list R profile limits pins []" by (simp add: sound_list_def)
    note r = search_pins_result [OF s _ this settled assms(2), simplified]
    have "\<exists>a\<in>set (se_attempts st). attempt_key a = (original_keys pins, s)" if "s \<in> set sources" for s
    proof -
      have "(original_keys pins, s) \<in> set (map attempt_key (se_attempts st1))"
        using tried that by (simp add: tried_originals_def)
      then show ?thesis using r by (auto simp: leaves_def)
    qed
    with r show ?thesis by (auto simp: leaves_def)
  qed
qed

subsection \<open>Bounds\<close>

text \<open>The attempts and the rejections an outcome reports.\<close>

fun attempts_of :: "'k resolve_error + 'k ResolutionResult \<Rightarrow> 'k ResolutionAttempt list" where
  "attempts_of (Inr result) = rr_attempts result"
| "attempts_of (Inl (Incompatible e)) = ce_attempts e"
| "attempts_of (Inl (ResolveRaised _)) = []"

fun rejections_of :: "'k resolve_error + 'k ResolutionResult \<Rightarrow> CandidateRejection list" where
  "rejections_of (Inr result) = rr_rejections result"
| "rejections_of (Inl (Incompatible e)) = ce_rejections e"
| "rejections_of (Inl (ResolveRaised _)) = []"

lemma answered_reports:
  "answered R parsed profile pins versions req source st result \<Longrightarrow>
     rr_attempts result = se_attempts st \<and> rr_rejections result = br_items (se_rejections st)"
  by (auto simp: answered_def successful_result_def)

lemma found_reports:
  "found_at_frontier R parsed profile sources limits pins st result \<Longrightarrow>
     rr_attempts result = se_attempts st \<and> rr_rejections result = br_items (se_rejections st)"
  unfolding found_at_frontier_def substituted_def using answered_reports by blast

lemma outcome_reports:
  assumes "resolve R parsed profile sources limits = out" "out \<notin> range (Inl \<circ> ResolveRaised)"
  obtains pins x st where "relaxable_pins (rs_packaging R) parsed = Inr pins" "distinct sources"
    "run_search R parsed profile sources pins limits (start_search R) = (x, st)"
    "attempts_of out = se_attempts st" "rejections_of out = br_items (se_rejections st)"
  using assms
proof (cases rule: resolve_cases)
  case (1 pins x st)
  have "attempts_of out = se_attempts st \<and> rejections_of out = br_items (se_rejections st)"
    using 1(5)
  proof (elim disjE exE conjE)
    fix result assume x: "x = Inr (Some result)" "out = Inr result"
    then have "(\<exists>source\<in>set sources. answered R parsed profile pins (map rp_original pins) parsed source st result) \<or>
        found_at_frontier R parsed profile sources limits pins st result"
      using run_search_result [OF 1(4,2)] by blast
    then show ?thesis using x(2) answered_reports found_reports by fastforce
  qed (simp_all add: resolution_failure_def)
  with 1 show thesis using that by blast
qed

text \<open>C28 The resolver never makes an attempt twice: no two attempts it reports have the same versions and the
  same source.\<close>

theorem no_attempt_repeated:
  "distinct (map attempt_key (attempts_of (resolve R parsed profile sources limits)))"
proof (cases "resolve R parsed profile sources limits \<in> range (Inl \<circ> ResolveRaised)")
  case False
  from refl False show ?thesis
  proof (cases rule: outcome_reports)
    case (1 pins x st)
    from run_search_result [OF 1(3,2)] 1(4) show ?thesis by (simp add: tidy_def)
  qed
qed auto

text \<open>C29 Under admissible limits a resolution reports at most the allowed number of attempts (100 at most)
  and 2000 rejections, whatever the clock, the provider and the strict resolver do.\<close>

theorem resolution_bounded:
  assumes "resolve_limits_ok limits"
  shows "int (length (attempts_of (resolve R parsed profile sources limits))) \<le> lim_max_resolution_attempts limits \<and>
    lim_max_resolution_attempts limits \<le> 100 \<and>
    length (rejections_of (resolve R parsed profile sources limits)) \<le> 2000"
proof (cases "resolve R parsed profile sources limits \<in> range (Inl \<circ> ResolveRaised)")
  case True
  with assms show ?thesis by (auto simp: resolve_limits_ok_def)
next
  case False
  from refl False show ?thesis
  proof (cases rule: outcome_reports)
    case (1 pins x st)
    have "within_budgets R limits (start_search R)" using assms by (intro start_within) (simp add: resolve_limits_ok_def)
    from tripleD [OF bounded_run_search [unfolded bounded_def] this] 1(3) have "within_budgets R limits st"
      unfolding stops_def by (cases x) blast+
    then show ?thesis using 1(4,5) assms
      by (simp add: within_budgets_def few_def MAX_RESOLUTION_REJECTIONS_def resolve_limits_ok_def)
  qed
qed

subsection \<open>Where a result comes from\<close>

lemma frontier_choice:
  assumes "i < length options" "sound_list R profile limits pins options" "source_supports_substitutions source pins versions (padded pins options)"
    and "versions \<in> set (frontier_combinations pins (padded pins options) i)" "j < length pins"
  shows "versions ! j = rp_original (pins ! j) \<or>
    (eligible (rp_original (pins ! j)) (versions ! j) \<and> offered R profile (rp_package (pins ! j)) (versions ! j) source)"
proof (cases "versions ! j = rp_original (pins ! j)")
  case False
  have len: "length options \<le> length pins" using assms(2) by (simp add: sound_list_def)
  then have i: "i < length pins" "length (padded pins options) = length pins" using assms(1) by (simp_all add: padded_length)
  note v = frontier_mem [OF i, THEN iffD1, OF assms(4)]
  have "j \<le> i" using v assms(5) False by (metis not_le_imp_less)
  then have j: "versions ! j \<in> set (co_versions (options ! j))" "j < length options"
    using v False assms(1) by (auto simp: known_version_def padded_nth le_less)
  have sound: "sound_options R profile limits (pins ! j) (options ! j)" using assms(2) j(2) by (simp add: sound_list_def)
  then have e: "eligible (rp_original (pins ! j)) (versions ! j)" using j(1) by (simp add: sound_options_def)
  have "(pins ! j, versions ! j, padded pins options ! j) \<in> set (zip pins (zip versions (padded pins options)))"
    using assms(5) v i by (auto simp: in_set_zip intro!: exI [of _ j])
  then have "supports (options ! j) (versions ! j) source"
    using assms(3) eligible_differs [OF e] j(2)
    by (auto simp: source_supports_substitutions_def list_all_iff same_version_def padded_nth)
  with sound e show ?thesis by (simp add: sound_options_def)
qed simp

text \<open>C27 A successful resolution is an answer of the strict resolver: for the original requirements, or for
  requirements rebuilt with a version for every pin that is the original or an eligible candidate, one
  within the compatibility boundary that the same source offers with a wheel and a Requires-Python that fit
  the target.\<close>

theorem result_from_strict_resolver:
  assumes "resolve R parsed profile sources limits = Inr result"
  shows "\<exists>pins source req versions call r. relaxable_pins (rs_packaging R) parsed = Inr pins \<and> source \<in> set sources \<and>
    rr_source result = Some source \<and> rs_strict R call req profile (source_value source) = StrictResult r \<and>
    rr_packages result = rr_packages r \<and> length versions = length pins \<and>
    (req = parsed \<and> versions = map rp_original pins \<or> rebuild_requirements R parsed pins versions = Inr req) \<and>
    (\<forall>j<length pins. versions ! j = rp_original (pins ! j) \<or>
      (eligible (rp_original (pins ! j)) (versions ! j) \<and> offered R profile (rp_package (pins ! j)) (versions ! j) source))"
proof -
  have "Inr result \<notin> range (Inl \<circ> ResolveRaised)" by auto
  from assms this show ?thesis
  proof (cases rule: resolve_cases)
    case (1 pins x st)
    then have x: "x = Inr (Some result)" by auto
    have report: "rr_source result = Some source \<and> (\<exists>call r. rs_strict R call req profile (source_value source) = StrictResult r \<and>
        rr_packages result = rr_packages r)" if "answered R parsed profile pins versions req source st result" for versions req source
    proof -
      obtain call r where "rs_strict R call req profile (source_value source) = StrictResult r"
        "result = successful_result R r parsed source st" using \<open>answered R parsed profile pins versions req source st result\<close>
        unfolding answered_def by blast
      then show ?thesis by (simp add: successful_result_def) metis
    qed
    from run_search_result [OF 1(4,2)] x consider
      (original) source where "source \<in> set sources" "answered R parsed profile pins (map rp_original pins) parsed source st result"
      | (frontier) "found_at_frontier R parsed profile sources limits pins st result" by blast
    then show ?thesis
    proof cases
      case original
      then show ?thesis using report 1(3) by (intro exI [of _ pins] exI [of _ source] exI [of _ parsed]
          exI [of _ "map rp_original pins"]) auto
    next
      case frontier
      then obtain options i versions source req where f: "i < length options" "sound_list R profile limits pins options"
        "versions \<in> set (frontier_combinations pins (padded pins options) i)"
        "source \<in> set sources" "rebuild_requirements R parsed pins versions = Inr req"
        "source_supports_substitutions source pins versions (padded pins options)"
        "answered R parsed profile pins versions req source st result"
        unfolding found_at_frontier_def substituted_def by blast
      have "i < length pins" "length (padded pins options) = length pins"
        using f(1,2) by (simp_all add: padded_length sound_list_def)
      then have "length versions = length pins" using frontier_mem f(3) by blast
      then show ?thesis using report [OF f(7)] 1(3) f(4,5) frontier_choice [OF f(1,2,6,3)] by blast
    qed
  qed
qed

subsection \<open>Failures\<close>

lemma failure_state:
  assumes "resolve R parsed profile sources limits = Inl (Incompatible e)" "resolve_limits_ok limits"
  obtains pins x st where "relaxable_pins (rs_packaging R) parsed = Inr pins" "distinct sources"
    "run_search R parsed profile sources pins limits (start_search R) = (x, st)"
    "e = resolution_failure R (ce_code e) parsed st"
    "(x = Inl (StopResolution (ce_code e)) \<and> justified R (rs_clock R 0) limits (StopResolution (ce_code e)) st) \<or>
     (x = Inr None \<and> ce_code e = (if bu_truncated (se_observations st) then RESOURCE_LIMIT else EXHAUSTED))"
proof -
  have "Inl (Incompatible e) \<notin> range (Inl \<circ> ResolveRaised)" by auto
  from assms(1) this show thesis
  proof (cases rule: resolve_cases)
    case (1 pins x st)
    have start: "within_budgets R limits (start_search R)"
      using assms(2) by (intro start_within) (simp add: resolve_limits_ok_def)
    from 1(5) show thesis
    proof (elim disjE exE conjE)
      fix c assume x: "x = Inl (StopResolution c)" "Inl (Incompatible e) = Inl (Incompatible (resolution_failure R c parsed st))"
      then have c: "ce_code e = c" "e = resolution_failure R c parsed st" by (simp_all add: resolution_failure_def)
      from tripleD(2) [OF bounded_run_search [unfolded bounded_def] start] 1(4) x(1)
      have "justified R (rs_clock R 0) limits (StopResolution c) st" unfolding stops_def by blast
      with 1 x c show thesis by (intro that [OF 1(3,2,4)]) simp_all
    next
      assume x: "x = Inr None" and e: "Inl (Incompatible e) = Inl (Incompatible (resolution_failure R
        (if bu_truncated (se_observations st) then RESOURCE_LIMIT else EXHAUSTED) parsed st))"
      then show thesis by (intro that [OF 1(3,2,4)]) (auto simp: resolution_failure_def)
    next
      fix result assume "Inl (Incompatible e) = Inr result"
      then show thesis by simp
    qed
  qed
qed

text \<open>C30 A failed resolution gives its reason: a clock reading at or past the timeout, the full number of
  attempts, observations cut off or the full number of combinations visited; EXHAUSTED never hides
  truncated observations, and no failure has the code of a single attempt.\<close>

theorem failure_justified:
  assumes "resolve R parsed profile sources limits = Inl (Incompatible e)" "resolve_limits_ok limits"
  shows "case ce_code e of
      TIMEOUT \<Rightarrow> \<exists>t. lim_timeout limits \<le> rs_clock R t - rs_clock R 0
    | ATTEMPT_LIMIT \<Rightarrow> int (length (ce_attempts e)) = lim_max_resolution_attempts limits
    | RESOURCE_LIMIT \<Rightarrow> ce_observations_truncated e \<or>
        (\<exists>pins x st. run_search R parsed profile sources pins limits (start_search R) = (x, st) \<and>
          cb_visited (se_combinations st) = rs_max_combinations R)
    | EXHAUSTED \<Rightarrow> \<not> ce_observations_truncated e
    | STRICT_RESOLUTION \<Rightarrow> False"
  using assms
proof (cases rule: failure_state)
  case (1 pins x st)
  have e: "ce_attempts e = se_attempts st" "ce_observations_truncated e = bu_truncated (se_observations st)"
    by (subst 1(4), simp add: resolution_failure_def)+
  from 1(5) show ?thesis
  proof (elim disjE conjE)
    assume "justified R (rs_clock R 0) limits (StopResolution (ce_code e)) st"
    then show ?thesis using e 1(3) by (cases "ce_code e") (auto simp: justified_def)
  next
    assume "ce_code e = (if bu_truncated (se_observations st) then RESOURCE_LIMIT else EXHAUSTED)"
    then show ?thesis using e by simp
  qed
qed

lemma attempted_made:
  assumes "settled pins st" "attempted st (versions, source)"
  shows "\<exists>a\<in>set (se_attempts st). attempt_key a = goal_key (versions, source)"
proof -
  have "goal_key (versions, source) \<in> attempt_key ` set (se_attempts st)"
    using assms unfolding settled_def attempted_iff by blast
  then show ?thesis by (metis imageE)
qed

text \<open>The last substituted pin of a combination decides the frontier at which it was tried.\<close>

lemma combination_at_frontier:
  assumes "length versions = length pins" "length os = length pins" "versions \<noteq> map rp_original pins"
    and choice: "\<And>j. j < length pins \<Longrightarrow> versions ! j = rp_original (pins ! j) \<or>
      versions ! j \<in> set (co_versions (os ! j)) \<and> supports (os ! j) (versions ! j) source"
  obtains i where "i < length pins" "versions \<in> set (frontier_combinations pins (padded pins (take (Suc i) os)) i)"
    "source_supports_substitutions source pins versions (padded pins (take (Suc i) os))"
proof -
  let ?S = "{j. j < length pins \<and> versions ! j \<noteq> rp_original (pins ! j)}"
  define i where "i = Max ?S"
  have "?S \<noteq> {}" using assms(1,3) by (auto simp: list_eq_iff_nth_eq)
  then have i: "i \<in> ?S" unfolding i_def by (intro Max_in) simp_all
  have last: "versions ! j = rp_original (pins ! j)" if "j < length pins" "i < j" for j
  proof (rule ccontr)
    assume "versions ! j \<noteq> rp_original (pins ! j)"
    then have "j \<le> i" unfolding i_def using \<open>j < length pins\<close> by (intro Max_ge) simp_all
    with \<open>i < j\<close> show False by simp
  qed
  let ?pad = "padded pins (take (Suc i) os)"
  have len: "length ?pad = length pins" using assms(2) by (intro padded_length) simp
  have pad: "?pad ! j = os ! j" if "j \<le> i" for j
    using that i assms(2) by (simp add: padded_nth)
  have i_len: "i < length pins" using i by simp
  have known: "known_version pins ?pad j (versions ! j)" if "j < i" for j
    using choice [of j] pad [of j] that i_len by (auto simp: known_version_def)
  have "versions ! i \<in> set (co_versions (?pad ! i))" using choice [of i] i pad [of i] by auto
  show thesis
  proof (rule that)
    show "i < length pins" by (rule i_len)
    show "versions \<in> set (frontier_combinations pins ?pad i)"
      using frontier_mem [OF i_len len] assms(1) known last \<open>versions ! i \<in> set (co_versions (?pad ! i))\<close> by blast
    show "source_supports_substitutions source pins versions ?pad"
      unfolding source_supports_substitutions_def list_all_iff
    proof (safe)
      fix pin v o' assume m: "(pin, v, o') \<in> set (zip pins (zip versions ?pad))" and no: "\<not> supports o' v source"
      then obtain j where j: "j < length pins" "pin = pins ! j" "v = versions ! j" "o' = ?pad ! j"
        by (auto simp: in_set_zip)
      show "same_version v (rp_original pin)"
      proof (cases "j \<le> i")
        case True
        then show ?thesis using choice [OF j(1)] no j pad by (auto simp: same_version_def)
      next
        case False
        then show ?thesis using last [of j] j by (simp add: same_version_def)
      qed
    qed
  qed
qed

text \<open>C26 The resolver gives up with EXHAUSTED only when it has tried everything: for the options it
  discovered for the pins, every combination of original and candidate versions was attempted at every
  source that supports its substitutions, and the strict resolver refused each.\<close>

theorem exhausted_is_complete:
  assumes "resolve R parsed profile sources limits = Inl (Incompatible e)" "resolve_limits_ok limits" "ce_code e = EXHAUSTED"
  shows "\<exists>pins os. relaxable_pins (rs_packaging R) parsed = Inr pins \<and> length os = length pins \<and>
    (\<forall>i<length pins. discovered R profile sources limits (rs_clock R 0) (pins ! i) (os ! i)) \<and>
    (\<forall>versions. \<forall>source\<in>set sources. length versions = length pins \<and>
      (\<forall>j<length pins. versions ! j = rp_original (pins ! j) \<or>
        versions ! j \<in> set (co_versions (os ! j)) \<and> supports (os ! j) (versions ! j) source) \<longrightarrow>
      (\<exists>a\<in>set (ce_attempts e). attempt_key a = goal_key (versions, source) \<and> ra_failure a = Some STRICT_RESOLUTION))"
  using assms(1,2)
proof (cases rule: failure_state)
  case (1 pins x st)
  have attempts: "ce_attempts e = se_attempts st" by (subst 1(4), simp add: resolution_failure_def)
  have x: "x = Inr None" using 1(5) assms(3) by (auto simp: justified_def)
  from run_search_result [OF 1(3,2)] x obtain os where settled: "settled pins st"
    and originals: "\<forall>s\<in>set sources. \<exists>a\<in>set (se_attempts st). attempt_key a = (original_keys pins, s)"
    and os: "length os = length pins" "\<forall>i<length pins. discovered R profile sources limits (rs_clock R 0) (pins ! i) (os ! i)"
    and each: "\<forall>i<length pins. \<forall>versions\<in>set (frontier_combinations pins (padded pins (take (Suc i) os)) i).
      exhausted sources pins (padded pins (take (Suc i) os)) versions st" by blast
  have made: "\<exists>a\<in>set (ce_attempts e). attempt_key a = goal_key (versions, source) \<and> ra_failure a = Some STRICT_RESOLUTION"
    if source: "source \<in> set sources" and len: "length versions = length pins"
      and choice: "\<forall>j<length pins. versions ! j = rp_original (pins ! j) \<or>
        versions ! j \<in> set (co_versions (os ! j)) \<and> supports (os ! j) (versions ! j) source" for versions source
  proof -
    have "\<exists>a\<in>set (se_attempts st). attempt_key a = goal_key (versions, source)"
    proof (cases "versions = map rp_original pins")
      case True
      then have "goal_key (versions, source) = (original_keys pins, source)" by (simp add: goal_key_def original_keys_def)
      then show ?thesis using originals source by simp
    next
      case False
      obtain i where "i < length pins" "versions \<in> set (frontier_combinations pins (padded pins (take (Suc i) os)) i)"
        "source_supports_substitutions source pins versions (padded pins (take (Suc i) os))"
        by (rule combination_at_frontier [OF len os(1) False]) (use choice in blast)
      then have "attempted st (versions, source)" using each source by (simp add: exhausted_def)
      then show ?thesis by (rule attempted_made [OF settled])
    qed
    then show ?thesis using settled unfolding attempts settled_def by blast
  qed
  show ?thesis using 1(1) os made by blast
qed

end
