(* ===== verification/RequirementFacts.thy ===== *)
theory RequirementFacts
  imports Requirements "HOL-Library.Multiset"
begin

section \<open>What an accepted requirements file holds\<close>

text \<open>
  The invariant of the parsing loop: the items are the groups of the accepted lines by package and marker,
  each with the union of their constraints and extras.  From it follow the properties of
  \<open>parse_requirements\<close>.
\<close>

subsection \<open>Constraints\<close>

definition supported :: "'k packaging \<Rightarrow> Specifier \<Rightarrow> bool" where
  "supported P sp \<longleftrightarrow> sp_operator sp \<in> set SUPPORTED_OPERATORS \<and> CHR ''*'' \<notin> set (sp_version sp) \<and>
     pkg_version P (sp_version sp) \<noteq> None"

lemma check_specifiers_Inr:
  "check_specifiers P sps n t = Inr u \<Longrightarrow> \<forall>sp\<in>set sps. supported P sp"
  by (induction sps) (auto simp: supported_def split: if_splits)

lemma deduplicate_facts:
  "set (deduplicate_specifiers P cs) \<subseteq> set cs"
  "sp_key ` set (deduplicate_specifiers P cs) = sp_key ` set cs"
  "distinct (map sp_key (deduplicate_specifiers P cs))"
proof -
  let ?d = "dict_of (map (\<lambda>sp. (sp_key sp, sp)) cs)"
  note d = dict_of_facts [of "map (\<lambda>sp. (sp_key sp, sp)) cs"]
  have key: "sp_key (snd p) = fst p" if "p \<in> set ?d" for p using d(1) that by auto
  have "sp_key ` snd ` set ?d = fst ` set ?d" using key by (force simp: image_image)
  also have "\<dots> = sp_key ` set cs" using d(2) by (simp add: image_image)
  finally show "sp_key ` set (deduplicate_specifiers P cs) = sp_key ` set cs"
    by (simp add: deduplicate_specifiers_def)
  show "set (deduplicate_specifiers P cs) \<subseteq> set cs" using d(1) by (auto simp: deduplicate_specifiers_def)
  have "map sp_key (map snd ?d) = map fst ?d" using key by simp
  with d(3) have "distinct (map sp_key (map snd ?d))" by metis
  moreover have "mset (map sp_key (deduplicate_specifiers P cs)) = mset (map sp_key (map snd ?d))"
    by (simp only: deduplicate_specifiers_def mset_map mset_sort)
  ultimately show "distinct (map sp_key (deduplicate_specifiers P cs))"
    using mset_eq_imp_distinct_iff by blast
qed



subsection \<open>One line\<close>








definition entry_ok :: "('k :: linorder) packaging \<Rightarrow> RequirementItem \<times> Specifier list \<Rightarrow> bool" where
  "entry_ok P e \<longleftrightarrow> it_specifier (fst e) = format_specifiers (snd e) \<and> \<not> constraints_conflict P (snd e) \<and>
     (\<forall>sp\<in>set (snd e). supported P sp) \<and> distinct (map sp_key (snd e)) \<and> pip_file_safe (format_item (fst e)) = None"

lemma line_entry_ok:
  assumes "line_entry P n t = Inr (Some e)"
  shows "entry_ok P e" "it_line_no (fst e) = n" "it_original_text (fst e) = t"
proof -
  obtain s parsed cs where s: "requirement_text t n = Inr (Some s)" and p: "parse_line P s n t = Inr (parsed, cs)"
    and no: "\<not> constraints_conflict P cs" and e: "e = (\<lparr>it_line_no = n, it_name = pkg_canonicalize P (rq_name parsed),
      it_extras = sort (map (pkg_canonicalize P) (rq_extras parsed)),
      it_specifier = format_specifiers cs, it_marker = rq_marker parsed, it_original_text = t\<rparr>, cs)"
    and safe: "ensure_pip_file_safe (format_item (fst e)) n t = Inr ()"
    using assms by (auto simp: line_entry_def Let_def split: sum.splits option.splits prod.splits if_splits)
  have "cs = deduplicate_specifiers P (rq_specifier parsed)" "\<forall>sp\<in>set (rq_specifier parsed). supported P sp"
    using p check_specifiers_Inr by (fastforce simp: parse_line_def split: option.splits if_splits sum.splits)+
  then have "\<forall>sp\<in>set cs. supported P sp" "distinct (map sp_key cs)"
    using deduplicate_facts(1,3) [of P "rq_specifier parsed"] by auto
  moreover have "pip_file_safe (format_item (fst e)) = None"
    using safe by (auto simp: ensure_pip_file_safe_def split: option.splits)
  ultimately show "entry_ok P e" using no by (simp add: entry_ok_def e)
  show "it_line_no (fst e) = n" "it_original_text (fst e) = t" by (simp_all add: e)
qed

subsection \<open>The accepted lines and their groups\<close>

type_synonym entry = "RequirementItem \<times> Specifier list"

fun entries :: "('k :: linorder) packaging \<Rightarrow> int \<Rightarrow> string list \<Rightarrow> entry list" where
  "entries P n [] = []"
| "entries P n (t # ts) = (case line_entry P n t of
     Inr (Some e) \<Rightarrow> e # entries P (n + 1) ts
   | _ \<Rightarrow> entries P (n + 1) ts)"

definition group_entries :: "entry list \<Rightarrow> item_key \<Rightarrow> entry list" where
  "group_entries es k = filter (\<lambda>e. item_key (fst e) = k) es"

text \<open>An item is its group: the line of the first member, the constraints and extras of all.\<close>

definition item_of_group :: "('k :: linorder) packaging \<Rightarrow> entry list \<Rightarrow> RequirementItem \<Rightarrow> Specifier list \<Rightarrow> bool" where
  "item_of_group P g item cs \<longleftrightarrow> g \<noteq> [] \<and>
     it_line_no item = it_line_no (fst (hd g)) \<and> it_original_text item = it_original_text (fst (hd g)) \<and>
     it_specifier item = format_specifiers cs \<and> \<not> constraints_conflict P cs \<and>
     (\<forall>sp\<in>set cs. supported P sp) \<and> distinct (map sp_key cs) \<and>
     sp_key ` set cs = (\<Union>e\<in>set g. sp_key ` set (snd e)) \<and>
     set (it_extras item) = (\<Union>e\<in>set g. set (it_extras (fst e)))"

definition parsing_inv :: "('k :: linorder) packaging \<Rightarrow> entry list \<Rightarrow> parsing \<Rightarrow> bool" where
  "parsing_inv P es st \<longleftrightarrow> distinct (map item_key (ps_items st)) \<and>
     (\<forall>k i. map_of (ps_indexes st) k = Some i \<longleftrightarrow> i < length (ps_items st) \<and> item_key (ps_items st ! i) = k) \<and>
     item_key ` set (ps_items st) = (item_key \<circ> fst) ` set es \<and>
     (\<forall>item\<in>set (ps_items st). \<exists>cs. map_of (ps_constraints st) (item_key item) = Some cs \<and>
       item_of_group P (group_entries es (item_key item)) item cs)"

lemma parsing_inv_index:
  "parsing_inv P es st \<Longrightarrow> map_of (ps_indexes st) k = Some i \<longleftrightarrow> i < length (ps_items st) \<and> item_key (ps_items st ! i) = k"
  unfolding parsing_inv_def by blast

lemma parsing_inv_distinct: "parsing_inv P es st \<Longrightarrow> distinct (map item_key (ps_items st))"
  and parsing_inv_keys: "parsing_inv P es st \<Longrightarrow> item_key ` set (ps_items st) = (item_key \<circ> fst) ` set es"
  and parsing_inv_group: "parsing_inv P es st \<Longrightarrow> item \<in> set (ps_items st) \<Longrightarrow>
    \<exists>cs. map_of (ps_constraints st) (item_key item) = Some cs \<and>
      item_of_group P (group_entries es (item_key item)) item cs"
  by (auto simp: parsing_inv_def)

lemma group_entries_append:
  "group_entries (es @ [e]) k = (if item_key (fst e) = k then group_entries es k @ [e] else group_entries es k)"
  by (simp add: group_entries_def)

lemma group_entries_empty: "k \<notin> (item_key \<circ> fst) ` set es \<Longrightarrow> group_entries es k = []"
  by (auto simp: group_entries_def filter_empty_conv)

lemma item_of_group_single: "entry_ok P (item, cs) \<Longrightarrow> item_of_group P [(item, cs)] item cs"
  by (simp add: item_of_group_def entry_ok_def)

lemma item_of_group_merge:
  assumes "item_of_group P g existing cs" "entry_ok P (item, cs')"
    and "merged = deduplicate_specifiers P (cs @ cs')" "\<not> constraints_conflict P merged"
  shows "item_of_group P (g @ [(item, cs')]) (existing\<lparr>it_extras := sort (remdups (it_extras existing @ it_extras item)),
      it_specifier := format_specifiers merged\<rparr>) merged"
proof -
  have "\<forall>sp\<in>set merged. supported P sp" "sp_key ` set merged = sp_key ` set cs \<union> sp_key ` set cs'"
    "distinct (map sp_key merged)"
    using deduplicate_facts [of P "cs @ cs'"] assms(1-3) by (auto simp: item_of_group_def entry_ok_def image_Un)
  with assms(1,2,4) show ?thesis by (simp add: item_of_group_def Un_commute)
qed

text \<open>Adding an entry under a key of its own, and changing the item of the key.\<close>

lemma parsing_inv_add:
  assumes inv: "parsing_inv P es st" and ok: "entry_ok P (item, cs)" and "map_of (ps_indexes st) (item_key item) = None"
  shows "parsing_inv P (es @ [(item, cs)]) \<lparr>ps_items = ps_items st @ [item],
     ps_indexes = dict_put (item_key item) (length (ps_items st)) (ps_indexes st),
     ps_constraints = dict_put (item_key item) cs (ps_constraints st)\<rparr>"
proof -
  let ?k = "item_key item"
  have new: "?k \<notin> item_key ` set (ps_items st)"
  proof
    assume "?k \<in> item_key ` set (ps_items st)"
    then obtain i where "i < length (ps_items st)" "item_key (ps_items st ! i) = ?k"
      by (auto simp: in_set_conv_nth)
    then have "map_of (ps_indexes st) ?k = Some i" by (simp add: parsing_inv_index [OF inv])
    with assms(3) show False by simp
  qed
  then have "group_entries es ?k = []" by (intro group_entries_empty) (simp add: parsing_inv_keys [OF inv])
  with item_of_group_single [OF ok] have g: "item_of_group P (group_entries (es @ [(item, cs)]) ?k) item cs"
    by (simp add: group_entries_append)
  have old: "\<exists>ds. ((map_of (ps_constraints st))(?k \<mapsto> cs)) (item_key i) = Some ds \<and>
      item_of_group P (group_entries (es @ [(item, cs)]) (item_key i)) i ds" if "i \<in> set (ps_items st)" for i
  proof -
    have "item_key i \<noteq> ?k" using that new by (metis image_eqI)
    then show ?thesis using parsing_inv_group [OF inv that] by (simp add: group_entries_append)
  qed
  have index: "((map_of (ps_indexes st))(?k \<mapsto> length (ps_items st))) k = Some i \<longleftrightarrow>
      i < length (ps_items st @ [item]) \<and> item_key ((ps_items st @ [item]) ! i) = k" for k i
  proof (cases "k = ?k")
    case True
    have "\<not> (i < length (ps_items st) \<and> item_key (ps_items st ! i) = ?k)"
      using new by (metis image_eqI nth_mem)
    then show ?thesis by (auto simp: True nth_append less_Suc_eq)
  next
    case False
    then show ?thesis by (auto simp: parsing_inv_index [OF inv] nth_append less_Suc_eq)
  qed
  show ?thesis unfolding parsing_inv_def
    using new g old index parsing_inv_distinct [OF inv] parsing_inv_keys [OF inv]
    by (simp del: split_paired_All split_paired_Ex add: image_iff)
qed

lemma parsing_inv_merge:
  assumes inv: "parsing_inv P es st" and ok: "entry_ok P (item, cs')"
    and i: "map_of (ps_indexes st) (item_key item) = Some i" and cs: "map_of (ps_constraints st) (item_key item) = Some cs"
    and merged: "merged = deduplicate_specifiers P (cs @ cs')" "\<not> constraints_conflict P merged"
  shows "parsing_inv P (es @ [(item, cs')]) (st\<lparr>ps_constraints := dict_put (item_key item) merged (ps_constraints st),
     ps_items := (ps_items st)[i := (ps_items st ! i)\<lparr>
       it_extras := sort (remdups (it_extras (ps_items st ! i) @ it_extras item)),
       it_specifier := format_specifiers merged\<rparr>]\<rparr>)"
proof -
  let ?k = "item_key item" and ?old = "ps_items st ! i"
  let ?new = "?old\<lparr>it_extras := sort (remdups (it_extras ?old @ it_extras item)), it_specifier := format_specifiers merged\<rparr>"
  let ?items = "(ps_items st)[i := ?new]"
  have len: "i < length (ps_items st)" and key: "item_key ?old = ?k" using i parsing_inv_index [OF inv] by auto
  note dist = parsing_inv_distinct [OF inv]
  have k_new: "item_key ?new = ?k" using key by (simp add: item_key_def)
  have keys: "map item_key ?items = map item_key (ps_items st)" 
    using len key k_new map_update [of item_key "ps_items st" i ?new] list_update_id [of "map item_key (ps_items st)" i]
      nth_map [OF len, of item_key] by simp
  then have nth_keys: "j < length (ps_items st) \<Longrightarrow> item_key (?items ! j) = item_key (ps_items st ! j)" for j
    by (metis length_map nth_map length_list_update)
  have set_keys: "item_key ` set ?items = item_key ` set (ps_items st)" using keys by (metis set_map)
  have mem: "?k \<in> item_key ` set (ps_items st)" using nth_mem [OF len] key by (metis image_eqI)
  have "item_of_group P (group_entries es ?k) ?old cs" using parsing_inv_group [OF inv nth_mem [OF len]] key cs by simp
  from item_of_group_merge [OF this ok merged]
  have g: "item_of_group P (group_entries (es @ [(item, cs')]) ?k) ?new merged" by (simp add: group_entries_append)
  have each: "\<exists>ds. ((map_of (ps_constraints st))(?k \<mapsto> merged)) (item_key x) = Some ds \<and>
      item_of_group P (group_entries (es @ [(item, cs')]) (item_key x)) x ds" if x: "x \<in> set ?items" for x
  proof (cases "item_key x = ?k")
    case True
    obtain j where "j < length ?items" "?items ! j = x" using in_set_conv_nth [THEN iffD1, OF x] by blast
    then have j: "j < length (ps_items st)" "x = ?items ! j" by simp_all
    then have "item_key (ps_items st ! j) = item_key (ps_items st ! i)" using True key nth_keys by metis
    with dist len j(1) have "j = i" by (metis distinct_conv_nth length_map nth_map)
    with j len have "x = ?new" by simp
    with g k_new show ?thesis by simp
  next
    case False
    then have "x \<in> set (ps_items st)" using x k_new set_update_subset_insert [of "ps_items st" i ?new] by auto
    from parsing_inv_group [OF inv this] False show ?thesis by (simp add: group_entries_append)
  qed
  have index: "map_of (ps_indexes st) k = Some j \<longleftrightarrow> j < length ?items \<and> item_key (?items ! j) = k" for k j
    using parsing_inv_index [OF inv, of k j] nth_keys [of j] by auto
  have all_keys: "item_key ` set ?items = (item_key \<circ> fst) ` set (es @ [(item, cs')])"
  proof -
    have "(item_key \<circ> fst) ` set (es @ [(item, cs')]) = insert ?k (item_key ` set (ps_items st))"
      using parsing_inv_keys [OF inv] by simp
    then show ?thesis using set_keys mem by (simp only: insert_absorb)
  qed
  have "distinct (map item_key ?items)" unfolding keys by (rule dist)
  moreover have "ps_items (st\<lparr>ps_constraints := c, ps_items := ?items\<rparr>) = ?items"
    "ps_indexes (st\<lparr>ps_constraints := c, ps_items := ?items\<rparr>) = ps_indexes st"
    "ps_constraints (st\<lparr>ps_constraints := c, ps_items := ?items\<rparr>) = c" for c by simp_all
  ultimately show ?thesis unfolding parsing_inv_def map_of_dict_put using index each all_keys
    by (simp only: map_of_dict_put) blast
qed

subsection \<open>The loop\<close>

lemma merge_entry_inv:
  assumes "parsing_inv P es st" "entry_ok P (item, cs)" "merge_entry P item cs st = Inr st'"
  shows "parsing_inv P (es @ [(item, cs)]) st'"
proof (cases "map_of (ps_indexes st) (item_key item)")
  case None
  with assms show ?thesis using parsing_inv_add [OF assms(1,2) None] by (simp add: merge_entry_def Let_def)
next
  case (Some i)
  then have "ps_items st ! i \<in> set (ps_items st)" "item_key (ps_items st ! i) = item_key item"
    using parsing_inv_index [OF assms(1)] by auto
  then obtain ds where ds: "map_of (ps_constraints st) (item_key item) = Some ds"
    using parsing_inv_group [OF assms(1)] by fastforce
  from assms(3) Some ds have "\<not> constraints_conflict P (deduplicate_specifiers P (ds @ cs))"
    by (auto simp: merge_entry_def Let_def split: if_splits)
  from parsing_inv_merge [OF assms(1,2) Some ds refl this] assms(3) Some ds this show ?thesis
    by (simp add: merge_entry_def Let_def)
qed


lemma parse_lines_inv:
  "parse_lines P n ts st = Inr st' \<Longrightarrow> parsing_inv P es st \<Longrightarrow> parsing_inv P (es @ entries P n ts) st'"
proof (induction ts arbitrary: n st es)
  case (Cons t ts)
  show ?case
  proof (cases "line_entry P n t")
    case (Inr o')
    show ?thesis
    proof (cases o')
      case None
      with Cons Inr show ?thesis by simp
    next
      case (Some e)
      obtain item cs where e: "e = (item, cs)" by (cases e)
      with Cons.prems(1) Inr Some obtain st1 where st1: "merge_entry P item cs st = Inr st1"
        and rest: "parse_lines P (n + 1) ts st1 = Inr st'" by (auto split: sum.splits)
      have "entry_ok P (item, cs)" using line_entry_ok(1) Inr Some e by blast
      from Cons.IH [OF rest merge_entry_inv [OF Cons.prems(2) this st1]] Inr Some e
      show ?thesis by simp
    qed
  qed (use Cons.prems in simp)
qed simp



lemma entries_mem:
  "e \<in> set (entries P n ts) \<Longrightarrow>
     entry_ok P e \<and> (\<exists>k<length ts. it_line_no (fst e) = n + int k \<and> it_original_text (fst e) = ts ! k)"
proof (induction ts arbitrary: n)
  case (Cons t ts)
  show ?case
  proof (cases "line_entry P n t = Inr (Some e)")
    case True
    then show ?thesis using line_entry_ok [OF True] by (auto intro!: exI [of _ 0])
  next
    case False
    with Cons.prems have "e \<in> set (entries P (n + 1) ts)" by (auto split: sum.splits option.splits)
    from Cons.IH [OF this] obtain k where "entry_ok P e" "k < length ts"
      "it_line_no (fst e) = n + 1 + int k" "it_original_text (fst e) = ts ! k" by blast
    then show ?thesis by (auto intro!: exI [of _ "Suc k"])
  qed
qed simp

lemma entries_length: "length (entries P n ts) \<le> length ts"
  by (induction ts arbitrary: n) (auto intro: le_SucI split: sum.splits option.splits)

lemma ensure_items_safe_Inr: "ensure_items_safe items = Inr u \<Longrightarrow> item \<in> set items \<Longrightarrow> pip_file_safe (format_item item) = None"
  by (induction items) (auto simp: ensure_pip_file_safe_def split: sum.splits option.splits)


subsection \<open>The parser\<close>

definition no_parsing :: parsing where
  "no_parsing = \<lparr>ps_items = [], ps_indexes = [], ps_constraints = []\<rparr>"

lemma parsing_inv_empty: "parsing_inv P [] no_parsing"
  by (simp add: parsing_inv_def no_parsing_def)

text \<open>A run of the parser that returns, and its ingredients.\<close>

definition file_lines :: "(nat list \<Rightarrow> nat list option) \<Rightarrow> nat list \<Rightarrow> string list" where
  "file_lines gbk raw = (case decode_requirements gbk raw of
     Inl _ \<Rightarrow> [] | Inr (text, _) \<Rightarrow> logical_lines (normalize_newlines text))"

lemma parse_requirements_Inr:
  assumes "parse_requirements P gbk raw = Inr r"
  obtains st where "length raw \<le> MAX_INPUT_BYTES" "length (file_lines gbk raw) \<le> MAX_LOGICAL_LINES"
    "parse_lines P 1 (file_lines gbk raw) no_parsing = Inr st" "ensure_items_safe (ps_items st) = Inr ()"
    "pr_items r = ps_items st" "pr_normalized_text r = join_with [newline] (map format_item (ps_items st)) @ [newline]"
  using assms
  by (auto simp: parse_requirements_def file_lines_def no_parsing_def Let_def split: if_splits sum.splits prod.splits)

lemma parse_requirements_inv:
  assumes "parse_requirements P gbk raw = Inr r"
  obtains st where "parsing_inv P (entries P 1 (file_lines gbk raw)) st" "pr_items r = ps_items st"
proof -
  obtain st where st: "parse_lines P 1 (file_lines gbk raw) no_parsing = Inr st" "pr_items r = ps_items st"
    using parse_requirements_Inr [OF assms] by metis
  from parse_lines_inv [OF st(1) parsing_inv_empty] st(2) show thesis by (intro that) simp_all
qed

text \<open>C22 The items of an accepted file are the groups of its requirement lines by package and marker: one
  item for each group, at the line of its first member, with the union of the constraints and of the
  extras of its members and no conflict among them.\<close>

theorem parse_groups_lines:
  assumes "parse_requirements P gbk raw = Inr r" "es = entries P 1 (file_lines gbk raw)"
  shows "distinct (map item_key (pr_items r)) \<and> item_key ` set (pr_items r) = (item_key \<circ> fst) ` set es \<and>
    (\<forall>item\<in>set (pr_items r). \<exists>cs. item_of_group P (group_entries es (item_key item)) item cs)"
proof -
  obtain st where inv: "parsing_inv P es st" and items: "pr_items r = ps_items st"
    using parse_requirements_inv [OF assms(1)] assms(2) by metis
  show ?thesis unfolding items
    using parsing_inv_distinct [OF inv] parsing_inv_keys [OF inv] parsing_inv_group [OF inv] by blast
qed


lemma pip_file_safe_iff:
  "pip_file_safe s = None \<longleftrightarrow> \<not> re_search PIP_FILE_COMMENT s \<and> \<not> re_search PIP_ENVIRONMENT_VARIABLE s \<and>
     (\<forall>token\<in>set (split_on CHR '' '' s). \<not> startswith token ''-'')"
  by (simp add: pip_file_safe_def list_ex_iff)

text \<open>C24 The text handed to pip is one line for each item, and no line holds what pip reads as a comment,
  an option or an environment variable.\<close>

theorem normalized_text_safe:
  assumes "parse_requirements P gbk raw = Inr r"
  shows "pr_normalized_text r = join_with [newline] (map format_item (pr_items r)) @ [newline] \<and>
    (\<forall>item\<in>set (pr_items r). \<not> re_search PIP_FILE_COMMENT (format_item item) \<and>
      \<not> re_search PIP_ENVIRONMENT_VARIABLE (format_item item) \<and>
      (\<forall>token\<in>set (split_on CHR '' '' (format_item item)). \<not> startswith token ''-''))"
proof -
  obtain st :: parsing where st: "ensure_items_safe (ps_items st) = Inr ()" "pr_items r = ps_items st"
    "pr_normalized_text r = join_with [newline] (map format_item (ps_items st)) @ [newline]"
    by (rule parse_requirements_Inr [OF assms])
  have "pip_file_safe (format_item item) = None" if "item \<in> set (ps_items st)" for item
    using ensure_items_safe_Inr [OF st(1) that] .
  then show ?thesis using st(2,3) by (simp add: pip_file_safe_iff)
qed

text \<open>An accepted file is at most 512 KiB, has at most 2000 lines and at most as many items, each
  carrying the number and the text of a line of the file.\<close>

theorem parse_bounds:
  assumes "parse_requirements P gbk raw = Inr r"
  shows "length raw \<le> 524288 \<and> length (pr_items r) \<le> length (file_lines gbk raw) \<and>
    length (file_lines gbk raw) \<le> 2000 \<and>
    (\<forall>item\<in>set (pr_items r). \<exists>k<length (file_lines gbk raw).
       it_line_no item = 1 + int k \<and> it_original_text item = file_lines gbk raw ! k)"
proof -
  let ?ls = "file_lines gbk raw" and ?es = "entries P 1 (file_lines gbk raw)"
  obtain st where inv: "parsing_inv P ?es st" and items: "pr_items r = ps_items st"
    using parse_requirements_inv [OF assms] .
  have "length (pr_items r) = card (item_key ` set (pr_items r))"
    using parsing_inv_distinct [OF inv] items by (metis distinct_card length_map set_map)
  also have "\<dots> \<le> length ?es"
    unfolding items parsing_inv_keys [OF inv] by (metis card_length length_map set_map)
  also have "\<dots> \<le> length ?ls" by (rule entries_length)
  finally have n: "length (pr_items r) \<le> length ?ls" .
  have "\<exists>k<length ?ls. it_line_no item = 1 + int k \<and> it_original_text item = ?ls ! k" if "item \<in> set (pr_items r)" for item
  proof -
    obtain cs where g: "item_of_group P (group_entries ?es (item_key item)) item cs"
      using parsing_inv_group [OF inv] \<open>item \<in> set (pr_items r)\<close> items by auto
    then have "hd (group_entries ?es (item_key item)) \<in> set ?es"
      by (metis item_of_group_def group_entries_def filter_is_subset hd_in_set subsetD)
    from entries_mem [OF this] g show ?thesis by (auto simp: item_of_group_def)
  qed
  moreover have "length raw \<le> MAX_INPUT_BYTES" "length ?ls \<le> MAX_LOGICAL_LINES"
    by (rule parse_requirements_Inr [OF assms]; assumption)+
  ultimately show ?thesis using n by (simp add: MAX_INPUT_BYTES_def MAX_LOGICAL_LINES_def)
qed


subsection \<open>Witnesses\<close>

definition sample_lines :: "string list" where
  "sample_lines = [''a>=1.0 # x'', ''A<=2.0'']"

definition sample_file :: "nat list" where
  "sample_file = utf8_encode (join_with [newline] sample_lines)"

definition sample_item :: RequirementItem where
  "sample_item = \<lparr>it_line_no = 1, it_name = ''a'', it_extras = [], it_specifier = ''>=1.0,<=2.0'', it_marker = None,
     it_original_text = ''a>=1.0 # x''\<rparr>"

definition no_gbk :: "nat list \<Rightarrow> nat list option" where
  "no_gbk raw = None"

lemma sample_decoded: "decode_requirements no_gbk sample_file = Inr (join_with [newline] sample_lines, ''utf-8'')"
proof -
  have "take 3 sample_file \<noteq> [239, 187, 191]" by code_simp
  then show ?thesis
    by (simp add: decode_requirements_def Let_def) (simp add: sample_file_def utf8_roundtrip)
qed

lemma sample_file_lines: "logical_lines (normalize_newlines (join_with [newline] sample_lines)) = sample_lines"
  "file_lines no_gbk sample_file = sample_lines"
proof -
  show "logical_lines (normalize_newlines (join_with [newline] sample_lines)) = sample_lines" by code_simp
  then show "file_lines no_gbk sample_file = sample_lines" by (simp add: file_lines_def sample_decoded)
qed

lemma sample_run:
  "\<exists>st. parse_lines sample_packaging 1 sample_lines no_parsing = Inr st \<and> ps_items st = [sample_item] \<and>
     ensure_items_safe [sample_item] = Inr ()"
proof -
  have "case parse_lines sample_packaging 1 sample_lines no_parsing of
      Inl _ \<Rightarrow> False | Inr st \<Rightarrow> ps_items st = [sample_item] \<and> ensure_items_safe [sample_item] = Inr ()"
    by code_simp
  then show ?thesis by (auto split: sum.splits)
qed

lemma sample_parsed:
  "parse_requirements sample_packaging no_gbk sample_file = Inr \<lparr>pr_normalized_text = format_item sample_item @ [newline],
     pr_items = [sample_item], pr_encoding = ''utf-8''\<rparr>"
proof -
  have "length sample_file = 17" "length sample_lines = 2" by code_simp+
  then have "\<not> MAX_INPUT_BYTES < length sample_file" "\<not> MAX_LOGICAL_LINES < length sample_lines"
    by (simp_all add: MAX_INPUT_BYTES_def MAX_LOGICAL_LINES_def)
  with sample_run show ?thesis
    by (auto simp: parse_requirements_def sample_decoded sample_file_lines Let_def no_parsing_def)
qed

theorem parse_groups_lines_witness:
  "\<exists>cs. item_of_group sample_packaging (group_entries (entries sample_packaging 1 sample_lines) (item_key sample_item))
     sample_item cs"
  using parse_groups_lines [OF sample_parsed refl] by (simp add: sample_file_lines)


theorem normalized_text_safe_witness:
  "\<not> re_search PIP_FILE_COMMENT (format_item sample_item)"
  using normalized_text_safe [OF sample_parsed] by simp

theorem parse_bounds_witness:
  "\<exists>k<2. it_line_no sample_item = 1 + int k \<and> it_original_text sample_item = sample_lines ! k"
proof -
  have "length sample_lines = 2" by code_simp
  with parse_bounds [OF sample_parsed] show ?thesis by (simp add: sample_file_lines)
qed



end
