(* ===== verification/Closure.thy ===== *)
theory Closure
  imports Target "HOL-Library.Multiset"
begin

section \<open>Static validation of a resolved closure (\<open>validation/static.py\<close>)\<close>

text \<open>
  The report on a resolved set of packages and the wheels downloaded for it, and its equivalence with a
  declarative description of a closed, installable set.
\<close>

definition mk_issue :: "ValidationIssueCode \<Rightarrow> string \<Rightarrow> string \<Rightarrow> string option \<Rightarrow> ValidationIssue" where
  "mk_issue c package detail filename = \<lparr>vi_code = c, vi_package = package, vi_detail = detail, vi_filename = filename\<rparr>"

definition duplicate_names :: "'k packaging \<Rightarrow> 'k ResolvedPackage list \<Rightarrow> string list" where
  "duplicate_names P packages =
     (let names = map (\<lambda>item. pkg_canonicalize P (pk_name item)) packages
      in filter (\<lambda>name. 1 < length (filter (\<lambda>n. n = name) names)) (remdups names))"

text \<open>The key of a package and of a wheel: name and version, versions by their keys.\<close>

definition package_key :: "'k ResolvedPackage \<Rightarrow> string \<times> 'k" where
  "package_key package = (pk_name package, v_key (pk_version package))"

definition observe_wheel ::
  "'k packaging \<Rightarrow> TargetProfile \<Rightarrow> 'k DownloadedWheel \<Rightarrow> ValidationIssue list \<times> (string \<times> 'k) option" where
  "observe_wheel P profile observed = (case pkg_wheel P (dw_filename observed) of
     None \<Rightarrow> ([mk_issue WHEEL_FILENAME_INVALID (dw_package observed) ''Wheel filename is invalid'' (Some (dw_filename observed))], None)
   | Some w \<Rightarrow>
       let actual = (pkg_canonicalize P (wn_name w), v_key (wn_version w))
       in ((if actual \<noteq> (dw_package observed, v_key (dw_version observed))
            then [mk_issue WHEEL_NAME_VERSION_MISMATCH (dw_package observed)
              ''Wheel filename disagrees with downloaded observation'' (Some (dw_filename observed))] else []) @
           (if \<not> wheel_is_compatible P (dw_filename observed) profile
            then [mk_issue WHEEL_WRONG_PLATFORM (dw_package observed)
              ''Wheel tags are incompatible with the target'' (Some (dw_filename observed))] else []),
          Some actual))"

text \<open>\<open>observed_by_actual\<close>: the wheels under their actual key, in order.\<close>

fun group_wheels ::
  "'k packaging \<Rightarrow> TargetProfile \<Rightarrow> 'k DownloadedWheel list \<Rightarrow> ((string \<times> 'k) \<times> 'k DownloadedWheel list) list \<Rightarrow>
     ((string \<times> 'k) \<times> 'k DownloadedWheel list) list" where
  "group_wheels P profile [] d = d"
| "group_wheels P profile (w # ws) d = group_wheels P profile ws (case snd (observe_wheel P profile w) of
     None \<Rightarrow> d
   | Some actual \<Rightarrow> dict_put actual (coalesce (map_of d actual) [] @ [w]) d)"

definition missing_issues ::
  "((string \<times> 'k) \<times> 'k DownloadedWheel list) list \<Rightarrow> 'k ResolvedPackage \<Rightarrow> ValidationIssue list" where
  "missing_issues by_actual package =
     (let matching = coalesce (map_of by_actual (package_key package)) []
      in if matching = [] then [mk_issue WHEEL_MISSING (pk_name package) ''no matching Wheel was downloaded'' None]
         else if 1 < length matching
         then [mk_issue WHEEL_DUPLICATE (pk_name package) ''multiple matching Wheels were downloaded'' None] else [])"

definition unexpected_issues ::
  "'k ResolvedPackage list \<Rightarrow> (string \<times> 'k) \<times> 'k DownloadedWheel list \<Rightarrow> ValidationIssue list" where
  "unexpected_issues expected entry =
     (if list_ex (\<lambda>package. package_key package = fst entry) expected then []
      else map (\<lambda>observed. mk_issue WHEEL_UNEXPECTED (dw_package observed) ''Wheel is not in the resolved set''
        (Some (dw_filename observed))) (snd entry))"

definition requires_python_issues :: "'k packaging \<Rightarrow> TargetProfile \<Rightarrow> 'k ResolvedPackage \<Rightarrow> ValidationIssue list" where
  "requires_python_issues P profile package = (case pk_requires_python package of
     None \<Rightarrow> []
   | Some text \<Rightarrow> (case pkg_specifier_set P text of
       None \<Rightarrow> [mk_issue REQUIRES_PYTHON_INVALID (pk_name package) text None]
     | Some specifier \<Rightarrow>
         if (case pkg_version P (tp_python_full_version profile) of None \<Rightarrow> False | Some v \<Rightarrow> pkg_contains P specifier v)
         then [] else [mk_issue REQUIRES_PYTHON_UNSATISFIED (pk_name package) text None]))"

definition dependency_issues ::
  "'k packaging \<Rightarrow> 'k ResolvedPackage list \<Rightarrow> environment \<Rightarrow> 'k ResolvedPackage \<Rightarrow> string \<Rightarrow> ValidationIssue list" where
  "dependency_issues P expected environment package raw =
     (let invalid = [mk_issue REQUIRES_DIST_INVALID (pk_name package) raw None]
      in case pkg_requirement P raw of
           None \<Rightarrow> invalid
         | Some requirement \<Rightarrow> (case (case rq_marker requirement of
               None \<Rightarrow> Some True | Some marker \<Rightarrow> pkg_marker P marker environment) of
             None \<Rightarrow> invalid
           | Some False \<Rightarrow> []
           | Some True \<Rightarrow> (case find (\<lambda>item. pk_name item = pkg_canonicalize P (rq_name requirement)) (rev expected) of
               None \<Rightarrow> [mk_issue DEPENDENCY_MISSING (pk_name package) raw None]
             | Some item \<Rightarrow>
                 if pkg_contains P (rq_specifier requirement) (pk_version item) then []
                 else [mk_issue DEPENDENCY_VERSION_MISMATCH (pk_name package) raw None])))"

definition package_issues ::
  "'k packaging \<Rightarrow> TargetProfile \<Rightarrow> environment \<Rightarrow> string list \<Rightarrow> 'k ResolvedPackage list \<Rightarrow> 'k ResolvedPackage \<Rightarrow>
     ValidationIssue list" where
  "package_issues P profile environment duplicates expected package =
     requires_python_issues P profile package @
     (if pkg_canonicalize P (pk_name package) \<in> set duplicates then []
      else concat (map (dependency_issues P expected environment package) (sort (pk_requires_dist package))))"

definition issue_rank :: "ValidationIssue \<Rightarrow> string \<times> string \<times> string \<times> string" where
  "issue_rank i = (vi_package i, issue_value (vi_code i), coalesce (vi_filename i) [], vi_detail i)"

definition closure_issues ::
  "'k packaging \<Rightarrow> TargetProfile \<Rightarrow> environment \<Rightarrow> 'k ResolvedPackage list \<Rightarrow> 'k DownloadedWheel list \<Rightarrow>
     ValidationIssue list" where
  "closure_issues P profile environment packages wheels =
     (let duplicates = duplicate_names P packages;
          expected = filter (\<lambda>item. pkg_canonicalize P (pk_name item) \<notin> set duplicates) packages;
          by_actual = group_wheels P profile wheels []
      in map (\<lambda>name. mk_issue RESOLUTION_DUPLICATE_PACKAGE name
             ''resolved set contains multiple versions of one package'' None) (sort duplicates) @
         concat (map (\<lambda>w. fst (observe_wheel P profile w)) wheels) @
         concat (map (missing_issues by_actual) expected) @
         concat (map (unexpected_issues expected) by_actual) @
         concat (map (package_issues P profile environment duplicates expected) packages))"

definition sorted_packages :: "('k :: linorder) ResolutionResult \<Rightarrow> 'k ResolvedPackage list" where
  "sorted_packages resolved = sort_key (\<lambda>item. (pk_name item, v_key (pk_version item))) (rr_packages resolved)"

text \<open>
  None stands for the \<open>KeyError\<close> of \<open>marker_environment\<close> on a profile outside the matrix, which is only
  asked for when some package is not a duplicate.
\<close>

definition validate_closure ::
  "('k :: linorder) packaging \<Rightarrow> 'k ResolutionResult \<Rightarrow> 'k DownloadedWheel list \<Rightarrow> TargetProfile \<Rightarrow>
     StaticValidationReport option" where
  "validate_closure P resolved wheels profile =
     (let packages = sorted_packages resolved
      in if list_ex (\<lambda>item. pkg_canonicalize P (pk_name item) \<notin> set (duplicate_names P packages)) packages
            \<and> marker_environment profile = None then None
         else
           let environment = dict_put ''extra'' [] (coalesce (marker_environment profile) []);
               ordered = sort_key issue_rank (closure_issues P profile environment packages wheels)
           in make_report ordered (ordered = []) ''STATIC'' False)"

subsection \<open>A closed set of wheels\<close>

definition wheel_key :: "'k DownloadedWheel \<Rightarrow> string \<times> 'k" where
  "wheel_key w = (dw_package w, v_key (dw_version w))"

definition python_met :: "'k packaging \<Rightarrow> TargetProfile \<Rightarrow> 'k ResolvedPackage \<Rightarrow> bool" where
  "python_met P profile package \<longleftrightarrow> (\<forall>text. pk_requires_python package = Some text \<longrightarrow>
     (\<exists>specifier python. pkg_specifier_set P text = Some specifier \<and>
       pkg_version P (tp_python_full_version profile) = Some python \<and> pkg_contains P specifier python))"

definition dependency_met :: "'k packaging \<Rightarrow> environment \<Rightarrow> 'k ResolvedPackage list \<Rightarrow> string \<Rightarrow> bool" where
  "dependency_met P environment packages raw \<longleftrightarrow>
     (\<exists>requirement active. pkg_requirement P raw = Some requirement \<and>
       (case rq_marker requirement of None \<Rightarrow> Some True | Some m \<Rightarrow> pkg_marker P m environment) = Some active \<and>
       (active \<longrightarrow> (\<exists>q\<in>set packages. pk_name q = pkg_canonicalize P (rq_name requirement) \<and>
         pkg_contains P (rq_specifier requirement) (pk_version q))))"

definition wheel_fitting :: "'k packaging \<Rightarrow> TargetProfile \<Rightarrow> 'k DownloadedWheel \<Rightarrow> bool" where
  "wheel_fitting P profile w \<longleftrightarrow> (\<exists>n. pkg_wheel P (dw_filename w) = Some n \<and>
     (pkg_canonicalize P (wn_name n), v_key (wn_version n)) = wheel_key w) \<and> wheel_is_compatible P (dw_filename w) profile"

text \<open>One version for each package, one fitting wheel for each package and no other wheel, the target's Python
  admitted everywhere and every active dependency satisfied inside the set.\<close>

definition closed_set ::
  "'k packaging \<Rightarrow> TargetProfile \<Rightarrow> environment \<Rightarrow> 'k ResolvedPackage list \<Rightarrow> 'k DownloadedWheel list \<Rightarrow> bool" where
  "closed_set P profile environment packages wheels \<longleftrightarrow>
     distinct (map (\<lambda>p. pkg_canonicalize P (pk_name p)) packages) \<and>
     (\<forall>w\<in>set wheels. wheel_fitting P profile w \<and> wheel_key w \<in> package_key ` set packages) \<and>
     (\<forall>p\<in>set packages. length (filter (\<lambda>w. wheel_key w = package_key p) wheels) = 1 \<and> python_met P profile p \<and>
       (\<forall>raw\<in>set (pk_requires_dist p). dependency_met P environment packages raw))"

subsection \<open>Groups of wheels\<close>

lemma group_wheels_lookup:
  "coalesce (map_of (group_wheels P profile ws d) k) [] =
     coalesce (map_of d k) [] @ filter (\<lambda>w. snd (observe_wheel P profile w) = Some k) ws"
proof (induction ws arbitrary: d)
  case (Cons w ws)
  then show ?case by (cases "snd (observe_wheel P profile w)") simp_all
qed simp

lemma group_wheels_keys:
  "fst ` set (group_wheels P profile ws d) = fst ` set d \<union> {k. \<exists>w\<in>set ws. snd (observe_wheel P profile w) = Some k} \<and>
    (distinct (map fst d) \<longrightarrow> distinct (map fst (group_wheels P profile ws d)))"
proof (induction ws arbitrary: d)
  case (Cons w ws)
  show ?case
  proof (cases "snd (observe_wheel P profile w)")
    case (Some k)
    then show ?thesis
      using Cons.IH [of "dict_put k (coalesce (map_of d k) [] @ [w]) d"] keys_dict_put [of k _ d] distinct_dict_put [of d k]
      by auto
  qed (use Cons.IH [of d] in auto)
qed simp

lemma observe_wheel_clean:
  "fst (observe_wheel P profile w) = [] \<longleftrightarrow> wheel_fitting P profile w"
  "fst (observe_wheel P profile w) = [] \<Longrightarrow> snd (observe_wheel P profile w) = Some (wheel_key w)"
  by (auto simp: observe_wheel_def wheel_fitting_def wheel_key_def Let_def split: option.splits if_splits)

lemma group_of_clean:
  assumes "\<forall>w\<in>set wheels. wheel_fitting P profile w"
  shows "coalesce (map_of (group_wheels P profile wheels []) k) [] = filter (\<lambda>w. wheel_key w = k) wheels"
    and "fst ` set (group_wheels P profile wheels []) = wheel_key ` set wheels"
proof -
  have o: "snd (observe_wheel P profile w) = Some (wheel_key w)" if "w \<in> set wheels" for w
    using assms that observe_wheel_clean by blast
  show "coalesce (map_of (group_wheels P profile wheels []) k) [] = filter (\<lambda>w. wheel_key w = k) wheels"
    unfolding group_wheels_lookup by (simp, rule filter_cong) (simp_all add: o)
  have "{k. \<exists>w\<in>set wheels. snd (observe_wheel P profile w) = Some k} = wheel_key ` set wheels"
  proof (intro set_eqI iffI)
    fix k
    assume "k \<in> {k. \<exists>w\<in>set wheels. snd (observe_wheel P profile w) = Some k}"
    then obtain w where "w \<in> set wheels" "snd (observe_wheel P profile w) = Some k" by blast
    then show "k \<in> wheel_key ` set wheels" using o [of w] by auto
  next
    fix k
    assume "k \<in> wheel_key ` set wheels"
    then show "k \<in> {k. \<exists>w\<in>set wheels. snd (observe_wheel P profile w) = Some k}" using o by blast
  qed
  then show "fst ` set (group_wheels P profile wheels []) = wheel_key ` set wheels"
    using group_wheels_keys [of P profile wheels "[]"] by simp
qed

subsection \<open>When a check finds nothing\<close>

lemma missing_clean: "missing_issues d package = [] \<longleftrightarrow> length (coalesce (map_of d (package_key package)) []) = 1"
  by (cases "coalesce (map_of d (package_key package)) []") (auto simp: missing_issues_def Let_def)

lemma unexpected_clean:
  assumes "\<forall>w\<in>set wheels. wheel_fitting P profile w"
  shows "(\<forall>e\<in>set (group_wheels P profile wheels []). unexpected_issues expected e = []) \<longleftrightarrow>
    (\<forall>w\<in>set wheels. wheel_key w \<in> package_key ` set expected)"
proof -
  let ?g = "group_wheels P profile wheels []"
  note keys = group_of_clean(2) [OF assms]
  have "unexpected_issues expected e = [] \<longleftrightarrow> fst e \<in> package_key ` set expected" if "e \<in> set ?g" for e
  proof -
    have "distinct (map fst ?g)" using group_wheels_keys [of P profile wheels "[]"] by simp
    then have "map_of ?g (fst e) = Some (snd e)" using that by simp
    moreover have "\<exists>w\<in>set wheels. wheel_key w = fst e" using keys that by (metis imageE imageI)
    then have "filter (\<lambda>w. wheel_key w = fst e) wheels \<noteq> []" by (simp add: filter_empty_conv)
    ultimately have "snd e \<noteq> []" using group_of_clean(1) [OF assms, of "fst e"] by simp
    moreover have "list_ex (\<lambda>package. package_key package = fst e) expected \<longleftrightarrow> fst e \<in> package_key ` set expected"
      unfolding list_ex_iff image_iff by (rule bex_cong) auto
    ultimately show ?thesis by (simp add: unexpected_issues_def)
  qed
  then have "(\<forall>e\<in>set ?g. unexpected_issues expected e = []) \<longleftrightarrow> (\<forall>k\<in>fst ` set ?g. k \<in> package_key ` set expected)"
    by simp
  then show ?thesis by (simp add: keys)
qed

lemma requires_python_clean: "requires_python_issues P profile package = [] \<longleftrightarrow> python_met P profile package"
  by (auto simp: requires_python_issues_def python_met_def split: option.splits)

lemma find_named:
  assumes "distinct (map pk_name packages)"
  shows "find (\<lambda>item. pk_name item = name) (rev packages) = Some q \<longleftrightarrow> q \<in> set packages \<and> pk_name q = name"
proof
  assume "find (\<lambda>item. pk_name item = name) (rev packages) = Some q"
  then show "q \<in> set packages \<and> pk_name q = name" using find_SomeD by fastforce
next
  assume q: "q \<in> set packages \<and> pk_name q = name"
  have "distinct (map pk_name (rev packages))" using assms by (simp flip: rev_map)
  with q show "find (\<lambda>item. pk_name item = name) (rev packages) = Some q"
    using find_distinct [of pk_name "rev packages" q] by simp
qed

lemma dependency_clean:
  assumes "distinct (map pk_name packages)"
  shows "dependency_issues P packages environment package raw = [] \<longleftrightarrow> dependency_met P environment packages raw"
proof (cases "pkg_requirement P raw")
  case None
  then show ?thesis by (simp add: dependency_issues_def dependency_met_def)
next
  case (Some requirement)
  let ?find = "find (\<lambda>item. pk_name item = pkg_canonicalize P (rq_name requirement)) (rev packages)"
  have "(\<exists>q\<in>set packages. pk_name q = pkg_canonicalize P (rq_name requirement) \<and>
      pkg_contains P (rq_specifier requirement) (pk_version q)) \<longleftrightarrow>
    (\<exists>q. ?find = Some q \<and> pkg_contains P (rq_specifier requirement) (pk_version q))"
    using find_named [OF assms] by blast
  then show ?thesis
    by (cases ?find) (auto simp: dependency_issues_def dependency_met_def Some Let_def split: option.splits bool.splits)
qed

lemma duplicates_clean:
  "duplicate_names P packages = [] \<longleftrightarrow> distinct (map (\<lambda>p. pkg_canonicalize P (pk_name p)) packages)"
proof -
  have "(\<forall>n\<in>set ns. \<not> 1 < length (filter (\<lambda>m. m = n) ns)) \<longleftrightarrow> distinct ns" for ns :: "string list"
  proof (induction ns)
    case (Cons n ns)
    have "(\<forall>m\<in>set ns. \<not> 1 < length (filter (\<lambda>k. k = m) (n # ns))) \<longleftrightarrow>
        (\<forall>m\<in>set ns. \<not> 1 < length (filter (\<lambda>k. k = m) ns))" if "n \<notin> set ns"
      using that by (intro ball_cong) auto
    moreover have "1 < length (filter (\<lambda>k. k = n) (n # ns)) \<longleftrightarrow> n \<in> set ns"
      by (auto simp: filter_empty_conv)
    ultimately show ?case using Cons.IH by auto
  qed simp
  from this [of "map (\<lambda>p. pkg_canonicalize P (pk_name p)) packages"] show ?thesis
    by (simp add: duplicate_names_def Let_def filter_empty_conv)
qed

subsection \<open>The report\<close>

lemma sort_key_empty: "sort_key f xs = [] \<longleftrightarrow> xs = []"
  by (metis length_0_conv length_sort)

lemma sorted_packages_facts:
  "set (sorted_packages resolved) = set (rr_packages resolved)"
  "distinct (map f (sorted_packages resolved)) \<longleftrightarrow> distinct (map f (rr_packages resolved))"
proof -
  have m: "mset (sorted_packages resolved) = mset (rr_packages resolved)" by (simp add: sorted_packages_def)
  show "set (sorted_packages resolved) = set (rr_packages resolved)" by (simp add: sorted_packages_def)
  show "distinct (map f (sorted_packages resolved)) \<longleftrightarrow> distinct (map f (rr_packages resolved))"
    using m by (metis mset_eq_imp_distinct_iff mset_map)
qed

lemma package_clean:
  assumes "distinct (map pk_name packages)"
  shows "package_issues P profile environment [] packages p = [] \<longleftrightarrow>
    python_met P profile p \<and> (\<forall>raw\<in>set (pk_requires_dist p). dependency_met P environment packages raw)"
  by (simp add: package_issues_def requires_python_clean dependency_clean [OF assms])

lemma closure_clean:
  "closure_issues P profile environment packages wheels = [] \<longleftrightarrow> closed_set P profile environment packages wheels"
proof (cases "duplicate_names P packages = [] \<and> (\<forall>w\<in>set wheels. wheel_fitting P profile w)")
  case True
  then have names: "distinct (map (\<lambda>p. pkg_canonicalize P (pk_name p)) packages)" and d: "duplicate_names P packages = []"
    and fit: "\<forall>w\<in>set wheels. wheel_fitting P profile w"
    by (simp_all add: duplicates_clean)
  have raw: "distinct (map pk_name packages)"
    using names by (auto simp: distinct_map inj_on_def)
  show ?thesis
    using d fit names
    by (simp add: closure_issues_def Let_def closed_set_def observe_wheel_clean(1) missing_clean
        group_of_clean(1) [OF fit] unexpected_clean [OF fit] package_clean [OF raw] ball_conj_distrib) blast
next
  case False
  then show ?thesis
    by (auto simp: closure_issues_def Let_def closed_set_def observe_wheel_clean(1) sort_key_empty duplicates_clean)
qed

lemma closed_set_perm:
  assumes "set ps = set qs" and "\<And>f :: _ \<Rightarrow> string. distinct (map f ps) \<longleftrightarrow> distinct (map f qs)"
  shows "closed_set P profile environment ps wheels \<longleftrightarrow> closed_set P profile environment qs wheels"
  using assms by (simp add: closed_set_def dependency_met_def)

text \<open>C37. The static validation reports a resolution and its downloaded wheels complete exactly when they form a
  closed set: one version for each project, exactly one wheel for each package and no other wheel, every
  wheel named as observed and compatible with the target, the target's Python admitted by every package, and
  every dependency whose marker holds on the target satisfied by a package of the set.\<close>

theorem closure_complete_iff:
  assumes "marker_environment profile = Some markers"
  shows "\<exists>report. validate_closure P resolved wheels profile = Some report \<and>
    (sv_complete report \<longleftrightarrow>
      closed_set P profile (dict_put ''extra'' [] markers) (rr_packages resolved) wheels) \<and>
    (sv_complete report \<longleftrightarrow> sv_issues report = [])"
proof -
  have "closed_set P profile (dict_put ''extra'' [] markers) (sorted_packages resolved) wheels \<longleftrightarrow>
      closed_set P profile (dict_put ''extra'' [] markers) (rr_packages resolved) wheels"
    by (intro closed_set_perm sorted_packages_facts)
  then show ?thesis
    by (simp add: validate_closure_def Let_def make_report_def assms sort_key_empty closure_clean)
qed

end
