(* ===== verification/SearchWitness.thy ===== *)
theory SearchWitness
  imports SearchProperties RequirementFacts Closure "HOL-Library.Code_Target_Nat"
begin

section \<open>The compatible resolver at work\<close>

text \<open>
  Concrete runs of the search for a requirement pinned to a version that the strict resolver refuses: with
  a candidate it accepts, and without any.
\<close>

definition pinned :: ParsedRequirements where
  "pinned = \<lparr>pr_normalized_text = ''a==1.0'' @ [newline], pr_items = [\<lparr>it_line_no = 1, it_name = ''a'', it_extras = [],
     it_specifier = ''==1.0'', it_marker = None, it_original_text = ''a==1.0''\<rparr>], pr_encoding = ''utf-8''\<rparr>"

definition strict_answer :: "nat ResolutionResult" where
  "strict_answer = \<lparr>rr_report_version = ''1'', rr_packages = [], rr_attempts = [], rr_rejections = [], rr_changes = [],
     rr_source = None, rr_rejections_omitted = 0, rr_observations_truncated = False\<rparr>"

definition one_release :: "nat \<Rightarrow> release_event" where
  "one_release i = (if i = 0 then Release \<lparr>cm_version = Some ''1.1'', cm_yanked = Some False,
     cm_requires_python = NoRequires, cm_wheel_filenames = Some [Some ''a-1.1-py3-none-any.whl'']\<rparr> else IterationEnds)"

definition sample_resolver :: "(nat \<Rightarrow> release_event) \<Rightarrow> nat resolver" where
  "sample_resolver events = \<lparr>rs_packaging = sample_packaging, rs_gbk = no_gbk, rs_clock = (\<lambda>_. 0),
     rs_strict = (\<lambda>call req profile source. if map it_specifier (pr_items req) = [''==1.1'']
       then StrictResult strict_answer else ResolverError ''ResolverError'' ''conflict''),
     rs_candidates = (\<lambda>call package source. Releases events), rs_candidates_bounded = None,
     rs_max_observations = 5, rs_max_combinations = 5\<rparr>"

definition sample_limits :: ResolveLimits where
  "sample_limits = \<lparr>lim_max_candidates_per_requirement = 2, lim_max_resolution_attempts = 4, lim_timeout = seconds 10\<rparr>"

definition windows_profile :: TargetProfile where
  "windows_profile = sample_profile\<lparr>tp_os := ''WINDOWS'', tp_architecture := ''AMD64'', tp_platform_tag := ''win_amd64''\<rparr>"

lemma sample_limits_ok: "resolve_limits_ok sample_limits"
  by (simp add: resolve_limits_ok_def sample_limits_def seconds_def)

abbreviation substituting :: "nat resolve_error + nat ResolutionResult" where
  "substituting \<equiv> resolve (sample_resolver one_release) pinned windows_profile [PYPI] sample_limits"

abbreviation exhausting :: "nat resolve_error + nat ResolutionResult" where
  "exhausting \<equiv> resolve (sample_resolver (\<lambda>_. IterationEnds)) pinned windows_profile [PYPI] sample_limits"

lemma substituting_succeeds: "\<exists>result. substituting = Inr result \<and> length (rr_attempts result) = 2"
proof -
  have "case substituting of Inl _ \<Rightarrow> False | Inr result \<Rightarrow> length (rr_attempts result) = 2" by code_simp
  then show ?thesis by (auto split: sum.splits)
qed

lemma exhausting_fails: "\<exists>e. exhausting = Inl (Incompatible e) \<and> ce_code e = EXHAUSTED"
proof -
  have "case exhausting of Inl (Incompatible e) \<Rightarrow> ce_code e = EXHAUSTED | _ \<Rightarrow> False" by code_simp
  then show ?thesis by (auto split: sum.splits resolve_error.splits)
qed

theorem resolution_bounded_witness: "length (rejections_of substituting) \<le> 2000"
  using resolution_bounded [OF sample_limits_ok, of "sample_resolver one_release" pinned windows_profile "[PYPI]"] by simp

theorem result_from_strict_resolver_witness:
  "\<exists>req call r. rs_strict (sample_resolver one_release) call req windows_profile (source_value PYPI) = StrictResult r"
proof -
  obtain result where r: "substituting = Inr result" using substituting_succeeds by blast
  from result_from_strict_resolver [OF r] show ?thesis by auto
qed

theorem failure_justified_witness: "\<exists>e. exhausting = Inl (Incompatible e) \<and> \<not> ce_observations_truncated e"
proof -
  obtain e where e: "exhausting = Inl (Incompatible e)" "ce_code e = EXHAUSTED" using exhausting_fails by blast
  from failure_justified [OF e(1) sample_limits_ok] e show ?thesis by simp
qed

theorem exhausted_is_complete_witness:
  "\<exists>e pins. exhausting = Inl (Incompatible e) \<and> relaxable_pins sample_packaging pinned = Inr pins \<and>
     (\<exists>a. a \<in> set (ce_attempts e) \<and> attempt_key a = goal_key (map rp_original pins, PYPI))"
proof -
  obtain e where e: "exhausting = Inl (Incompatible e)" "ce_code e = EXHAUSTED" using exhausting_fails by blast
  have P: "rs_packaging (sample_resolver (\<lambda>_. IterationEnds)) = sample_packaging" by (simp add: sample_resolver_def)
  from exhausted_is_complete [OF e(1) sample_limits_ok e(2)] obtain pins os where
    "relaxable_pins sample_packaging pinned = Inr pins"
    and made: "\<forall>versions. \<forall>source\<in>set [PYPI]. length versions = length pins \<and>
      (\<forall>j<length pins. versions ! j = rp_original (pins ! j) \<or>
        versions ! j \<in> set (co_versions (os ! j)) \<and> supports (os ! j) (versions ! j) source) \<longrightarrow>
      (\<exists>a\<in>set (ce_attempts e). attempt_key a = goal_key (versions, source) \<and> ra_failure a = Some STRICT_RESOLUTION)"
    unfolding P by blast
  moreover have "\<exists>a\<in>set (ce_attempts e). attempt_key a = goal_key (map rp_original pins, PYPI)"
    using made [rule_format, of PYPI "map rp_original pins"] by auto
  ultimately show ?thesis using e(1) by blast
qed

subsection \<open>A candidate outside the other constraints of its pin\<close>



subsection \<open>A closed set\<close>

definition sample_package :: "nat ResolvedPackage" where
  "sample_package = \<lparr>pk_name = ''a'', pk_version = \<lparr>v_str = ''1.1'', v_release = [1, 1], v_is_prerelease = False, v_key = 11\<rparr>,
     pk_requested = True, pk_artifact_url = ''https://pypi.org/a'', pk_wheel_filename = ''a-1.1-py3-none-any.whl'',
     pk_requires_dist = [''a>=1.0''], pk_requires_python = None, pk_archive_hashes = []\<rparr>"

definition sample_download :: "nat DownloadedWheel" where
  "sample_download = \<lparr>dw_package = ''a'', dw_version = pk_version sample_package, dw_filename = ''a-1.1-py3-none-any.whl'',
     dw_path = ''/a-1.1-py3-none-any.whl'', dw_source = PYPI, dw_byte_size = 1, dw_sha256 = replicate 64 (CHR ''a''),
     dw_tags = []\<rparr>"

abbreviation sample_resolved :: "nat ResolutionResult" where
  "sample_resolved \<equiv> strict_answer\<lparr>rr_packages := [sample_package]\<rparr>"

theorem closure_complete_iff_witness:
  "closed_set sample_packaging windows_profile (dict_put ''extra'' [] (the (marker_environment windows_profile)))
     [sample_package] [sample_download]"
proof -
  have "marker_environment windows_profile \<noteq> None" by code_simp
  then obtain markers where m: "marker_environment windows_profile = Some markers" by blast
  have "map_option sv_complete (validate_closure sample_packaging sample_resolved [sample_download] windows_profile) = Some True"
    by code_simp
  with closure_complete_iff [OF m, of sample_packaging sample_resolved "[sample_download]"] m show ?thesis by auto
qed

end
