(* ===== verification/Payloads.thy ===== *)
theory Payloads
  imports Target PyRegex Utf8
begin

section \<open>The payload of a job (\<open>contracts.py\<close>)\<close>

text \<open>
  The wire format of a leased job: JSON text to a validated envelope with a validated parse or build
  payload.  A model's fields are looked up by alias, then by name, and any other key is refused, as
  pydantic does.  A failed validation is None.  Not covered: integers beyond Python's limit of 4300 digits
  and exponents beyond the limits of \<open>Decimal\<close>, nesting beyond the interpreter's recursion limit, texts
  with NUL characters, which \<open>json.loads\<close> takes for another encoding, and a non-standard constant under a
  key that occurs again.
\<close>

subsection \<open>Numbers\<close>

text \<open>A \<open>Decimal\<close> text with an integral value, as that integer.\<close>

definition split_exponent :: "string \<Rightarrow> string \<times> int" where
  "split_exponent s =
     (let mantissa = takeWhile (\<lambda>c. c \<noteq> CHR ''e'' \<and> c \<noteq> CHR ''E'') s;
          ex = drop (Suc (length mantissa)) s;
          digits = (if ex \<noteq> [] \<and> (hd ex = CHR ''-'' \<or> hd ex = CHR ''+'') then tl ex else ex);
          magnitude = int (decimal_value digits)
      in (mantissa, if ex \<noteq> [] \<and> hd ex = CHR ''-'' then - magnitude else magnitude))"

definition decimal_integer :: "string \<Rightarrow> int option" where
  "decimal_integer text =
     (let negative = (text \<noteq> [] \<and> hd text = CHR ''-'');
          (mantissa, ex) = split_exponent (if negative then tl text else text);
          whole = takeWhile (\<lambda>c. c \<noteq> CHR ''.'') mantissa;
          frac = drop (Suc (length whole)) mantissa;
          m = decimal_value (whole @ frac);
          e = ex - int (length frac);
          sign = (if negative then -1 else 1)
      in if m = 0 then Some 0
         else if 0 \<le> e then Some (sign * int m * 10 ^ nat e)
         else if m mod 10 ^ nat (- e) = 0 then Some (sign * int (m div 10 ^ nat (- e)))
         else None)"

definition mathematical_integer :: "pyval \<Rightarrow> int option" where
  "mathematical_integer v = (case v of
     VInt i \<Rightarrow> Some i
   | VFloat t \<Rightarrow> decimal_integer t
   | _ \<Rightarrow> None)"

text \<open>\<open>reject_non_standard_json_constant\<close> raises while the text is decoded.\<close>

fun standard_constants :: "pyval \<Rightarrow> bool" where
  "standard_constants (VFloat t) = (t \<notin> {''NaN'', ''Infinity'', ''-Infinity''})"
| "standard_constants (VList vs) = list_all standard_constants vs"
| "standard_constants (VTuple vs) = list_all standard_constants vs"
| "standard_constants (VDict kvs) = list_all (\<lambda>kv. standard_constants (snd kv)) kvs"
| "standard_constants _ = True"

subsection \<open>The time of creation\<close>

abbreviation digit :: regex where "digit \<equiv> Cls is_digit"

definition RFC3339_DATE_TIME :: regex where
  "RFC3339_DATE_TIME = Sqs [StartOfText, Rep 4 digit, Lit ''-'', Rep 2 digit, Lit ''-'', Rep 2 digit,
     Cls (\<lambda>c. c = CHR ''T'' \<or> c = CHR ''t''), Rep 2 digit, Lit '':'', Rep 2 digit, Lit '':'',
     Cls (\<lambda>c. 48 \<le> code c \<and> code c \<le> 53), digit, Opt (Sq (Lit ''.'') (Plus digit)),
     Alt (Cls (\<lambda>c. c = CHR ''Z'' \<or> c = CHR ''z''))
       (Sqs [Cls (\<lambda>c. c = CHR ''+'' \<or> c = CHR ''-''), Rep 2 digit, Lit '':'', Rep 2 digit]), EndOfText]"

definition days_in_month :: "nat \<Rightarrow> nat \<Rightarrow> nat" where
  "days_in_month year month =
     (if month = 2 then (if year mod 4 = 0 \<and> (year mod 100 \<noteq> 0 \<or> year mod 400 = 0) then 29 else 28)
      else if month \<in> {4, 6, 9, 11} then 30 else 31)"

definition number_at :: "nat \<Rightarrow> nat \<Rightarrow> string \<Rightarrow> nat" where
  "number_at start count s = decimal_value (take count (drop start s))"

text \<open>\<open>datetime.fromisoformat\<close> on a text of the pattern: a calendar date, a time of day, and an offset of
  less than a day.\<close>

definition iso_format_ok :: "string \<Rightarrow> bool" where
  "iso_format_ok s =
     (let year = number_at 0 4 s; month = number_at 5 2 s; day = number_at 8 2 s;
          end' = length s - 5
      in 1 \<le> year \<and> 1 \<le> month \<and> month \<le> 12 \<and> 1 \<le> day \<and> day \<le> days_in_month year month \<and>
         number_at 11 2 s \<le> 23 \<and> number_at 14 2 s \<le> 59 \<and>
         60 * number_at end' 2 s + number_at (end' + 3) 2 s < 24 * 60)"

definition validate_rfc3339_created_at :: "string \<Rightarrow> bool" where
  "validate_rfc3339_created_at created_at =
     (re_fullmatch RFC3339_DATE_TIME created_at \<and>
      (let normalized = take 10 created_at @ ''T'' @ drop 11 created_at;
           normalized = (if endswith normalized ''Z'' \<or> endswith normalized ''z''
             then butlast normalized @ ''+00:00'' else normalized)
       in iso_format_ok normalized))"

subsection \<open>The fields of a model\<close>

type_synonym dict = "(pykey \<times> pyval) list"

text \<open>The value of a field and the key it was found under.\<close>

definition take_field :: "dict \<Rightarrow> string \<times> string \<Rightarrow> (string \<times> pyval) option" where
  "take_field d = (\<lambda>(alias, name). case map_of d (KStr alias) of
     Some v \<Rightarrow> Some (alias, v)
   | None \<Rightarrow> map_option (Pair name) (map_of d (KStr name)))"

definition model_fields :: "dict \<Rightarrow> (string \<times> string) list \<Rightarrow> pyval list option" where
  "model_fields d spec = (case those (map (take_field d) spec) of
     None \<Rightarrow> None
   | Some found \<Rightarrow>
       if list_all (\<lambda>kv. fst kv \<in> KStr ` set (map fst found)) d then Some (map snd found) else None)"

text \<open>A strict string field of a bounded length that is not blank.\<close>

definition text_field :: "nat \<Rightarrow> pyval \<Rightarrow> string option" where
  "text_field limit v = (case v of
     VStr s \<Rightarrow> if s \<noteq> [] \<and> length s \<le> limit \<and> strip s \<noteq> [] then Some s else None
   | _ \<Rightarrow> None)"

record RequirementParsePayload =
  pp_original_object_key :: string
  pp_normalized_object_key :: string

definition parse_payload_spec :: "(string \<times> string) list" where
  "parse_payload_spec = [(''originalObjectKey'', ''original_object_key''),
     (''normalizedObjectKey'', ''normalized_object_key'')]"

definition validate_parse_payload :: "dict \<Rightarrow> RequirementParsePayload option" where
  "validate_parse_payload d = (case model_fields d parse_payload_spec of
     Some [original, normalized] \<Rightarrow> (case (text_field 512 original, text_field 512 normalized) of
         (Some a, Some b) \<Rightarrow> Some \<lparr>pp_original_object_key = a, pp_normalized_object_key = b\<rparr>
       | _ \<Rightarrow> None)
   | _ \<Rightarrow> None)"

definition dump_parse_payload :: "RequirementParsePayload \<Rightarrow> dict" where
  "dump_parse_payload p = [(KStr ''originalObjectKey'', VStr (pp_original_object_key p)),
     (KStr ''normalizedObjectKey'', VStr (pp_normalized_object_key p))]"

subsection \<open>The target snapshot\<close>

text \<open>The ten text fields in the order of the class, then the tags and the version.\<close>

record TargetSnapshot =
  ts_texts :: "string list"
  ts_abi_tags :: "string list"
  ts_profile_version :: int

definition snapshot_texts :: "((string \<times> string) \<times> nat) list" where
  "snapshot_texts = [((''profileId'', ''profile_id''), 36), ((''profileCode'', ''profile_code''), 100),
     ((''os'', ''os''), 20), ((''architecture'', ''architecture''), 20),
     ((''pythonImplementation'', ''python_implementation''), 20), ((''pythonVersion'', ''python_version''), 20),
     ((''pythonFullVersion'', ''python_full_version''), 30), ((''platformTag'', ''platform_tag''), 100),
     ((''validationType'', ''validation_type''), 20),
     ((''validationPolicyVersion'', ''validation_policy_version''), 100)]"

definition snapshot_spec :: "(string \<times> string) list" where
  "snapshot_spec = [(''abiTags'', ''abi_tags''), (''profileVersion'', ''profile_version'')] @ map fst snapshot_texts"

definition ts_profile_id :: "TargetSnapshot \<Rightarrow> string" where
  "ts_profile_id t = hd (ts_texts t)"

definition abi_tags_field :: "pyval \<Rightarrow> string list option" where
  "abi_tags_field v = (case v of
     VList vs \<Rightarrow> if vs \<noteq> [] \<and> length vs \<le> 16 then those (map (text_field 50) vs) else None
   | _ \<Rightarrow> None)"

definition profile_version_field :: "pyval \<Rightarrow> int option" where
  "profile_version_field v = (case mathematical_integer v of
     Some i \<Rightarrow> if 0 \<le> i then Some i else None
   | None \<Rightarrow> None)"

definition validate_snapshot :: "dict \<Rightarrow> TargetSnapshot option" where
  "validate_snapshot d = (case model_fields d snapshot_spec of
     Some (tags # version # texts) \<Rightarrow>
       (case (abi_tags_field tags, profile_version_field version,
              those (map2 text_field (map snd snapshot_texts) texts)) of
          (Some abi_tags, Some i, Some ts) \<Rightarrow>
            if validate_canonical_uuid (hd ts)
            then Some \<lparr>ts_texts = ts, ts_abi_tags = abi_tags, ts_profile_version = i\<rparr> else None
        | _ \<Rightarrow> None)
   | _ \<Rightarrow> None)"

definition dump_snapshot :: "TargetSnapshot \<Rightarrow> dict" where
  "dump_snapshot t =
     map2 (\<lambda>((alias, _), _) s. (KStr alias, VStr s)) (take 8 snapshot_texts) (take 8 (ts_texts t)) @
     [(KStr ''abiTags'', VList (map VStr (ts_abi_tags t)))] @
     map2 (\<lambda>((alias, _), _) s. (KStr alias, VStr s)) (drop 8 snapshot_texts) (drop 8 (ts_texts t)) @
     [(KStr ''profileVersion'', VInt (ts_profile_version t))]"

subsection \<open>The build payload\<close>

record BuildPayload =
  bp_requirement_file_id :: string
  bp_normalized_object_key :: string
  bp_solve_mode :: string
  bp_target_snapshot :: TargetSnapshot

definition build_payload_spec :: "(string \<times> string) list" where
  "build_payload_spec = [(''requirementFileId'', ''requirement_file_id''),
     (''normalizedObjectKey'', ''normalized_object_key''), (''solveMode'', ''solve_mode''),
     (''targetSnapshot'', ''target_snapshot'')]"

definition validate_build_payload :: "dict \<Rightarrow> BuildPayload option" where
  "validate_build_payload d = (case model_fields d build_payload_spec of
     Some [file_id, key, mode, VDict snapshot] \<Rightarrow>
       (case (text_field 36 file_id, text_field 512 key, validate_snapshot snapshot) of
          (Some f, Some k, Some s) \<Rightarrow>
            if validate_canonical_uuid f \<and> mode = VStr ''COMPATIBLE''
            then Some \<lparr>bp_requirement_file_id = f, bp_normalized_object_key = k, bp_solve_mode = ''COMPATIBLE'',
              bp_target_snapshot = s\<rparr> else None
        | _ \<Rightarrow> None)
   | _ \<Rightarrow> None)"

definition dump_build_payload :: "BuildPayload \<Rightarrow> dict" where
  "dump_build_payload p = [(KStr ''requirementFileId'', VStr (bp_requirement_file_id p)),
     (KStr ''normalizedObjectKey'', VStr (bp_normalized_object_key p)), (KStr ''solveMode'', VStr (bp_solve_mode p)),
     (KStr ''targetSnapshot'', VDict (dump_snapshot (bp_target_snapshot p)))]"

subsection \<open>The envelope\<close>

record JobPayload =
  jp_job_type :: string
  jp_subject_id :: string
  jp_created_at :: string
  jp_payload :: dict

definition wire_keys :: "string list" where
  "wire_keys = [''schemaVersion'', ''jobType'', ''subjectId'', ''createdAt'', ''payload'']"

definition validated_payload :: "string \<Rightarrow> dict \<Rightarrow> dict option" where
  "validated_payload job_type payload =
     (if job_type = ''REQUIREMENT_PARSE'' then map_option dump_parse_payload (validate_parse_payload payload)
      else map_option dump_build_payload (validate_build_payload payload))"

text \<open>The five keys, by alias only, and the payload of the job's type.\<close>

definition validate_wire :: "dict \<Rightarrow> JobPayload option" where
  "validate_wire d = (case model_fields d (map (\<lambda>k. (k, k)) wire_keys) of
     Some [version, VStr job_type, VStr subject_id, VStr created_at, VDict payload] \<Rightarrow>
       if mathematical_integer version = Some 1
          \<and> job_type \<in> {''REQUIREMENT_PARSE'', ''BUILD''}
          \<and> validate_canonical_uuid subject_id
          \<and> validate_rfc3339_created_at created_at \<and> length created_at \<le> 64
       then map_option (\<lambda>p. \<lparr>jp_job_type = job_type, jp_subject_id = the (canonical_uuid subject_id),
              jp_created_at = created_at, jp_payload = p\<rparr>) (validated_payload job_type payload)
       else None
   | _ \<Rightarrow> None)"

definition validate_job_payload :: "string \<Rightarrow> JobPayload option" where
  "validate_job_payload json_data =
     (if MAX_JOB_WIRE_BYTES < length (utf8_encode json_data) then None
      else (case loads json_data of
          None \<Rightarrow> None
        | Some decoded \<Rightarrow>
            if \<not> standard_constants decoded \<or> validate_json_shape decoded \<noteq> Inr () then None
            else (case decoded of VDict d \<Rightarrow> validate_wire d | _ \<Rightarrow> None)))"

subsection \<open>Dumping and validating again\<close>

definition snapshot_ok :: "TargetSnapshot \<Rightarrow> bool" where
  "snapshot_ok t \<longleftrightarrow> those (map2 text_field (map snd snapshot_texts) (map VStr (ts_texts t))) = Some (ts_texts t) \<and>
     length (ts_texts t) = 10 \<and> abi_tags_field (VList (map VStr (ts_abi_tags t))) = Some (ts_abi_tags t) \<and>
     0 \<le> ts_profile_version t \<and> validate_canonical_uuid (ts_profile_id t)"

lemma text_field_Some: "text_field n v = Some s \<longleftrightarrow> v = VStr s \<and> s \<noteq> [] \<and> length s \<le> n \<and> strip s \<noteq> []"
  by (auto simp: text_field_def split: pyval.splits if_splits)

lemma those_Some_iff: "those xs = Some ys \<longleftrightarrow> xs = map Some ys"
  by (induction xs arbitrary: ys) (auto split: option.splits)

lemma those_text_fields:
  assumes "those (map2 text_field ns vs) = Some ts" "length vs = length ns"
  shows "vs = map VStr ts"
  using assms
proof (induction ns vs arbitrary: ts rule: list_induct2')
  case (4 n ns v vs)
  then show ?case by (auto simp: text_field_Some split: option.splits)
qed simp_all

lemma those_fields:
  assumes "those (map (text_field n) vs) = Some ts"
  shows "vs = map VStr ts"
  using assms by (induction vs arbitrary: ts) (auto simp: text_field_Some split: option.splits)

lemma model_fields_length: "model_fields d spec = Some vs \<Longrightarrow> length vs = length spec"
  by (auto simp: model_fields_def those_Some_iff split: option.splits if_splits dest!: map_eq_imp_length_eq)

lemma validate_snapshot_ok:
  assumes "validate_snapshot d = Some t"
  shows "snapshot_ok t"
proof -
  obtain tags version texts where f: "model_fields d snapshot_spec = Some (tags # version # texts)"
    using assms by (auto simp: validate_snapshot_def split: option.splits list.splits)
  have len: "length texts = 10"
    using model_fields_length [OF f] by (simp add: snapshot_spec_def snapshot_texts_def)
  from assms f obtain abi i ts where t: "abi_tags_field tags = Some abi" "profile_version_field version = Some i"
    "those (map2 text_field (map snd snapshot_texts) texts) = Some ts" "validate_canonical_uuid (hd ts)"
    "t = \<lparr>ts_texts = ts, ts_abi_tags = abi, ts_profile_version = i\<rparr>"
    by (auto simp: validate_snapshot_def split: option.splits if_splits)
  have v: "texts = map VStr ts"
    by (rule those_text_fields [OF t(3)]) (simp add: len snapshot_texts_def)
  have "tags = VList (map VStr abi)"
    using t(1) those_fields by (auto simp: abi_tags_field_def split: pyval.splits if_splits)
  moreover have "0 \<le> i" using t(2) by (auto simp: profile_version_field_def split: option.splits if_splits)
  ultimately show ?thesis using t v len by (simp add: snapshot_ok_def ts_profile_id_def)
qed

lemma validate_dump_snapshot:
  assumes "snapshot_ok t"
  shows "validate_snapshot (dump_snapshot t) = Some t"
proof -
  obtain a b c d e f g h i j where ts: "ts_texts t = [a, b, c, d, e, f, g, h, i, j]"
    using assms by (auto simp: snapshot_ok_def length_Suc_conv numeral_eq_Suc)
  have "model_fields (dump_snapshot t) snapshot_spec =
      Some (VList (map VStr (ts_abi_tags t)) # VInt (ts_profile_version t) # map VStr (ts_texts t))"
    by (simp add: dump_snapshot_def snapshot_spec_def snapshot_texts_def ts model_fields_def take_field_def)
  then show ?thesis
    using assms by (simp add: validate_snapshot_def snapshot_ok_def profile_version_field_def
        mathematical_integer_def ts_profile_id_def)
qed

lemma validate_parse_payload_dump:
  assumes "validate_parse_payload d = Some p"
  shows "validate_parse_payload (dump_parse_payload p) = Some p"
proof -
  have "text_field 512 (VStr (pp_original_object_key p)) = Some (pp_original_object_key p)"
    "text_field 512 (VStr (pp_normalized_object_key p)) = Some (pp_normalized_object_key p)"
    using assms by (auto simp: validate_parse_payload_def text_field_Some split: option.splits list.splits)
  moreover have "model_fields (dump_parse_payload p) parse_payload_spec =
      Some [VStr (pp_original_object_key p), VStr (pp_normalized_object_key p)]"
    by (simp add: dump_parse_payload_def parse_payload_spec_def model_fields_def take_field_def)
  ultimately show ?thesis by (simp add: validate_parse_payload_def)
qed

lemma validate_build_payload_dump:
  assumes "validate_build_payload d = Some p"
  shows "validate_build_payload (dump_build_payload p) = Some p"
proof -
  have p: "text_field 36 (VStr (bp_requirement_file_id p)) = Some (bp_requirement_file_id p)"
    "text_field 512 (VStr (bp_normalized_object_key p)) = Some (bp_normalized_object_key p)"
    "snapshot_ok (bp_target_snapshot p)" "validate_canonical_uuid (bp_requirement_file_id p)"
    "bp_solve_mode p = ''COMPATIBLE''"
    using assms validate_snapshot_ok
    by (auto simp: validate_build_payload_def text_field_Some split: option.splits list.splits pyval.splits if_splits)
  have "model_fields (dump_build_payload p) build_payload_spec =
      Some [VStr (bp_requirement_file_id p), VStr (bp_normalized_object_key p), VStr (bp_solve_mode p),
        VDict (dump_snapshot (bp_target_snapshot p))]"
    by (simp add: dump_build_payload_def build_payload_spec_def model_fields_def take_field_def)
  then show ?thesis using p by (simp add: validate_build_payload_def validate_dump_snapshot)
qed

lemma validated_payload_idem:
  assumes "validated_payload job_type d = Some p"
  shows "validated_payload job_type p = Some p"
  using assms validate_parse_payload_dump validate_build_payload_dump
  by (auto simp: validated_payload_def split: if_splits)

subsection \<open>The envelope again\<close>

text \<open>The JSON object an accepted envelope stands for.\<close>

definition wire_value :: "JobPayload \<Rightarrow> pyval" where
  "wire_value p = VDict [(KStr ''schemaVersion'', VInt 1), (KStr ''jobType'', VStr (jp_job_type p)),
     (KStr ''subjectId'', VStr (jp_subject_id p)), (KStr ''createdAt'', VStr (jp_created_at p)),
     (KStr ''payload'', VDict (jp_payload p))]"

lemma validate_wire_Some:
  assumes "validate_wire d = Some p"
  shows "jp_job_type p \<in> {''REQUIREMENT_PARSE'', ''BUILD''}" "canonical_uuid (jp_subject_id p) = Some (jp_subject_id p)"
    "validate_rfc3339_created_at (jp_created_at p)" "length (jp_created_at p) \<le> 64"
    "validated_payload (jp_job_type p) (jp_payload p) = Some (jp_payload p)"
  using assms canonical_uuid_idem validated_payload_idem
  by (auto simp: validate_wire_def validate_canonical_uuid_def split: option.splits list.splits pyval.splits if_splits)

lemma validate_wire_value:
  assumes "validate_wire d = Some p" "wire_value p = VDict w"
  shows "validate_wire w = Some p"
proof -
  note p = validate_wire_Some [OF assms(1)]
  have "model_fields w (map (\<lambda>k. (k, k)) wire_keys) = Some [VInt 1, VStr (jp_job_type p), VStr (jp_subject_id p),
      VStr (jp_created_at p), VDict (jp_payload p)]"
    using assms(2) by (auto simp: wire_value_def wire_keys_def model_fields_def take_field_def)
  then show ?thesis
    using p by (simp add: validate_wire_def mathematical_integer_def validate_canonical_uuid_def)
qed

lemma jsonable_build_payload:
  assumes "validate_build_payload d = Some q"
  shows "jsonable (VDict (dump_build_payload q))"
proof -
  have "snapshot_ok (bp_target_snapshot q)"
    using assms validate_snapshot_ok
    by (auto simp: validate_build_payload_def split: option.splits list.splits pyval.splits if_splits)
  then obtain a b c d e f g h i j where "ts_texts (bp_target_snapshot q) = [a, b, c, d, e, f, g, h, i, j]"
    by (auto simp: snapshot_ok_def length_Suc_conv numeral_eq_Suc)
  then show ?thesis by (simp add: dump_build_payload_def dump_snapshot_def snapshot_texts_def)
qed

lemma jsonable_payload:
  assumes "validated_payload job_type d = Some p"
  shows "jsonable (VDict p)"
proof (cases "validate_parse_payload d = None \<or> job_type \<noteq> ''REQUIREMENT_PARSE''")
  case True
  then obtain q where "validate_build_payload d = Some q" "p = dump_build_payload q"
    using assms by (auto simp only: validated_payload_def split: if_splits)
  then show ?thesis using jsonable_build_payload by simp
next
  case False
  then have "\<exists>q. p = dump_parse_payload q" using assms by (auto simp: validated_payload_def)
  then show ?thesis by (auto simp: dump_parse_payload_def)
qed

lemma jsonable_standard: "jsonable v \<Longrightarrow> standard_constants v"
  by (induction v rule: standard_constants.induct) (auto simp: list_all_iff)

lemma utf8_length_ascii: "ascii s \<Longrightarrow> length (utf8_encode s) = length s"
  by (induction s) (simp_all add: utf8_encode_def utf8_char_def)

lemma jsonable_plain: "jsonable v \<Longrightarrow> plain_texts v"
  by (induction v rule: plain_texts.induct) auto

lemma validate_job_payload_wire:
  assumes "validate_job_payload s = Some p"
  obtains d where "loads s = Some (VDict d)" "validate_wire d = Some p" "length (utf8_encode s) \<le> MAX_JOB_WIRE_BYTES"
  using assms by (auto simp: validate_job_payload_def split: option.splits pyval.splits if_splits)

lemma bounded_wire_accepted:
  assumes "validate_wire d = Some p" "bounded_database_payload_json (wire_value p) = Inr t"
  shows "validate_job_payload t = Some p"
proof -
  note p = validate_wire_Some [OF assms(1)]
  have j: "jsonable (wire_value p)" using jsonable_payload [OF p(5)] by (simp add: wire_value_def)
  have t: "bounded_shape (wire_value p)" "t = dumps_compact (wire_value p)" "length t \<le> MAX_JOB_WIRE_BYTES"
    using assms(2) unfolding bounded_database_payload_json_Inr by blast+
  have "ascii t" unfolding t(2) dumps_compact_def by (rule ascii_dumps) (simp_all add: jsonable_plain [OF j] code_def)
  then have "length (utf8_encode t) \<le> MAX_JOB_WIRE_BYTES" using t(3) by (simp add: utf8_length_ascii)
  moreover have "loads t = Some (wire_value p)" unfolding t(2) by (rule loads_dumps [OF j])
  moreover have "validate_json_shape (wire_value p) = Inr ()" using t(1) by (simp add: validate_json_shape_iff)
  moreover obtain w where "wire_value p = VDict w" by (simp add: wire_value_def)
  ultimately show ?thesis
    using validate_wire_value [OF assms(1)] jsonable_standard [OF j] by (simp add: validate_job_payload_def)
qed

text \<open>C39 An accepted job payload is normal: encoded again within the limits it is accepted as the same
  envelope, with its identifiers in canonical form and its payload validating to itself.\<close>

theorem job_payload_roundtrip:
  assumes "validate_job_payload s = Some p" "bounded_database_payload_json (wire_value p) = Inr t"
  shows "validate_job_payload t = Some p \<and> canonical_uuid (jp_subject_id p) = Some (jp_subject_id p) \<and>
    validated_payload (jp_job_type p) (jp_payload p) = Some (jp_payload p)"
proof -
  obtain d where d: "validate_wire d = Some p" using validate_job_payload_wire [OF assms(1)] by blast
  show ?thesis using bounded_wire_accepted [OF d assms(2)] validate_wire_Some [OF d] by simp
qed

end
