(* ===== verification/Programs.thy ===== *)
theory Programs
  imports Deployment Requirements Payloads
begin

section \<open>Worker code as programs: exceptions, database calls, heartbeats\<close>

text \<open>
  The code that drives the repository runs while other workers, the backend and the clock go on, and any
  call may raise.  A program maps a state to a raised exception or a value, and a new state: the deployment,
  the number of interactions so far, the object this run has published, the exceptions its handlers caught
  and what it did to the object store.  Everything outside the code is the record \<open>outside\<close>, indexed by the
  number of the interaction.
\<close>

subsection \<open>The class of an exception\<close>

text \<open>The base classes of the exceptions the code tells apart; any other one derives from \<open>Exception\<close>.\<close>

definition EXCEPTION_BASES :: "(string \<times> string) list" where
  "EXCEPTION_BASES =
    [(''Exception'', ''BaseException''), (''KeyboardInterrupt'', ''BaseException''),
     (''SystemExit'', ''BaseException''), (''GeneratorExit'', ''BaseException''),
     (''BaseExceptionGroup'', ''BaseException''), (''ExceptionGroup'', ''Exception''),
     (''LostLeaseError'', ''RuntimeError''), (''SubjectIntegrityError'', ''ValueError''),
     (''RequirementsParseError'', ''ValueError''), (''InvalidVersion'', ''ValueError''),
     (''InvalidSpecifier'', ''ValueError''), (''InvalidRequirement'', ''ValueError''), (''InputTooLargeError'', ''RequirementsParseError''),
     (''TooManyLinesError'', ''RequirementsParseError''), (''RequirementsDecodeError'', ''RequirementsParseError''),
     (''RequirementLineError'', ''RequirementsParseError''), (''InvalidRequirementError'', ''RequirementLineError''),
     (''UnsupportedRequirementSyntax'', ''RequirementLineError''),
     (''RequirementConstraintConflictError'', ''RequirementLineError''),
     (''DuplicateRequirementConflictError'', ''RequirementLineError''),
     (''WheelArchiveValidationError'', ''RuntimeError''), (''UnsafeWheelArchive'', ''WheelArchiveValidationError''),
     (''ArchiveResourceLimitError'', ''WheelArchiveValidationError''),
     (''ArchiveMetadataError'', ''WheelArchiveValidationError''),
     (''WheelRecordMismatch'', ''WheelArchiveValidationError''),
     (''WheelDownloadError'', ''RuntimeError''), (''DownloadCancelledError'', ''WheelDownloadError''),
     (''DownloadValidationError'', ''WheelDownloadError''),
     (''ResolverError'', ''RuntimeError''), (''PipReportError'', ''ResolverError''),
     (''InvalidPipReportError'', ''PipReportError''), (''PipReportVersionError'', ''PipReportError''),
     (''PipReportSchemaError'', ''PipReportError''), (''ResolverProcessError'', ''ResolverError''),
     (''ResolverCommandError'', ''ResolverError''), (''ResolverMissingReportError'', ''ResolverError''),
     (''CompatibilityResolutionError'', ''ResolverError''), (''ArtifactBuildError'', ''RuntimeError''),
     (''QueueCapacityError'', ''RuntimeError''), (''ProcessError'', ''RuntimeError''),
     (''InvalidObjectKey'', ''ValueError''), (''ValidationError'', ''ValueError''),
     (''JSONDecodeError'', ''ValueError''), (''UnicodeError'', ''ValueError''),
     (''UnicodeDecodeError'', ''UnicodeError''), (''UnicodeEncodeError'', ''UnicodeError''),
     (''RecursionError'', ''RuntimeError''), (''NotImplementedError'', ''RuntimeError''),
     (''FileExistsError'', ''OSError''), (''FileNotFoundError'', ''OSError''), (''TimeoutError'', ''OSError''),
     (''PermissionError'', ''OSError''), (''ConnectionError'', ''OSError''), (''URLError'', ''OSError''),
     (''BlockingIOError'', ''OSError''), (''NotADirectoryError'', ''OSError''), (''IsADirectoryError'', ''OSError''),
     (''IntegrityError'', ''DBAPIError''), (''OperationalError'', ''DBAPIError'')]"

fun ancestors :: "nat \<Rightarrow> string \<Rightarrow> string list" where
  "ancestors 0 c = [c]"
| "ancestors (Suc n) c =
     (if c = ''BaseException'' then [c]
      else c # ancestors n (coalesce (map_of EXCEPTION_BASES c) ''Exception''))"

definition is_instance :: "string \<Rightarrow> py_exn \<Rightarrow> bool" where
  "is_instance kind e \<longleftrightarrow> kind \<in> set (ancestors 8 (exn_type e))"

text \<open>\<open>BaseExceptionGroup(message, members)\<close>, an \<open>ExceptionGroup\<close> when all children are exceptions.\<close>

definition exception_group :: "string \<Rightarrow> py_exn list \<Rightarrow> py_exn" where
  "exception_group message members = ExnGroup
     (if list_all (is_instance ''Exception'') members then ''ExceptionGroup'' else ''BaseExceptionGroup'')
     message members"

definition contains_lost_lease :: "py_exn \<Rightarrow> bool" where
  "contains_lost_lease e = contains_exception e (\<lambda>t. ''LostLeaseError'' \<in> set (ancestors 8 t))"

text \<open>\<open>_retryable\<close>; \<open>invalidated\<close> is the driver's \<open>connection_invalidated\<close>.\<close>

fun retryable :: "(py_exn \<Rightarrow> bool) \<Rightarrow> py_exn \<Rightarrow> bool" where
  "retryable invalidated (ExnGroup t m members) = (members \<noteq> [] \<and> list_all (retryable invalidated) members)"
| "retryable invalidated (Exn t m) =
     (let e = Exn t m in
      if is_instance ''LostLeaseError'' e then False
      else if is_instance ''IntegrityError'' e then False
      else if is_instance ''OperationalError'' e \<or> is_instance ''TimeoutError'' e then True
      else if is_instance ''DBAPIError'' e then invalidated e
      else is_instance ''OSError'' e \<or> is_instance ''ResolverError'' e \<or> is_instance ''RuntimeError'' e)"

fun repo_exn :: "repo_error \<Rightarrow> py_exn" where
  "repo_exn (JobDb.LostLeaseError m) = Exn ''LostLeaseError'' m"
| "repo_exn (JobDb.ValueError m) = Exn ''ValueError'' m"
| "repo_exn (JobDb.IntegrityError m) = Exn ''IntegrityError'' m"

definition line_message :: "int \<Rightarrow> string \<Rightarrow> string" where
  "line_message line_no message = ''line '' @ int_str line_no @ '': '' @ message"

fun parse_exn :: "parse_error \<Rightarrow> py_exn" where
  "parse_exn (InputTooLargeError actual limit) = Exn ''InputTooLargeError''
     (''requirements file is '' @ nat_str actual @ '' bytes; limit is '' @ nat_str limit)"
| "parse_exn (TooManyLinesError actual limit) = Exn ''TooManyLinesError''
     (''requirements file has '' @ nat_str actual @ '' lines; limit is '' @ nat_str limit)"
| "parse_exn RequirementsDecodeError = Exn ''RequirementsDecodeError''
     ''requirements file is neither valid UTF-8 nor valid GBK''"
| "parse_exn (InvalidRequirementError m n _) = Exn ''InvalidRequirementError'' (line_message n m)"
| "parse_exn (UnsupportedRequirementSyntax m n _) = Exn ''UnsupportedRequirementSyntax'' (line_message n m)"
| "parse_exn (RequirementConstraintConflictError name n _) = Exn ''RequirementConstraintConflictError''
     (line_message n (''requirement '' @ py_repr name @ '' contains conflicting constraints''))"
| "parse_exn (DuplicateRequirementConflictError name n _ existing) = Exn ''DuplicateRequirementConflictError''
     (line_message n (''requirement '' @ py_repr name @ '' conflicts with line '' @ int_str existing))"
| "parse_exn OutsideStrings = Exn ''RequirementsParseError'' ''outside''"

subsection \<open>What a run meets\<close>

record BuiltArtifact =
  ba_name :: string
  ba_sha256 :: string

record 'k BuildValidation =
  bv_wheels :: "'k DownloadedWheel list"
  bv_report :: StaticValidationReport
  bv_download_failures :: "(string \<times> string) list"

record 'k BuildDownload =
  bd_wheels :: "'k DownloadedWheel list"
  bd_failures :: "(string \<times> string) list"

record 'k stages =
  sg_resolve :: "nat \<Rightarrow> BuildResourceLimits \<Rightarrow> ParsedRequirements \<Rightarrow> TargetProfile \<Rightarrow> py_exn + 'k ResolutionResult"
  sg_download :: "nat \<Rightarrow> BuildResourceLimits \<Rightarrow> 'k ResolutionResult \<Rightarrow> TargetProfile \<Rightarrow> py_exn + 'k BuildDownload"
  sg_validate :: "nat \<Rightarrow> BuildResourceLimits \<Rightarrow> 'k ResolutionResult \<Rightarrow> 'k DownloadedWheel list \<Rightarrow> TargetProfile \<Rightarrow>
    py_exn + 'k BuildValidation"
  sg_package :: "nat \<Rightarrow> string \<Rightarrow> 'k ResolutionResult \<Rightarrow> 'k BuildValidation \<Rightarrow> TargetProfile \<Rightarrow> py_exn + BuiltArtifact"

text \<open>
  What the n-th interaction meets.  \<open>ou_meanwhile\<close> is what the rest of the deployment did before it,
  \<open>ou_driver\<close> an error of the database driver instead of the call (rolled back), \<open>ou_beats\<close> the number of
  heartbeats that fall due, \<open>ou_stuck\<close> whether the heartbeat thread fails to stop in time.
\<close>

record 'k outside =
  ou_meanwhile :: "nat \<Rightarrow> world \<Rightarrow> world"
  ou_driver :: "nat \<Rightarrow> py_exn option"
  ou_invalidated :: "py_exn \<Rightarrow> bool"
  ou_lease_seconds :: int
  ou_uuids :: "nat \<Rightarrow> nat \<Rightarrow> string"
  ou_beats :: "nat \<Rightarrow> nat"
  ou_stuck :: "nat \<Rightarrow> bool"
  ou_monotonic :: "nat \<Rightarrow> time"
  ou_read_bytes :: "nat \<Rightarrow> string \<Rightarrow> py_exn + nat list"
  ou_publish_bytes :: "nat \<Rightarrow> string \<Rightarrow> nat list \<Rightarrow> py_exn + PublishedObject"
  ou_publish_file :: "nat \<Rightarrow> string \<Rightarrow> py_exn + PublishedObject"
  ou_delete :: "nat \<Rightarrow> string \<Rightarrow> string \<Rightarrow> py_exn option"
  ou_allocate :: "nat \<Rightarrow> string \<Rightarrow> py_exn option"
  ou_mkdir :: "nat \<Rightarrow> py_exn option"
  ou_close :: "nat \<Rightarrow> py_exn option"
  ou_artifact_size :: "nat \<Rightarrow> string \<Rightarrow> py_exn + int"
  ou_sha256 :: "nat list \<Rightarrow> string"
  ou_packaging :: "'k packaging"
  ou_gbk :: "nat list \<Rightarrow> nat list option"
  ou_payload_error :: "string \<Rightarrow> string"
  ou_stages :: "'k stages"

datatype storage_event = Published string | DeleteAsked string

record run_state =
  rn_world :: world
  rn_calls :: nat
  rn_published :: "PublishedObject option"
  rn_caught :: "py_exn list"
  rn_storage :: "storage_event list"

type_synonym 'a prog = "run_state \<Rightarrow> (py_exn + 'a) \<times> run_state"

subsection \<open>Combining programs\<close>

definition ret :: "'a \<Rightarrow> 'a prog" where "ret x st = (Inr x, st)"

definition throw :: "py_exn \<Rightarrow> 'a prog" where "throw e st = (Inl e, st)"

definition bind :: "'a prog \<Rightarrow> ('a \<Rightarrow> 'b prog) \<Rightarrow> 'b prog" where
  "bind m f st = (case m st of (Inl e, st') \<Rightarrow> (Inl e, st') | (Inr x, st') \<Rightarrow> f x st')"

text \<open>\<open>try ... except BaseException as error\<close>, with the caught exception recorded.\<close>

definition catch :: "'a prog \<Rightarrow> (py_exn \<Rightarrow> 'a prog) \<Rightarrow> 'a prog" where
  "catch m h st = (case m st of
     (Inl e, st') \<Rightarrow> h e (st'\<lparr>rn_caught := rn_caught st' @ [e]\<rparr>)
   | (Inr x, st') \<Rightarrow> (Inr x, st'))"

definition final :: "'a prog \<Rightarrow> unit prog \<Rightarrow> 'a prog" where
  "final m f st = (case m st of (r, st') \<Rightarrow> (case f st' of (Inl e, st'') \<Rightarrow> (Inl e, st'') | (Inr _, st'') \<Rightarrow> (r, st'')))"

definition of_option :: "py_exn option \<Rightarrow> py_exn + unit" where
  "of_option x = (case x of None \<Rightarrow> Inr () | Some e \<Rightarrow> Inl e)"

definition require :: "bool \<Rightarrow> py_exn \<Rightarrow> unit prog" where
  "require b e = (if b then ret () else throw e)"

text \<open>A call of something outside.\<close>

definition outside_call :: "(nat \<Rightarrow> py_exn + 'a) \<Rightarrow> 'a prog" where
  "outside_call g st = (g (rn_calls st), st\<lparr>rn_calls := rn_calls st + 1\<rparr>)"

text \<open>\<open>_best_effort_cleanup\<close>\<close>

definition best_effort_cleanup :: "unit prog \<Rightarrow> unit prog" where
  "best_effort_cleanup m st = (case m st of
     (Inl e, st') \<Rightarrow> (if is_instance ''Exception'' e then Inr () else Inl e, st')
   | (Inr x, st') \<Rightarrow> (Inr x, st'))"

subsection \<open>Database calls\<close>

definition db_call :: "'k outside \<Rightarrow> (nat \<Rightarrow> time \<Rightarrow> db \<Rightarrow> (py_exn + 'a) \<times> db) \<Rightarrow> 'a prog" where
  "db_call out f st =
     (let n = rn_calls st; w = ou_meanwhile out n (rn_world st);
          st = st\<lparr>rn_world := w, rn_calls := n + 1\<rparr>
      in case ou_driver out n of
           Some e \<Rightarrow> (Inl e, st)
         | None \<Rightarrow> (case f n (w_now w) (w_db w) of (r, s') \<Rightarrow> (r, st\<lparr>rn_world := w\<lparr>w_db := s'\<rparr>\<rparr>)))"

definition plain :: "(time \<Rightarrow> db \<Rightarrow> 'a \<times> db) \<Rightarrow> time \<Rightarrow> db \<Rightarrow> (py_exn + 'a) \<times> db" where
  "plain f now s = (case f now s of (a, s') \<Rightarrow> (Inr a, s'))"

definition raising :: "(time \<Rightarrow> db \<Rightarrow> (repo_error + 'a) \<times> db) \<Rightarrow> time \<Rightarrow> db \<Rightarrow> (py_exn + 'a) \<times> db" where
  "raising f now s = (case f now s of (r, s') \<Rightarrow> (map_sum repo_exn id r, s'))"

definition reading :: "(time \<Rightarrow> db \<Rightarrow> repo_error + 'a) \<Rightarrow> time \<Rightarrow> db \<Rightarrow> (py_exn + 'a) \<times> db" where
  "reading f now s = (map_sum repo_exn id (f now s), s)"

subsection \<open>The lease heartbeat (\<open>jobs/heartbeat.py\<close>)\<close>

text \<open>\<open>_run\<close>, as often as the interval elapses: the first failure ends it.\<close>

definition LEASE_EXPIRED :: py_exn where
  "LEASE_EXPIRED = Exn ''LostLeaseError'' ''job lease expired during stage execution''"

fun beats :: "'k outside \<Rightarrow> JobLease \<Rightarrow> nat \<Rightarrow> py_exn option \<Rightarrow> run_state \<Rightarrow> py_exn option \<times> run_state" where
  "beats out lease 0 failure st = (failure, st)"
| "beats out lease (Suc k) (Some e) st = (Some e, st)"
| "beats out lease (Suc k) None st =
     (case db_call out (\<lambda>_. plain (heartbeat (ou_lease_seconds out) lease)) st of
        (Inl e, st') \<Rightarrow> (Some e, st')
      | (Inr alive, st') \<Rightarrow> beats out lease k (if alive then None else Some LEASE_EXPIRED) st')"

definition due_beats :: "'k outside \<Rightarrow> JobLease \<Rightarrow> py_exn option \<Rightarrow> run_state \<Rightarrow> py_exn option \<times> run_state" where
  "due_beats out lease failure st =
     beats out lease (ou_beats out (rn_calls st)) failure (st\<lparr>rn_calls := rn_calls st + 1\<rparr>)"

text \<open>\<open>stop\<close>: a thread that does not end is a failure of its own.\<close>

definition stop_heartbeat :: "'k outside \<Rightarrow> py_exn option \<Rightarrow> run_state \<Rightarrow> py_exn option \<times> run_state" where
  "stop_heartbeat out failure st =
     (if ou_stuck out (rn_calls st)
      then Some (coalesce failure (Exn ''RuntimeError'' ''lease heartbeat thread did not stop'')) else failure,
      st\<lparr>rn_calls := rn_calls st + 1\<rparr>)"

text \<open>\<open>__exit__\<close>, with the failure that the body's exception already is, if it is one.\<close>

definition exit_heartbeat :: "py_exn option \<Rightarrow> py_exn option \<Rightarrow> py_exn + 'a \<Rightarrow> py_exn + 'a" where
  "exit_heartbeat failure checked result = (case failure of
     None \<Rightarrow> result
   | Some f \<Rightarrow> (case result of
       Inr _ \<Rightarrow> Inl f
     | Inl e \<Rightarrow> if checked \<noteq> None then Inl f
         else Inl (exception_group ''stage and lease heartbeat both failed'' [e, f])))"

text \<open>\<open>_during_lease\<close>: heartbeats before, after and beyond the check of the stage.\<close>

definition during_lease :: "'k outside \<Rightarrow> JobLease \<Rightarrow> 'a prog \<Rightarrow> 'a prog" where
  "during_lease out lease operation st =
     (let (failure, st) = due_beats out lease None st;
          (result, st) = operation st;
          (failure, st) = due_beats out lease failure st;
          checked = (case result of Inl _ \<Rightarrow> None | Inr _ \<Rightarrow> failure);
          body = (case checked of None \<Rightarrow> result | Some f \<Rightarrow> Inl f);
          (failure, st) = due_beats out lease failure st;
          (failure, st) = stop_heartbeat out failure st
      in (exit_heartbeat failure checked body, st))"

end
