(* ===== verification/Pipeline.thy ===== *)
theory Pipeline
  imports Programs
begin

section \<open>The job pipeline and the consumer (\<open>jobs/pipeline.py\<close>, \<open>jobs/consumer.py\<close>)\<close>

text \<open>
  What one worker does with a lease: validate the payload, claim the subject, run the parse or the stages of
  the build, publish, and settle the job on every exit.  The stages, the object store, the workspace and
  SHA-256 are parameters.  Snapshots of validated wheels have no other effect here than that closing them may
  raise.
\<close>

type_synonym PipelineResult = "BuildStatus \<times> string option"

definition failed :: PipelineResult where "failed = (B_FAILED, None)"

subsection \<open>Calls of the repository\<close>

definition call_fail_terminal :: "'k outside \<Rightarrow> JobLease \<Rightarrow> string \<Rightarrow> string \<Rightarrow> PipelineResult prog" where
  "call_fail_terminal out lease failure_code message =
     bind (db_call out (\<lambda>_. plain (fail_terminal lease failure_code message))) (\<lambda>_. ret failed)"

definition call_advance :: "'k outside \<Rightarrow> JobLease \<Rightarrow> BuildStatus \<Rightarrow> int \<Rightarrow> string \<Rightarrow> string \<Rightarrow> unit prog" where
  "call_advance out lease status progress stage message =
     db_call out (\<lambda>n. raising (advance_build (ou_lease_seconds out) lease status progress stage message (ou_uuids out n 0)))"

definition delete_if_owned :: "'k outside \<Rightarrow> PublishedObject \<Rightarrow> unit prog" where
  "delete_if_owned out object st =
     outside_call (\<lambda>n. of_option (ou_delete out n (po_object_key object) (po_sha256 object)))
       (st\<lparr>rn_storage := rn_storage st @ [DeleteAsked (po_object_key object)]\<rparr>)"

definition set_published :: "PublishedObject option \<Rightarrow> unit prog" where
  "set_published p st = (Inr (), st\<lparr>rn_published := p\<rparr>)"

text \<open>The object of this run is dropped, if there is one.\<close>

definition drop_published :: "'k outside \<Rightarrow> unit prog" where
  "drop_published out st = (case rn_published st of
     None \<Rightarrow> (Inr (), st)
   | Some object \<Rightarrow> best_effort_cleanup (delete_if_owned out object) st)"

definition cancel_if_requested :: "'k outside \<Rightarrow> JobLease \<Rightarrow> PipelineResult option prog" where
  "cancel_if_requested out lease =
     bind (db_call out (\<lambda>_. reading (is_cancel_requested lease))) (\<lambda>requested.
       if \<not> requested then ret None
       else bind (db_call out (\<lambda>_. raising (cancel_build lease))) (\<lambda>cancelled.
         if \<not> cancelled then throw (Exn ''LostLeaseError'' ''cancelled build could not publish its terminal state'')
         else ret (Some (B_CANCELLED, None))))"

definition unless_cancelled :: "'k outside \<Rightarrow> JobLease \<Rightarrow> PipelineResult prog \<Rightarrow> PipelineResult prog" where
  "unless_cancelled out lease continue =
     bind (cancel_if_requested out lease) (\<lambda>cancelled. case cancelled of Some r \<Rightarrow> ret r | None \<Rightarrow> continue)"

text \<open>The end of both handlers for any other exception.\<close>

definition settle_error :: "'k outside \<Rightarrow> JobLease \<Rightarrow> py_exn \<Rightarrow> PipelineResult prog" where
  "settle_error out lease error = bind (drop_published out) (\<lambda>_.
     if is_instance ''KeyboardInterrupt'' error \<or> is_instance ''SystemExit'' error then throw error
     else if contains_lost_lease error then ret failed
     else
       let again = retryable (ou_invalidated out) error
       in bind (db_call out (\<lambda>_. plain (retry_or_fail lease (sanitize_error error 2000) again 5))) (\<lambda>updated.
         ret (if updated \<and> again \<and> l_attempts lease < l_max_attempts lease then B_QUEUED else B_FAILED, None)))"

definition require_file_observation :: "'k outside \<Rightarrow> nat list \<Rightarrow> int \<Rightarrow> string \<Rightarrow> unit prog" where
  "require_file_observation out content size_bytes sha256 =
     require (int (length content) = size_bytes \<and> ou_sha256 out content = sha256)
       (Exn ''SubjectIntegrityError'' ''original requirements does not match its database observation'')"

definition parse_bytes :: "('k :: linorder) outside \<Rightarrow> nat list \<Rightarrow> ParsedRequirements prog" where
  "parse_bytes out content = (case parse_requirements (ou_packaging out) (ou_gbk out) content of
     Inl e \<Rightarrow> throw (parse_exn e)
   | Inr parsed \<Rightarrow> ret parsed)"

subsection \<open>Parsing a requirements file\<close>

definition publish_normalized :: "'k outside \<Rightarrow> string \<Rightarrow> string \<Rightarrow> PublishedObject prog" where
  "publish_normalized out key text st =
     (case outside_call (\<lambda>n. ou_publish_bytes out n key (utf8_encode text)) st of
        (Inl e, st') \<Rightarrow>
          (Inl (if is_instance ''FileExistsError'' e
            then Exn ''SubjectIntegrityError'' ''normalized requirements object conflicts with parsed content'' else e), st')
      | (Inr object, st') \<Rightarrow> (Inr object, st'\<lparr>rn_storage := rn_storage st' @ [Published (po_object_key object)]\<rparr>))"

definition parse_body :: "('k :: linorder) outside \<Rightarrow> JobLease \<Rightarrow> RequirementParsePayload \<Rightarrow> ParseSubject \<Rightarrow> PipelineResult prog" where
  "parse_body out lease payload subject =
     bind (require (pp_original_object_key payload = ps_original_object_key subject \<and>
         pp_normalized_object_key payload = ps_normalized_object_key subject)
       (Exn ''SubjectIntegrityError'' ''parse payload disagrees with database subject'')) (\<lambda>_.
     bind (outside_call (\<lambda>n. ou_read_bytes out n (ps_original_object_key subject))) (\<lambda>original.
     bind (require_file_observation out original (ps_size_bytes subject) (ps_sha256 subject)) (\<lambda>_.
     bind (parse_bytes out original) (\<lambda>parsed.
     bind (publish_normalized out (ps_normalized_object_key subject) (pr_normalized_text parsed)) (\<lambda>object.
     bind (set_published (Some object)) (\<lambda>_.
     bind (db_call out (\<lambda>n. raising (complete_parse lease parsed (ps_normalized_object_key subject) (ou_uuids out n)))) (\<lambda>completed.
       if \<not> completed then throw (Exn ''LostLeaseError'' ''parse result could not be published'')
       else ret (B_SUCCESS, None))))))))"

definition parse_errors :: "'k outside \<Rightarrow> JobLease \<Rightarrow> py_exn \<Rightarrow> PipelineResult prog" where
  "parse_errors out lease error =
     (if is_instance ''RequirementsParseError'' error
      then call_fail_terminal out lease ''INVALID_REQUIREMENTS'' (sanitize_error error 2000)
      else if is_instance ''SubjectIntegrityError'' error
      then call_fail_terminal out lease ''PARSE_SUBJECT_INTEGRITY_FAILURE''
        (''PARSE_SUBJECT_INTEGRITY_FAILURE: '' @ sanitize_error error 2000)
      else settle_error out lease error)"

definition run_parse :: "('k :: linorder) outside \<Rightarrow> JobLease \<Rightarrow> RequirementParsePayload \<Rightarrow> PipelineResult prog" where
  "run_parse out lease payload =
     bind (db_call out (\<lambda>_. plain (claim_parse_subject lease))) (\<lambda>subject. case subject of
       None \<Rightarrow> ret failed
     | Some s \<Rightarrow> bind (set_published None) (\<lambda>_.
         catch (parse_body out lease payload s) (parse_errors out lease)))"

subsection \<open>The checks of a build\<close>

text \<open>Python's \<open>==\<close> between a dumped value and a decoded one.\<close>

fun value_equal :: "pyval \<Rightarrow> pyval \<Rightarrow> bool" where
  "value_equal (VStr s) v = (v = VStr s)"
| "value_equal (VInt i) v = (case v of
     VBool b \<Rightarrow> i = (if b then 1 else 0) | VInt j \<Rightarrow> i = j | VFloat t \<Rightarrow> decimal_integer t = Some i | _ \<Rightarrow> False)"
| "value_equal (VList xs) v = (case v of VList ys \<Rightarrow> list_all2 value_equal xs ys | _ \<Rightarrow> False)"
| "value_equal _ v = False"

definition dict_equal :: "dict \<Rightarrow> dict \<Rightarrow> bool" where
  "dict_equal d e \<longleftrightarrow> fst ` set d = fst ` set e \<and>
     list_all (\<lambda>(k, v). case map_of e k of None \<Rightarrow> False | Some w \<Rightarrow> value_equal v w) d"

definition payload_agrees :: "BuildPayload \<Rightarrow> BuildSubject \<Rightarrow> bool" where
  "payload_agrees payload subject \<longleftrightarrow>
     bp_requirement_file_id payload = bs_requirement_file_id subject \<and>
     bp_normalized_object_key payload = bs_normalized_object_key subject \<and>
     bp_solve_mode payload = bs_solve_mode subject \<and>
     dict_equal (dump_snapshot (bp_target_snapshot payload)) (bs_target_snapshot subject) \<and>
     ts_profile_id (bp_target_snapshot payload) = bs_target_profile_id subject"

text \<open>\<open>TargetProfile.model_validate\<close>: strict fields, then the validators of the class.\<close>

definition str_value :: "pyval \<Rightarrow> string option" where
  "str_value v = (case v of VStr s \<Rightarrow> Some s | _ \<Rightarrow> None)"

definition items_value :: "pyval \<Rightarrow> pyval list option" where
  "items_value v = (case v of VList vs \<Rightarrow> Some vs | VTuple vs \<Rightarrow> Some vs | _ \<Rightarrow> None)"

definition profile_of_snapshot :: "dict \<Rightarrow> TargetProfile option" where
  "profile_of_snapshot d = (case model_fields d snapshot_spec of
     Some (tags # VInt version # texts) \<Rightarrow>
       (case (Option.bind (items_value tags) (\<lambda>vs. those (map str_value vs)), those (map str_value texts)) of
          (Some abi_tags, Some [a, b, c, d, e, f, g, h, i, j]) \<Rightarrow> validate_target
            \<lparr>tp_profile_id = a, tp_profile_code = b, tp_os = c, tp_architecture = d, tp_python_implementation = e,
             tp_python_version = f, tp_python_full_version = g, tp_platform_tag = h, tp_abi_tags = abi_tags,
             tp_validation_type = i, tp_validation_policy_version = j, tp_profile_version = version\<rparr>
        | _ \<Rightarrow> None)
   | _ \<Rightarrow> None)"

definition require_before_deadline :: "'k outside \<Rightarrow> time \<Rightarrow> unit prog" where
  "require_before_deadline out deadline =
     bind (outside_call (\<lambda>n. Inr (ou_monotonic out n))) (\<lambda>now.
       require (now \<le> deadline) (Exn ''TimeoutError'' ''build task exceeded the configured time limit''))"

text \<open>The loop of \<open>_require_download_limits\<close>, with the total so far.\<close>

fun wheels_within :: "BuildResourceLimits \<Rightarrow> int \<Rightarrow> 'k DownloadedWheel list \<Rightarrow> string option" where
  "wheels_within limits sofar [] = None"
| "wheels_within limits sofar (wheel # wheels) =
     (if max_wheel_bytes limits < dw_byte_size wheel then Some ''downloaded Wheel byte limit exceeded''
      else if max_total_bytes limits < sofar + dw_byte_size wheel then Some ''total downloaded Wheel byte limit exceeded''
      else wheels_within limits (sofar + dw_byte_size wheel) wheels)"

definition require_download_limits :: "'k DownloadedWheel list \<Rightarrow> BuildResourceLimits \<Rightarrow> unit prog" where
  "require_download_limits wheels limits =
     (if max_packages limits < int (length wheels) then throw (Exn ''ValueError'' ''downloaded Wheel count exceeds the limit'')
      else case wheels_within limits 0 wheels of
        None \<Rightarrow> ret ()
      | Some message \<Rightarrow> throw (Exn ''ValueError'' message))"

subsection \<open>The stages of a build\<close>

definition staged :: "'k outside \<Rightarrow> JobLease \<Rightarrow> time \<Rightarrow> (nat \<Rightarrow> py_exn + 'a) \<Rightarrow> 'a prog" where
  "staged out lease deadline stage =
     bind (during_lease out lease (outside_call stage)) (\<lambda>x.
     bind (require_before_deadline out deadline) (\<lambda>_. ret x))"

text \<open>The requirements of the build, its text bound to the database by size, digest and content.\<close>

definition load_requirements ::
  "('k :: linorder) outside \<Rightarrow> BuildSubject \<Rightarrow> time \<Rightarrow> (ParsedRequirements \<times> string) prog" where
  "load_requirements out subject deadline =
     bind (outside_call (\<lambda>n. ou_read_bytes out n (bs_original_object_key subject))) (\<lambda>original.
     bind (require_file_observation out original (bs_original_size_bytes subject) (bs_original_sha256 subject)) (\<lambda>_.
     bind (parse_bytes out original) (\<lambda>original_parsed.
     bind (outside_call (\<lambda>n. ou_read_bytes out n (bs_normalized_object_key subject))) (\<lambda>normalized.
     bind (require (normalized = utf8_encode (pr_normalized_text original_parsed))
       (Exn ''ValueError'' ''normalized requirements content is not database-bound'')) (\<lambda>_.
     bind (parse_bytes out normalized) (\<lambda>parsed.
     bind (require_before_deadline out deadline) (\<lambda>_.
       case decode_requirements (ou_gbk out) original of
         Inl _ \<Rightarrow> throw (Exn ''ValueError'' ''requirements text cannot be decoded'')
       | Inr (text, _) \<Rightarrow> ret (parsed, text))))))))"

definition resolve_stage ::
  "('k :: linorder) outside \<Rightarrow> JobLease \<Rightarrow> BuildResourceLimits \<Rightarrow> time \<Rightarrow> TargetProfile \<Rightarrow> ParsedRequirements \<Rightarrow>
     'k ResolutionResult prog" where
  "resolve_stage out lease limits deadline target parsed =
     bind (call_advance out lease B_RESOLVING 15 ''RESOLVING'' ''Resolving dependencies'') (\<lambda>_.
     bind (staged out lease deadline (\<lambda>n. sg_resolve (ou_stages out) n limits parsed target)) (\<lambda>resolution.
     bind (require (int (length (rr_packages resolution)) \<le> max_packages limits)
       (Exn ''ValueError'' ''resolved package count exceeds the limit'')) (\<lambda>_.
     bind (during_lease out lease (db_call out (\<lambda>n. raising
       (persist_resolution (pkg_canonicalize (ou_packaging out)) lease resolution (ou_uuids out n))))) (\<lambda>_.
       ret resolution))))"

definition download_stage ::
  "'k outside \<Rightarrow> JobLease \<Rightarrow> BuildResourceLimits \<Rightarrow> time \<Rightarrow> TargetProfile \<Rightarrow> 'k ResolutionResult \<Rightarrow>
     'k BuildDownload prog" where
  "download_stage out lease limits deadline target resolution =
     bind (call_advance out lease B_DOWNLOADING 40 ''DOWNLOADING'' ''Downloading target Wheels'') (\<lambda>_.
     bind (during_lease out lease (outside_call (\<lambda>n. sg_download (ou_stages out) n limits resolution target))) (\<lambda>download.
     bind (require_download_limits (bd_wheels download) limits) (\<lambda>_.
     bind (require_before_deadline out deadline) (\<lambda>_. ret download))))"

definition validate_stage ::
  "'k outside \<Rightarrow> JobLease \<Rightarrow> BuildResourceLimits \<Rightarrow> time \<Rightarrow> TargetProfile \<Rightarrow> 'k ResolutionResult \<Rightarrow> 'k BuildDownload \<Rightarrow>
     'k BuildValidation prog" where
  "validate_stage out lease limits deadline target resolution download =
     bind (call_advance out lease B_VALIDATING 70 ''VALIDATING'' ''Validating Wheel archives'') (\<lambda>_.
     bind (staged out lease deadline (\<lambda>n. sg_validate (ou_stages out) n limits resolution (bd_wheels download) target)) (\<lambda>v.
       let validation = v\<lparr>bv_download_failures := bd_failures download @ bv_download_failures v\<rparr> in
     bind (db_call out (\<lambda>_. raising (persist_package_results lease resolution (bd_wheels download) (bv_report validation)
       (dict_of (bv_download_failures validation))))) (\<lambda>_. ret validation)))"

definition artifact_key :: "JobLease \<Rightarrow> string \<Rightarrow> string" where
  "artifact_key lease artifact_id =
     ''artifacts/'' @ l_subject_id lease @ ''/'' @ l_execution_id lease @ ''/'' @ artifact_id @ ''.zip''"

definition publish_descriptor :: "'k outside \<Rightarrow> string \<Rightarrow> PublishedObject prog" where
  "publish_descriptor out key st =
     (case outside_call (\<lambda>n. ou_publish_file out n key) st of
        (Inl e, st') \<Rightarrow> (Inl e, st')
      | (Inr object, st') \<Rightarrow> (Inr object, st'\<lparr>rn_storage := rn_storage st' @ [Published (po_object_key object)]\<rparr>))"

text \<open>The last transaction, with the retention counted from the clock before it.\<close>

definition record_artifact ::
  "'k outside \<Rightarrow> JobLease \<Rightarrow> BuildResourceLimits \<Rightarrow> string \<Rightarrow> PublishedObject \<Rightarrow> BuiltArtifact \<Rightarrow> BuildStatus \<Rightarrow>
     PipelineResult prog" where
  "record_artifact out lease limits artifact_id object built status st =
     bind (db_call out (\<lambda>_. raising (publish_artifact_terminal lease artifact_id object (ba_name built) status
         (w_now (rn_world st) + seconds (artifact_retention_days limits * 86400))))) (\<lambda>artifact.
       case artifact of
         None \<Rightarrow> throw (Exn ''LostLeaseError'' ''artifact metadata was not published'')
       | Some a \<Rightarrow> bind (set_published None) (\<lambda>_. ret (status, Some a))) st"

definition publish_stage ::
  "'k outside \<Rightarrow> JobLease \<Rightarrow> BuildResourceLimits \<Rightarrow> BuiltArtifact \<Rightarrow> BuildStatus \<Rightarrow> PipelineResult prog" where
  "publish_stage out lease limits built status =
     bind (outside_call (\<lambda>n. Inr (ou_uuids out n 0))) (\<lambda>artifact_id.
     bind (outside_call (\<lambda>n. ou_artifact_size out n (ba_name built))) (\<lambda>size_bytes.
     bind (require (size_bytes \<le> max_total_bytes limits) (Exn ''ValueError'' ''Artifact byte limit exceeded'')) (\<lambda>_.
     bind (during_lease out lease (publish_descriptor out (artifact_key lease artifact_id))) (\<lambda>object.
     bind (set_published (Some object)) (\<lambda>_.
     bind (require (po_sha256 object = ba_sha256 built)
       (Exn ''OSError'' ''artifact digest changed during local publication'')) (\<lambda>_.
     bind (cancel_if_requested out lease) (\<lambda>cancelled. case cancelled of
         Some r \<Rightarrow> bind (drop_published out) (\<lambda>_. bind (set_published None) (\<lambda>_. ret r))
       | None \<Rightarrow> record_artifact out lease limits artifact_id object built status)))))))"

definition package_stage ::
  "'k outside \<Rightarrow> JobLease \<Rightarrow> BuildResourceLimits \<Rightarrow> time \<Rightarrow> TargetProfile \<Rightarrow> string \<Rightarrow> 'k ResolutionResult \<Rightarrow>
     'k BuildValidation \<Rightarrow> PipelineResult prog" where
  "package_stage out lease limits deadline target text resolution validation =
     (let complete = sv_complete (bv_report validation) in
      if \<not> complete \<and> bv_wheels validation = []
      then call_fail_terminal out lease ''STATIC_VALIDATION_FAILED'' ''Static validation found no useful Wheel output''
      else
        bind (call_advance out lease B_PACKAGING 85 ''PACKAGING'' ''Packaging offline artifact'') (\<lambda>_.
        bind (outside_call (\<lambda>n. of_option (ou_mkdir out n))) (\<lambda>_.
        bind (staged out lease deadline (\<lambda>n. sg_package (ou_stages out) n text resolution validation target)) (\<lambda>built.
          unless_cancelled out lease
            (publish_stage out lease limits built (if complete then B_SUCCESS else B_PARTIAL_SUCCESS))))))"

definition build_body :: "('k :: linorder) outside \<Rightarrow> JobLease \<Rightarrow> BuildPayload \<Rightarrow> BuildSubject \<Rightarrow> PipelineResult prog" where
  "build_body out lease payload subject =
     bind (db_call out (\<lambda>_. reading (\<lambda>_. resource_limits))) (\<lambda>limits.
     bind (outside_call (\<lambda>n. Inr (ou_monotonic out n + seconds (task_timeout_seconds limits)))) (\<lambda>deadline.
     bind (require (payload_agrees payload subject)
       (Exn ''ValueError'' ''build payload disagrees with database subject'')) (\<lambda>_.
       case profile_of_snapshot (bs_target_snapshot subject) of
         None \<Rightarrow> throw (Exn ''ValidationError'' ''target snapshot'')
       | Some target \<Rightarrow>
           unless_cancelled out lease (
           bind (load_requirements out subject deadline) (\<lambda>(parsed, text).
           unless_cancelled out lease (
           bind (resolve_stage out lease limits deadline target parsed) (\<lambda>resolution.
           unless_cancelled out lease (
           bind (download_stage out lease limits deadline target resolution) (\<lambda>download.
           unless_cancelled out lease (
           bind (validate_stage out lease limits deadline target resolution download) (\<lambda>validation.
           unless_cancelled out lease (
             package_stage out lease limits deadline target text resolution validation))))))))))))"

definition build_errors :: "'k outside \<Rightarrow> JobLease \<Rightarrow> py_exn \<Rightarrow> PipelineResult prog" where
  "build_errors out lease error =
     (if is_instance ''DownloadCancelledError'' error
      then bind (cancel_if_requested out lease) (\<lambda>result. ret (coalesce result (B_CANCELLED, None)))
      else if is_instance ''RequirementsParseError'' error \<or> is_instance ''WheelArchiveValidationError'' error
      then call_fail_terminal out lease ''PERMANENT_BUILD_FAILURE'' (sanitize_error error 2000)
      else settle_error out lease error)"

text \<open>Closing the snapshots and removing the workspace, whatever happened.\<close>

definition build_cleanup :: "'k outside \<Rightarrow> unit prog" where
  "build_cleanup out =
     bind (best_effort_cleanup (outside_call (\<lambda>n. of_option (ou_close out n)))) (\<lambda>_.
       best_effort_cleanup (outside_call (\<lambda>n. of_option (ou_close out n))))"

definition run_build :: "('k :: linorder) outside \<Rightarrow> JobLease \<Rightarrow> BuildPayload \<Rightarrow> PipelineResult prog" where
  "run_build out lease payload =
     bind (db_call out (\<lambda>_. raising (claim_build_subject lease))) (\<lambda>subject. case subject of
       None \<Rightarrow> ret failed
     | Some s \<Rightarrow>
         bind (outside_call (\<lambda>n. of_option (ou_allocate out n (l_execution_id lease)))) (\<lambda>_.
         bind (set_published None) (\<lambda>_.
           final (catch (build_body out lease payload s) (build_errors out lease)) (build_cleanup out))))"

subsection \<open>A job\<close>

definition run_job :: "('k :: linorder) outside \<Rightarrow> JobLease \<Rightarrow> PipelineResult prog" where
  "run_job out lease = (case validate_job_payload (l_payload_json lease) of
     None \<Rightarrow> throw (Exn ''ValueError'' (ou_payload_error out (l_payload_json lease)))
   | Some wire \<Rightarrow>
       if jp_job_type wire \<noteq> l_job_type lease \<or> jp_subject_id wire \<noteq> l_subject_id lease \<or> l_payload_version lease \<noteq> 1
       then throw (Exn ''ValueError'' ''job envelope disagrees with the leased row'')
       else if jp_job_type wire = ''REQUIREMENT_PARSE'' then
         (case validate_parse_payload (jp_payload wire) of
            None \<Rightarrow> throw (Exn ''ValidationError'' ''payload'')
          | Some p \<Rightarrow> run_parse out lease p)
       else (case validate_build_payload (jp_payload wire) of
            None \<Rightarrow> throw (Exn ''ValidationError'' ''payload'')
          | Some p \<Rightarrow> run_build out lease p))"

definition run_pipeline :: "('k :: linorder) outside \<Rightarrow> JobLease \<Rightarrow> PipelineResult prog" where
  "run_pipeline out lease = catch (run_job out lease) (\<lambda>error.
     if is_instance ''ValueError'' error
     then call_fail_terminal out lease ''MALFORMED_JOB_PAYLOAD'' (sanitize_error error 2000)
     else throw error)"

subsection \<open>The consumer\<close>

text \<open>\<open>run_once\<close> after the claim.\<close>

definition consume :: "('k :: linorder) outside \<Rightarrow> JobLease \<Rightarrow> bool prog" where
  "consume out lease = catch (bind (run_pipeline out lease) (\<lambda>_. ret True)) (\<lambda>error.
     if is_instance ''KeyboardInterrupt'' error \<or> is_instance ''SystemExit'' error then throw error
     else if contains_lost_lease error then ret True
     else bind (db_call out (\<lambda>_. plain (retry_or_fail lease (sanitize_error error 2000) True 5))) (\<lambda>_. ret True))"

end
