(* ===== verification/PipelineFacts.thy ===== *)
theory PipelineFacts
  imports Pipeline Effects
begin

section \<open>What the pipeline does to the deployment\<close>

text \<open>
  Two facts about every run: the database calls of the consumer are steps of the deployment, so all that is
  proved of deployments holds of the real control flow; and a run that returns leaves its lease behind.
\<close>

named_theorems prog_intros \<open>a property of programs, by the way a program is built\<close>

subsection \<open>Programs that leave the deployment alone\<close>

definition calm :: "'a prog \<Rightarrow> bool" where
  "calm m \<longleftrightarrow> (\<forall>st r st'. m st = (r, st') \<longrightarrow> rn_world st' = rn_world st \<and> rn_caught st' = rn_caught st)"

lemma calmD: "calm m \<Longrightarrow> m st = (r, st') \<Longrightarrow> rn_world st' = rn_world st \<and> rn_caught st' = rn_caught st"
  unfolding calm_def by blast

lemma calm_outside [prog_intros]: "calm (outside_call g)"
  by (auto simp: calm_def outside_call_def)

lemma calm_set_published [prog_intros]: "calm (set_published p)"
  by (auto simp: calm_def set_published_def)

lemma calm_ret [prog_intros]: "calm (ret x)" "calm (throw e)"
  by (auto simp: calm_def ret_def throw_def)

lemma calm_bind [prog_intros]: "calm m \<Longrightarrow> (\<And>x. calm (f x)) \<Longrightarrow> calm (bind m f)"
  unfolding calm_def bind_def by (fastforce split: prod.splits sum.splits)

lemma calm_best_effort [prog_intros]: "calm m \<Longrightarrow> calm (best_effort_cleanup m)"
  unfolding calm_def best_effort_cleanup_def by (fastforce split: prod.splits sum.splits)

lemma calm_delete [prog_intros]: "calm (delete_if_owned out object)"
  by (auto simp: calm_def delete_if_owned_def outside_call_def)

lemma calm_drop [prog_intros]: "calm (drop_published out)"
  unfolding calm_def drop_published_def
  by (auto split: option.splits dest!: calmD [OF calm_best_effort [OF calm_delete]])

lemma calm_cleanup [prog_intros]: "calm (build_cleanup out)"
  unfolding build_cleanup_def by (intro prog_intros)

subsection \<open>A run that returns has given its lease up\<close>

definition given_up :: "JobLease \<Rightarrow> run_state \<Rightarrow> bool" where
  "given_up lease st \<longleftrightarrow> \<not> owns (w_db (rn_world st)) lease (w_now (rn_world st)) \<or>
     (\<exists>e\<in>set (rn_caught st). contains_lost_lease e \<or> is_instance ''DownloadCancelledError'' e)"

definition settles :: "JobLease \<Rightarrow> 'a prog \<Rightarrow> bool" where
  "settles lease m \<longleftrightarrow> (\<forall>st x st'. m st = (Inr x, st') \<longrightarrow> given_up lease st')"

lemma settlesD: "settles lease m \<Longrightarrow> m st = (Inr x, st') \<Longrightarrow> given_up lease st'"
  unfolding settles_def by blast

lemma bind_Inr:
  assumes "bind m f st = (Inr y, st'')"
  obtains x st' where "m st = (Inr x, st')" "f x st' = (Inr y, st'')"
  using assms by (auto simp: bind_def split: prod.splits sum.splits)

lemma settles_throw [prog_intros]: "settles lease (throw e)"
  by (simp add: settles_def throw_def)

lemma settles_bind: "(\<And>x. settles lease (f x)) \<Longrightarrow> settles lease (bind m f)"
  unfolding settles_def by (blast elim: bind_Inr)

lemma settles_then_calm: "settles lease m \<Longrightarrow> (\<And>x. calm (f x)) \<Longrightarrow> settles lease (bind m f)"
  unfolding settles_def
proof (intro allI impI)
  fix st y st''
  assume m: "\<forall>st x st'. m st = (Inr x, st') \<longrightarrow> given_up lease st'" and f: "\<And>x. calm (f x)"
    and b: "bind m f st = (Inr y, st'')"
  from b obtain x st' where s: "m st = (Inr x, st')" "f x st' = (Inr y, st'')" by (rule bind_Inr)
  then have "given_up lease st'" using m by blast
  then show "given_up lease st''" using calmD [OF f s(2)] by (simp add: given_up_def)
qed

text \<open>A call whose value tells whether it settled.\<close>

lemma settles_call:
  assumes "\<And>st x st'. m st = (Inr x, st') \<Longrightarrow> P x \<Longrightarrow> given_up lease st'"
    and "\<And>x. P x \<Longrightarrow> calm (f x)" "\<And>x. \<not> P x \<Longrightarrow> settles lease (f x)"
  shows "settles lease (bind m f)"
  unfolding settles_def
proof (intro allI impI)
  fix st y st''
  assume "bind m f st = (Inr y, st'')"
  then obtain x st' where s: "m st = (Inr x, st')" "f x st' = (Inr y, st'')" by (rule bind_Inr)
  show "given_up lease st''"
  proof (cases "P x")
    case True
    have "given_up lease st'" by (rule assms(1) [OF s(1) True])
    then show ?thesis using calmD [OF assms(2) [OF True] s(2)] by (simp add: given_up_def)
  qed (use s assms(3) in \<open>blast dest: settlesD\<close>)
qed

lemma settles_final: "settles lease m \<Longrightarrow> calm f \<Longrightarrow> settles lease (final m f)"
  unfolding settles_def
proof (intro allI impI)
  fix st y st''
  assume m: "\<forall>st x st'. m st = (Inr x, st') \<longrightarrow> given_up lease st'" and f: "calm f"
    and b: "final m f st = (Inr y, st'')"
  from b obtain x st' where s: "m st = (Inr y, st')" "f st' = (x, st'')"
    by (auto simp: final_def split: prod.splits sum.splits)
  then have "given_up lease st'" using m by blast
  then show "given_up lease st''" using calmD [OF f s(2)] by (simp add: given_up_def)
qed

text \<open>A handler starts with the caught exception on record.\<close>

lemma settles_catch:
  assumes "settles lease m"
    and "\<And>e st x st'. e \<in> set (rn_caught st) \<Longrightarrow> h e st = (Inr x, st') \<Longrightarrow> given_up lease st'"
  shows "settles lease (catch m h)"
  unfolding settles_def
proof (intro allI impI)
  fix st y st''
  assume b: "catch m h st = (Inr y, st'')"
  show "given_up lease st''"
  proof (cases "m st")
    case (Pair r st')
    show ?thesis
    proof (cases r)
      case (Inl e)
      then have "h e (st'\<lparr>rn_caught := rn_caught st' @ [e]\<rparr>) = (Inr y, st'')" using b Pair by (simp add: catch_def)
      then show ?thesis by (rule assms(2) [rotated]) simp
    qed (use b Pair assms(1) in \<open>auto simp: catch_def settles_def\<close>)
  qed
qed

lemma settles_catch_settled:
  "settles lease m \<Longrightarrow> (\<And>e. settles lease (h e)) \<Longrightarrow> settles lease (catch m h)"
  by (rule settles_catch) (auto simp: settles_def)

subsection \<open>The transactions that end a lease\<close>

lemma unowned_after: "\<not> ownership lease now (f r) \<Longrightarrow> \<not> ownership lease now (if ownership lease now r then f r else r)"
  by simp

lemma db_call_settles:
  assumes "\<And>n now s a s'. f n now s = (Inr a, s') \<Longrightarrow> Q a \<Longrightarrow> \<not> owns s' lease now"
    and "db_call out f st = (Inr x, st')" "Q x"
  shows "given_up lease st'"
  using assms(2,3) assms(1) by (auto simp: db_call_def Let_def given_up_def split: option.splits prod.splits)

lemma db_call_caught: "db_call out f st = (r, st') \<Longrightarrow> rn_caught st' = rn_caught st"
  by (auto simp: db_call_def Let_def split: option.splits prod.splits)

lemma fail_job_unowned: "\<not> owns (fst (update_jobs (ownership lease now) (fail_job m t) s)) lease now"
  by (auto simp: owns_iff)

lemma fail_terminal_unowned: "plain (fail_terminal lease c m) now s = (Inr a, s') \<Longrightarrow> \<not> owns s' lease now"
  by (auto simp: plain_def fail_terminal_def Let_def split_def owns_iff split: if_splits)

lemma retry_unowned: "plain (retry_or_fail lease m b d) now s = (Inr a, s') \<Longrightarrow> \<not> owns s' lease now"
  by (auto simp: plain_def retry_or_fail_def Let_def split_def owns_iff split: if_splits)

lemma claim_parse_unowned: "plain (claim_parse_subject lease) now s = (Inr None, s') \<Longrightarrow> \<not> owns s' lease now"
  by (auto simp: plain_def claim_parse_subject_def fail_subject_claim_def Let_def split_def owns_iff
      split: if_splits option.splits)

lemma raising_Inr: "raising f now s = (Inr x, s') \<longleftrightarrow> f now s = (Inr x, s')"
proof (cases "f now s")
  case (Pair r t)
  then show ?thesis by (cases r) (auto simp: raising_def)
qed

lemma finished_unowned:
  "build_jobs s' = map (\<lambda>r. if ownership lease now r then finish_job j now r else r) (build_jobs s) \<Longrightarrow>
     job_terminal j \<Longrightarrow> \<not> owns s' lease now"
  by (auto simp: owns_iff)

lemma claim_build_unowned: "raising (claim_build_subject lease) now s = (Inr None, s') \<Longrightarrow> \<not> owns s' lease now"
  by (auto simp: raising_Inr claim_build_subject_def transaction_Inr claim_build_subject_body_def
      fail_subject_claim_def Let_def split_def owns_iff split: if_splits option.splits pyval.splits)

lemma complete_parse_unowned:
  "raising (complete_parse lease p k u) now s = (Inr True, s') \<Longrightarrow> \<not> owns s' lease now"
  using parse_effect [of lease p k u now s "Inr True" s']
  by (intro finished_unowned [of _ _ _ J_COMPLETED s]) (simp_all add: raising_Inr job_terminal_def)

lemma cancel_build_unowned: "raising (cancel_build lease) now s = (Inr True, s') \<Longrightarrow> \<not> owns s' lease now"
  using cancel_effect [of lease now s "Inr True" s']
  by (intro finished_unowned [of _ _ _ J_CANCELLED s]) (simp_all add: raising_Inr job_terminal_def)

lemma publish_id: "publish_artifact_terminal lease i po fn st ex now s = (Inr (Some a), s') \<Longrightarrow> a = i"
  by (auto simp: publish_artifact_terminal_def transaction_Inr publish_artifact_body_def Let_def split_def
      split: if_splits option.splits)

lemma publish_unowned:
  "raising (publish_artifact_terminal lease i po fn st ex) now s = (Inr (Some a), s') \<Longrightarrow> \<not> owns s' lease now"
  using publish_effect [of lease i po fn st ex now s "Inr (Some a)" s'] publish_id [of lease i po fn st ex now s a s']
  by (intro finished_unowned [of _ _ _ J_COMPLETED s]) (simp_all add: raising_Inr job_terminal_def)

lemma settles_call_fail [prog_intros]: "settles lease (call_fail_terminal out lease c m)"
proof -
  have "settles lease (db_call out (\<lambda>_. plain (fail_terminal lease c m)))"
    unfolding settles_def
  proof (intro allI impI)
    fix st x st'
    assume c: "db_call out (\<lambda>_. plain (fail_terminal lease c m)) st = (Inr x, st')"
    show "given_up lease st'" by (rule db_call_settles [OF _ c, where Q = "\<lambda>_. True"]) (auto dest: fail_terminal_unowned)
  qed
  then show ?thesis unfolding call_fail_terminal_def by (rule settles_then_calm) (rule prog_intros)
qed

lemma cancel_if_requested_settles:
  assumes "cancel_if_requested out lease st = (Inr (Some r), st')"
  shows "given_up lease st'"
proof -
  obtain st1 where c: "db_call out (\<lambda>_. raising (cancel_build lease)) st1 = (Inr True, st')"
    using assms by (auto simp: cancel_if_requested_def ret_def throw_def elim!: bind_Inr split: if_splits)
  show ?thesis by (rule db_call_settles [OF _ c, where Q = id]) (auto dest: cancel_build_unowned)
qed

lemma settles_unless: "settles lease m \<Longrightarrow> settles lease (unless_cancelled out lease m)"
  unfolding settles_def unless_cancelled_def
  by (auto elim!: bind_Inr simp: ret_def split: option.splits dest: cancel_if_requested_settles)

lemma settle_error_settles:
  assumes "e \<in> set (rn_caught st)" "settle_error out lease e st = (Inr x, st')"
  shows "given_up lease st'"
proof -
  obtain u st1 where d: "drop_published out st = (Inr u, st1)"
    and rest: "(if is_instance ''KeyboardInterrupt'' e \<or> is_instance ''SystemExit'' e then throw e
     else if contains_lost_lease e then ret failed
     else
       let again = retryable (ou_invalidated out) e
       in bind (db_call out (\<lambda>_. plain (retry_or_fail lease (sanitize_error e 2000) again 5))) (\<lambda>updated.
         ret (if updated \<and> again \<and> l_attempts lease < l_max_attempts lease then B_QUEUED else B_FAILED, None))) st1
       = (Inr x, st')"
    using assms(2) unfolding settle_error_def by (rule bind_Inr)
  have caught: "e \<in> set (rn_caught st1)" using calmD [OF calm_drop d] assms(1) by simp
  show ?thesis
  proof (cases "contains_lost_lease e")
    case True
    with rest caught show ?thesis by (auto simp: given_up_def throw_def ret_def split: if_splits)
  next
    case False
    then obtain b st2 where c: "db_call out (\<lambda>_. plain (retry_or_fail lease (sanitize_error e 2000)
        (retryable (ou_invalidated out) e) 5)) st1 = (Inr b, st')"
      using rest by (auto simp: throw_def ret_def Let_def split: if_splits elim!: bind_Inr)
    show ?thesis by (rule db_call_settles [OF _ c, where Q = "\<lambda>_. True"]) (auto dest: retry_unowned)
  qed
qed

lemma parse_body_settles: "settles lease (parse_body out lease payload s)"
proof -
  have publication: "settles lease (bind (db_call out (\<lambda>n. raising (complete_parse lease p k (u n)))) (\<lambda>completed.
      if \<not> completed then throw e else ret x))" for p k u e and x :: PipelineResult
  proof (rule settles_call [where P = id])
    fix st y st'
    assume c: "db_call out (\<lambda>n. raising (complete_parse lease p k (u n))) st = (Inr y, st')" "id y"
    show "given_up lease st'"
      using c(2) by (rule db_call_settles [OF _ c(1), where Q = id, rotated]) (auto dest: complete_parse_unowned)
  qed (simp_all add: prog_intros)
  show ?thesis unfolding parse_body_def by (intro publication settles_bind)
qed

lemma parse_errors_settles:
  "e \<in> set (rn_caught st) \<Longrightarrow> parse_errors out lease e st = (Inr x, st') \<Longrightarrow> given_up lease st'"
  by (auto simp: parse_errors_def split: if_splits dest: settle_error_settles settlesD [OF settles_call_fail])

lemma run_parse_settles: "settles lease (run_parse out lease payload)"
  unfolding run_parse_def
proof (intro settles_call [where P = "\<lambda>x. x = None"])
  fix st x st'
  assume c: "db_call out (\<lambda>_. plain (claim_parse_subject lease)) st = (Inr x, st')" "x = None"
  show "given_up lease st'"
    using c(2) by (rule db_call_settles [OF _ c(1), where Q = "\<lambda>x. x = None", rotated]) (auto dest: claim_parse_unowned)
next
  fix x :: "ParseSubject option"
  assume "x \<noteq> None"
  then show "settles lease (case x of None \<Rightarrow> ret failed
     | Some s \<Rightarrow> bind (set_published None) (\<lambda>_. catch (parse_body out lease payload s) (parse_errors out lease)))"
    by (auto intro!: settles_bind settles_catch parse_body_settles parse_errors_settles)
qed (auto intro: prog_intros)

lemma record_artifact_settles: "settles lease (record_artifact out lease limits i po built status)"
proof -
  have "settles lease (bind (db_call out (\<lambda>_. raising (publish_artifact_terminal lease i po fn status ex))) (\<lambda>artifact.
       case artifact of None \<Rightarrow> throw e | Some a \<Rightarrow> bind (set_published None) (\<lambda>_. ret (status, Some a))))" for ex e fn
  proof (intro settles_call [where P = "\<lambda>x. x \<noteq> None"])
    fix st x st'
    assume c: "db_call out (\<lambda>_. raising (publish_artifact_terminal lease i po fn status ex)) st = (Inr x, st')" "x \<noteq> None"
    show "given_up lease st'"
      using c(2) by (rule db_call_settles [OF _ c(1), where Q = "\<lambda>x. x \<noteq> None", rotated]) (auto dest: publish_unowned)
  qed (auto intro!: prog_intros)
  then show ?thesis unfolding settles_def record_artifact_def by blast
qed

lemma publish_stage_settles: "settles lease (publish_stage out lease limits built status)"
  unfolding publish_stage_def
  by (intro settles_call [where m = "cancel_if_requested out lease" and P = "\<lambda>x. x \<noteq> None"] settles_bind)
    (auto intro!: prog_intros record_artifact_settles intro: cancel_if_requested_settles split: option.split)

lemma build_body_settles: "settles lease (build_body out lease payload s)"
proof -
  have "settles lease (package_stage out lease limits deadline target t resolution v)"
    for limits deadline target t resolution v
    unfolding package_stage_def Let_def
    by (auto intro!: settles_bind settles_unless publish_stage_settles settles_call_fail)
  then show ?thesis
    unfolding build_body_def
    by (auto intro!: settles_bind settles_unless settles_throw split: option.split)
qed

lemma build_errors_settles:
  assumes "e \<in> set (rn_caught st)" "build_errors out lease e st = (Inr x, st')"
  shows "given_up lease st'"
proof (cases "is_instance ''DownloadCancelledError'' e")
  case True
  obtain r where c: "cancel_if_requested out lease st = (Inr r, st')"
    using assms(2) True by (auto simp: build_errors_def ret_def elim!: bind_Inr)
  show ?thesis
  proof (cases r)
    case None
    with c have "rn_caught st' = rn_caught st"
      by (auto simp: cancel_if_requested_def ret_def throw_def split: if_splits elim!: bind_Inr dest!: db_call_caught)
    then show ?thesis using assms(1) True by (auto simp: given_up_def)
  qed (use c cancel_if_requested_settles in blast)
next
  case False
  with assms show ?thesis
    by (auto simp: build_errors_def split: if_splits dest: settle_error_settles settlesD [OF settles_call_fail])
qed

lemma run_build_settles: "settles lease (run_build out lease payload)"
  unfolding run_build_def
proof (intro settles_call [where P = "\<lambda>x. x = None"])
  fix st x st'
  assume c: "db_call out (\<lambda>_. raising (claim_build_subject lease)) st = (Inr x, st')" "x = None"
  show "given_up lease st'"
    using c(2) by (rule db_call_settles [OF _ c(1), where Q = "\<lambda>x. x = None", rotated]) (auto dest: claim_build_unowned)
next
  fix x :: "BuildSubject option"
  assume "x \<noteq> None"
  then show "settles lease (case x of None \<Rightarrow> ret failed
     | Some s \<Rightarrow> bind (outside_call (\<lambda>n. of_option (ou_allocate out n (l_execution_id lease)))) (\<lambda>_.
         bind (set_published None) (\<lambda>_.
           final (catch (build_body out lease payload s) (build_errors out lease)) (build_cleanup out))))"
    by (auto intro!: settles_bind settles_final settles_catch build_body_settles build_errors_settles calm_cleanup)
qed (auto intro: prog_intros)

lemma run_job_settles: "settles lease (run_job out lease)"
  unfolding run_job_def
  by (auto intro!: settles_throw run_parse_settles run_build_settles split: option.split)

lemma run_pipeline_settles: "settles lease (run_pipeline out lease)"
  unfolding run_pipeline_def
  by (intro settles_catch_settled run_job_settles) (auto intro: settles_call_fail settles_throw)

text \<open>C6 A pipeline run that returns has given its lease up: the job is finished, requeued or no longer
  owned, unless a handler caught an error that reports the lease lost or the download cancelled.\<close>

theorem returned_lease_given_up:
  assumes "consume out lease st = (Inr x, st')"
  shows "\<not> owns (w_db (rn_world st')) lease (w_now (rn_world st')) \<or>
    (\<exists>e\<in>set (rn_caught st'). contains_lost_lease e \<or> is_instance ''DownloadCancelledError'' e)"
proof -
  have "settles lease (consume out lease)"
    unfolding consume_def
  proof (rule settles_catch)
    show "settles lease (bind (run_pipeline out lease) (\<lambda>_. ret True))"
      by (rule settles_then_calm [OF run_pipeline_settles]) (rule prog_intros)
  next
    fix e st x st'
    assume e: "e \<in> set (rn_caught st)"
      and h: "(if is_instance ''KeyboardInterrupt'' e \<or> is_instance ''SystemExit'' e then throw e
        else if contains_lost_lease e then ret True
        else bind (db_call out (\<lambda>_. plain (retry_or_fail lease (sanitize_error e 2000) True 5))) (\<lambda>_. ret True)) st
        = (Inr x, st')"
    show "given_up lease st'"
    proof (cases "contains_lost_lease e")
      case True
      with e h show ?thesis by (auto simp: given_up_def throw_def ret_def split: if_splits)
    next
      case False
      then obtain b where c: "db_call out (\<lambda>_. plain (retry_or_fail lease (sanitize_error e 2000) True 5)) st = (Inr b, st')"
        using h by (auto simp: throw_def ret_def split: if_splits elim!: bind_Inr)
      show ?thesis by (rule db_call_settles [OF _ c, where Q = "\<lambda>_. True"]) (auto dest: retry_unowned)
    qed
  qed
  from settlesD [OF this assms] show ?thesis by (simp add: given_up_def)
qed

subsection \<open>Every call is a step of the deployment\<close>

definition inside :: "'a prog \<Rightarrow> bool" where
  "inside m \<longleftrightarrow> (\<forall>st r st'. m st = (r, st') \<longrightarrow> steps (rn_world st) (rn_world st'))"

lemma insideD: "inside m \<Longrightarrow> m st = (r, st') \<Longrightarrow> steps (rn_world st) (rn_world st')"
  unfolding inside_def by blast

lemma steps_trans: "steps w w' \<Longrightarrow> steps w' w'' \<Longrightarrow> steps w w''"
  by (rotate_tac, induction rule: steps.induct) (auto intro: steps.intros)

lemma inside_calm: "calm m \<Longrightarrow> inside m"
  unfolding inside_def calm_def by (metis steps.here)

named_theorems inside_intros \<open>programs inside the deployment\<close>

lemmas inside_basic [inside_intros] = calm_outside [THEN inside_calm] calm_set_published [THEN inside_calm]
  calm_ret(1) [THEN inside_calm] calm_ret(2) [THEN inside_calm] calm_drop [THEN inside_calm] calm_cleanup [THEN inside_calm]

lemma inside_require [inside_intros]: "inside (require b e)"
  by (simp add: require_def inside_basic)

lemma inside_bind [inside_intros]: "inside m \<Longrightarrow> (\<And>x. inside (f x)) \<Longrightarrow> inside (bind m f)"
  unfolding inside_def bind_def by (fastforce split: prod.splits sum.splits intro: steps_trans)

lemma inside_catch [inside_intros]:
  assumes "inside m" "\<And>e. inside (h e)"
  shows "inside (catch m h)"
  unfolding inside_def
proof (intro allI impI)
  fix st r st''
  assume c: "catch m h st = (r, st'')"
  obtain x st' where m: "m st = (x, st')" by (cases "m st")
  show "steps (rn_world st) (rn_world st'')"
  proof (cases x)
    case (Inl e)
    then have "h e (st'\<lparr>rn_caught := rn_caught st' @ [e]\<rparr>) = (r, st'')" using c m by (simp add: catch_def)
    from insideD [OF assms(2) this] insideD [OF assms(1) m] show ?thesis by (auto intro: steps_trans)
  qed (use c m insideD [OF assms(1) m] in \<open>auto simp: catch_def\<close>)
qed

lemma inside_final [inside_intros]: "inside m \<Longrightarrow> inside f \<Longrightarrow> inside (final m f)"
  unfolding inside_def final_def by (fastforce split: prod.splits sum.splits intro: steps_trans)

text \<open>The rest of the deployment runs by deployment steps, and the call itself is one.\<close>

definition acts :: "'k outside \<Rightarrow> bool" where
  "acts out \<longleftrightarrow> (\<forall>n w. steps w (ou_meanwhile out n w))"

lemma inside_db:
  assumes "acts out" "\<And>n w. steps w (w\<lparr>w_db := snd (f n (w_now w) (w_db w))\<rparr>)"
  shows "inside (db_call out f)"
  unfolding inside_def
proof (intro allI impI)
  fix st r st'
  assume c: "db_call out f st = (r, st')"
  let ?w = "ou_meanwhile out (rn_calls st) (rn_world st)"
  have "steps (rn_world st) ?w" using assms(1) by (simp add: acts_def)
  moreover have "steps ?w (rn_world st')"
    using c assms(2) [of ?w "rn_calls st"]
    by (auto simp: db_call_def Let_def steps.here split: option.splits prod.splits)
  ultimately show "steps (rn_world st) (rn_world st')" by (rule steps_trans)
qed

lemma one_step: "step w w' \<Longrightarrow> steps w w'"
  by (intro steps.further [of w w w'] steps.here)

lemma snd_plain: "snd (plain f now s) = snd (f now s)"
  by (simp add: plain_def split: prod.splits)

lemma snd_raising: "snd (raising f now s) = snd (f now s)"
  by (simp add: raising_def split: prod.splits)

lemma inside_read [inside_intros]: "acts out \<Longrightarrow> inside (db_call out (\<lambda>n. reading (f n)))"
  by (rule inside_db) (simp_all add: reading_def steps.here)

lemma inside_calls [inside_intros]:
  assumes "acts out"
  shows "inside (db_call out (\<lambda>n. plain (heartbeat (ls n) lease)))"
    "inside (db_call out (\<lambda>n. plain (fail_terminal lease (c n) (m n))))"
    "inside (db_call out (\<lambda>n. plain (retry_or_fail lease (m n) (b n) (d n))))"
    "inside (db_call out (\<lambda>n. plain (claim_parse_subject lease)))"
    "inside (db_call out (\<lambda>n. raising (complete_parse lease (p n) (k n) (u n))))"
    "inside (db_call out (\<lambda>n. raising (claim_build_subject lease)))"
    "inside (db_call out (\<lambda>n. raising (cancel_build lease)))"
    "inside (db_call out (\<lambda>n. raising (advance_build (ls n) lease (s n) (q n) (g n) (m n) (i n))))"
    "inside (db_call out (\<lambda>n. raising (persist_resolution canon lease (res :: nat ResolutionResult) (u n))))"
    "inside (db_call out (\<lambda>n. raising (persist_package_results lease (res :: nat ResolutionResult) ws v fs)))"
    "inside (db_call out (\<lambda>n. raising (publish_artifact_terminal lease a po fn status ex)))"
  by (intro inside_db [OF assms] one_step, unfold snd_plain snd_raising,
      rule step.heartbeat step.fail_terminal step.retry_or_fail step.claim_parse_subject step.complete_parse
        step.claim_build_subject step.cancel_build step.advance_build step.persist_resolution
        step.persist_package_results step.publish_artifact)+

lemma inside_beats: "acts out \<Longrightarrow> beats out lease k failure st = (r, st') \<Longrightarrow> steps (rn_world st) (rn_world st')"
proof (induction out lease k failure st arbitrary: r st' rule: beats.induct)
  case (3 out lease k st)
  obtain x st1 where c: "db_call out (\<lambda>_. plain (heartbeat (ou_lease_seconds out) lease)) st = (x, st1)"
    by (cases "db_call out (\<lambda>_. plain (heartbeat (ou_lease_seconds out) lease)) st")
  have first: "steps (rn_world st) (rn_world st1)" by (rule insideD [OF inside_calls(1) c]) (rule 3)
  show ?case
  proof (cases x)
    case (Inl e)
    with 3 c first show ?thesis by simp
  next
    case (Inr alive)
    with 3 c have "steps (rn_world st1) (rn_world st')" by simp
    with first show ?thesis by (rule steps_trans)
  qed
qed (auto simp: steps.here)

lemma inside_due: "acts out \<Longrightarrow> due_beats out lease failure st = (r, st') \<Longrightarrow> steps (rn_world st) (rn_world st')"
  using inside_beats by (fastforce simp: due_beats_def)

lemma inside_during [inside_intros]:
  assumes "acts out" "inside m"
  shows "inside (during_lease out lease m)"
  unfolding inside_def
proof (intro allI impI)
  fix st r st'
  assume d: "during_lease out lease m st = (r, st')"
  obtain f1 st1 where b1: "due_beats out lease None st = (f1, st1)" by (cases "due_beats out lease None st")
  obtain x st2 where b2: "m st1 = (x, st2)" by (cases "m st1")
  obtain f2 st3 where b3: "due_beats out lease f1 st2 = (f2, st3)" by (cases "due_beats out lease f1 st2")
  obtain f3 st4 where b4: "due_beats out lease f2 st3 = (f3, st4)" by (cases "due_beats out lease f2 st3")
  have "rn_world st' = rn_world st4"
    using d b1 b2 b3 b4 by (auto simp: during_lease_def stop_heartbeat_def Let_def)
  then show "steps (rn_world st) (rn_world st')"
    using inside_due [OF assms(1) b1] insideD [OF assms(2) b2] inside_due [OF assms(1) b3] inside_due [OF assms(1) b4]
    by (metis steps_trans)
qed

lemma inside_if [inside_intros]: "inside m \<Longrightarrow> inside m' \<Longrightarrow> inside (if b then m else m')"
  by simp

lemma inside_fail [inside_intros]: "acts out \<Longrightarrow> inside (call_fail_terminal out lease c m)"
  unfolding call_fail_terminal_def by (intro inside_intros)

lemma inside_advance [inside_intros]: "acts out \<Longrightarrow> inside (call_advance out lease st p g m)"
  unfolding call_advance_def by (intro inside_intros)

lemma inside_cancel [inside_intros]: "acts out \<Longrightarrow> inside (cancel_if_requested out lease)"
  unfolding cancel_if_requested_def by (intro inside_intros)

lemma inside_unless [inside_intros]: "acts out \<Longrightarrow> inside m \<Longrightarrow> inside (unless_cancelled out lease m)"
  unfolding unless_cancelled_def by (intro inside_intros) (auto intro: inside_basic split: option.split)

lemma inside_settle [inside_intros]: "acts out \<Longrightarrow> inside (settle_error out lease e)"
  unfolding settle_error_def Let_def by (intro inside_intros)

lemma inside_parse [inside_intros]: "inside (parse_bytes out content)"
  unfolding parse_bytes_def by (auto intro: inside_basic split: sum.split)

lemma inside_publishing [inside_intros]: "inside (publish_normalized out key text)" "inside (publish_descriptor out key)"
  by (auto simp: inside_def publish_normalized_def publish_descriptor_def outside_call_def steps.here split: sum.splits)

lemma inside_run_parse [inside_intros]: "acts out \<Longrightarrow> inside (run_parse out lease payload)"
  unfolding run_parse_def parse_body_def parse_errors_def require_file_observation_def
  by (intro inside_intros) (auto intro!: inside_intros split: option.split)

lemma inside_deadline [inside_intros]: "inside (require_before_deadline out deadline)"
  unfolding require_before_deadline_def by (intro inside_intros)

lemma inside_staged [inside_intros]: "acts out \<Longrightarrow> inside (staged out lease deadline stage)"
  unfolding staged_def by (intro inside_intros)

lemma inside_load [inside_intros]: "inside (load_requirements out subject deadline)"
  unfolding load_requirements_def require_file_observation_def
  by (intro inside_intros) (auto intro!: inside_intros split: sum.split)

lemma inside_stages [inside_intros]:
  fixes out :: "nat outside"
  assumes "acts out"
  shows "inside (resolve_stage out lease limits deadline target parsed)"
    "inside (download_stage out lease limits deadline target resolution)"
    "inside (validate_stage out lease limits deadline target resolution download)"
  unfolding resolve_stage_def download_stage_def validate_stage_def require_download_limits_def Let_def
  using assms by (auto intro!: inside_intros split: option.split)

lemma inside_record [inside_intros]: 
  assumes "acts out"
  shows "inside (record_artifact out lease limits i po built status)"
proof -
  have "inside (bind (db_call out (\<lambda>_. raising (publish_artifact_terminal lease i po fn status ex))) (\<lambda>artifact.
       case artifact of None \<Rightarrow> throw e | Some a \<Rightarrow> bind (set_published None) (\<lambda>_. ret (status, Some a))))" for ex e fn
    using assms by (intro inside_intros) (auto intro!: inside_intros split: option.split)
  then show ?thesis unfolding inside_def record_artifact_def by blast
qed

lemma inside_package [inside_intros]: "acts out \<Longrightarrow>
    inside (package_stage out lease limits deadline target text resolution validation)"
  unfolding package_stage_def publish_stage_def Let_def
  by (intro inside_intros) (auto intro!: inside_intros split: option.split)

lemma inside_run_build [inside_intros]: "acts out \<Longrightarrow> inside (run_build (out :: nat outside) lease payload)"
  unfolding run_build_def build_body_def build_errors_def
  by (auto intro!: inside_intros split: option.split)

lemma inside_run_pipeline [inside_intros]: "acts out \<Longrightarrow> inside (run_pipeline (out :: nat outside) lease)"
  unfolding run_pipeline_def run_job_def by (auto intro!: inside_intros split: option.split)


subsection \<open>A reported artifact is recorded and its object kept\<close>

text \<open>Programs that ask for no deletion and keep the storage log.\<close>

definition deleting :: "run_state \<Rightarrow> string set" where
  "deleting st = {key. DeleteAsked key \<in> set (rn_storage st)}"

definition quiet :: "'a prog \<Rightarrow> bool" where
  "quiet m \<longleftrightarrow> (\<forall>st r st'. m st = (r, st') \<longrightarrow> deleting st' = deleting st \<and> set (rn_storage st) \<subseteq> set (rn_storage st'))"

lemma quietD: "quiet m \<Longrightarrow> m st = (r, st') \<Longrightarrow> deleting st' = deleting st \<and> set (rn_storage st) \<subseteq> set (rn_storage st')"
  unfolding quiet_def by blast

named_theorems quiet_intros \<open>programs that delete nothing\<close>

lemma quiet_basic [quiet_intros]:
  "quiet (outside_call g)" "quiet (set_published p)" "quiet (ret x)" "quiet (throw e)" "quiet (require b e)"
  "quiet (db_call out f)"
  by (auto simp: quiet_def outside_call_def set_published_def ret_def throw_def require_def db_call_def deleting_def Let_def
      split: if_splits option.splits prod.splits)

lemma quiet_bind [quiet_intros]:
  assumes "quiet m" "\<And>x. quiet (f x)"
  shows "quiet (bind m f)"
  unfolding quiet_def
proof (intro allI impI)
  fix st r st''
  assume b: "bind m f st = (r, st'')"
  obtain x st' where m: "m st = (x, st')" by (cases "m st")
  show "deleting st'' = deleting st \<and> set (rn_storage st) \<subseteq> set (rn_storage st'')"
  proof (cases x)
    case (Inr y)
    then have "f y st' = (r, st'')" using b m by (simp add: bind_def)
    from quietD [OF assms(2) this] quietD [OF assms(1) m] show ?thesis by auto
  qed (use b m quietD [OF assms(1) m] in \<open>simp add: bind_def\<close>)
qed

lemma quiet_best_effort [quiet_intros]:
  assumes "quiet m"
  shows "quiet (best_effort_cleanup m)"
  unfolding quiet_def
proof (intro allI impI)
  fix st r st'
  assume b: "best_effort_cleanup m st = (r, st')"
  obtain x st1 where m: "m st = (x, st1)" by (cases "m st")
  then have "st' = st1" using b by (simp add: best_effort_cleanup_def split: sum.splits)
  then show "deleting st' = deleting st \<and> set (rn_storage st) \<subseteq> set (rn_storage st')" using quietD [OF assms m] by simp
qed

lemma quiet_if [quiet_intros]: "quiet m \<Longrightarrow> quiet m' \<Longrightarrow> quiet (if b then m else m')"
  by simp

lemma quiet_publishing [quiet_intros]: "quiet (publish_normalized out key text)" "quiet (publish_descriptor out key)"
  by (auto simp: quiet_def publish_normalized_def publish_descriptor_def outside_call_def deleting_def split: sum.splits)

lemma beats_storage: "beats out lease k failure st = (r, st') \<Longrightarrow> rn_storage st' = rn_storage st"
proof (induction out lease k failure st arbitrary: r st' rule: beats.induct)
  case (3 out lease k st)
  obtain x st1 where c: "db_call out (\<lambda>_. plain (heartbeat (ou_lease_seconds out) lease)) st = (x, st1)"
    by (cases "db_call out (\<lambda>_. plain (heartbeat (ou_lease_seconds out) lease)) st")
  then have st1: "rn_storage st1 = rn_storage st" by (auto simp: db_call_def Let_def split: option.splits prod.splits)
  show ?case
  proof (cases x)
    case (Inl e)
    with 3(2) c st1 show ?thesis by simp
  next
    case (Inr alive)
    with 3(2) c have "beats out lease k (if alive then None else Some LEASE_EXPIRED) st1 = (r, st')" by simp
    from 3(1) [OF c [symmetric] Inr this] st1 show ?thesis by simp
  qed
qed auto

lemma due_storage: "due_beats out lease failure st = (r, st') \<Longrightarrow> rn_storage st' = rn_storage st"
  by (auto simp: due_beats_def dest: beats_storage)

lemma during_lease_cases:
  assumes "during_lease out lease m st = (r, st')"
  obtains x st1 st2 where "m st1 = (x, st2)" "rn_storage st1 = rn_storage st" "rn_storage st' = rn_storage st2"
    "\<forall>y. r = Inr y \<longrightarrow> x = Inr y"
proof -
  obtain f1 st1 where b1: "due_beats out lease None st = (f1, st1)" by (cases "due_beats out lease None st")
  obtain x st2 where b2: "m st1 = (x, st2)" by (cases "m st1")
  obtain f2 st3 where b3: "due_beats out lease f1 st2 = (f2, st3)" by (cases "due_beats out lease f1 st2")
  obtain f3 st4 where b4: "due_beats out lease f2 st3 = (f3, st4)" by (cases "due_beats out lease f2 st3")
  have "rn_storage st' = rn_storage st2"
    using assms b1 b2 b3 b4 due_storage [OF b3] due_storage [OF b4]
    by (auto simp: during_lease_def stop_heartbeat_def Let_def)
  moreover have "\<forall>y. r = Inr y \<longrightarrow> x = Inr y"
    using assms b1 b2 b3 b4
    by (auto simp: during_lease_def stop_heartbeat_def exit_heartbeat_def Let_def split: sum.splits option.splits if_splits)
  ultimately show thesis using b2 due_storage [OF b1] that by blast
qed

lemma quiet_during [quiet_intros]: "quiet m \<Longrightarrow> quiet (during_lease out lease m)"
  unfolding quiet_def [of "during_lease out lease m"]
proof (intro allI impI)
  fix st r st'
  assume m: "quiet m" and d: "during_lease out lease m st = (r, st')"
  obtain x st1 st2 where "m st1 = (x, st2)" "rn_storage st1 = rn_storage st" "rn_storage st' = rn_storage st2"
    by (rule during_lease_cases [OF d])
  with quietD [OF m, of st1 x st2] show "deleting st' = deleting st \<and> set (rn_storage st) \<subseteq> set (rn_storage st')"
    by (simp add: deleting_def)
qed

lemma quiet_cancel [quiet_intros]: "quiet (cancel_if_requested out lease)"
  unfolding cancel_if_requested_def by (intro quiet_intros)

lemma quiet_cleanup: "quiet (build_cleanup out)"
  unfolding build_cleanup_def by (intro quiet_intros)

lemma quiet_parse [quiet_intros]: "quiet (parse_bytes out content)"
  unfolding parse_bytes_def by (auto intro: quiet_intros split: sum.split)

lemma quiet_deadline [quiet_intros]: "quiet (require_before_deadline out deadline)"
  unfolding require_before_deadline_def by (intro quiet_intros)

lemma quiet_stages [quiet_intros]:
  "quiet (load_requirements out subject deadline)" "quiet (resolve_stage out lease limits deadline target parsed)"
  "quiet (download_stage out lease limits deadline target resolution)"
  "quiet (validate_stage out lease limits deadline target resolution download)"
  "quiet (staged out lease deadline stage)" "quiet (call_advance out lease s p g m)"
  "quiet (call_fail_terminal out lease c m)"
  unfolding resolve_stage_def download_stage_def validate_stage_def load_requirements_def require_download_limits_def
    require_file_observation_def staged_def call_advance_def call_fail_terminal_def Let_def
  by (auto intro!: quiet_intros split: option.split sum.split)

text \<open>What a run may claim when it returns an artifact.\<close>

definition recorded :: "JobLease \<Rightarrow> run_state \<Rightarrow> BuildStatus \<Rightarrow> string \<Rightarrow> run_state \<Rightarrow> bool" where
  "recorded lease st status a st' \<longleftrightarrow> status \<in> {B_SUCCESS, B_PARTIAL_SUCCESS} \<and>
     (\<forall>task\<in>set (build_tasks (w_db (rn_world st'))). executing lease task \<longrightarrow> bt_status task = status) \<and>
     (\<exists>row\<in>set (artifacts (w_db (rn_world st'))). ar_id row = a \<and> ar_build_task_id row = l_subject_id lease \<and>
        ar_build_status row = status \<and> Published (ar_object_key row) \<in> set (rn_storage st') \<and>
        (ar_object_key row \<in> deleting st' \<longrightarrow> ar_object_key row \<in> deleting st))"

definition truthful :: "JobLease \<Rightarrow> PipelineResult prog \<Rightarrow> bool" where
  "truthful lease m \<longleftrightarrow> (\<forall>st status a st'. m st = (Inr (status, Some a), st') \<longrightarrow> recorded lease st status a st')"

lemma truthful_none: "(\<And>st r st'. m st = (Inr r, st') \<Longrightarrow> snd r = None) \<Longrightarrow> truthful lease m"
  unfolding truthful_def by fastforce

lemma truthful_ret: "snd r = None \<Longrightarrow> truthful lease (ret r)" "truthful lease (throw e)"
  by (auto simp: truthful_def ret_def throw_def)

lemma truthful_bind: "quiet m \<Longrightarrow> (\<And>x. truthful lease (f x)) \<Longrightarrow> truthful lease (bind m f)"
  unfolding truthful_def
proof (intro allI impI)
  fix st status a st''
  assume q: "quiet m" and f: "\<And>x. \<forall>st status a st'. f x st = (Inr (status, Some a), st') \<longrightarrow> recorded lease st status a st'"
    and b: "bind m f st = (Inr (status, Some a), st'')"
  from b obtain x st' where s: "m st = (Inr x, st')" "f x st' = (Inr (status, Some a), st'')" by (rule bind_Inr)
  then have "recorded lease st' status a st''" using f by blast
  then show "recorded lease st status a st''" using quietD [OF q s(1)] by (auto simp: recorded_def)
qed

lemma cancel_result: "cancel_if_requested out lease st = (Inr (Some r), st') \<Longrightarrow> r = (B_CANCELLED, None)"
  by (auto simp: cancel_if_requested_def ret_def throw_def elim!: bind_Inr split: if_splits)

lemma truthful_unless:
  assumes "truthful lease m"
  shows "truthful lease (unless_cancelled out lease m)"
  unfolding truthful_def
proof (intro allI impI)
  fix st status a st''
  assume "unless_cancelled out lease m st = (Inr (status, Some a), st'')"
  then obtain c st' where s: "cancel_if_requested out lease st = (Inr c, st')"
    "(case c of Some r \<Rightarrow> ret r | None \<Rightarrow> m) st' = (Inr (status, Some a), st'')"
    unfolding unless_cancelled_def by (rule bind_Inr)
  show "recorded lease st status a st''"
  proof (cases c)
    case None
    then have "recorded lease st' status a st''" using s(2) assms by (simp add: truthful_def)
    then show ?thesis using quietD [OF quiet_cancel s(1)] by (auto simp: recorded_def)
  next
    case (Some r)
    with s cancel_result [of out lease st r st'] show ?thesis by (simp add: ret_def)
  qed
qed

lemma during_publish:
  assumes "during_lease out lease (publish_descriptor out key) st = (Inr object, st')"
  shows "Published (po_object_key object) \<in> set (rn_storage st') \<and> deleting st' = deleting st"
  using assms
proof (cases rule: during_lease_cases)
  case (1 x st1 st2)
  then have "publish_descriptor out key st1 = (Inr object, st2)" by simp
  then have "rn_storage st2 = rn_storage st1 @ [Published (po_object_key object)]"
    by (auto simp: publish_descriptor_def outside_call_def split: sum.splits)
  then show ?thesis using 1 by (auto simp: deleting_def)
qed

lemma record_artifact_records:
  assumes "record_artifact out lease limits i po built status st = (Inr (s, Some a), st')"
    and "status \<in> {B_SUCCESS, B_PARTIAL_SUCCESS}" "Published (po_object_key po) \<in> set (rn_storage st)"
  shows "recorded lease st s a st'"
proof -
  define ex where "ex = w_now (rn_world st) + seconds (artifact_retention_days limits * 86400)"
  obtain x st1 where c0: "db_call out (\<lambda>_. raising (publish_artifact_terminal lease i po (ba_name built) status ex)) st
      = (Inr x, st1)"
    and k: "(case x of None \<Rightarrow> throw (Exn ''LostLeaseError'' ''artifact metadata was not published'')
      | Some a \<Rightarrow> bind (set_published None) (\<lambda>_. ret (status, Some a))) st1 = (Inr (s, Some a), st')"
    using assms(1) unfolding record_artifact_def ex_def by (rule bind_Inr)
  have x: "x = Some a" and r: "s = status" "rn_world st' = rn_world st1" "rn_storage st' = rn_storage st1"
    using k by (cases x; auto simp: throw_def bind_def set_published_def ret_def)+
  note c = c0 [unfolded x]
  let ?w = "ou_meanwhile out (rn_calls st) (rn_world st)"
  from c obtain t where p: "publish_artifact_terminal lease i po (ba_name built) status ex (w_now ?w) (w_db ?w) = (Inr (Some a), t)"
    and st1: "rn_world st1 = ?w\<lparr>w_db := t\<rparr>" "rn_storage st1 = rn_storage st"
    by (auto simp: db_call_def Let_def raising_Inr split: option.splits prod.splits)
  have "a = i" by (rule publish_id [OF p])
  then have e: "artifacts t = artifacts (w_db ?w) @ [artifact_row a lease po (ba_name built) status ex (w_now ?w)]"
    "build_tasks t = map (\<lambda>r. if executing lease r then end_task status ''COMPLETED'' (w_now ?w) r else r) (build_tasks (w_db ?w))"
    using publish_effect [OF p] by simp_all
  have "bt_status task = status" if "task \<in> set (build_tasks t)" "executing lease task" for task
    using that unfolding e(2) by (auto simp: end_task_def)
  then show ?thesis
    using st1 r e(1) assms(2,3) by (simp add: recorded_def artifact_row_def deleting_def)
qed

lemma publish_stage_truthful:
  assumes "status \<in> {B_SUCCESS, B_PARTIAL_SUCCESS}"
  shows "truthful lease (publish_stage out lease limits built status)"
proof -
  have "recorded lease st s a st'"
    if "bind (during_lease out lease (publish_descriptor out key)) (\<lambda>object.
         bind (set_published (Some object)) (\<lambda>_.
         bind (require (po_sha256 object = ba_sha256 built) e) (\<lambda>_.
         bind (cancel_if_requested out lease) (\<lambda>cancelled. case cancelled of
           Some r \<Rightarrow> bind (drop_published out) (\<lambda>_. bind (set_published None) (\<lambda>_. ret r))
         | None \<Rightarrow> record_artifact out lease limits i object built status)))) st = (Inr (s, Some a), st')"
    for key e i st s a st'
  proof -
    from that obtain object st1 u st2 v st3 c st4 where
      p: "during_lease out lease (publish_descriptor out key) st = (Inr object, st1)"
      and q: "set_published (Some object) st1 = (Inr u, st2)" "require (po_sha256 object = ba_sha256 built) e st2 = (Inr v, st3)"
        "cancel_if_requested out lease st3 = (Inr c, st4)"
      and rest: "(case c of Some r \<Rightarrow> bind (drop_published out) (\<lambda>_. bind (set_published None) (\<lambda>_. ret r))
        | None \<Rightarrow> record_artifact out lease limits i object built status) st4 = (Inr (s, Some a), st')"
      by (elim bind_Inr) blast
    have keep: "deleting st4 = deleting st" "Published (po_object_key object) \<in> set (rn_storage st4)"
      using during_publish [OF p] quietD [OF quiet_basic(2) q(1)] quietD [OF quiet_basic(5) q(2)]
        quietD [OF quiet_cancel q(3)] by blast+
    show ?thesis
    proof (cases c)
      case None
      then have "recorded lease st4 s a st'" using rest keep(2) assms by (auto intro: record_artifact_records)
      then show ?thesis using keep(1) by (simp add: recorded_def)
    next
      case (Some r)
      then have "r = (B_CANCELLED, None)" using cancel_result q(3) by simp
      then show ?thesis using rest Some by (auto simp: ret_def elim!: bind_Inr)
    qed
  qed
  then have last: "truthful lease (bind (during_lease out lease (publish_descriptor out key)) (\<lambda>object.
         bind (set_published (Some object)) (\<lambda>_.
         bind (require (po_sha256 object = ba_sha256 built) e) (\<lambda>_.
         bind (cancel_if_requested out lease) (\<lambda>cancelled. case cancelled of
           Some r \<Rightarrow> bind (drop_published out) (\<lambda>_. bind (set_published None) (\<lambda>_. ret r))
         | None \<Rightarrow> record_artifact out lease limits i object built status)))))" for key e i
    unfolding truthful_def by blast
  show ?thesis unfolding publish_stage_def by (intro last truthful_bind quiet_intros)
qed

lemma call_fail_none: "call_fail_terminal out lease c m st = (Inr r, st') \<Longrightarrow> snd r = None"
  by (auto simp: call_fail_terminal_def ret_def failed_def elim!: bind_Inr)

lemma truthful_fail: "truthful lease (call_fail_terminal out lease c m)"
  by (rule truthful_none) (rule call_fail_none)

lemma settle_error_none: "settle_error out lease e st = (Inr r, st') \<Longrightarrow> snd r = None"
  by (auto simp: settle_error_def ret_def throw_def failed_def Let_def elim!: bind_Inr split: if_splits)

lemma build_errors_none: "build_errors out lease e st = (Inr r, st') \<Longrightarrow> snd r = None"
  by (auto simp: build_errors_def ret_def coalesce_def split: if_splits option.splits elim!: bind_Inr
      dest!: cancel_result dest: call_fail_none settle_error_none)

lemma truthful_catch:
  assumes "truthful lease m" "\<And>e st r st'. h e st = (Inr r, st') \<Longrightarrow> snd r = None"
  shows "truthful lease (catch m h)"
  using assms unfolding truthful_def catch_def by (fastforce split: prod.splits sum.splits)

lemma truthful_final:
  assumes "truthful lease m" "quiet f" "calm f"
  shows "truthful lease (final m f)"
  unfolding truthful_def
proof (intro allI impI)
  fix st status a st''
  assume "final m f st = (Inr (status, Some a), st'')"
  then obtain x st' where s: "m st = (Inr (status, Some a), st')" "f st' = (x, st'')"
    by (auto simp: final_def split: prod.splits sum.splits)
  then have "recorded lease st status a st'" using assms(1) by (simp add: truthful_def)
  then show "recorded lease st status a st''"
    using quietD [OF assms(2) s(2)] calmD [OF assms(3) s(2)] by (auto simp: recorded_def)
qed

lemma build_body_truthful: "truthful lease (build_body out lease payload s)"
proof -
  have "truthful lease (package_stage out lease limits deadline target t resolution v)"
    for limits deadline target t resolution v
    unfolding package_stage_def Let_def
    by (auto intro!: truthful_bind truthful_unless publish_stage_truthful quiet_intros truthful_fail)
  then show ?thesis
    unfolding build_body_def
    by (auto intro!: truthful_bind truthful_unless truthful_ret quiet_intros split: option.split)
qed

lemma truthful_run_parse: "truthful lease (run_parse out lease payload)"
proof (rule truthful_none)
  fix st r st'
  have body: "snd r = None" if "parse_body out lease payload s st = (Inr r, st')" for s st r st'
    using that by (auto simp: parse_body_def ret_def throw_def elim!: bind_Inr split: if_splits)
  have errors: "snd r = None" if "parse_errors out lease e st = (Inr r, st')" for e st r st'
    using that by (auto simp: parse_errors_def split: if_splits dest: call_fail_none settle_error_none)
  have caught: "snd r = None" if "catch (parse_body out lease payload s) (parse_errors out lease) st = (Inr r, st')" for s st r st'
    using that by (auto simp: catch_def split: prod.splits sum.splits dest: body errors)
  show "run_parse out lease payload st = (Inr r, st') \<Longrightarrow> snd r = None"
    by (auto simp: run_parse_def ret_def failed_def elim!: bind_Inr split: option.splits dest: caught)
qed

lemma truthful_run_build: "truthful lease (run_build out lease payload)"
proof -
  have guarded: "truthful lease (final (catch (build_body out lease payload s) (build_errors out lease)) (build_cleanup out))" for s
    by (intro truthful_final truthful_catch build_body_truthful quiet_cleanup calm_cleanup) (rule build_errors_none)
  show ?thesis
    unfolding run_build_def
    by (intro truthful_bind quiet_intros)
      (auto intro!: truthful_bind guarded truthful_ret quiet_intros simp: failed_def split: option.split)
qed

text \<open>C7 A pipeline run that reports an artifact has recorded it: its row belongs to the job's task with the
  reported status SUCCESS or PARTIAL_SUCCESS, the task ended with that status, the lease is over, and the object
  the row names was published by this run and never handed to deletion by it.\<close>

theorem reported_artifact_recorded:
  assumes "run_pipeline out lease st = (Inr (status, Some a), st')"
  shows "status \<in> {B_SUCCESS, B_PARTIAL_SUCCESS} \<and>
    (\<forall>task\<in>set (build_tasks (w_db (rn_world st'))). executing lease task \<longrightarrow> bt_status task = status) \<and>
    (\<exists>row\<in>set (artifacts (w_db (rn_world st'))). ar_id row = a \<and> ar_build_task_id row = l_subject_id lease \<and>
      ar_build_status row = status \<and> Published (ar_object_key row) \<in> set (rn_storage st') \<and>
      (DeleteAsked (ar_object_key row) \<in> set (rn_storage st') \<longrightarrow> DeleteAsked (ar_object_key row) \<in> set (rn_storage st)))"
proof -
  have "truthful lease (run_pipeline out lease)"
    unfolding run_pipeline_def
  proof (rule truthful_catch)
    show "truthful lease (run_job out lease)"
      unfolding run_job_def
      by (auto intro!: truthful_ret truthful_run_parse truthful_run_build split: option.split)
  qed (auto simp: throw_def split: if_splits dest: call_fail_none)
  with assms have "recorded lease st status a st'" by (simp add: truthful_def)
  then show ?thesis by (simp add: recorded_def deleting_def)
qed

subsection \<open>A cancellation that comes late\<close>

lemma publish_refused:
  assumes "owns s lease now" "find (executing lease) (build_tasks s) = Some task" "bt_cancel_requested task"
  shows "publish_artifact_terminal lease i po fn st ex now s = (Inr None, s)"
  using assms by (simp add: publish_artifact_terminal_def transaction_def publish_artifact_body_def)

lemma artifact_lost:
  "contains_lost_lease (Exn ''LostLeaseError'' m)" "\<not> is_instance ''DownloadCancelledError'' (Exn ''LostLeaseError'' m)"
  "\<not> is_instance ''RequirementsParseError'' (Exn ''LostLeaseError'' m)"
  "\<not> is_instance ''WheelArchiveValidationError'' (Exn ''LostLeaseError'' m)"
  "\<not> is_instance ''KeyboardInterrupt'' (Exn ''LostLeaseError'' m)" "\<not> is_instance ''SystemExit'' (Exn ''LostLeaseError'' m)"
  by (simp_all add: contains_lost_lease_def is_instance_def EXCEPTION_BASES_def numeral_eq_Suc)

text \<open>C40 A cancellation requested between the last check and the publishing transaction is mistaken for a lost
  lease: the run reports FAILED and returns, but the job is still RUNNING under this run's lease, neither
  cancelled nor requeued.\<close>

theorem late_cancellation_keeps_lease:
  assumes "ou_meanwhile out (rn_calls st) (rn_world st) = w" "ou_driver out (rn_calls st) = None"
    and "owns (w_db w) lease (w_now w)" "find (executing lease) (build_tasks (w_db w)) = Some task"
    and "bt_cancel_requested task" "\<forall>n key sha. ou_delete out n key sha = None"
  shows "\<exists>st'. catch (record_artifact out lease limits i po built status) (build_errors out lease) st = (Inr failed, st') \<and>
    rn_world st' = w \<and> owns (w_db (rn_world st')) lease (w_now (rn_world st'))"
proof -
  define e where "e = Exn ''LostLeaseError'' ''artifact metadata was not published''"
  define st1 where "st1 = st\<lparr>rn_world := w, rn_calls := rn_calls st + 1\<rparr>"
  have "record_artifact out lease limits i po built status st = (Inl e, st1)"
    using assms(1-5)
    by (simp add: record_artifact_def bind_def db_call_def raising_def publish_refused throw_def e_def st1_def Let_def)
  moreover have settled: "settle_error out lease e s = (Inr failed, snd (drop_published out s)) \<and>
      rn_world (snd (drop_published out s)) = rn_world s" for s
  proof -
    have "drop_published out s = (Inr (), snd (drop_published out s)) \<and> rn_world (snd (drop_published out s)) = rn_world s"
      using assms(6) by (cases "rn_published s")
        (simp_all add: drop_published_def best_effort_cleanup_def delete_if_owned_def outside_call_def of_option_def)
    then obtain s' where "drop_published out s = (Inr (), s')" "rn_world s' = rn_world s" by blast
    then show ?thesis by (simp add: settle_error_def bind_def e_def artifact_lost ret_def)
  qed
  moreover have "build_errors out lease e = settle_error out lease e"
    by (simp add: build_errors_def e_def artifact_lost)
  ultimately show ?thesis
    using assms(3) by (intro exI [of _ "snd (drop_published out (st1\<lparr>rn_caught := rn_caught st1 @ [e]\<rparr>))"])
      (simp add: catch_def st1_def)
qed

end
