(* ===== verification/PipelineWitness.thy ===== *)
theory PipelineWitness
  imports PipelineFacts "HOL-Library.Code_Target_Nat"
begin

section \<open>The pipeline at work\<close>

text \<open>
  One worker with nothing in its way, and concrete runs of it: a malformed payload, a build of the file
  \<open>a==1.0\<close> that succeeds, and a cancellation that arrives with the last transaction.
\<close>

definition sample_text :: string where "sample_text = ''a==1.0'' @ [newline]"

definition no_packages :: "nat ResolutionResult" where
  "no_packages = \<lparr>rr_report_version = ''1'', rr_packages = [], rr_attempts = [], rr_rejections = [], rr_changes = [],
     rr_source = None, rr_rejections_omitted = 0, rr_observations_truncated = False\<rparr>"

definition sample_stages :: "nat stages" where
  "sample_stages = \<lparr>sg_resolve = (\<lambda>_ _ _ _. Inr no_packages),
     sg_download = (\<lambda>_ _ _ _. Inr \<lparr>bd_wheels = [], bd_failures = []\<rparr>),
     sg_validate = (\<lambda>_ _ _ _ _. Inr \<lparr>bv_wheels = [], bv_report = \<lparr>sv_issues = [], sv_complete = True,
        sv_validation_level = ''STATIC'', sv_install_verified = False\<rparr>, bv_download_failures = []\<rparr>),
     sg_package = (\<lambda>_ _ _ _ _. Inr \<lparr>ba_name = ''bundle.zip'', ba_sha256 = ''x''\<rparr>)\<rparr>"

definition quiet_outside :: "nat outside" where
  "quiet_outside = \<lparr>ou_meanwhile = (\<lambda>_ w. w), ou_driver = (\<lambda>_. None), ou_invalidated = (\<lambda>_. False),
     ou_lease_seconds = 30, ou_uuids = (\<lambda>n k. nat_str n @ ''-'' @ nat_str k), ou_beats = (\<lambda>_. 1), ou_stuck = (\<lambda>_. False),
     ou_monotonic = (\<lambda>_. 0), ou_read_bytes = (\<lambda>_ _. Inr (utf8_encode sample_text)),
     ou_publish_bytes = (\<lambda>_ key content. Inr \<lparr>po_object_key = key, po_size_bytes = int (length content), po_sha256 = ''x''\<rparr>),
     ou_publish_file = (\<lambda>_ key. Inr \<lparr>po_object_key = key, po_size_bytes = 1, po_sha256 = ''x''\<rparr>),
     ou_delete = (\<lambda>_ _ _. None), ou_allocate = (\<lambda>_ _. None), ou_mkdir = (\<lambda>_. None), ou_close = (\<lambda>_. None),
     ou_artifact_size = (\<lambda>_ _. Inr 1), ou_sha256 = (\<lambda>_. ''x''), ou_packaging = sample_packaging, ou_gbk = (\<lambda>_. None),
     ou_payload_error = (\<lambda>_. ''invalid''), ou_stages = sample_stages\<rparr>"

definition starting :: "db \<Rightarrow> run_state" where
  "starting s = \<lparr>rn_world = \<lparr>w_db = s, w_now = 0, w_used = {}\<rparr>, rn_calls = 0, rn_published = None, rn_caught = [],
     rn_storage = []\<rparr>"

text \<open>A shortcut for evaluation: text without the characters every secret has is only cut.\<close>

definition dead :: "regex \<Rightarrow> string \<Rightarrow> bool" where
  "dead r s \<longleftrightarrow> (\<forall>i cs. rmatch r s (i, cs) = [])"

lemma dead_Cls: "(\<And>c. c \<in> set s \<Longrightarrow> \<not> P c) \<Longrightarrow> dead (Cls P) s"
  by (auto simp: dead_def)

lemma dead_left: "dead a s \<Longrightarrow> dead (Sq a b) s"
  by (simp add: dead_def)

lemma dead_right: "dead b s \<Longrightarrow> dead (Sq a b) s"
  by (auto simp: dead_def)

lemma dead_Grp: "dead a s \<Longrightarrow> dead (Grp n a) s"
  by (simp add: dead_def)

lemma dead_search: "dead r s \<Longrightarrow> \<not> re_search r s"
  by (simp add: dead_def re_search_def match_at_def)

lemma dead_URL_USERINFO: "CHR ''@'' \<notin> set s \<Longrightarrow> dead URL_USERINFO s"
  unfolding URL_USERINFO_def Sqs.simps Lit.simps by (rule dead_right, rule dead_right, rule dead_right, rule dead_left, rule dead_Cls) auto

lemma dead_QUERY_SECRET: "CHR ''='' \<notin> set s \<Longrightarrow> dead QUERY_SECRET s"
  unfolding QUERY_SECRET_def Sqs.simps Lit.simps
  by (rule dead_left, rule dead_Grp, rule dead_right, rule dead_right, rule dead_left, rule dead_Cls) auto

lemma dead_KEY_VALUE_SECRET: "CHR '':'' \<notin> set s \<Longrightarrow> CHR ''='' \<notin> set s \<Longrightarrow> dead KEY_VALUE_SECRET s"
  unfolding KEY_VALUE_SECRET_def Sqs.simps
  by (rule dead_right, rule dead_right, rule dead_right, rule dead_left, rule dead_Cls) auto

lemma dead_BEARER_SECRET: "\<not> list_ex (\<lambda>c. lower c = lower (CHR ''B'')) s \<Longrightarrow> dead BEARER_SECRET s"
  unfolding BEARER_SECRET_def Sqs.simps ILit.simps
  by (rule dead_right, rule dead_left, rule dead_Grp, rule dead_left, rule dead_Cls) (simp add: list_ex_iff)

lemma sanitize_text_code [code]:
  "sanitize_text v limit =
     (if NUL \<notin> set v \<and> CHR ''@'' \<notin> set v \<and> CHR ''='' \<notin> set v \<and> CHR '':'' \<notin> set v \<and> \<not> list_ex (\<lambda>c. lower c = lower (CHR ''B'')) v
      then take limit v
      else take limit (re_sub BEARER_SECRET (\<lambda>s cs. group 1 s cs @ '' ***'')
        (re_sub KEY_VALUE_SECRET (\<lambda>s cs. group 1 s cs @ ''=***'')
        (re_sub QUERY_SECRET (\<lambda>s cs. group 1 s cs @ ''***'')
        (re_sub URL_USERINFO (\<lambda>s cs. group 1 s cs @ ''***@'') (replace_nul v))))))"
proof (cases "NUL \<notin> set v \<and> CHR ''@'' \<notin> set v \<and> CHR ''='' \<notin> set v \<and> CHR '':'' \<notin> set v \<and> \<not> list_ex (\<lambda>c. lower c = lower (CHR ''B'')) v")
  case True
  then show ?thesis by (simp add: sanitize_text_clean dead_search dead_URL_USERINFO
      dead_QUERY_SECRET dead_KEY_VALUE_SECRET dead_BEARER_SECRET)
qed (auto simp: sanitize_text_def Let_def)

subsection \<open>An envelope\<close>

definition windows_snapshot :: TargetSnapshot where
  "windows_snapshot = \<lparr>ts_texts = [uuid_str 0, ''win-py311'', ''WINDOWS'', ''AMD64'', ''CPYTHON'', ''3.11'', ''3.11.9'', ''win_amd64'',
     ''STATIC'', ''wheel-tags-v1''], ts_abi_tags = [''cp311'', ''abi3'', ''none''], ts_profile_version = 1\<rparr>"

definition sample_build :: BuildPayload where
  "sample_build = \<lparr>bp_requirement_file_id = uuid_str 2, bp_normalized_object_key = ''n'', bp_solve_mode = ''COMPATIBLE'',
     bp_target_snapshot = windows_snapshot\<rparr>"

definition sample_envelope :: JobPayload where
  "sample_envelope = \<lparr>jp_job_type = BUILD, jp_subject_id = uuid_str 1, jp_created_at = ''2026-02-28T12:30:00.5+08:00'',
    jp_payload = dump_build_payload sample_build\<rparr>"

abbreviation sample_wire :: string where
  "sample_wire \<equiv> dumps_compact (wire_value sample_envelope)"

lemma sample_wire_valid: "(case wire_value sample_envelope of VDict d \<Rightarrow> validate_wire d = Some sample_envelope | _ \<Rightarrow> False)"
  by code_simp

lemma sample_wire_bounded: "bounded_database_payload_json (wire_value sample_envelope) = Inr sample_wire" by code_simp

lemma sample_wire_accepted: "validate_job_payload sample_wire = Some sample_envelope"
proof -
  obtain d where "wire_value sample_envelope = VDict d" by (simp add: wire_value_def)
  with sample_wire_valid have "validate_wire d = Some sample_envelope" by simp
  then show ?thesis using sample_wire_bounded by (rule bounded_wire_accepted)
qed

theorem job_payload_roundtrip_witness:
  "canonical_uuid (jp_subject_id sample_envelope) = Some (jp_subject_id sample_envelope)"
  using job_payload_roundtrip [OF sample_wire_accepted sample_wire_bounded] by blast

lemma beats_code [code]:
  "beats out lease k failure st = (case k of 0 \<Rightarrow> (failure, st) | Suc n \<Rightarrow> (case failure of
     Some e \<Rightarrow> (Some e, st)
   | None \<Rightarrow> (case db_call out (\<lambda>_. plain (heartbeat (ou_lease_seconds out) lease)) st of
        (Inl e, st') \<Rightarrow> (Some e, st')
      | (Inr alive, st') \<Rightarrow> beats out lease n (if alive then None else Some LEASE_EXPIRED) st')))"
  by (cases k; cases failure) simp_all

subsection \<open>A payload that is malformed\<close>

definition malformed_lease :: JobLease where
  "malformed_lease = first_lease\<lparr>l_payload_json := ''{''\<rparr>"

lemma malformed_returns: "(case consume quiet_outside malformed_lease (starting building_db) of
    (Inr x, st') \<Rightarrow> \<not> list_ex (\<lambda>e. contains_lost_lease e \<or> is_instance ''DownloadCancelledError'' e) (rn_caught st') | _ \<Rightarrow> False)"
  by code_simp

theorem returned_lease_given_up_witness:
  "\<exists>x st'. consume quiet_outside malformed_lease (starting building_db) = (Inr x, st') \<and>
     \<not> owns (w_db (rn_world st')) malformed_lease (w_now (rn_world st'))"
proof -
  obtain x st' where c: "consume quiet_outside malformed_lease (starting building_db) = (Inr x, st')"
      "\<not> list_ex (\<lambda>e. contains_lost_lease e \<or> is_instance ''DownloadCancelledError'' e) (rn_caught st')"
    using malformed_returns by (auto split: prod.splits sum.splits)
  from returned_lease_given_up [OF c(1)] c show ?thesis by (auto simp: list_ex_iff)
qed


subsection \<open>A build that succeeds\<close>

definition build_lease :: "string \<Rightarrow> JobLease" where
  "build_lease payload = first_lease\<lparr>l_subject_id := uuid_str 1, l_payload_json := payload\<rparr>"

definition succeeded :: "py_exn + PipelineResult \<Rightarrow> bool" where
  "succeeded r = (case r of Inr (status, Some _) \<Rightarrow> status = B_SUCCESS | _ \<Rightarrow> False)"

definition build_db :: db where
  "build_db = building_db
     \<lparr>build_tasks := [sample_task\<lparr>bt_id := uuid_str 1, bt_requirement_file_id := uuid_str 2, bt_target_profile_id := uuid_str 0,
        bt_execution_id := None, bt_status := B_QUEUED, bt_target_snapshot := VDict (dump_snapshot windows_snapshot)\<rparr>],
      requirement_files := [sample_file\<lparr>rf_id := uuid_str 2, rf_size_bytes := 7, rf_sha256 := ''x''\<rparr>],
      build_jobs := [(lease_job 30 ''w1'' 0 ''e1'' 1 sample_job)\<lparr>bj_subject_id := uuid_str 1\<rparr>]\<rparr>"

lemma build_succeeds: "succeeded (fst (run_build quiet_outside (build_lease payload) sample_build (starting build_db)))"
  by code_simp

lemma sample_build_valid: "validate_build_payload (dump_build_payload sample_build) = Some sample_build" by code_simp

lemma sample_envelope_fields:
  "jp_job_type sample_envelope = BUILD" "jp_subject_id sample_envelope = uuid_str 1"
  "jp_payload sample_envelope = dump_build_payload sample_build"
  by (simp_all add: sample_envelope_def)

lemma build_lease_fields:
  "l_payload_json (build_lease p) = p" "l_job_type (build_lease p) = BUILD" "l_subject_id (build_lease p) = uuid_str 1"
  "l_payload_version (build_lease p) = 1"
  by (simp_all add: build_lease_def first_lease_def lease_of_def Let_def sample_job_def)

theorem reported_artifact_recorded_witness:
  "\<exists>a st'. run_pipeline quiet_outside (build_lease sample_wire) (starting build_db) = (Inr (B_SUCCESS, Some a), st') \<and>
     (\<exists>row. ar_id row = a \<and> row \<in> set (artifacts (w_db (rn_world st'))))"
proof -
  let ?lease = "build_lease sample_wire"
  have job: "run_job quiet_outside ?lease = run_build quiet_outside ?lease sample_build"
    by (simp add: run_job_def build_lease_fields sample_wire_accepted sample_envelope_fields sample_build_valid del: One_nat_def)
  obtain result st' where b: "run_build quiet_outside ?lease sample_build (starting build_db) = (result, st')"
    by (cases "run_build quiet_outside ?lease sample_build (starting build_db)")
  with build_succeeds [of sample_wire] have "succeeded result" by simp
  then obtain a where "result = Inr (B_SUCCESS, Some a)"
    by (auto simp: succeeded_def split: sum.splits option.splits)
  with b have r: "run_pipeline quiet_outside ?lease (starting build_db) = (Inr (B_SUCCESS, Some a), st')"
    by (simp add: run_pipeline_def catch_def job)
  from reported_artifact_recorded [OF r] r show ?thesis by blast
qed

subsection \<open>A cancellation that comes late\<close>

definition cancelling_db :: db where
  "cancelling_db = building_db\<lparr>build_tasks := [sample_task\<lparr>bt_cancel_requested := True\<rparr>]\<rparr>"

theorem late_cancellation_keeps_lease_witness:
  "\<exists>st'. catch (record_artifact quiet_outside first_lease default_limits ''a1''
      \<lparr>po_object_key = ''k'', po_size_bytes = 1, po_sha256 = ''x''\<rparr> \<lparr>ba_name = ''bundle.zip'', ba_sha256 = ''x''\<rparr> B_SUCCESS) (build_errors quiet_outside first_lease)
      (starting cancelling_db) = (Inr failed, st') \<and> owns (w_db (rn_world st')) first_lease 0"
proof -
  have "owns cancelling_db first_lease 0"
    using building_owns by (simp add: cancelling_db_def owns_iff building_db_def)
  moreover have "executing first_lease (sample_task\<lparr>bt_cancel_requested := True\<rparr>)"
    using building_executing by (simp add: executing_def)
  ultimately show ?thesis
    using late_cancellation_keeps_lease [of quiet_outside "starting cancelling_db" "\<lparr>w_db = cancelling_db, w_now = 0, w_used = {}\<rparr>"
        first_lease "sample_task\<lparr>bt_cancel_requested := True\<rparr>" default_limits "''a1''"
        "\<lparr>po_object_key = ''k'', po_size_bytes = 1, po_sha256 = ''x''\<rparr>" "\<lparr>ba_name = ''bundle.zip'', ba_sha256 = ''x''\<rparr>" B_SUCCESS]
    by (fastforce simp: quiet_outside_def starting_def cancelling_db_def)
qed

end
