(* ===== verification/ArchiveMembers.thy ===== *)
theory ArchiveMembers
  imports Models "HOL-Library.Word" "HOL-Library.Sublist"
begin

unbundle bit_operations_syntax

section \<open>The members of a wheel archive (\<open>validation/archive.py\<close>)\<close>

text \<open>
  Which member names and which sets of members a wheel may have: portable paths, the tree of the members on
  a file system that ignores case, flags and sizes.  A member is what the code reads of a \<open>ZipInfo\<close>.  The
  compression ratio is compared as integers: the code divides as floats, which decides the same for whole
  limits, a file size being below 2^30.  Characters above code point 255 are outside the strings of the
  development; below, every text is its own NFC form.
\<close>

datatype archive_error =
    UnsafeWheelArchive string
  | ArchiveResourceLimitError string
  | ArchiveMetadataError string
  | WheelRecordMismatch string
  | OutsideText

record ArchiveLimits =
  al_max_entries :: int
  al_max_total_uncompressed_bytes :: int
  al_max_entry_uncompressed_bytes :: int
  al_max_compression_ratio :: int

definition archive_limits_ok :: "ArchiveLimits \<Rightarrow> bool" where
  "archive_limits_ok l \<longleftrightarrow> al_max_entries l \<in> {1..20000} \<and>
     al_max_total_uncompressed_bytes l \<in> {1..2 * (1024 * (1024 * 1024))} \<and>
     al_max_entry_uncompressed_bytes l \<in> {1..512 * (1024 * 1024)} \<and> al_max_compression_ratio l \<in> {1..200}"

record ZipInfo =
  zi_filename :: string
  zi_orig_filename :: string
  zi_flag_bits :: "16 word"
  zi_volume :: int
  zi_external_attr :: "32 word"
  zi_file_size :: int
  zi_compress_size :: int

definition is_dir :: "ZipInfo \<Rightarrow> bool" where
  "is_dir info = endswith (zi_filename info) ''/''"

definition raw_member_name :: "ZipInfo \<Rightarrow> string" where
  "raw_member_name info = zi_orig_filename info"

subsection \<open>Names\<close>

text \<open>\<open>str.casefold\<close>; the micro sign, which folds to a letter above code point 255, is left alone, and no
  other character folds to that letter.\<close>

definition fold_char :: "char \<Rightarrow> string" where
  "fold_char c = (if code c = 223 then ''ss''
     else if is_upper c \<or> (192 \<le> code c \<and> code c \<le> 222 \<and> code c \<noteq> 215) then [char_of (code c + 32)] else [c])"

definition casefold :: "string \<Rightarrow> string" where
  "casefold s = concat (map fold_char s)"

definition nfc :: "string \<Rightarrow> string" where
  "nfc s = s"

definition WINDOWS_ILLEGAL :: string where
  "WINDOWS_ILLEGAL = ''<>:'' @ [CHR 0x22] @ ''|?*''"

definition reserved_device :: "string \<Rightarrow> bool" where
  "reserved_device basename \<longleftrightarrow> basename \<in> {''con'', ''prn'', ''aux'', ''nul''} \<or>
     (length basename = 4 \<and> take 3 basename \<in> {''com'', ''lpt''} \<and>
      49 \<le> code (basename ! 3) \<and> code (basename ! 3) \<le> 57)"

definition validate_windows_component :: "string \<Rightarrow> archive_error + unit" where
  "validate_windows_component component =
     (if endswith component ''.'' \<or> endswith component '' ''
      then Inl (UnsafeWheelArchive ''archive member has a Windows-unsafe trailing character'')
      else if list_ex (\<lambda>c. code c < 32 \<or> c \<in> set WINDOWS_ILLEGAL) component
      then Inl (UnsafeWheelArchive ''archive member contains a Windows-illegal character'')
      else if reserved_device (casefold (hd (split_on CHR ''.'' component)))
      then Inl (UnsafeWheelArchive ''archive member uses a reserved Windows device name'')
      else Inr ())"

definition validate_component :: "string \<Rightarrow> archive_error + unit" where
  "validate_component component =
     (if nfc component \<noteq> component then Inl (UnsafeWheelArchive ''archive member path is not NFC-normalized'')
      else validate_windows_component component)"

fun first_failure :: "('a \<Rightarrow> 'e + unit) \<Rightarrow> 'a list \<Rightarrow> 'e + unit" where
  "first_failure f [] = Inr ()"
| "first_failure f (x # xs) = (case f x of Inl e \<Rightarrow> Inl e | Inr _ \<Rightarrow> first_failure f xs)"

definition drive_qualified :: "string \<Rightarrow> bool" where
  "drive_qualified name \<longleftrightarrow> (case name of a # b # _ \<Rightarrow> is_alpha a \<and> b = CHR '':'' | _ \<Rightarrow> False)"

definition portable_path :: "string \<Rightarrow> bool \<Rightarrow> archive_error + string" where
  "portable_path name is_directory =
     (if name = [] \<or> CHR 0x00 \<in> set name \<or> CHR 0x5C \<in> set name
      then Inl (UnsafeWheelArchive ''archive member path is unsafe'')
      else if startswith name ''/'' \<or> startswith name ''//'' \<or> drive_qualified name
      then Inl (UnsafeWheelArchive ''archive member path is absolute or drive-qualified'')
      else if is_directory \<and> \<not> endswith name ''/''
      then Inl (UnsafeWheelArchive ''directory member name is malformed'')
      else
        (let name = (if is_directory then butlast name else name) in
         if name = [] then Inl (UnsafeWheelArchive ''archive member path is empty'')
         else
           (let components = split_on CHR ''/'' name in
            if list_ex (\<lambda>c. c \<in> {'''', ''.'', ''..''}) components
            then Inl (UnsafeWheelArchive ''archive member path contains an unsafe component'')
            else (case first_failure validate_component components of
                Inl e \<Rightarrow> Inl e
              | Inr _ \<Rightarrow>
                  (let normalized = join_with ''/'' components
                   in Inr (if is_directory then normalized @ ''/'' else normalized))))))"

definition portable_key :: "string \<Rightarrow> string" where
  "portable_key name = casefold (removesuffix name ''/'')"

definition is_dist_info_core_path :: "string \<Rightarrow> bool" where
  "is_dist_info_core_path name =
     (let parts = split_on CHR ''/'' (portable_key name) in
      1 < length parts \<and> endswith (join_with ''/'' (butlast parts)) ''.dist-info'' \<and>
      last parts \<in> {''metadata'', ''wheel'', ''record''})"

subsection \<open>The tree of the members\<close>

datatype TopologyNode = TopologyNode
  (below: "(string \<times> TopologyNode) list") (terminal_raw_name: "string option") (is_file: bool)

definition empty_node :: TopologyNode where
  "empty_node = TopologyNode [] None False"

fun insert_at :: "string list \<Rightarrow> string \<Rightarrow> bool \<Rightarrow> TopologyNode \<Rightarrow> archive_error + TopologyNode" where
  "insert_at [] raw_name is_directory (TopologyNode nodes terminal file) =
     (if terminal \<noteq> None
      then if is_dist_info_core_path raw_name \<or> is_dist_info_core_path (the terminal)
        then Inl (ArchiveMetadataError ''archive contains duplicate portable dist-info core metadata'')
        else Inl (UnsafeWheelArchive ''archive contains a duplicate portable member path'')
      else if \<not> is_directory \<and> nodes \<noteq> []
      then Inl (UnsafeWheelArchive ''archive file is the parent of another member'')
      else Inr (TopologyNode nodes (Some raw_name) (\<not> is_directory)))"
| "insert_at (key # keys) raw_name is_directory (TopologyNode nodes terminal file) =
     (if file then Inl (UnsafeWheelArchive ''archive member is nested beneath a file'')
      else (case insert_at keys raw_name is_directory (coalesce (map_of nodes key) empty_node) of
          Inl e \<Rightarrow> Inl e
        | Inr node \<Rightarrow> Inr (TopologyNode (dict_put key node nodes) terminal file)))"

definition path_keys :: "string \<Rightarrow> string list" where
  "path_keys normalized = map casefold (split_on CHR ''/'' (removesuffix normalized ''/''))"

definition insert_topology :: "TopologyNode \<Rightarrow> string \<Rightarrow> string \<Rightarrow> bool \<Rightarrow> archive_error + TopologyNode" where
  "insert_topology root normalized raw_name is_directory = insert_at (path_keys normalized) raw_name is_directory root"

subsection \<open>The loop over the members\<close>

record member_scan =
  ms_raw_names :: "string list"
  ms_topology :: TopologyNode
  ms_result :: "(string \<times> ZipInfo) list"
  ms_total_declared :: int

text \<open>The checks after the insertion into the tree, with the total that includes this member.\<close>

definition is_symlink :: "ZipInfo \<Rightarrow> bool" where
  "is_symlink info \<longleftrightarrow> drop_bit 16 (zi_external_attr info) AND 0xF000 = 0xA000"

definition member_attributes :: "ArchiveLimits \<Rightarrow> ZipInfo \<Rightarrow> int \<Rightarrow> archive_error + unit" where
  "member_attributes limits info total_declared =
     (if zi_volume info \<noteq> 0 then Inl (UnsafeWheelArchive ''multi-disk ZIP members are not supported'')
      else if zi_flag_bits info AND 1 \<noteq> 0 then Inl (UnsafeWheelArchive ''encrypted ZIP members are not supported'')
      else if is_symlink info then Inl (UnsafeWheelArchive ''ZIP symlink members are not supported'')
      else if zi_file_size info < 0 \<or> zi_compress_size info < 0
      then Inl (UnsafeWheelArchive ''archive member size is invalid'')
      else if is_dir info \<and> zi_file_size info \<noteq> 0
      then Inl (UnsafeWheelArchive ''directory archive members must be empty'')
      else if al_max_entry_uncompressed_bytes limits < zi_file_size info
      then Inl (ArchiveResourceLimitError ''archive member declared size exceeds per-entry limit'')
      else if al_max_total_uncompressed_bytes limits < total_declared
      then Inl (ArchiveResourceLimitError ''archive declared size exceeds total limit'')
      else if 0 < zi_file_size info \<and> (zi_compress_size info = 0 \<or>
        al_max_compression_ratio limits * zi_compress_size info < zi_file_size info)
      then Inl (ArchiveResourceLimitError ''archive member compression ratio exceeds limit'')
      else Inr ())"

definition validate_member :: "ArchiveLimits \<Rightarrow> ZipInfo \<Rightarrow> member_scan \<Rightarrow> archive_error + member_scan" where
  "validate_member limits info st =
     (let raw_name = raw_member_name info in
      if raw_name \<in> set (ms_raw_names st)
      then if is_dist_info_core_path raw_name
        then Inl (ArchiveMetadataError ''archive contains duplicate dist-info core metadata'')
        else Inl (UnsafeWheelArchive ''archive contains duplicate raw member names'')
      else (case portable_path raw_name (is_dir info) of
          Inl e \<Rightarrow> Inl e
        | Inr normalized \<Rightarrow> (case insert_topology (ms_topology st) normalized raw_name (is_dir info) of
              Inl e \<Rightarrow> Inl e
            | Inr topology \<Rightarrow>
                if normalized \<in> fst ` set (ms_result st)
                then Inl (UnsafeWheelArchive ''archive contains a duplicate normalized member path'')
                else (case member_attributes limits info (ms_total_declared st + zi_file_size info) of
                    Inl e \<Rightarrow> Inl e
                  | Inr _ \<Rightarrow> Inr \<lparr>ms_raw_names = raw_name # ms_raw_names st, ms_topology = topology,
                      ms_result = ms_result st @ [(normalized, info)],
                      ms_total_declared = ms_total_declared st + zi_file_size info\<rparr>))))"

fun validate_members :: "ArchiveLimits \<Rightarrow> ZipInfo list \<Rightarrow> member_scan \<Rightarrow> archive_error + member_scan" where
  "validate_members limits [] st = Inr st"
| "validate_members limits (info # infos) st = (case validate_member limits info st of
     Inl e \<Rightarrow> Inl e
   | Inr st' \<Rightarrow> validate_members limits infos st')"

definition validate_archive_members :: "ZipInfo list \<Rightarrow> ArchiveLimits \<Rightarrow> archive_error + (string \<times> ZipInfo) list" where
  "validate_archive_members infos limits =
     (if al_max_entries limits < int (length infos)
      then Inl (ArchiveResourceLimitError ''archive entry count exceeds limit'')
      else map_sum id ms_result (validate_members limits infos
        \<lparr>ms_raw_names = [], ms_topology = empty_node, ms_result = [], ms_total_declared = 0\<rparr>))"

end
