(* ===== verification/ArchiveRecord.thy ===== *)
theory ArchiveRecord
  imports ArchiveMembers JsonParse Utf8
begin

section \<open>The RECORD of a wheel (\<open>validation/archive.py\<close>)\<close>

text \<open>
  Reading the RECORD file: the rows of \<open>csv.reader\<close> in strict mode, a row's path, digest and size, and the
  URL-safe base64 of the digests.  Bytes are natural numbers below 256.
\<close>

subsection \<open>URL-safe base64\<close>

definition b64_char :: "nat \<Rightarrow> char" where
  "b64_char n = (if n < 26 then char_of (65 + n) else if n < 52 then char_of (71 + n)
     else if n < 62 then char_of (n - 4) else if n = 62 then CHR ''-'' else CHR ''_'')"

definition b64_value :: "char \<Rightarrow> nat" where
  "b64_value c = (if is_upper c then code c - 65 else if is_lower c then code c - 71
     else if is_digit c then code c + 4 else if c = CHR ''-'' then 62 else 63)"

text \<open>\<open>urlsafe_b64encode\<close>.\<close>

fun b64encode :: "nat list \<Rightarrow> string" where
  "b64encode [] = []"
| "b64encode [a] = [b64_char (a div 4), b64_char (a mod 4 * 16), CHR ''='', CHR ''='']"
| "b64encode [a, b] = [b64_char (a div 4), b64_char (a mod 4 * 16 + b div 16), b64_char (b mod 16 * 4), CHR ''='']"
| "b64encode (a # b # c # rest) =
     b64_char (a div 4) # b64_char (a mod 4 * 16 + b div 16) # b64_char (b mod 16 * 4 + c div 64) # b64_char (c mod 64)
     # b64encode rest"

text \<open>\<open>urlsafe_b64decode\<close> of characters of the alphabet with a padding at the end; None where it raises.  The
  bits that a padded group has too many are dropped.\<close>

fun b64decode :: "string \<Rightarrow> nat list option" where
  "b64decode [] = Some []"
| "b64decode (w # x # y # z # rest) =
     (if z = CHR ''='' then
        (if y = CHR ''='' then Some [b64_value w * 4 + b64_value x div 16]
         else Some [b64_value w * 4 + b64_value x div 16, b64_value x mod 16 * 16 + b64_value y div 4])
      else map_option (\<lambda>bytes. (b64_value w * 4 + b64_value x div 16) # (b64_value x mod 16 * 16 + b64_value y div 4)
          # (b64_value y mod 4 * 64 + b64_value z) # bytes) (b64decode rest))"
| "b64decode _ = None"

definition record_digest_char :: "char \<Rightarrow> bool" where
  "record_digest_char c \<longleftrightarrow> is_alpha c \<or> is_digit c \<or> c = CHR ''_'' \<or> c = CHR ''-''"

definition parse_record_digest :: "string \<Rightarrow> archive_error + nat list" where
  "parse_record_digest value =
     (if \<not> startswith value ''sha256='' then Inl (WheelRecordMismatch ''RECORD only supports sha256 hashes'')
      else
        (let encoded = removeprefix value ''sha256='' in
         if length encoded \<noteq> 43 \<or> \<not> list_all record_digest_char encoded
         then Inl (WheelRecordMismatch ''RECORD sha256 digest is malformed'')
         else (case b64decode (encoded @ ''='') of
             None \<Rightarrow> Inl (WheelRecordMismatch ''RECORD sha256 digest is malformed'')
           | Some decoded \<Rightarrow>
               if length decoded \<noteq> 32
               then Inl (WheelRecordMismatch ''RECORD sha256 digest length is invalid'')
               else if rev (dropWhile (\<lambda>c. c = CHR ''='') (rev (b64encode decoded))) \<noteq> encoded
               then Inl (WheelRecordMismatch ''RECORD sha256 digest is not canonical URL-safe base64'')
               else Inr decoded)))"

subsection \<open>Rows of comma-separated values\<close>

text \<open>
  \<open>csv.reader(text, strict=True)\<close> with a field limit: the state machine of the library on the lines that a
  text stream opened with \<open>newline=""\<close> yields, which end after \<open>\n\<close>, \<open>\r\<close> or both.  A row goes on over
  the end of a line inside quotes.
\<close>

datatype csv_state = StartRecord | StartField | InField | InQuotedField | QuoteInQuotedField | EatNewline

record csv_reader =
  cr_state :: csv_state
  cr_fields :: "string list"
  cr_field :: string

definition csv_start :: csv_reader where
  "csv_start = \<lparr>cr_state = StartRecord, cr_fields = [], cr_field = []\<rparr>"

definition save_field :: "csv_state \<Rightarrow> csv_reader \<Rightarrow> csv_reader" where
  "save_field state r = \<lparr>cr_state = state, cr_fields = cr_fields r @ [cr_field r], cr_field = []\<rparr>"

definition add_char :: "nat \<Rightarrow> csv_state \<Rightarrow> char \<Rightarrow> csv_reader \<Rightarrow> csv_reader option" where
  "add_char limit state c r = (if limit \<le> length (cr_field r) then None
     else Some (r\<lparr>cr_state := state, cr_field := cr_field r @ [c]\<rparr>))"

definition is_newline :: "char \<Rightarrow> bool" where
  "is_newline c \<longleftrightarrow> code c = 10 \<or> code c = 13"

definition DQUOTE :: char where "DQUOTE = CHR 0x22"

definition csv_char :: "nat \<Rightarrow> csv_reader \<Rightarrow> char \<Rightarrow> csv_reader option" where
  "csv_char limit r c = (case cr_state r of
     StartRecord \<Rightarrow> if is_newline c then Some (r\<lparr>cr_state := EatNewline\<rparr>)
       else if c = DQUOTE then Some (r\<lparr>cr_state := InQuotedField\<rparr>)
       else if c = CHR '','' then Some (save_field StartField r) else add_char limit InField c r
   | StartField \<Rightarrow> if is_newline c then Some (save_field EatNewline r)
       else if c = DQUOTE then Some (r\<lparr>cr_state := InQuotedField\<rparr>)
       else if c = CHR '','' then Some (save_field StartField r) else add_char limit InField c r
   | InField \<Rightarrow> if is_newline c then Some (save_field EatNewline r)
       else if c = CHR '','' then Some (save_field StartField r) else add_char limit InField c r
   | InQuotedField \<Rightarrow> if c = DQUOTE then Some (r\<lparr>cr_state := QuoteInQuotedField\<rparr>) else add_char limit InQuotedField c r
   | QuoteInQuotedField \<Rightarrow> if c = DQUOTE then add_char limit InQuotedField c r
       else if c = CHR '','' then Some (save_field StartField r)
       else if is_newline c then Some (save_field EatNewline r) else None
   | EatNewline \<Rightarrow> if is_newline c then Some r else None)"

text \<open>The end of a line.\<close>

definition csv_line_end :: "csv_reader \<Rightarrow> csv_reader" where
  "csv_line_end r = (case cr_state r of
     StartRecord \<Rightarrow> r
   | InQuotedField \<Rightarrow> r
   | EatNewline \<Rightarrow> r\<lparr>cr_state := StartRecord\<rparr>
   | _ \<Rightarrow> save_field StartRecord r)"

fun csv_chars :: "nat \<Rightarrow> csv_reader \<Rightarrow> string \<Rightarrow> csv_reader option" where
  "csv_chars limit r [] = Some (csv_line_end r)"
| "csv_chars limit r (c # cs) = Option.bind (csv_char limit r c) (\<lambda>r. csv_chars limit r cs)"

fun csv_lines :: "string \<Rightarrow> string list" where
  "csv_lines [] = []"
| "csv_lines (c # d # s) =
     (if code c = 13 \<and> code d = 10 then [c, d] # csv_lines s
      else if is_newline c then [c] # csv_lines (d # s)
      else (case csv_lines (d # s) of [] \<Rightarrow> [[c]] | l # ls \<Rightarrow> (c # l) # ls))"
| "csv_lines [c] = [[c]]"

text \<open>The rows, each as the iterator yields it; the last is None when it raises.\<close>

fun csv_rows :: "nat \<Rightarrow> csv_reader \<Rightarrow> string list \<Rightarrow> string list option list" where
  "csv_rows limit r [] = (if cr_state r = InQuotedField then [None] else [])"
| "csv_rows limit r (line # ls) = (case csv_chars limit r line of
     None \<Rightarrow> [None]
   | Some r' \<Rightarrow> if cr_state r' = StartRecord then Some (cr_fields r') # csv_rows limit csv_start ls
       else csv_rows limit r' ls)"

subsection \<open>A row of RECORD\<close>

definition RECORD_FIELD_BYTES :: nat where "RECORD_FIELD_BYTES = 4096"

record RecordRow =
  row_path :: string
  row_digest :: "nat list option"
  row_size :: "int option"

definition canonical_decimal :: "string \<Rightarrow> bool" where
  "canonical_decimal s \<longleftrightarrow> s \<noteq> [] \<and> list_all is_digit s \<and> (s = ''0'' \<or> hd s \<noteq> CHR ''0'')"

definition parse_record_row ::
  "string list \<Rightarrow> string \<Rightarrow> (string \<times> ZipInfo) list \<Rightarrow> archive_error + (RecordRow \<times> string)" where
  "parse_record_row row record_path members =
     (if length row \<noteq> 3 \<or> list_ex (\<lambda>f. RECORD_FIELD_BYTES < length (utf8_encode f)) row
      then Inl (WheelRecordMismatch ''RECORD rows must have three bounded fields'')
      else (case portable_path (row ! 0) False of
          Inl _ \<Rightarrow> Inl (WheelRecordMismatch ''RECORD path is malformed'')
        | Inr normalized \<Rightarrow>
            (let portable = portable_key normalized; digest_field = row ! 1; size_field = row ! 2 in
             if portable = record_path \<and> digest_field = [] \<and> size_field = []
             then Inr (\<lparr>row_path = normalized, row_digest = None, row_size = None\<rparr>, portable)
             else if digest_field = [] \<or> size_field = []
             then Inl (WheelRecordMismatch ''RECORD file row is missing hash or size'')
             else (case parse_record_digest digest_field of
                 Inl e \<Rightarrow> Inl e
               | Inr digest \<Rightarrow>
                   if \<not> canonical_decimal size_field
                   then Inl (WheelRecordMismatch ''RECORD size is not canonical decimal'')
                   else
                     (let number = int (decimal_value size_field) in
                      case map_of members normalized of
                        None \<Rightarrow> Inl (WheelRecordMismatch ''RECORD path is absent from the archive'')
                      | Some info \<Rightarrow>
                          if number \<noteq> zi_file_size info
                          then Inl (WheelRecordMismatch ''RECORD size differs from archive member size'')
                          else Inr (\<lparr>row_path = normalized, row_digest = Some digest, row_size = Some number\<rparr>, portable))))))"

text \<open>The loop over the rows, with the number of rows so far.\<close>

fun record_rows ::
  "ArchiveLimits \<Rightarrow> string \<Rightarrow> (string \<times> ZipInfo) list \<Rightarrow> string list option list \<Rightarrow> int \<Rightarrow> (string \<times> RecordRow) list \<Rightarrow>
     archive_error + (string \<times> RecordRow) list" where
  "record_rows limits record_path members [] seen parsed = Inr parsed"
| "record_rows limits record_path members (None # rows) seen parsed = Inl (WheelRecordMismatch ''RECORD is malformed'')"
| "record_rows limits record_path members (Some row # rows) seen parsed =
     (if al_max_entries limits < seen + 1 then Inl (WheelRecordMismatch ''RECORD has too many rows'')
      else (case parse_record_row row record_path members of
          Inl e \<Rightarrow> Inl e
        | Inr (parsed_row, portable) \<Rightarrow>
            if portable \<in> fst ` set parsed then Inl (WheelRecordMismatch ''RECORD has duplicate portable paths'')
            else record_rows limits record_path members rows (seen + 1) (parsed @ [(portable, parsed_row)])))"

subsection \<open>The digests of RECORD are canonical\<close>

lemma b64_value_char: "n < 64 \<Longrightarrow> b64_value (b64_char n) = n"
proof -
  assume "n < 64"
  then consider "n < 26" | "26 \<le> n \<and> n < 52" | "52 \<le> n \<and> n < 62" | "n = 62" | "n = 63" by linarith
  then show ?thesis
    by cases (auto simp: b64_value_def b64_char_def is_upper_def is_lower_def is_digit_def code_def)
qed

lemma b64_char_plain: "n < 64 \<Longrightarrow> record_digest_char (b64_char n) \<and> b64_char n \<noteq> CHR ''=''"
proof -
  assume n: "n < 64"
  have "code (CHR ''='') = 61" by (simp add: code_def)
  then have "b64_char n \<noteq> CHR ''=''" if "code (b64_char n) \<noteq> 61" using that by metis
  moreover consider "n < 26" | "26 \<le> n \<and> n < 52" | "52 \<le> n \<and> n < 62" | "n = 62" | "n = 63" using n by linarith
  then have "code (b64_char n) \<noteq> 61 \<and> record_digest_char (b64_char n)"
    by cases (auto simp: b64_char_def record_digest_char_def is_alpha_def is_upper_def is_lower_def is_digit_def code_def)
  ultimately show ?thesis by blast
qed

lemma b64_value_bound: "b64_value c < 64"
  by (auto simp: b64_value_def is_upper_def is_lower_def is_digit_def)

abbreviation bytes_ok :: "nat list \<Rightarrow> bool" where
  "bytes_ok bs \<equiv> list_all (\<lambda>b. b < 256) bs"

lemma six_bits:
  fixes a b c :: nat
  shows "a < 256 \<Longrightarrow> a div 4 < 64" "a mod 4 * 16 < 64" "b < 256 \<Longrightarrow> a mod 4 * 16 + b div 16 < 64" "b mod 16 * 4 < 64"
    "c < 256 \<Longrightarrow> b mod 16 * 4 + c div 64 < 64" "c mod 64 < 64"
  by linarith+

lemma six_bits_back:
  fixes b c :: nat
  shows "b < 256 \<Longrightarrow> b div 16 div 16 = 0" "b < 256 \<Longrightarrow> b div 16 mod 16 * 16 + b mod 16 = b"
    "c < 256 \<Longrightarrow> c div 64 div 4 = 0" "c < 256 \<Longrightarrow> c div 64 mod 4 * 64 + c mod 64 = c"
  using div_mult_mod_eq [of b 16] div_mult_mod_eq [of c 64] by (simp_all add: less_mult_imp_div_less)

lemma b64decode_encode: "bytes_ok bs \<Longrightarrow> b64decode (b64encode bs) = Some bs"
proof (induction bs rule: b64encode.induct)
  case (2 a)
  then show ?case by (simp add: b64_value_char six_bits)
next
  case (3 a b)
  then show ?case by (simp add: b64_value_char six_bits six_bits_back b64_char_plain)
next
  case (4 a b c rest)
  then show ?case by (simp add: b64_value_char six_bits six_bits_back b64_char_plain)
qed simp

lemma b64decode_bytes: "b64decode s = Some bs \<Longrightarrow> bytes_ok bs"
proof (induction s arbitrary: bs rule: b64decode.induct)
  case (2 w x y z rest)
  have "b64_value w * 4 + b64_value x div 16 < 256" "b64_value x mod 16 * 16 + b64_value y div 4 < 256"
    "b64_value y mod 4 * 64 + b64_value z < 256"
    using b64_value_bound [of w] b64_value_bound [of x] b64_value_bound [of y] b64_value_bound [of z] by linarith+
  then show ?case using 2 by (auto split: if_splits)
qed auto

text \<open>A digest of 32 bytes is 43 characters and one padding.\<close>

lemma b64encode_padded:
  assumes "bytes_ok bs" "length bs mod 3 = 2"
  shows "\<exists>body. b64encode bs = body @ ''='' \<and> list_all record_digest_char body \<and> list_all (\<lambda>c. c \<noteq> CHR ''='') body \<and>
    3 * length body = 4 * length bs + 1"
  using assms
proof (induction bs rule: b64encode.induct)
  case (3 a b)
  then show ?case
    by (intro exI [of _ "[b64_char (a div 4), b64_char (a mod 4 * 16 + b div 16), b64_char (b mod 16 * 4)]"])
      (simp add: b64_char_plain six_bits)
next
  case (4 a b c rest)
  have "bytes_ok rest" using 4(2) by simp
  moreover have "length rest mod 3 = 2" using 4(3) by simp
  ultimately obtain body where "b64encode rest = body @ ''=''" "list_all record_digest_char body" "list_all (\<lambda>c. c \<noteq> CHR ''='') body"
    "3 * length body = 4 * length rest + 1" using 4(1) by blast
  then show ?case using 4(2)
    by (intro exI [of _ "b64_char (a div 4) # b64_char (a mod 4 * 16 + b div 16) # b64_char (b mod 16 * 4 + c div 64)
        # b64_char (c mod 64) # body"]) (simp add: b64_char_plain six_bits)
qed simp_all

definition digest_text :: "nat list \<Rightarrow> string" where
  "digest_text digest = ''sha256='' @ butlast (b64encode digest)"

lemma parse_record_digest_Inr:
  "parse_record_digest value = Inr digest \<longleftrightarrow> length digest = 32 \<and> bytes_ok digest \<and> value = digest_text digest"
proof
  assume p: "parse_record_digest value = Inr digest"
  define encoded where "encoded = removeprefix value ''sha256=''"
  have v: "startswith value ''sha256=''" "b64decode (encoded @ ''='') = Some digest" "length digest = 32"
    "rev (dropWhile (\<lambda>c. c = CHR ''='') (rev (b64encode digest))) = encoded"
    using p by (auto simp: parse_record_digest_def Let_def encoded_def split: if_splits option.splits)
  have bytes: "bytes_ok digest" by (rule b64decode_bytes [OF v(2)])
  obtain body where body: "b64encode digest = body @ ''=''" "list_all (\<lambda>c. c \<noteq> CHR ''='') body"
    "3 * length body = 4 * length digest + 1" using b64encode_padded [OF bytes] v(3) by auto
  have "rev body \<noteq> [] \<and> hd (rev body) \<noteq> CHR ''=''"
    using body(2,3) v(3) by (cases body rule: rev_cases) auto
  then have "dropWhile (\<lambda>c. c = CHR ''='') (rev body) = rev body" by (cases "rev body") auto
  then have "encoded = body" using v(4) by (simp add: body(1))
  moreover have "value = ''sha256='' @ encoded"
  proof -
    have "value = take (length ''sha256='') value @ drop (length ''sha256='') value" by (rule append_take_drop_id [symmetric])
    then show ?thesis using v(1) unfolding encoded_def removeprefix_def startswith_def by (simp only: if_True simp_thms)
  qed
  ultimately show "length digest = 32 \<and> bytes_ok digest \<and> value = digest_text digest"
    using v(3) bytes by (simp add: digest_text_def body(1))
next
  assume a: "length digest = 32 \<and> bytes_ok digest \<and> value = digest_text digest"
  then obtain body where body: "b64encode digest = body @ ''=''" "list_all record_digest_char body" "list_all (\<lambda>c. c \<noteq> CHR ''='') body"
    "3 * length body = 4 * length digest + 1" using b64encode_padded [of digest] by auto
  have "rev body \<noteq> [] \<and> hd (rev body) \<noteq> CHR ''=''"
    using body(3,4) a by (cases body rule: rev_cases) auto
  then have "dropWhile (\<lambda>c. c = CHR ''='') (rev body) = rev body" by (cases "rev body") auto
  then have "rev (dropWhile (\<lambda>c. c = CHR ''='') (rev (b64encode digest))) = body" by (simp add: body(1))
  moreover have "b64decode (body @ ''='') = Some digest" using b64decode_encode [of digest] a by (simp add: body(1))
  moreover have "startswith (''sha256='' @ body) ''sha256=''" "removeprefix (''sha256='' @ body) ''sha256='' = body"
    by (simp_all add: startswith_def removeprefix_def)
  ultimately show "parse_record_digest value = Inr digest"
    using a body(2,4) by (simp add: parse_record_digest_def digest_text_def Let_def body(1) del: append.simps rev_append)
qed

text \<open>A digest field of RECORD is accepted exactly when it is the one canonical text of 32 bytes, and gives
  these bytes back: no digest has two texts.\<close>

theorem record_digest_canonical:
  "parse_record_digest value = Inr digest \<longleftrightarrow> length digest = 32 \<and> bytes_ok digest \<and> value = digest_text digest"
  by (rule parse_record_digest_Inr)

end
