(* ===== verification/ArchiveValidation.thy ===== *)
theory ArchiveValidation
  imports ArchiveRecord Packaging
begin

section \<open>Validating a wheel archive (\<open>validation/archive.py\<close>)\<close>

text \<open>
  From the bytes of a wheel to its report: the end records of the ZIP, the members, the core metadata, the
  RECORD and every member's content.  The zipfile library, SHA-256, the parser of headers and the packaging
  library are the record \<open>archive_library\<close>.  RECORD is read as a whole before its rows are looked at; the
  code reads on demand, so that of several faults it may report another one.
\<close>

subsection \<open>The end records\<close>

definition le_value :: "nat list \<Rightarrow> nat" where
  "le_value bytes = foldr (\<lambda>b n. b + 256 * n) bytes 0"

text \<open>A field of \<open>struct.unpack\<close> with little-endian integers.\<close>

definition field_at :: "nat \<Rightarrow> nat \<Rightarrow> nat list \<Rightarrow> nat" where
  "field_at offset count bytes = le_value (take count (drop offset bytes))"

definition rfind :: "nat list \<Rightarrow> nat list \<Rightarrow> nat option" where
  "rfind pattern bytes = find (\<lambda>i. take (length pattern) (drop i bytes) = pattern) (rev [0..<Suc (length bytes)])"

definition EOCD_SIZE :: nat where "EOCD_SIZE = 22"
definition MAX_ZIP_COMMENT_BYTES :: nat where "MAX_ZIP_COMMENT_BYTES = 65535"
definition ZIP64_LOCATOR_SIZE :: nat where "ZIP64_LOCATOR_SIZE = 20"
definition ZIP64_EOCD_MIN_SIZE :: nat where "ZIP64_EOCD_MIN_SIZE = 56"

definition read_exact_at :: "nat list \<Rightarrow> nat \<Rightarrow> nat \<Rightarrow> archive_error + nat list" where
  "read_exact_at bytes offset count =
     (if 2 ^ 63 \<le> offset then Inl (UnsafeWheelArchive ''cannot read Wheel ZIP structure'')
      else
        (let value = take count (drop offset bytes) in
         if length value \<noteq> count then Inl (UnsafeWheelArchive ''Wheel ZIP structure is truncated'') else Inr value))"

definition validate_zip64 :: "nat list \<Rightarrow> nat \<Rightarrow> archive_error + unit" where
  "validate_zip64 bytes eocd_offset =
     (if eocd_offset < ZIP64_LOCATOR_SIZE then Inl (UnsafeWheelArchive ''ZIP64 locator is missing'')
      else (case read_exact_at bytes (eocd_offset - ZIP64_LOCATOR_SIZE) ZIP64_LOCATOR_SIZE of
          Inl e \<Rightarrow> Inl e
        | Inr locator \<Rightarrow>
            if take 4 locator \<noteq> [80, 75, 6, 7] then Inl (UnsafeWheelArchive ''ZIP64 locator is missing'')
            else if field_at 4 4 locator \<noteq> 0 \<or> field_at 16 4 locator \<noteq> 1
            then Inl (UnsafeWheelArchive ''multi-disk ZIP64 archives are not supported'')
            else (case read_exact_at bytes (field_at 8 8 locator) ZIP64_EOCD_MIN_SIZE of
                Inl e \<Rightarrow> Inl e
              | Inr zip64 \<Rightarrow>
                  if take 4 zip64 \<noteq> [80, 75, 6, 6] \<or> field_at 4 8 zip64 < 44
                  then Inl (UnsafeWheelArchive ''ZIP64 end record is malformed'')
                  else if field_at 16 4 zip64 \<noteq> 0 \<or> field_at 20 4 zip64 \<noteq> 0
                  then Inl (UnsafeWheelArchive ''multi-disk ZIP64 archives are not supported'')
                  else if field_at 24 8 zip64 \<noteq> field_at 32 8 zip64
                  then Inl (UnsafeWheelArchive ''ZIP64 per-disk entry counts disagree'')
                  else Inr ())))"

definition validate_zip_end_records :: "nat list \<Rightarrow> archive_error + unit" where
  "validate_zip_end_records bytes =
     (let archive_size = length bytes;
          tail_size = min archive_size (EOCD_SIZE + MAX_ZIP_COMMENT_BYTES);
          tail = drop (archive_size - tail_size) bytes
      in case rfind [80, 75, 5, 6] tail of
           None \<Rightarrow> Inl (UnsafeWheelArchive ''Wheel ZIP end record is missing'')
         | Some relative_offset \<Rightarrow>
             if length tail - relative_offset < EOCD_SIZE
             then Inl (UnsafeWheelArchive ''Wheel ZIP end record is missing'')
             else
               (let eocd_offset = archive_size - tail_size + relative_offset;
                    eocd = drop relative_offset tail;
                    entries_on_disk = field_at 8 2 eocd; total_entries = field_at 10 2 eocd
                in if eocd_offset + EOCD_SIZE + field_at 20 2 eocd \<noteq> archive_size
                   then Inl (UnsafeWheelArchive ''Wheel ZIP end record is malformed'')
                   else if field_at 4 2 eocd \<noteq> 0 \<or> field_at 6 2 eocd \<noteq> 0
                   then Inl (UnsafeWheelArchive ''multi-disk ZIP archives are not supported'')
                   else if entries_on_disk = 0xFFFF \<or> total_entries = 0xFFFF \<or> field_at 12 4 eocd = 0xFFFFFFFF
                     \<or> field_at 16 4 eocd = 0xFFFFFFFF
                   then validate_zip64 bytes eocd_offset
                   else if entries_on_disk \<noteq> total_entries
                   then Inl (UnsafeWheelArchive ''ZIP per-disk entry counts disagree'')
                   else Inr ()))"

subsection \<open>What the libraries give\<close>

text \<open>
  \<open>li_infos\<close>: the members of the bytes, None when opening them raises.  \<open>li_stream\<close>: the blocks that reading
  a member yields, and whether reading ends with an exception.  \<open>li_headers\<close>: whether the parsed headers have
  defects, and the headers; None when the parser raises.
\<close>

record 'k archive_library =
  li_infos :: "nat list \<Rightarrow> ZipInfo list option"
  li_stream :: "nat list \<Rightarrow> ZipInfo \<Rightarrow> nat list list \<times> bool"
  li_sha256 :: "nat list \<Rightarrow> nat list"
  li_headers :: "nat list \<Rightarrow> (bool \<times> (string \<times> string) list) option"
  li_parse_tag :: "string \<Rightarrow> Tag list option"
  li_packaging :: "'k packaging"

subsection \<open>Reading members\<close>

record ReadTracker =
  tk_actual_total :: int
  tk_observed :: "(string \<times> int \<times> nat list) list"

definition check_actual_size :: "ArchiveLimits \<Rightarrow> ReadTracker \<Rightarrow> int \<Rightarrow> archive_error + unit" where
  "check_actual_size limits tracker member_size =
     (if al_max_entry_uncompressed_bytes limits < member_size
      then Inl (ArchiveResourceLimitError ''member actual size exceeds per-entry limit'')
      else if al_max_total_uncompressed_bytes limits < tk_actual_total tracker + member_size
      then Inl (ArchiveResourceLimitError ''archive actual size exceeds total limit'')
      else Inr ())"

text \<open>The loop over the blocks, with the content so far; an empty block is the end.\<close>

fun read_blocks ::
  "ArchiveLimits \<Rightarrow> ReadTracker \<Rightarrow> ZipInfo \<Rightarrow> int option \<Rightarrow> bool \<Rightarrow> nat list \<Rightarrow> nat list list \<Rightarrow> archive_error + nat list" where
  "read_blocks limits tracker info collect_limit raises content [] =
     (if raises then Inl (UnsafeWheelArchive (''cannot read archive member '' @ py_repr (raw_member_name info)))
      else Inr content)"
| "read_blocks limits tracker info collect_limit raises content (block # blocks) =
     (if block = [] then Inr content
      else
        (let content = content @ block in
         case check_actual_size limits tracker (int (length content)) of
           Inl e \<Rightarrow> Inl e
         | Inr _ \<Rightarrow>
             (case collect_limit of
                Some limit \<Rightarrow> if limit < int (length content)
                  then Inl (ArchiveResourceLimitError ''metadata member exceeds parser memory limit'')
                  else read_blocks limits tracker info collect_limit raises content blocks
              | None \<Rightarrow> read_blocks limits tracker info collect_limit raises content blocks)))"

definition tracker_finish ::
  "'k archive_library \<Rightarrow> ZipInfo \<Rightarrow> string \<Rightarrow> nat list \<Rightarrow> ReadTracker \<Rightarrow> archive_error + ReadTracker" where
  "tracker_finish lib info key content tracker =
     (if int (length content) \<noteq> zi_file_size info
      then Inl (UnsafeWheelArchive ''archive member declared size differs from streamed size'')
      else Inr \<lparr>tk_actual_total = tk_actual_total tracker + int (length content),
        tk_observed = dict_put key (int (length content), li_sha256 lib content) (tk_observed tracker)\<rparr>)"

definition member_content ::
  "'k archive_library \<Rightarrow> nat list \<Rightarrow> ArchiveLimits \<Rightarrow> ZipInfo \<Rightarrow> int option \<Rightarrow> ReadTracker \<Rightarrow> archive_error + nat list" where
  "member_content lib bytes limits info collect_limit tracker =
     (case li_stream lib bytes info of (blocks, raises) \<Rightarrow> read_blocks limits tracker info collect_limit raises [] blocks)"

text \<open>\<open>_ReadTracker.read\<close>: the content, None when the member had been read before.\<close>

definition tracker_read ::
  "'k archive_library \<Rightarrow> nat list \<Rightarrow> ArchiveLimits \<Rightarrow> ZipInfo \<Rightarrow> int option \<Rightarrow> ReadTracker \<Rightarrow>
     archive_error + (nat list option \<times> ReadTracker)" where
  "tracker_read lib bytes limits info collect_limit tracker =
     (case portable_path (raw_member_name info) (is_dir info) of
        Inl e \<Rightarrow> Inl e
      | Inr path \<Rightarrow>
          if portable_key path \<in> fst ` set (tk_observed tracker) then Inr (None, tracker)
          else (case member_content lib bytes limits info collect_limit tracker of
              Inl e \<Rightarrow> Inl e
            | Inr content \<Rightarrow> map_sum id (Pair (Some content)) (tracker_finish lib info (portable_key path) content tracker)))"

subsection \<open>The core metadata\<close>

definition core_names :: "string list" where
  "core_names = [''METADATA'', ''WHEEL'', ''RECORD'']"

definition core_path :: "'k archive_library \<Rightarrow> 'k DownloadedWheel \<Rightarrow> string \<Rightarrow> string" where
  "core_path lib expected core_name =
     (let distribution = map (\<lambda>c. if c = CHR ''-'' then CHR ''_'' else c) (pkg_canonicalize (li_packaging lib) (dw_package expected))
      in distribution @ ''-'' @ v_str (dw_version expected) @ ''.dist-info/'' @ core_name)"

fun select_core :: "(string \<times> ZipInfo) list \<Rightarrow> (string \<times> string) list \<Rightarrow> archive_error + ZipInfo list" where
  "select_core members [] = Inr []"
| "select_core members ((core_name, path) # rest) = (case map_of members path of
     None \<Rightarrow> Inl (ArchiveMetadataError (''required '' @ core_name @ '' is missing''))
   | Some info \<Rightarrow>
       if is_dir info then Inl (ArchiveMetadataError (''required '' @ core_name @ '' is missing''))
       else map_sum id (Cons info) (select_core members rest))"

definition core_infos :: "'k archive_library \<Rightarrow> (string \<times> ZipInfo) list \<Rightarrow> 'k DownloadedWheel \<Rightarrow> archive_error + ZipInfo list" where
  "core_infos lib members expected =
     (let expected_names = map (\<lambda>n. (n, core_path lib expected n)) core_names in
      if list_ex (\<lambda>(path, _). is_dist_info_core_path path \<and> path \<notin> snd ` set expected_names) members
      then Inl (ArchiveMetadataError ''archive contains foreign dist-info core metadata'')
      else select_core members expected_names)"

definition parse_headers :: "'k archive_library \<Rightarrow> nat list \<Rightarrow> string \<Rightarrow> archive_error + (string \<times> string) list" where
  "parse_headers lib value label =
     (case (utf8_decode value, li_headers lib value) of
        (Some _, Some (defects, headers)) \<Rightarrow>
          if defects then Inl (ArchiveMetadataError (label @ '' contains malformed headers'')) else Inr headers
      | _ \<Rightarrow> Inl (ArchiveMetadataError (label @ '' is not valid UTF-8 headers'')))"

definition get_all :: "(string \<times> string) list \<Rightarrow> string \<Rightarrow> string list" where
  "get_all headers name = map snd (filter (\<lambda>(k, _). map lower k = map lower name) headers)"

definition broken_value :: "string \<Rightarrow> bool" where
  "broken_value v \<longleftrightarrow> list_ex is_newline v"

definition singleton_header :: "(string \<times> string) list \<Rightarrow> string \<Rightarrow> string \<Rightarrow> archive_error + string" where
  "singleton_header headers name label = (case get_all headers name of
     [v] \<Rightarrow> if v = [] \<or> broken_value v then Inl (ArchiveMetadataError (label @ '' requires one valid '' @ name @ '' header''))
       else Inr v
   | _ \<Rightarrow> Inl (ArchiveMetadataError (label @ '' requires one valid '' @ name @ '' header'')))"

definition optional_singleton_header :: "(string \<times> string) list \<Rightarrow> string \<Rightarrow> string \<Rightarrow> archive_error + string option" where
  "optional_singleton_header headers name label =
     (let values = get_all headers name in
      if 1 < length values \<or> list_ex broken_value values
      then Inl (ArchiveMetadataError (label @ '' has invalid '' @ name @ '' headers''))
      else Inr (case values of [] \<Rightarrow> None | v # _ \<Rightarrow> Some v))"

text \<open>\<open>str.splitlines\<close> on code points below 256.\<close>

definition line_boundary :: "char \<Rightarrow> bool" where
  "line_boundary c \<longleftrightarrow> (10 \<le> code c \<and> code c \<le> 13) \<or> (28 \<le> code c \<and> code c \<le> 30) \<or> code c = 133"

fun splitlines :: "string \<Rightarrow> string list" where
  "splitlines [] = []"
| "splitlines [c] = (if line_boundary c then [[]] else [[c]])"
| "splitlines (c # d # s) =
     (if code c = 13 \<and> code d = 10 then [] # splitlines s
      else if line_boundary c then [] # splitlines (d # s)
      else (case splitlines (d # s) of [] \<Rightarrow> [[c]] | l # ls \<Rightarrow> (c # l) # ls))"

fun folded_identity :: "string list \<Rightarrow> bool \<Rightarrow> string list \<Rightarrow> bool" where
  "folded_identity names active_identity [] = False"
| "folded_identity names active_identity (line # ls) =
     (if take 1 line \<in> {'' '', [CHR 0x09]} \<and> active_identity then True
      else if line = [] then False
      else folded_identity names
        (CHR '':'' \<in> set line \<and> casefold (takeWhile (\<lambda>c. c \<noteq> CHR '':'') line) \<in> set names) ls)"

definition reject_folded_identity :: "nat list \<Rightarrow> string list \<Rightarrow> string \<Rightarrow> archive_error + unit" where
  "reject_folded_identity value names label = (case Option.bind (utf8_decode value) text_of_points of
     None \<Rightarrow> Inl OutsideText
   | Some text \<Rightarrow>
       if folded_identity names False (splitlines text)
       then Inl (ArchiveMetadataError (label @ '' identity headers cannot be folded'')) else Inr ())"

record 'k wheel_identity =
  wi_name :: string
  wi_version :: "'k Version"
  wi_requires_dist :: "string list"
  wi_requires_python :: "string option"

definition parse_metadata :: "'k archive_library \<Rightarrow> nat list \<Rightarrow> 'k DownloadedWheel \<Rightarrow> archive_error + 'k wheel_identity" where
  "parse_metadata lib value expected =
     (let canonicalize = pkg_canonicalize (li_packaging lib) in
      case parse_headers lib value ''METADATA'' of Inl e \<Rightarrow> Inl e | Inr headers \<Rightarrow>
      (case singleton_header headers ''Name'' ''METADATA'' of Inl e \<Rightarrow> Inl e | Inr name \<Rightarrow>
      (case singleton_header headers ''Version'' ''METADATA'' of Inl e \<Rightarrow> Inl e | Inr version_value \<Rightarrow>
      (case reject_folded_identity value [''name'', ''version''] ''METADATA'' of Inl e \<Rightarrow> Inl e | Inr _ \<Rightarrow>
      (case pkg_version (li_packaging lib) version_value of
         None \<Rightarrow> Inl (ArchiveMetadataError ''METADATA Version is invalid'')
       | Some version \<Rightarrow>
           if canonicalize name \<noteq> canonicalize (dw_package expected) \<or> \<not> same_version version (dw_version expected)
           then Inl (ArchiveMetadataError ''METADATA identity disagrees with downloaded Wheel'')
           else map_sum id (\<lambda>requires_python. \<lparr>wi_name = canonicalize name, wi_version = version,
               wi_requires_dist = get_all headers ''Requires-Dist'', wi_requires_python = requires_python\<rparr>)
             (optional_singleton_header headers ''Requires-Python'' ''METADATA''))))))"

fun parse_tags :: "'k archive_library \<Rightarrow> string list \<Rightarrow> Tag list \<Rightarrow> archive_error + Tag list" where
  "parse_tags lib [] parsed = Inr parsed"
| "parse_tags lib (raw_tag # raw_tags) parsed = (case li_parse_tag lib raw_tag of
     None \<Rightarrow> Inl (ArchiveMetadataError ''WHEEL Tag is malformed'')
   | Some tags \<Rightarrow> if tags = [] then Inl (ArchiveMetadataError ''WHEEL Tag is malformed'')
       else parse_tags lib raw_tags (List.union parsed tags))"

definition parse_wheel :: "'k archive_library \<Rightarrow> nat list \<Rightarrow> 'k DownloadedWheel \<Rightarrow> archive_error + Tag list" where
  "parse_wheel lib value expected =
     (case parse_headers lib value ''WHEEL'' of Inl e \<Rightarrow> Inl e | Inr headers \<Rightarrow>
      (case singleton_header headers ''Wheel-Version'' ''WHEEL'' of Inl e \<Rightarrow> Inl e | Inr _ \<Rightarrow>
      (if get_all headers ''Tag'' = [] then Inl (ArchiveMetadataError ''WHEEL has no Tag headers'')
       else (case parse_tags lib (get_all headers ''Tag'') [] of Inl e \<Rightarrow> Inl e | Inr parsed \<Rightarrow>
       (case pkg_wheel (li_packaging lib) (dw_filename expected) of
          None \<Rightarrow> Inl (ArchiveMetadataError ''downloaded Wheel filename is invalid'')
        | Some wheel \<Rightarrow>
            if set (wn_tags wheel) \<noteq> set (dw_tags expected) \<or> set parsed \<noteq> set (dw_tags expected)
            then Inl (ArchiveMetadataError ''WHEEL Tag headers disagree with downloaded Wheel tags'')
            else Inr parsed)))))"

subsection \<open>RECORD against the archive\<close>

definition record_path_of :: "ZipInfo \<Rightarrow> archive_error + string" where
  "record_path_of info = map_sum id portable_key (portable_path (raw_member_name info) False)"

definition stream_record ::
  "'k archive_library \<Rightarrow> nat list \<Rightarrow> ArchiveLimits \<Rightarrow> ZipInfo \<Rightarrow> (string \<times> ZipInfo) list \<Rightarrow> ReadTracker \<Rightarrow>
     archive_error + ((string \<times> RecordRow) list \<times> ReadTracker)" where
  "stream_record lib bytes limits info members tracker =
     (case record_path_of info of Inl e \<Rightarrow> Inl e | Inr record_path \<Rightarrow>
      (case member_content lib bytes limits info None tracker of Inl e \<Rightarrow> Inl e | Inr content \<Rightarrow>
      (case utf8_decode content of
         None \<Rightarrow> Inl (WheelRecordMismatch ''RECORD is malformed'')
       | Some points \<Rightarrow> (case text_of_points points of
           None \<Rightarrow> Inl OutsideText
         | Some text \<Rightarrow>
           (case record_rows limits record_path members (csv_rows RECORD_FIELD_BYTES csv_start (csv_lines text)) 0 [] of
              Inl e \<Rightarrow> Inl e
            | Inr rows \<Rightarrow> map_sum id (Pair rows) (tracker_finish lib info record_path content tracker))))))"

definition validate_record_paths ::
  "(string \<times> RecordRow) list \<Rightarrow> (string \<times> ZipInfo) list \<Rightarrow> ZipInfo \<Rightarrow> archive_error + unit" where
  "validate_record_paths rows members record_info =
     (let files = portable_key ` fst ` set (filter (\<lambda>(_, info). \<not> is_dir info) members) in
      if fst ` set rows \<noteq> files then Inl (WheelRecordMismatch ''RECORD paths do not exactly match archive files'')
      else (case record_path_of record_info of Inl e \<Rightarrow> Inl e | Inr record_path \<Rightarrow>
        if record_path \<notin> fst ` set rows then Inl (WheelRecordMismatch ''RECORD does not include itself'') else Inr ()))"

fun read_members ::
  "'k archive_library \<Rightarrow> nat list \<Rightarrow> ArchiveLimits \<Rightarrow> (string \<times> ZipInfo) list \<Rightarrow> ReadTracker \<Rightarrow> archive_error + ReadTracker" where
  "read_members lib bytes limits [] tracker = Inr tracker"
| "read_members lib bytes limits ((normalized_name, info) # members) tracker =
     (if portable_key normalized_name \<in> fst ` set (tk_observed tracker) then read_members lib bytes limits members tracker
      else (case tracker_read lib bytes limits info None tracker of
          Inl e \<Rightarrow> Inl e
        | Inr (_, tracker) \<Rightarrow> read_members lib bytes limits members tracker))"

definition row_verified :: "string \<Rightarrow> ReadTracker \<Rightarrow> string \<times> RecordRow \<Rightarrow> archive_error + unit" where
  "row_verified record_path tracker = (\<lambda>(portable, row).
     if portable = record_path \<and> row_digest row = None \<and> row_size row = None then Inr ()
     else (case (map_of (tk_observed tracker) portable, row_digest row, row_size row) of
         (Some (actual_size, actual_hash), Some digest, Some n) \<Rightarrow>
           if actual_size \<noteq> n \<or> actual_hash \<noteq> digest
           then Inl (WheelRecordMismatch ''RECORD digest or size does not match archive content'') else Inr ()
       | _ \<Rightarrow> Inl (WheelRecordMismatch ''RECORD path was not streamed from archive'')))"

definition verify_record_hashes :: "(string \<times> RecordRow) list \<Rightarrow> ZipInfo \<Rightarrow> ReadTracker \<Rightarrow> archive_error + unit" where
  "verify_record_hashes rows record_info tracker = (case record_path_of record_info of
     Inl e \<Rightarrow> Inl e
   | Inr record_path \<Rightarrow> first_failure (row_verified record_path tracker) rows)"

subsection \<open>The report\<close>

record 'k ArchiveValidationReport =
  rep_identity :: "'k wheel_identity"
  rep_tags :: "Tag list"
  rep_entry_count :: int
  rep_total_uncompressed_bytes :: int

definition MAX_HEADER_BYTES :: int where "MAX_HEADER_BYTES = 4 * (1024 * 1024)"

definition validate_contents ::
  "'k archive_library \<Rightarrow> nat list \<Rightarrow> 'k DownloadedWheel \<Rightarrow> ArchiveLimits \<Rightarrow> ZipInfo list \<Rightarrow> (string \<times> ZipInfo) list \<Rightarrow>
     ZipInfo \<Rightarrow> ZipInfo \<Rightarrow> ZipInfo \<Rightarrow> archive_error + 'k ArchiveValidationReport" where
  "validate_contents lib bytes expected limits infos members metadata_info wheel_info record_info =
     (case tracker_read lib bytes limits metadata_info (Some MAX_HEADER_BYTES) \<lparr>tk_actual_total = 0, tk_observed = []\<rparr> of
        Inl e \<Rightarrow> Inl e | Inr (metadata_bytes, tracker) \<Rightarrow>
      (case tracker_read lib bytes limits wheel_info (Some MAX_HEADER_BYTES) tracker of Inl e \<Rightarrow> Inl e | Inr (wheel_bytes, tracker) \<Rightarrow>
      (case (metadata_bytes, wheel_bytes) of
         (Some metadata, Some wheel) \<Rightarrow>
           (case parse_wheel lib wheel expected of Inl e \<Rightarrow> Inl e | Inr tags \<Rightarrow>
           (case stream_record lib bytes limits record_info members tracker of Inl e \<Rightarrow> Inl e | Inr (rows, tracker) \<Rightarrow>
           (case validate_record_paths rows members record_info of Inl e \<Rightarrow> Inl e | Inr _ \<Rightarrow>
           (case read_members lib bytes limits members tracker of Inl e \<Rightarrow> Inl e | Inr tracker \<Rightarrow>
           (case verify_record_hashes rows record_info tracker of Inl e \<Rightarrow> Inl e | Inr _ \<Rightarrow>
           (case parse_metadata lib metadata expected of Inl e \<Rightarrow> Inl e | Inr identity \<Rightarrow>
             if wi_name identity = [] then Inl (UnsafeWheelArchive ''invalid Wheel ZIP archive'')
             else Inr \<lparr>rep_identity = identity, rep_tags = tags, rep_entry_count = int (length infos),
               rep_total_uncompressed_bytes = tk_actual_total tracker\<rparr>))))))
       | _ \<Rightarrow> Inl (UnsafeWheelArchive ''archive core member could not be read''))))"

definition validate_archive_bytes ::
  "'k archive_library \<Rightarrow> nat list \<Rightarrow> 'k DownloadedWheel \<Rightarrow> ArchiveLimits \<Rightarrow> archive_error + 'k ArchiveValidationReport" where
  "validate_archive_bytes lib bytes expected limits =
     (case validate_zip_end_records bytes of Inl e \<Rightarrow> Inl e | Inr _ \<Rightarrow>
      (case li_infos lib bytes of None \<Rightarrow> Inl (UnsafeWheelArchive ''invalid Wheel ZIP archive'') | Some infos \<Rightarrow>
      (case validate_archive_members infos limits of Inl e \<Rightarrow> Inl e | Inr members \<Rightarrow>
      (case core_infos lib members expected of
         Inl e \<Rightarrow> Inl e
       | Inr [metadata_info, wheel_info, record_info] \<Rightarrow>
           validate_contents lib bytes expected limits infos members metadata_info wheel_info record_info
       | Inr _ \<Rightarrow> Inl (UnsafeWheelArchive ''invalid Wheel ZIP archive'')))))"

subsection \<open>The private snapshot\<close>

text \<open>
  What a descriptor shows: its status, its offset, and the blocks that reading yields before it ends or raises.
  Preparing the snapshot's directory and file may fail with an error of its own; closing descriptors does not.
\<close>

record descriptor_view =
  dv_regular :: bool
  dv_links :: int
  dv_identity :: "int \<times> int"
  dv_size :: int
  dv_offset :: int
  dv_blocks :: "nat list list"
  dv_raises :: bool

record ValidatedWheelSnapshot =
  vs_byte_size :: int
  vs_sha256 :: string
  vs_identity :: "int \<times> int"

definition hexdigest :: "nat list \<Rightarrow> string" where
  "hexdigest digest = concat (map (\<lambda>b. [hex_digit (b div 16), hex_digit (b mod 16)]) digest)"

definition valid_sha256 :: "string \<Rightarrow> bool" where
  "valid_sha256 value \<longleftrightarrow> length value = 64 \<and>
     list_all (\<lambda>c. is_digit c \<or> (97 \<le> code (lower c) \<and> code (lower c) \<le> 102)) value"

fun copy_blocks :: "int \<Rightarrow> bool \<Rightarrow> nat list \<Rightarrow> nat list list \<Rightarrow> archive_error + nat list" where
  "copy_blocks byte_size raises content [] =
     (if raises then Inl (UnsafeWheelArchive ''downloaded Wheel snapshot failed'') else Inr content)"
| "copy_blocks byte_size raises content (block # blocks) =
     (if block = [] then Inr content
      else if byte_size < int (length (content @ block))
      then Inl (UnsafeWheelArchive ''downloaded Wheel grew while being snapshotted'')
      else copy_blocks byte_size raises (content @ block) blocks)"

definition create_bound_snapshot ::
  "'k archive_library \<Rightarrow> descriptor_view \<Rightarrow> 'k DownloadedWheel \<Rightarrow> archive_error option \<Rightarrow> int \<times> int \<Rightarrow>
     archive_error + ValidatedWheelSnapshot" where
  "create_bound_snapshot lib source expected setup identity =
     (if \<not> dv_regular source \<or> dv_links source \<noteq> 1
      then Inl (UnsafeWheelArchive ''downloaded Wheel identity changed before validation'')
      else if dv_size source \<noteq> dw_byte_size expected
      then Inl (UnsafeWheelArchive ''downloaded Wheel byte size differs from observation'')
      else if dv_offset source \<noteq> 0
      then Inl (UnsafeWheelArchive ''downloaded Wheel descriptor must start at offset zero'')
      else (case setup of
          Some e \<Rightarrow> Inl e
        | None \<Rightarrow> (case copy_blocks (dw_byte_size expected) (dv_raises source) [] (dv_blocks source) of
            Inl e \<Rightarrow> Inl e
          | Inr content \<Rightarrow>
              if int (length content) \<noteq> dw_byte_size expected \<or> hexdigest (li_sha256 lib content) \<noteq> map lower (dw_sha256 expected)
              then Inl (UnsafeWheelArchive ''downloaded Wheel content changed while being snapshotted'')
              else Inr \<lparr>vs_byte_size = int (length content), vs_sha256 = hexdigest (li_sha256 lib content),
                vs_identity = identity\<rparr>)))"

text \<open>\<open>open\<close>, with the view of the file when it is opened again; None when that raises.\<close>

definition open_snapshot ::
  "'k archive_library \<Rightarrow> ValidatedWheelSnapshot \<Rightarrow> descriptor_view option \<Rightarrow> archive_error + nat list" where
  "open_snapshot lib snapshot reopened = (case reopened of
     None \<Rightarrow> Inl (UnsafeWheelArchive ''validated Wheel snapshot cannot be opened'')
   | Some opened \<Rightarrow>
       if \<not> dv_regular opened \<or> dv_links opened \<noteq> 1 \<or> dv_identity opened \<noteq> vs_identity snapshot
         \<or> dv_size opened \<noteq> vs_byte_size snapshot
       then Inl (UnsafeWheelArchive ''validated Wheel snapshot identity changed'')
       else if dv_raises opened then Inl (UnsafeWheelArchive ''validated Wheel snapshot revalidation failed'')
       else
         (let content = concat (dv_blocks opened) in
          if hexdigest (li_sha256 lib content) \<noteq> vs_sha256 snapshot
          then Inl (UnsafeWheelArchive ''validated Wheel snapshot content changed'') else Inr content))"

definition validate_wheel_archive_descriptor ::
  "'k archive_library \<Rightarrow> 'k DownloadedWheel \<Rightarrow> ArchiveLimits \<Rightarrow> string \<Rightarrow> descriptor_view \<Rightarrow> archive_error option \<Rightarrow>
     int \<times> int \<Rightarrow> descriptor_view option \<Rightarrow> archive_error + 'k ArchiveValidationReport" where
  "validate_wheel_archive_descriptor lib expected limits path_name source setup identity reopened =
     (if path_name \<noteq> dw_filename expected
      then Inl (UnsafeWheelArchive ''downloaded Wheel filename differs from observation'')
      else if \<not> valid_sha256 (dw_sha256 expected)
      then Inl (UnsafeWheelArchive ''downloaded Wheel SHA-256 observation is invalid'')
      else (case create_bound_snapshot lib source expected setup identity of Inl e \<Rightarrow> Inl e | Inr snapshot \<Rightarrow>
        (case open_snapshot lib snapshot reopened of Inl e \<Rightarrow> Inl e | Inr bytes \<Rightarrow>
          validate_archive_bytes lib bytes expected limits)))"

end
