(* ===== verification/ArchiveFacts.thy ===== *)
theory ArchiveFacts
  imports ArchiveMembers
begin

section \<open>Accepted members are safe to extract\<close>

text \<open>
  The tree of members represents the set of their keys; a set of members is accepted exactly when each is
  sound by itself and no two of them meet on a file system that ignores case; an accepted member never
  leaves the directory it is extracted to.
\<close>

subsection \<open>The tree represents the members\<close>

text \<open>A member is its key, whether it is a directory, and its raw name.\<close>

type_synonym entry = "string list \<times> bool \<times> string"

fun node_at :: "string list \<Rightarrow> TopologyNode \<Rightarrow> TopologyNode option" where
  "node_at [] t = Some t"
| "node_at (k # ks) t = Option.bind (map_of (below t) k) (node_at ks)"

definition under :: "string list \<Rightarrow> entry set \<Rightarrow> bool" where
  "under ks S \<longleftrightarrow> (\<exists>e\<in>S. prefix ks (fst e))"

definition represents :: "TopologyNode \<Rightarrow> entry set \<Rightarrow> bool" where
  "represents t S \<longleftrightarrow>
     (\<forall>ks. ks \<noteq> [] \<longrightarrow> (node_at ks t \<noteq> None \<longleftrightarrow> under ks S)) \<and>
     (\<forall>ks n d r. node_at ks t = Some n \<longrightarrow> ((ks, d, r) \<in> S \<longleftrightarrow> terminal_raw_name n = Some r \<and> is_file n = (\<not> d))) \<and>
     (\<forall>ks n. node_at ks t = Some n \<longrightarrow> is_file n \<longrightarrow> terminal_raw_name n \<noteq> None)"

lemma representsI:
  assumes "\<And>ks. ks \<noteq> [] \<Longrightarrow> node_at ks t \<noteq> None \<longleftrightarrow> under ks S"
    and "\<And>ks n d r. node_at ks t = Some n \<Longrightarrow> (ks, d, r) \<in> S \<longleftrightarrow> terminal_raw_name n = Some r \<and> is_file n = (\<not> d)"
    and "\<And>ks n. node_at ks t = Some n \<Longrightarrow> is_file n \<Longrightarrow> terminal_raw_name n \<noteq> None"
  shows "represents t S"
  using assms unfolding represents_def by blast

lemma representsD:
  assumes "represents t S"
  shows "ks \<noteq> [] \<Longrightarrow> node_at ks t \<noteq> None \<longleftrightarrow> under ks S"
    and "node_at ks t = Some n \<Longrightarrow> (ks, d, r) \<in> S \<longleftrightarrow> terminal_raw_name n = Some r \<and> is_file n = (\<not> d)"
    and "node_at ks t = Some n \<Longrightarrow> is_file n \<Longrightarrow> terminal_raw_name n \<noteq> None"
  using assms unfolding represents_def by blast+

definition beyond :: "string \<Rightarrow> entry set \<Rightarrow> entry set" where
  "beyond k S = {(ks, dr). (k # ks, dr) \<in> S}"

lemma under_Cons: "under (k # ks) S \<longleftrightarrow> under ks (beyond k S)"
proof -
  have "(\<exists>js dr. (js, dr) \<in> S \<and> prefix (k # ks) js) \<longleftrightarrow> (\<exists>js dr. (k # js, dr) \<in> S \<and> prefix ks js)"
    (is "?l = ?r")
  proof
    assume ?l
    then obtain js dr where "(js, dr) \<in> S" "prefix (k # ks) js" by blast
    then show ?r by (cases js; cases dr) auto
  next
    assume ?r
    then show ?l by (metis Cons_prefix_Cons)
  qed
  moreover have "under ks S \<longleftrightarrow> (\<exists>js dr. (js, dr) \<in> S \<and> prefix ks js)" for ks S
    unfolding under_def by (metis fst_conv surj_pair)
  ultimately show ?thesis by (simp add: beyond_def)
qed

lemma under_Nil [simp]: "under [] S \<longleftrightarrow> S \<noteq> {}"
  by (auto simp: under_def)

lemma represents_empty [simp]: "represents empty_node {}"
proof (rule representsI)
  have none: "node_at ks empty_node = None" if "ks \<noteq> []" for ks
    using that by (cases ks) (auto simp: empty_node_def)
  then show "node_at ks empty_node \<noteq> None \<longleftrightarrow> under ks {}" if "ks \<noteq> []" for ks
    using that by (simp add: under_def)
  have only: "n = empty_node" if "node_at ks empty_node = Some n" for ks n
    using that none by (cases "ks = []") auto
  show "(ks, d, r) \<in> {} \<longleftrightarrow> terminal_raw_name n = Some r \<and> is_file n = (\<not> d)" if "node_at ks empty_node = Some n" for ks n d r
    using only [OF that] by (simp add: empty_node_def)
  show "terminal_raw_name n \<noteq> None" if "node_at ks empty_node = Some n" "is_file n" for ks n
    using only [OF that(1)] that(2) by (simp add: empty_node_def)
qed

lemma represents_root:
  assumes "represents t S"
  shows "([], d, r) \<in> S \<longleftrightarrow> terminal_raw_name t = Some r \<and> is_file t = (\<not> d)"
    "is_file t \<Longrightarrow> terminal_raw_name t \<noteq> None"
  using representsD(2,3) [OF assms, of "[]" t] by simp_all

lemma node_at_one: "node_at [k] t = map_of (below t) k"
  by (cases "map_of (below t) k") simp_all

lemma represents_below:
  assumes "represents t S"
  shows "represents (coalesce (map_of (below t) k) empty_node) (beyond k S)"
proof (cases "map_of (below t) k")
  case None
  then have "\<not> under [k] S" using representsD(1) [OF assms, of "[k]"] by (simp add: node_at_one)
  then have "beyond k S = {}" by (simp add: under_Cons)
  with None show ?thesis by (simp add: coalesce_def)
next
  case (Some c)
  have at: "node_at ks c = node_at (k # ks) t" for ks by (simp add: Some)
  have "represents c (beyond k S)"
  proof (rule representsI)
    show "node_at ks c \<noteq> None \<longleftrightarrow> under ks (beyond k S)" for ks
      unfolding at under_Cons [symmetric] by (rule representsD(1) [OF assms]) simp
    show "(ks, d, r) \<in> beyond k S \<longleftrightarrow> terminal_raw_name n = Some r \<and> is_file n = (\<not> d)" if "node_at ks c = Some n" for ks n d r
      using representsD(2) [OF assms, of "k # ks" n] that by (simp add: beyond_def at)
    show "terminal_raw_name n \<noteq> None" if "node_at ks c = Some n" "is_file n" for ks n
      using representsD(3) [OF assms, of "k # ks" n] that by (simp add: at)
  qed
  then show ?thesis by (simp add: Some coalesce_def)
qed

lemma represents_nodes:
  assumes "represents t S"
  shows "below t = [] \<longleftrightarrow> (\<forall>e\<in>S. fst e = [])"
proof -
  have "map_of (below t) k \<noteq> None \<longleftrightarrow> under [k] S" for k
    using representsD(1) [OF assms, of "[k]"] unfolding node_at_one by simp
  moreover have "below t = [] \<longleftrightarrow> (\<forall>k. map_of (below t) k = None)"
    by (cases "below t") (auto split: if_splits)
  moreover have "(\<forall>k. \<not> under [k] S) \<longleftrightarrow> (\<forall>e\<in>S. fst e = [])"
    unfolding under_def by (metis Cons_prefix_Cons Nil_prefix list.exhaust prefix_code(2))
  ultimately show ?thesis by metis
qed

lemma represents_build:
  assumes old: "represents t S" and new: "represents c (beyond k S')"
    and same: "\<And>j. j \<noteq> k \<Longrightarrow> beyond j S' = beyond j S" "\<And>dr. ([], dr) \<in> S' \<longleftrightarrow> ([], dr) \<in> S"
    and found: "beyond k S' \<noteq> {}"
  shows "represents (TopologyNode (dict_put k c (below t)) (terminal_raw_name t) (is_file t)) S'"
    (is "represents ?t S'")
proof (rule representsI)
  have at: "node_at (j # ks) ?t = (if j = k then node_at ks c else node_at (j # ks) t)" for j ks
    by simp
  show "node_at ks ?t \<noteq> None \<longleftrightarrow> under ks S'" if "ks \<noteq> []" for ks
  proof -
    note nonempty = that
    obtain j js where ks: "ks = j # js" using nonempty by (cases ks) auto
    have "node_at js c \<noteq> None \<longleftrightarrow> under js (beyond k S')"
      using representsD(1) [OF new, of js] found by (cases "js = []") simp_all
    moreover have "j \<noteq> k \<Longrightarrow> node_at ks t \<noteq> None \<longleftrightarrow> under js (beyond j S')"
      using representsD(1) [OF old nonempty] same(1) by (simp add: ks under_Cons)
    ultimately show ?thesis unfolding ks at under_Cons by (simp only: split: if_split) simp
  qed
  have both: "((ks, d, r) \<in> S' \<longleftrightarrow> terminal_raw_name n = Some r \<and> is_file n = (\<not> d)) \<and>
      (is_file n \<longrightarrow> terminal_raw_name n \<noteq> None)" if n: "node_at ks ?t = Some n" for ks n d r
  proof (cases ks)
    case Nil
    then show ?thesis using n represents_root [OF old] same(2) by auto
  next
    case (Cons j js)
    show ?thesis
    proof (cases "j = k")
      case True
      then have "node_at js c = Some n" using n unfolding Cons at by simp
      then show ?thesis using representsD(2,3) [OF new, of js n] True Cons by (auto simp: beyond_def)
    next
      case False
      then have "node_at ks t = Some n" using n unfolding Cons at by simp
      moreover have "(ks, d, r) \<in> S' \<longleftrightarrow> (ks, d, r) \<in> S"
        using same(1) [OF False] by (auto simp: beyond_def Cons)
      ultimately show ?thesis using representsD(2,3) [OF old, of ks n] by simp
    qed
  qed
  then show "(ks, d, r) \<in> S' \<longleftrightarrow> terminal_raw_name n = Some r \<and> is_file n = (\<not> d)" if "node_at ks ?t = Some n" for ks n d r
    using both [OF that] by blast
  show "terminal_raw_name n \<noteq> None" if "node_at ks ?t = Some n" "is_file n" for ks n
    using both [OF that(1)] that(2) by blast
qed

subsection \<open>Insertion\<close>

text \<open>Two members meet when they have the same key or one is a file above the other.\<close>

definition meets :: "string list \<times> bool \<Rightarrow> string list \<times> bool \<Rightarrow> bool" where
  "meets a b \<longleftrightarrow> fst a = fst b \<or> (\<not> snd a \<and> strict_prefix (fst a) (fst b)) \<or> (\<not> snd b \<and> strict_prefix (fst b) (fst a))"

lemma meets_commute: "meets a b \<longleftrightarrow> meets b a"
  by (auto simp: meets_def)

definition met :: "string list \<Rightarrow> bool \<Rightarrow> entry set \<Rightarrow> bool" where
  "met keys d S \<longleftrightarrow> (\<exists>(ks, d', r)\<in>S. meets (keys, d) (ks, d'))"

lemma met_Cons: "met (k # keys) d S \<longleftrightarrow> (\<exists>r. ([], False, r) \<in> S) \<or> met keys d (beyond k S)"
proof -
  have "meets (k # keys, d) (js, d') \<longleftrightarrow> (js = [] \<and> \<not> d') \<or> (\<exists>ks. js = k # ks \<and> meets (keys, d) (ks, d'))" for js d'
    by (cases js) (auto simp: meets_def strict_prefix_def)
  then show ?thesis unfolding met_def beyond_def by fastforce
qed

lemma beyond_insert: "beyond k (insert (k # keys, e) S) = insert (keys, e) (beyond k S)"
  "j \<noteq> k \<Longrightarrow> beyond j (insert (k # keys, e) S) = beyond j S"
  by (auto simp: beyond_def)

lemma insert_at_represents:
  assumes "represents t S"
  shows "if met keys d S then \<exists>e. insert_at keys raw d t = Inl e
    else \<exists>t'. insert_at keys raw d t = Inr t' \<and> represents t' (insert (keys, d, raw) S)"
  using assms
proof (induction keys arbitrary: t S)
  case Nil
  obtain nodes terminal leaf where t: "t = TopologyNode nodes terminal leaf" by (cases t)
  note root = represents_root [OF Nil]
  have nodes: "nodes = [] \<longleftrightarrow> (\<forall>e\<in>S. fst e = [])" using represents_nodes [OF Nil] by (simp add: t)
  have "met [] d S \<longleftrightarrow> terminal \<noteq> None \<or> (\<not> d \<and> nodes \<noteq> [])"
  proof -
    have "met [] d S \<longleftrightarrow> (\<exists>d' r. ([], d', r) \<in> S) \<or> (\<not> d \<and> (\<exists>e\<in>S. fst e \<noteq> []))"
      unfolding met_def meets_def by (force simp: strict_prefix_def)
    moreover have "(\<exists>d' r. ([], d', r) \<in> S) \<longleftrightarrow> terminal \<noteq> None" using root(1) by (auto simp: t)
    ultimately show ?thesis using nodes by blast
  qed
  moreover have "represents (TopologyNode nodes (Some raw) (\<not> d)) (insert ([], d, raw) S)"
    if free: "terminal = None" "d \<or> nodes = []"
  proof (rule representsI)
    have none: "([], d', r) \<notin> S" for d' r using root(1) free(1) by (simp add: t)
    have at: "node_at ks (TopologyNode nodes (Some raw) (\<not> d)) = node_at ks t" if "ks \<noteq> []" for ks
      using that by (cases ks) (simp_all add: t)
    show "node_at ks (TopologyNode nodes (Some raw) (\<not> d)) \<noteq> None \<longleftrightarrow> under ks (insert ([], d, raw) S)" if "ks \<noteq> []" for ks
      using representsD(1) [OF Nil that] that by (simp add: at under_def)
    show "(ks, d', r) \<in> insert ([], d, raw) S \<longleftrightarrow> terminal_raw_name n = Some r \<and> is_file n = (\<not> d')"
      if "node_at ks (TopologyNode nodes (Some raw) (\<not> d)) = Some n" for ks n d' r
      using that none representsD(2) [OF Nil, of ks n d' r] by (cases "ks = []") (auto simp: at)
    show "terminal_raw_name n \<noteq> None"
      if "node_at ks (TopologyNode nodes (Some raw) (\<not> d)) = Some n" "is_file n" for ks n
      using that representsD(3) [OF Nil, of ks n] by (cases "ks = []") (auto simp: at)
  qed
  ultimately show ?case by (auto simp: t)
next
  case (Cons k keys)
  obtain nodes terminal leaf where t: "t = TopologyNode nodes terminal leaf" by (cases t)
  have leaf: "leaf \<longleftrightarrow> (\<exists>r. ([], False, r) \<in> S)" using represents_root [OF Cons.prems] by (auto simp: t)
  have sub: "represents (coalesce (map_of nodes k) empty_node) (beyond k S)"
    using represents_below [OF Cons.prems, of k] by (simp add: t)
  note step = Cons.IH [OF sub]
  show ?case
  proof (cases "leaf \<or> met keys d (beyond k S)")
    case True
    then show ?thesis using step leaf by (auto simp: t met_Cons)
  next
    case False
    then obtain c where c: "insert_at keys raw d (coalesce (map_of nodes k) empty_node) = Inr c"
      "represents c (insert (keys, d, raw) (beyond k S))" using step by auto
    have "represents (TopologyNode (dict_put k c (below t)) (terminal_raw_name t) (is_file t)) (insert (k # keys, d, raw) S)"
      using c(2) by (intro represents_build [OF Cons.prems, where k = k])
        (auto simp: beyond_insert)
    then show ?thesis using False leaf c(1) by (simp add: t met_Cons)
  qed
qed

subsection \<open>Portable names\<close>

definition safe_component :: "string \<Rightarrow> bool" where
  "safe_component c \<longleftrightarrow> c \<notin> {'''', ''.'', ''..''} \<and> CHR ''/'' \<notin> set c \<and> CHR 0x5C \<notin> set c \<and>
     (\<forall>x\<in>set c. 32 \<le> code x \<and> x \<notin> set WINDOWS_ILLEGAL) \<and> \<not> endswith c ''.'' \<and> \<not> endswith c '' '' \<and>
     \<not> reserved_device (casefold (hd (split_on CHR ''.'' c)))"

definition portable_name :: "string \<Rightarrow> bool \<Rightarrow> bool" where
  "portable_name name d \<longleftrightarrow> (\<exists>cs. cs \<noteq> [] \<and> list_all safe_component cs \<and>
     name = join_with ''/'' cs @ (if d then ''/'' else ''''))"

lemma first_failure_Inr: "first_failure f xs = Inr () \<longleftrightarrow> (\<forall>x\<in>set xs. f x = Inr ())"
  by (induction xs) (auto split: sum.splits)

lemma validate_component_Inr: "validate_component c = Inr () \<longleftrightarrow>
    \<not> endswith c ''.'' \<and> \<not> endswith c '' '' \<and> (\<forall>x\<in>set c. 32 \<le> code x \<and> x \<notin> set WINDOWS_ILLEGAL) \<and>
    \<not> reserved_device (casefold (hd (split_on CHR ''.'' c)))"
proof -
  have "list_ex (\<lambda>x. code x < 32 \<or> x \<in> set WINDOWS_ILLEGAL) c \<longleftrightarrow> \<not> (\<forall>x\<in>set c. 32 \<le> code x \<and> x \<notin> set WINDOWS_ILLEGAL)"
    unfolding list_ex_iff by (meson not_le)
  then show ?thesis by (simp add: validate_component_def validate_windows_component_def nfc_def)
qed

lemma endswith_one: "endswith s [c] \<longleftrightarrow> s \<noteq> [] \<and> last s = c"
proof (cases s rule: rev_cases)
  case (snoc t x)
  then show ?thesis by (auto simp: endswith_def)
qed (simp add: endswith_def)

lemma set_join: "set (join_with sep cs) \<subseteq> \<Union> (set ` set cs) \<union> set sep"
  by (induction sep cs rule: join_with.induct) auto

lemma set_split: "set s = \<Union> (set ` set (split_on c s)) \<union> (if c \<in> set s then {c} else {})"
proof (induction s)
  case (Cons x s)
  obtain p ps where "split_on c s = p # ps" by (cases "split_on c s") auto
  with Cons show ?case by (auto split: if_splits)
qed simp

lemma hd_split: "s \<noteq> [] \<Longrightarrow> hd (split_on c s) = [] \<longleftrightarrow> hd s = c"
  by (cases s) (auto split: list.splits)

lemma components_safe:
  assumes "CHR 0x5C \<notin> set name"
  shows "\<not> list_ex (\<lambda>c. c \<in> {'''', ''.'', ''..''}) (split_on CHR ''/'' name) \<and>
      first_failure validate_component (split_on CHR ''/'' name) = Inr () \<longleftrightarrow>
    list_all safe_component (split_on CHR ''/'' name)"
  using assms split_on_no_sep [of _ "CHR ''/''" name] set_split [of name "CHR ''/''"]
  unfolding list_all_iff list_ex_iff first_failure_Inr validate_component_Inr safe_component_def by auto

lemma join_safe:
  assumes "cs \<noteq> []" "list_all safe_component cs"
  shows "split_on CHR ''/'' (join_with ''/'' cs) = cs" "join_with ''/'' cs \<noteq> []" "last (join_with ''/'' cs) \<noteq> CHR ''/''"
    "hd (join_with ''/'' cs) \<noteq> CHR ''/''" "CHR 0x00 \<notin> set (join_with ''/'' cs)" "CHR 0x5C \<notin> set (join_with ''/'' cs)"
    "CHR '':'' \<notin> set (join_with ''/'' cs)"
proof -
  have c: "c \<noteq> [] \<and> CHR ''/'' \<notin> set c \<and> CHR 0x5C \<notin> set c \<and> CHR 0x00 \<notin> set c \<and> CHR '':'' \<notin> set c" if "c \<in> set cs" for c
  proof -
    have "safe_component c" using that assms(2) by (simp add: list_all_iff)
    moreover have "\<not> 32 \<le> code (CHR 0x00)" "CHR '':'' \<in> set WINDOWS_ILLEGAL"
      by (simp_all add: code_def WINDOWS_ILLEGAL_def)
    ultimately show ?thesis unfolding safe_component_def by blast
  qed
  show split: "split_on CHR ''/'' (join_with ''/'' cs) = cs" by (rule split_join [OF assms(1)]) (use c in blast)
  obtain a rest where cs: "cs = a # rest" using assms(1) by (cases cs) auto
  have "a \<noteq> []" using c [of a] by (simp add: cs)
  then show nonempty: "join_with ''/'' cs \<noteq> []" unfolding cs by (cases rest) simp_all
  show "last (join_with ''/'' cs) \<noteq> CHR ''/''"
    using assms(1) c
  proof (induction cs rule: induct_list012)
    case (3 a b cs)
    then have "join_with ''/'' (b # cs) \<noteq> []" "last (join_with ''/'' (b # cs)) \<noteq> CHR ''/''"
      by (cases cs; simp)+
    then show ?case by simp
  qed (auto dest: last_in_set)
  show "hd (join_with ''/'' cs) \<noteq> CHR ''/''"
    using hd_split [OF nonempty, of "CHR ''/''"] assms(1) c by (simp add: split)
  show "CHR 0x00 \<notin> set (join_with ''/'' cs)" "CHR 0x5C \<notin> set (join_with ''/'' cs)" "CHR '':'' \<notin> set (join_with ''/'' cs)"
    using c set_join [of "''/''" cs] by auto
qed

lemma portable_path_iff: "portable_path name d = Inr p \<longleftrightarrow> p = name \<and> portable_name name d"
proof
  assume p: "portable_path name d = Inr p"
  define stem where "stem = (if d then butlast name else name)"
  have checks: "name \<noteq> []" "CHR 0x5C \<notin> set name" "d \<longrightarrow> endswith name ''/''" "stem \<noteq> []"
      "\<not> list_ex (\<lambda>c. c \<in> {'''', ''.'', ''..''}) (split_on CHR ''/'' stem)"
      "first_failure validate_component (split_on CHR ''/'' stem) = Inr ()"
      "p = (if d then stem @ ''/'' else stem)"
    using p join_split [of "CHR ''/''" stem]
    by (auto simp: portable_path_def Let_def stem_def split: if_splits sum.splits)
  then have "CHR 0x5C \<notin> set stem" by (auto simp: stem_def dest: in_set_butlastD)
  then have "list_all safe_component (split_on CHR ''/'' stem)"
    using components_safe checks(5,6) by blast
  moreover have name: "name = stem @ (if d then ''/'' else '''')"
    using checks(1,3) by (auto simp: stem_def endswith_one) (metis append_butlast_last_id)
  ultimately show "p = name \<and> portable_name name d"
    using checks(7) join_split [of "CHR ''/''" stem] unfolding portable_name_def
    by (metis append.right_neutral split_on_nonempty)
next
  assume "p = name \<and> portable_name name d"
  then obtain cs where cs: "cs \<noteq> []" "list_all safe_component cs" "name = join_with ''/'' cs @ (if d then ''/'' else '''')"
    and p: "p = name" by (auto simp: portable_name_def)
  note j = join_safe [OF cs(1,2)]
  have "\<not> startswith name ''/'' \<and> \<not> startswith name ''//''"
    using j(2,4) by (cases "join_with ''/'' cs") (auto simp: cs(3) startswith_def)
  moreover have "\<not> drive_qualified name"
    using j(7) by (auto simp: cs(3) drive_qualified_def split: list.splits if_splits)
  moreover have "\<not> list_ex (\<lambda>c. c \<in> {'''', ''.'', ''..''}) cs" "first_failure validate_component cs = Inr ()"
    using components_safe [OF j(6)] cs(2) by (simp_all add: j(1))
  moreover have "CHR 0x00 \<notin> set name \<and> CHR 0x5C \<notin> set name \<and> name \<noteq> []" using j by (auto simp: cs(3))
  ultimately show "portable_path name d = Inr p"
    using j(1,2) p by (auto simp: portable_path_def Let_def cs(3) endswith_one)
qed

subsection \<open>The scan\<close>

definition member_entry :: "ZipInfo \<Rightarrow> string list \<times> bool" where
  "member_entry info = (path_keys (raw_member_name info), is_dir info)"

definition full_entry :: "ZipInfo \<Rightarrow> entry" where
  "full_entry info = (path_keys (raw_member_name info), is_dir info, raw_member_name info)"

definition sound_member :: "ArchiveLimits \<Rightarrow> ZipInfo \<Rightarrow> bool" where
  "sound_member limits info \<longleftrightarrow> portable_name (raw_member_name info) (is_dir info) \<and>
     zi_volume info = 0 \<and> zi_flag_bits info AND 1 = 0 \<and> \<not> is_symlink info \<and>
     0 \<le> zi_file_size info \<and> 0 \<le> zi_compress_size info \<and> (is_dir info \<longrightarrow> zi_file_size info = 0) \<and>
     zi_file_size info \<le> al_max_entry_uncompressed_bytes limits \<and>
     (0 < zi_file_size info \<longrightarrow> 0 < zi_compress_size info \<and>
       zi_file_size info \<le> al_max_compression_ratio limits * zi_compress_size info)"

definition disjoint_members :: "ZipInfo list \<Rightarrow> bool" where
  "disjoint_members infos \<longleftrightarrow> sorted_wrt (\<lambda>a b. \<not> meets (member_entry a) (member_entry b)) infos"

definition declared_total :: "ZipInfo list \<Rightarrow> int" where
  "declared_total infos = sum_list (map zi_file_size infos)"

definition scanned :: "ArchiveLimits \<Rightarrow> ZipInfo list \<Rightarrow> member_scan \<Rightarrow> bool" where
  "scanned limits infos st \<longleftrightarrow> set (ms_raw_names st) = raw_member_name ` set infos \<and>
     represents (ms_topology st) (full_entry ` set infos) \<and>
     ms_result st = map (\<lambda>i. (raw_member_name i, i)) infos \<and> ms_total_declared st = declared_total infos \<and>
     declared_total infos \<le> al_max_total_uncompressed_bytes limits \<and>
     (\<forall>i\<in>set infos. portable_name (raw_member_name i) (is_dir i))"

lemma member_attributes_Inr:
  assumes "portable_name (raw_member_name info) (is_dir info)"
  shows "member_attributes limits info n = Inr () \<longleftrightarrow>
    sound_member limits info \<and> n \<le> al_max_total_uncompressed_bytes limits"
  using assms by (auto simp: member_attributes_def sound_member_def not_less)

lemma validate_member_Inr:
  assumes "scanned limits infos st"
  shows "(\<exists>st'. validate_member limits info st = Inr st') \<longleftrightarrow>
      sound_member limits info \<and> (\<forall>i\<in>set infos. \<not> meets (member_entry i) (member_entry info)) \<and>
      declared_total (infos @ [info]) \<le> al_max_total_uncompressed_bytes limits"
    and "validate_member limits info st = Inr st' \<Longrightarrow> scanned limits (infos @ [info]) st'"
proof -
  let ?raw = "raw_member_name info" and ?keys = "path_keys (raw_member_name info)"
  have met: "met ?keys (is_dir info) (full_entry ` set infos) \<longleftrightarrow> (\<exists>i\<in>set infos. meets (member_entry i) (member_entry info))"
    unfolding meets_commute [of _ "member_entry info"] by (auto simp: met_def full_entry_def member_entry_def)
  have known: "meets (member_entry i) (member_entry info)" if "i \<in> set infos" "raw_member_name i = ?raw" for i
    using that by (simp add: meets_def member_entry_def)
  have represented: "represents (ms_topology st) (full_entry ` set infos)" using assms by (simp add: scanned_def)
  note insertion = insert_at_represents [OF represented, of ?keys "is_dir info" ?raw]
  have free: "?raw \<notin> set (ms_raw_names st)" "?raw \<notin> fst ` set (ms_result st)"
    if "\<not> met ?keys (is_dir info) (full_entry ` set infos)"
  proof -
    have "?raw \<notin> raw_member_name ` set infos" using that known unfolding met by (metis imageE)
    then show "?raw \<notin> set (ms_raw_names st)" "?raw \<notin> fst ` set (ms_result st)"
      using assms by (simp_all add: scanned_def image_image)
  qed
  have ok: "(validate_member limits info st = Inr st') \<longleftrightarrow> (\<exists>t. insert_at ?keys ?raw (is_dir info) (ms_topology st) = Inr t \<and>
      ?raw \<notin> set (ms_raw_names st) \<and> ?raw \<notin> fst ` set (ms_result st) \<and> sound_member limits info \<and>
      declared_total (infos @ [info]) \<le> al_max_total_uncompressed_bytes limits \<and>
      st' = \<lparr>ms_raw_names = ?raw # ms_raw_names st, ms_topology = t, ms_result = ms_result st @ [(?raw, info)],
        ms_total_declared = declared_total (infos @ [info])\<rparr>)" for st'
  proof (cases "portable_name ?raw (is_dir info)")
    case True
    then have "portable_path ?raw (is_dir info) = Inr ?raw" by (simp add: portable_path_iff)
    moreover have "member_attributes limits info (declared_total (infos @ [info])) = Inr () \<longleftrightarrow>
        sound_member limits info \<and> declared_total (infos @ [info]) \<le> al_max_total_uncompressed_bytes limits"
      by (rule member_attributes_Inr [OF True])
    moreover have "ms_total_declared st + zi_file_size info = declared_total (infos @ [info])"
      using assms by (simp add: scanned_def declared_total_def)
    ultimately show ?thesis
      by (auto simp: validate_member_def Let_def insert_topology_def split: sum.splits)
  next
    case False
    then have "\<exists>e. portable_path ?raw (is_dir info) = Inl e"
      using portable_path_iff [of ?raw "is_dir info"] by (cases "portable_path ?raw (is_dir info)") auto
    with False show ?thesis by (auto simp: validate_member_def Let_def sound_member_def)
  qed
  show "(\<exists>st'. validate_member limits info st = Inr st') \<longleftrightarrow>
      sound_member limits info \<and> (\<forall>i\<in>set infos. \<not> meets (member_entry i) (member_entry info)) \<and>
      declared_total (infos @ [info]) \<le> al_max_total_uncompressed_bytes limits"
  proof (cases "met ?keys (is_dir info) (full_entry ` set infos)")
    case True
    then show ?thesis using insertion met unfolding ok by auto
  next
    case False
    then show ?thesis using insertion met free unfolding ok by auto
  qed
  assume "validate_member limits info st = Inr st'"
  then obtain t where t: "insert_at ?keys ?raw (is_dir info) (ms_topology st) = Inr t" "sound_member limits info"
      "declared_total (infos @ [info]) \<le> al_max_total_uncompressed_bytes limits"
      "st' = \<lparr>ms_raw_names = ?raw # ms_raw_names st, ms_topology = t, ms_result = ms_result st @ [(?raw, info)],
        ms_total_declared = declared_total (infos @ [info])\<rparr>"
    unfolding ok by blast
  then have "represents t (insert (full_entry info) (full_entry ` set infos))"
    using insertion by (auto simp: full_entry_def split: if_splits)
  with t assms show "scanned limits (infos @ [info]) st'"
    by (auto simp: scanned_def sound_member_def)
qed

lemma declared_nonnegative: "(\<forall>i\<in>set infos. sound_member limits i) \<Longrightarrow> 0 \<le> declared_total infos"
  unfolding declared_total_def by (intro sum_list_nonneg) (auto simp: sound_member_def)

lemma disjoint_append: "disjoint_members (xs @ ys) \<longleftrightarrow>
    disjoint_members xs \<and> disjoint_members ys \<and> (\<forall>x\<in>set xs. \<forall>y\<in>set ys. \<not> meets (member_entry x) (member_entry y))"
  by (simp add: disjoint_members_def sorted_wrt_append)

lemma validate_members_Inr:
  assumes "scanned limits xs st" "disjoint_members xs"
  shows "(\<exists>st'. validate_members limits infos st = Inr st') \<longleftrightarrow>
      (\<forall>i\<in>set infos. sound_member limits i) \<and> disjoint_members (xs @ infos) \<and>
      declared_total (xs @ infos) \<le> al_max_total_uncompressed_bytes limits" (is "?ok \<longleftrightarrow> ?sound")
    and "validate_members limits infos st = Inr st' \<Longrightarrow> scanned limits (xs @ infos) st'"
proof -
  have "(?ok \<longleftrightarrow> ?sound) \<and> (\<forall>st'. validate_members limits infos st = Inr st' \<longrightarrow> scanned limits (xs @ infos) st')"
    using assms
  proof (induction infos arbitrary: xs st)
    case Nil
    then show ?case by (simp add: scanned_def)
  next
    case (Cons info infos)
    note one = validate_member_Inr [OF Cons.prems(1), of info]
    show ?case
    proof (cases "validate_member limits info st")
      case (Inl e)
      have "\<not> (sound_member limits info \<and> disjoint_members (xs @ info # infos) \<and> (\<forall>i\<in>set infos. sound_member limits i) \<and>
          declared_total (xs @ info # infos) \<le> al_max_total_uncompressed_bytes limits)"
        using one(1) Inl declared_nonnegative [of infos limits] Cons.prems(2)
        by (auto simp: disjoint_append declared_total_def)
      with Inl show ?thesis by auto
    next
      case (Inr st1)
      then have sound: "sound_member limits info" "\<forall>i\<in>set xs. \<not> meets (member_entry i) (member_entry info)" using one(1) by auto
      have "disjoint_members (xs @ [info])" using Cons.prems(2) sound(2) by (simp add: disjoint_append) (simp add: disjoint_members_def)
      from Cons.IH [OF one(2) [OF Inr] this] Inr sound show ?thesis by simp
    qed
  qed
  then show "?ok \<longleftrightarrow> ?sound" "validate_members limits infos st = Inr st' \<Longrightarrow> scanned limits (xs @ infos) st'" by blast+
qed

lemma members_accepted:
  assumes "archive_limits_ok limits"
  shows "validate_archive_members infos limits = Inr members \<longleftrightarrow>
    int (length infos) \<le> al_max_entries limits \<and> (\<forall>i\<in>set infos. sound_member limits i) \<and> disjoint_members infos \<and>
    declared_total infos \<le> al_max_total_uncompressed_bytes limits \<and> members = map (\<lambda>i. (raw_member_name i, i)) infos"
proof -
  let ?start = "\<lparr>ms_raw_names = [], ms_topology = empty_node, ms_result = [], ms_total_declared = 0\<rparr>"
  have start: "scanned limits [] ?start" "disjoint_members []"
    using assms by (simp_all add: scanned_def declared_total_def archive_limits_ok_def disjoint_members_def)
  note scan = validate_members_Inr [OF start, of infos]
  have "ms_result st = map (\<lambda>i. (raw_member_name i, i)) infos" if "validate_members limits infos ?start = Inr st" for st
    using scan(2) [OF that] by (simp add: scanned_def)
  then show ?thesis
    using scan(1) by (cases "validate_members limits infos ?start") (auto simp: validate_archive_members_def not_less)
qed

text \<open>C33 A set of members is accepted exactly when there are not too many, each is sound by itself (a portable
  name, no disk, encryption or link, sizes and ratio within the limits), no two meet on a file system that
  ignores case, and the declared sizes together are within the limit; the members are then kept in order under
  their names.\<close>

theorem members_accepted_iff:
  assumes "archive_limits_ok limits"
  shows "validate_archive_members infos limits = Inr members \<longleftrightarrow>
    int (length infos) \<le> al_max_entries limits \<and> (\<forall>i\<in>set infos. sound_member limits i) \<and> disjoint_members infos \<and>
    declared_total infos \<le> al_max_total_uncompressed_bytes limits \<and> members = map (\<lambda>i. (raw_member_name i, i)) infos"
  by (rule members_accepted [OF assms])

subsection \<open>Extraction\<close>

text \<open>Where a path leads from the directory of the extraction; None when it leaves it.\<close>

fun walk :: "string list \<Rightarrow> string list \<Rightarrow> string list option" where
  "walk place [] = Some place"
| "walk place (c # cs) =
     (if c = ''..'' then if place = [] then None else walk (butlast place) cs
      else if c = '''' \<or> c = ''.'' then walk place cs
      else walk (place @ [c]) cs)"

lemma walk_plain:
  assumes "list_all safe_component cs"
  shows "walk place (cs @ (if d then [''''] else [])) = Some (place @ cs)"
  using assms by (induction cs arbitrary: place) (auto simp: safe_component_def)

lemma split_join_sep:
  assumes "cs \<noteq> []" "list_all safe_component cs"
  shows "split_on CHR ''/'' (join_with ''/'' cs @ ''/'') = cs @ ['''']"
  using assms
proof (induction cs rule: induct_list012)
  case (2 c)
  then show ?case using split_on_append [of "CHR ''/''" c "[]"] by (simp add: safe_component_def)
next
  case (3 a b cs)
  then show ?case using split_on_append [of "CHR ''/''" a "join_with ''/'' (b # cs) @ ''/''"] by (simp add: safe_component_def)
qed simp

lemma portable_walk:
  assumes "portable_name name d"
  obtains place where "walk [] (split_on CHR ''/'' name) = Some place" "place \<noteq> []" "path_keys name = map casefold place"
proof -
  obtain cs where cs: "cs \<noteq> []" "list_all safe_component cs" "name = join_with ''/'' cs @ (if d then ''/'' else '''')"
    using assms by (auto simp: portable_name_def)
  note j = join_safe [OF cs(1,2)]
  have "split_on CHR ''/'' name = cs @ (if d then [''''] else [])"
    using split_join_sep [OF cs(1,2)] by (simp add: cs(3) j(1))
  then have "walk [] (split_on CHR ''/'' name) = Some cs" using walk_plain [OF cs(2), of "[]" d] by simp
  moreover have "removesuffix name ''/'' = join_with ''/'' cs"
    using j(2,3) by (auto simp: removesuffix_def cs(3) endswith_one)
  ultimately show ?thesis using that cs(1) by (simp add: path_keys_def j(1))
qed

lemma disjoint_pair:
  assumes "disjoint_members infos" "a < b" "b < length infos"
  shows "\<not> meets (member_entry (infos ! a)) (member_entry (infos ! b))"
  using assms by (simp add: disjoint_members_def sorted_wrt_iff_nth_less)

lemma disjoint_distinct:
  assumes "disjoint_members infos"
  shows "distinct (map (\<lambda>i. path_keys (raw_member_name i)) infos)"
  unfolding distinct_conv_nth
proof (intro allI impI)
  fix a b assume "a < length (map (\<lambda>i. path_keys (raw_member_name i)) infos)"
    "b < length (map (\<lambda>i. path_keys (raw_member_name i)) infos)" "a \<noteq> b"
  then show "map (\<lambda>i. path_keys (raw_member_name i)) infos ! a \<noteq> map (\<lambda>i. path_keys (raw_member_name i)) infos ! b"
    using disjoint_pair [OF assms, of a b] disjoint_pair [OF assms, of b a]
    by (auto simp: meets_def member_entry_def linorder_neq_iff)
qed

text \<open>C32 Accepted members are safe to extract anywhere: each path leads to a place inside the directory, the
  places of different members differ even when case is ignored, and no file is above another member.\<close>

theorem members_extract_safely:
  assumes "archive_limits_ok limits" "validate_archive_members infos limits = Inr members"
  shows "\<exists>place. list_all (\<lambda>(path, _). walk [] (split_on CHR ''/'' path) = Some (place path) \<and> place path \<noteq> []) members \<and>
    distinct (map (\<lambda>(path, _). map casefold (place path)) members) \<and>
    list_all (\<lambda>(path, info). is_dir info \<or>
      list_all (\<lambda>(other, _). \<not> strict_prefix (map casefold (place path)) (map casefold (place other))) members) members"
proof -
  have sound: "\<forall>i\<in>set infos. sound_member limits i" and disjoint: "disjoint_members infos"
    and members: "members = map (\<lambda>i. (raw_member_name i, i)) infos"
    using assms by (simp_all add: members_accepted)
  note pairwise = disjoint_pair [OF disjoint]
  define place where "place = (\<lambda>path. the (walk [] (split_on CHR ''/'' path)))"
  have place: "walk [] (split_on CHR ''/'' (raw_member_name i)) = Some (place (raw_member_name i)) \<and>
      place (raw_member_name i) \<noteq> [] \<and> path_keys (raw_member_name i) = map casefold (place (raw_member_name i))"
    if "i \<in> set infos" for i
  proof -
    have "portable_name (raw_member_name i) (is_dir i)" using sound that by (simp add: sound_member_def)
    then show ?thesis by (rule portable_walk) (simp add: place_def)
  qed
  have "distinct (map (\<lambda>i. path_keys (raw_member_name i)) infos)" using disjoint by (rule disjoint_distinct)
  moreover have "map (\<lambda>i. path_keys (raw_member_name i)) infos = map (\<lambda>(path, _). map casefold (place path)) members"
    using place by (simp add: members)
  ultimately have separate: "distinct (map (\<lambda>(path, _). map casefold (place path)) members)" by simp
  have clear: "\<not> strict_prefix (map casefold (place (raw_member_name i))) (map casefold (place (raw_member_name j)))"
    if ij: "i \<in> set infos" "j \<in> set infos" "\<not> is_dir i" for i j
  proof -
    obtain a b where ab: "a < length infos" "b < length infos" "i = infos ! a" "j = infos ! b"
      using ij(1,2) unfolding in_set_conv_nth by blast
    show ?thesis
      using pairwise [of a b] pairwise [of b a] ij(3) ab place [OF ij(1)] place [OF ij(2)]
      by (cases a b rule: linorder_cases) (auto simp: meets_def member_entry_def)
  qed
  have "list_all (\<lambda>(path, _). walk [] (split_on CHR ''/'' path) = Some (place path) \<and> place path \<noteq> []) members"
    using place by (simp add: members list_all_iff)
  moreover have "list_all (\<lambda>(path, info). is_dir info \<or>
      list_all (\<lambda>(other, _). \<not> strict_prefix (map casefold (place path)) (map casefold (place other))) members) members"
    using clear by (simp add: members list_all_iff) blast
  ultimately show ?thesis using separate by blast
qed

end
