(* ===== verification/ArchiveReport.thy ===== *)
theory ArchiveReport
  imports ArchiveValidation ArchiveFacts
begin

section \<open>What a report vouches for\<close>

text \<open>
  A report of the archive validation means that the bytes are the downloaded ones and that RECORD accounts for
  the content of every file among the members.
\<close>

subsection \<open>Keys of members\<close>

lemma fold_char_slash: "CHR ''/'' \<in> set (fold_char c) \<longleftrightarrow> c = CHR ''/''"
proof -
  have slash: "code (CHR ''/'') = 47" by (simp add: code_def)
  have "x \<noteq> CHR ''/''" if "code x \<noteq> 47" for x using that slash by metis
  moreover have "code (char_of (code c + 32)) \<noteq> 47" if "is_upper c \<or> (192 \<le> code c \<and> code c \<le> 222)"
    using that by (auto simp: is_upper_def)
  ultimately have "char_of (code c + 32) \<noteq> CHR ''/''" if "is_upper c \<or> (192 \<le> code c \<and> code c \<le> 222)"
    using that by blast
  moreover have "\<not> is_upper (CHR ''/'')" by (simp add: is_upper_def slash)
  ultimately show ?thesis by (auto simp: fold_char_def slash)
qed

lemma casefold_append: "casefold (s @ t) = casefold s @ casefold t"
  by (simp add: casefold_def)

lemma casefold_slash: "CHR ''/'' \<in> set (casefold s) \<longleftrightarrow> CHR ''/'' \<in> set s"
  by (auto simp: casefold_def fold_char_slash)

lemma casefold_join: "casefold (join_with ''/'' cs) = join_with ''/'' (map casefold cs)"
proof -
  have "casefold ''/'' = ''/''" by (simp add: casefold_def fold_char_def is_upper_def code_def)
  then show ?thesis by (induction cs rule: induct_list012) (simp_all add: casefold_append casefold_def)
qed

lemma portable_key_inj:
  assumes "portable_key s = portable_key t"
  shows "path_keys s = path_keys t"
proof -
  have "split_on CHR ''/'' (portable_key s) = path_keys s" for s
  proof -
    let ?cs = "split_on CHR ''/'' (removesuffix s ''/'')"
    have "portable_key s = join_with ''/'' (map casefold ?cs)"
      using join_split [of "CHR ''/''" "removesuffix s ''/''"] by (simp add: portable_key_def casefold_join [symmetric])
    moreover have "split_on CHR ''/'' (join_with ''/'' (map casefold ?cs)) = map casefold ?cs"
      by (rule split_join) (auto simp: casefold_slash dest: split_on_no_sep)
    ultimately show ?thesis by (simp add: path_keys_def)
  qed
  with assms show ?thesis by metis
qed

subsection \<open>Observations\<close>

text \<open>The content that the library reads for a member, to its end.\<close>

definition streams_as :: "'k archive_library \<Rightarrow> nat list \<Rightarrow> ZipInfo \<Rightarrow> nat list \<Rightarrow> bool" where
  "streams_as lib bytes info content \<longleftrightarrow> (case li_stream lib bytes info of (blocks, raises) \<Rightarrow>
     content = concat (takeWhile (\<lambda>b. b \<noteq> []) blocks) \<and> ([] \<in> set blocks \<or> \<not> raises))"

lemma read_blocks_Inr:
  "read_blocks limits tracker info collect_limit raises content blocks = Inr c \<Longrightarrow>
     c = content @ concat (takeWhile (\<lambda>b. b \<noteq> []) blocks) \<and> ([] \<in> set blocks \<or> \<not> raises)"
proof (induction blocks arbitrary: content)
  case (Cons block blocks)
  show ?case
  proof (cases "block = []")
    case False
    then have "read_blocks limits tracker info collect_limit raises (content @ block) blocks = Inr c"
      using Cons.prems by (auto simp: Let_def split: sum.splits option.splits if_splits)
    from Cons.IH [OF this] False show ?thesis by simp
  qed (use Cons.prems in simp)
qed (simp split: if_splits)

lemma member_content_Inr:
  "member_content lib bytes limits info collect_limit tracker = Inr c \<Longrightarrow> streams_as lib bytes info c"
  by (auto simp: member_content_def streams_as_def dest: read_blocks_Inr split: prod.splits)

definition member_key :: "ZipInfo \<Rightarrow> string" where
  "member_key info = portable_key (raw_member_name info)"

definition observed_as :: "'k archive_library \<Rightarrow> nat list \<Rightarrow> ZipInfo \<Rightarrow> string \<times> int \<times> nat list \<Rightarrow> bool" where
  "observed_as lib bytes info = (\<lambda>(key, n, digest). key = member_key info \<and> n = zi_file_size info \<and>
     (\<exists>content. streams_as lib bytes info content \<and> n = int (length content) \<and> digest = li_sha256 lib content))"

definition tracker_ok :: "'k archive_library \<Rightarrow> nat list \<Rightarrow> ZipInfo list \<Rightarrow> ReadTracker \<Rightarrow> bool" where
  "tracker_ok lib bytes infos tracker \<longleftrightarrow> distinct (map fst (tk_observed tracker)) \<and>
     (\<forall>e\<in>set (tk_observed tracker). \<exists>info\<in>set infos. observed_as lib bytes info e) \<and>
     tk_actual_total tracker = sum_list (map (fst \<circ> snd) (tk_observed tracker))"

abbreviation observed_keys :: "ReadTracker \<Rightarrow> string set" where
  "observed_keys tracker \<equiv> fst ` set (tk_observed tracker)"

lemma tracker_finish_ok:
  assumes "tracker_finish lib info (member_key info) content tracker = Inr tracker'" "tracker_ok lib bytes infos tracker"
    and "member_key info \<notin> observed_keys tracker" "info \<in> set infos" "streams_as lib bytes info content"
  shows "tracker_ok lib bytes infos tracker' \<and> observed_keys tracker' = insert (member_key info) (observed_keys tracker)"
proof -
  have t: "int (length content) = zi_file_size info" "tk_observed tracker' = tk_observed tracker @ [(member_key info, int (length content), li_sha256 lib content)]"
    "tk_actual_total tracker' = tk_actual_total tracker + int (length content)"
    using assms(1,3) by (auto simp: tracker_finish_def dict_put_new split: if_splits)
  have "observed_as lib bytes info (member_key info, int (length content), li_sha256 lib content)"
    using t(1) assms(5) by (auto simp: observed_as_def)
  then show ?thesis
    using assms(2,3,4) by (auto simp: tracker_ok_def t(2,3))
qed

lemma tracker_read_ok:
  assumes "tracker_read lib bytes limits info limit tracker = Inr (c, tracker')" "tracker_ok lib bytes infos tracker"
    and "info \<in> set infos"
  shows "tracker_ok lib bytes infos tracker' \<and> observed_keys tracker' = insert (member_key info) (observed_keys tracker)"
proof -
  obtain path where "portable_path (raw_member_name info) (is_dir info) = Inr path"
    using assms(1) by (auto simp: tracker_read_def split: sum.splits)
  moreover from this have "path = raw_member_name info" by (simp add: portable_path_iff)
  ultimately have path: "portable_path (raw_member_name info) (is_dir info) = Inr (raw_member_name info)" by simp
  have read: "tracker_read lib bytes limits info limit tracker =
      (if member_key info \<in> observed_keys tracker then Inr (None, tracker)
       else (case member_content lib bytes limits info limit tracker of
          Inl e \<Rightarrow> Inl e
        | Inr content \<Rightarrow> map_sum id (Pair (Some content)) (tracker_finish lib info (member_key info) content tracker)))"
    unfolding tracker_read_def path member_key_def by simp
  show ?thesis
  proof (cases "member_key info \<in> observed_keys tracker")
    case True
    then show ?thesis using assms(1,2) unfolding read by (simp add: insert_absorb)
  next
    case False
    then obtain content where c: "member_content lib bytes limits info limit tracker = Inr content"
      "tracker_finish lib info (member_key info) content tracker = Inr tracker'"
      using assms(1) unfolding read by (auto simp: map_sum_Inr split: sum.splits)
    show ?thesis by (rule tracker_finish_ok [OF c(2) assms(2) False assms(3) member_content_Inr [OF c(1)]])
  qed
qed

lemma read_members_ok:
  assumes "read_members lib bytes limits members tracker = Inr tracker'" "tracker_ok lib bytes infos tracker"
    and "\<forall>m\<in>set members. snd m \<in> set infos \<and> fst m = raw_member_name (snd m)"
  shows "tracker_ok lib bytes infos tracker' \<and> observed_keys tracker' = observed_keys tracker \<union> member_key ` snd ` set members"
  using assms
proof (induction lib bytes limits members tracker rule: read_members.induct)
  case (2 lib bytes limits path info members tracker)
  have info: "info \<in> set infos" "portable_key path = member_key info" using 2(5) by (simp_all add: member_key_def)
  show ?case
  proof (cases "member_key info \<in> observed_keys tracker")
    case True
    then have "read_members lib bytes limits members tracker = Inr tracker'" using 2(3) info by simp
    from 2(1) [OF _ this 2(4)] True 2(5) info show ?thesis by auto
  next
    case False
    then obtain c t where t: "tracker_read lib bytes limits info None tracker = Inr (c, t)"
      "read_members lib bytes limits members t = Inr tracker'" using 2(3) info by (auto split: sum.splits)
    from tracker_read_ok [OF t(1) 2(4) info(1)] 2(2) [OF _ t(1) refl t(2)] False info 2(5) show ?thesis by auto
  qed
qed simp

subsection \<open>Rows\<close>

lemma parse_record_row_Inr:
  assumes "parse_record_row cells record_path members = Inr (row, key)"
  shows "length cells = 3 \<and> key = portable_key (cells ! 0) \<and>
    (row_digest row = None \<and> row_size row = None \<and> key = record_path \<or>
     (\<exists>digest info. row_digest row = Some digest \<and> cells ! 1 = digest_text digest \<and>
       row_size row = Some (int (decimal_value (cells ! 2))) \<and> map_of members (cells ! 0) = Some info))"
proof -
  obtain path where "portable_path (cells ! 0) False = Inr path"
    using assms by (auto simp: parse_record_row_def split: if_splits sum.splits)
  moreover from this have "path = cells ! 0" by (simp add: portable_path_iff)
  ultimately have path: "portable_path (cells ! 0) False = Inr (cells ! 0)" by simp
  show ?thesis
    using assms unfolding parse_record_row_def path
    by (auto simp: Let_def parse_record_digest_Inr split: if_splits sum.splits option.splits)
qed

lemma record_rows_Inr:
  assumes "record_rows limits record_path members rows seen parsed = Inr out" "e \<in> set out"
  shows "e \<in> set parsed \<or> (\<exists>cells. Some cells \<in> set rows \<and> parse_record_row cells record_path members = Inr (snd e, fst e))"
  using assms
proof (induction rows arbitrary: seen parsed)
  case (Cons r rows)
  then obtain cells row key where "r = Some cells" "parse_record_row cells record_path members = Inr (row, key)"
    "record_rows limits record_path members rows (seen + 1) (parsed @ [(key, row)]) = Inr out"
    by (cases r) (auto split: if_splits sum.splits)
  with Cons.IH [OF this(3) Cons.prems(2)] show ?case by auto
qed simp

subsection \<open>The members and the report\<close>

lemma member_keys_distinct: "disjoint_members infos \<Longrightarrow> distinct (map member_key infos)"
proof (induction infos)
  case (Cons info infos)
  have "member_key info \<noteq> member_key i" if "i \<in> set infos" for i
  proof
    assume "member_key info = member_key i"
    then have "path_keys (raw_member_name info) = path_keys (raw_member_name i)"
      unfolding member_key_def by (rule portable_key_inj)
    then show False using Cons.prems that by (auto simp: disjoint_members_def meets_def member_entry_def)
  qed
  with Cons show ?case by (auto simp: disjoint_members_def)
qed simp

lemma member_key_unique:
  assumes "disjoint_members infos" "i \<in> set infos" "j \<in> set infos" "member_key i = member_key j"
  shows "i = j"
  using member_keys_distinct [OF assms(1)] assms(2-4) by (auto simp: distinct_map inj_on_def)

definition accounted :: "'k archive_library \<Rightarrow> nat list \<Rightarrow> string \<Rightarrow> ZipInfo \<Rightarrow> bool" where
  "accounted lib bytes text info \<longleftrightarrow> (\<exists>content size_text. streams_as lib bytes info content \<and>
     Some [raw_member_name info, digest_text (li_sha256 lib content), size_text]
       \<in> set (csv_rows RECORD_FIELD_BYTES csv_start (csv_lines text)) \<and>
     decimal_value size_text = length content)"

lemma map_of_members: "map_of (map (\<lambda>i. (raw_member_name i, i)) infos) path = Some info \<Longrightarrow>
    info \<in> set infos \<and> raw_member_name info = path"
  by (auto dest!: map_of_SomeD)

lemma core_infos_Inr:
  assumes "core_infos lib members expected = Inr [m, w, r]"
  shows "map_of members (core_path lib expected ''METADATA'') = Some m" "map_of members (core_path lib expected ''WHEEL'') = Some w"
    "map_of members (core_path lib expected ''RECORD'') = Some r"
  using assms by (auto simp: core_infos_def core_names_def map_sum_Inr Let_def split: if_splits option.splits)

lemma core_paths_differ: "core_path lib expected ''METADATA'' \<noteq> core_path lib expected ''RECORD''"
  "core_path lib expected ''WHEEL'' \<noteq> core_path lib expected ''RECORD''"
  by (simp_all add: core_path_def Let_def)

lemma tracker_total:
  assumes "tracker_ok lib bytes infos tracker" "observed_keys tracker = member_key ` set infos" "disjoint_members infos"
  shows "tk_actual_total tracker = declared_total infos"
proof -
  define size_of where "size_of key = zi_file_size (the (find (\<lambda>i. member_key i = key) infos))" for key
  have size_of: "size_of (member_key i) = zi_file_size i" if i: "i \<in> set infos" for i
  proof -
    obtain j where j: "find (\<lambda>k. member_key k = member_key i) infos = Some j"
      using i by (cases "find (\<lambda>k. member_key k = member_key i) infos") (auto simp: find_None_iff)
    then have "j \<in> set infos" "member_key j = member_key i" by (auto simp: find_Some_iff)
    then have "j = i" using member_key_unique [OF assms(3) _ i] by blast
    with j show ?thesis by (simp add: size_of_def)
  qed
  have "(fst \<circ> snd) e = size_of (fst e)" if e: "e \<in> set (tk_observed tracker)" for e
  proof -
    obtain info where "info \<in> set infos" "observed_as lib bytes info e" using assms(1) e by (auto simp: tracker_ok_def)
    then show ?thesis using size_of by (auto simp: observed_as_def)
  qed
  then have "map (fst \<circ> snd) (tk_observed tracker) = map size_of (map fst (tk_observed tracker))" by simp
  then have "tk_actual_total tracker = sum_list (map size_of (map fst (tk_observed tracker)))"
    using assms(1) by (simp only: tracker_ok_def)
  also have "\<dots> = sum size_of (set (map fst (tk_observed tracker)))"
    using assms(1) by (intro sum_list_distinct_conv_sum_set) (simp add: tracker_ok_def)
  also have "\<dots> = sum size_of (set (map member_key infos))" using assms(2) by simp
  also have "\<dots> = sum_list (map size_of (map member_key infos))"
    by (rule sum_list_distinct_conv_sum_set [OF member_keys_distinct [OF assms(3)], symmetric])
  also have "\<dots> = declared_total infos"
    unfolding declared_total_def by (rule arg_cong [of _ _ sum_list]) (simp add: size_of)
  finally show ?thesis .
qed

lemma row_accounted:
  assumes rows: "record_rows limits (member_key own) members (csv_rows RECORD_FIELD_BYTES csv_start (csv_lines text)) 0 [] = Inr rows"
    and verified: "\<forall>e\<in>set rows. row_verified (member_key own) tracker e = Inr ()"
    and tracker: "tracker_ok lib bytes infos tracker" and disjoint: "disjoint_members infos"
    and members: "members = map (\<lambda>i. (raw_member_name i, i)) infos"
    and info: "info \<in> set infos" "own \<in> set infos" "info \<noteq> own" "member_key info \<in> fst ` set rows"
  shows "accounted lib bytes text info"
proof -
  obtain row where row: "(member_key info, row) \<in> set rows" using info(4) by auto
  have other: "member_key info \<noteq> member_key own" using member_key_unique [OF disjoint info(1,2)] info(3) by blast
  obtain n digest where v: "map_of (tk_observed tracker) (member_key info) = Some (n, digest)" "row_digest row = Some digest" "row_size row = Some n"
    using verified row other by (fastforce simp: row_verified_def split: option.splits if_splits)
  obtain i where "i \<in> set infos" "observed_as lib bytes i (member_key info, n, digest)"
    using tracker map_of_SomeD [OF v(1)] by (auto simp: tracker_ok_def)
  then have "observed_as lib bytes info (member_key info, n, digest)"
    using member_key_unique [OF disjoint info(1)] by (auto simp: observed_as_def)
  then obtain content where content: "streams_as lib bytes info content" "n = int (length content)" "digest = li_sha256 lib content"
    by (auto simp: observed_as_def)
  obtain cells where cells: "Some cells \<in> set (csv_rows RECORD_FIELD_BYTES csv_start (csv_lines text))"
    "parse_record_row cells (member_key own) members = Inr (row, member_key info)"
    using record_rows_Inr [OF rows row] by auto
  from parse_record_row_Inr [OF cells(2)] v(2,3) obtain j where f: "length cells = 3" "member_key info = portable_key (cells ! 0)"
    "cells ! 1 = digest_text digest" "n = int (decimal_value (cells ! 2))" "map_of members (cells ! 0) = Some j" by auto
  have "j \<in> set infos" "raw_member_name j = cells ! 0" using map_of_members f(5) unfolding members by blast+
  then have "j = info" using member_key_unique [OF disjoint info(1)] f(2) by (auto simp: member_key_def)
  then have "cells = [raw_member_name info, digest_text (li_sha256 lib content), cells ! 2]"
    using f(1,3) content(3) \<open>raw_member_name j = cells ! 0\<close> by (auto simp: length_Suc_conv numeral_eq_Suc)
  then show ?thesis
    using cells(1) content(1,2) f(4) unfolding accounted_def
    by (intro exI [of _ content] exI [of _ "cells ! 2"]) auto
qed

lemma parse_wheel_Inr:
  assumes "parse_wheel lib value expected = Inr tags"
  shows "set tags = set (dw_tags expected)"
  using assms unfolding parse_wheel_def by (auto split: sum.split_asm option.split_asm if_split_asm)

lemma parse_metadata_Inr:
  assumes "parse_metadata lib value expected = Inr identity"
  shows "wi_name identity = pkg_canonicalize (li_packaging lib) (dw_package expected)"
    "same_version (wi_version identity) (dw_version expected)"
  using assms unfolding parse_metadata_def Let_def
  by (auto simp: map_sum_Inr split: sum.split_asm option.split_asm if_split_asm)

lemma contents_vouched:
  assumes members: "members = map (\<lambda>i. (raw_member_name i, i)) infos" and disjoint: "disjoint_members infos"
    and portable: "\<forall>i\<in>set infos. portable_name (raw_member_name i) (is_dir i)"
    and core: "core_infos lib members expected = Inr [m, w, own]" "\<not> is_dir own"
    and report: "validate_contents lib bytes expected limits infos members m w own = Inr report"
  shows "\<exists>content points text. own \<in> set infos \<and> raw_member_name own = core_path lib expected ''RECORD'' \<and>
    streams_as lib bytes own content \<and> utf8_decode content = Some points \<and> text_of_points points = Some text \<and>
    list_all (\<lambda>info. info = own \<or> is_dir info \<or> accounted lib bytes text info) infos \<and>
    rep_total_uncompressed_bytes report = declared_total infos \<and> rep_entry_count report = int (length infos) \<and>
    (\<exists>wheel. parse_wheel lib wheel expected = Inr (rep_tags report)) \<and>
    (\<exists>metadata. parse_metadata lib metadata expected = Inr (rep_identity report))"
proof -
  let ?start = "\<lparr>tk_actual_total = 0, tk_observed = []\<rparr>"
  have in_infos: "m \<in> set infos" "w \<in> set infos" "own \<in> set infos"
    and paths: "raw_member_name m = core_path lib expected ''METADATA''" "raw_member_name w = core_path lib expected ''WHEEL''"
      "raw_member_name own = core_path lib expected ''RECORD''"
    using core_infos_Inr [OF core(1)] map_of_members unfolding members by blast+
  have rp: "record_path_of own = Inr (member_key own)"
    using portable in_infos(3) core(2) by (auto simp: record_path_of_def map_sum_Inr portable_path_iff member_key_def)
  from report obtain metadata wheel t1 t2 rows t3 t4 where steps:
    "tracker_read lib bytes limits m (Some MAX_HEADER_BYTES) ?start = Inr (Some metadata, t1)"
    "tracker_read lib bytes limits w (Some MAX_HEADER_BYTES) t1 = Inr (Some wheel, t2)"
    "parse_wheel lib wheel expected = Inr (rep_tags report)"
    "stream_record lib bytes limits own members t2 = Inr (rows, t3)"
    "validate_record_paths rows members own = Inr ()" "read_members lib bytes limits members t3 = Inr t4"
    "verify_record_hashes rows own t4 = Inr ()" "parse_metadata lib metadata expected = Inr (rep_identity report)"
    "rep_entry_count report = int (length infos)" "rep_total_uncompressed_bytes report = tk_actual_total t4"
    unfolding validate_contents_def
    by (auto split: sum.splits option.splits if_splits)
  have start: "tracker_ok lib bytes infos ?start" by (simp add: tracker_ok_def)
  note r1 = tracker_read_ok [OF steps(1) start in_infos(1)]
  then have r2: "tracker_ok lib bytes infos t2 \<and> observed_keys t2 = {member_key w, member_key m}"
    using tracker_read_ok [OF steps(2) _ in_infos(2)] by auto
  have "m \<noteq> own" "w \<noteq> own" using core_paths_differ paths by metis+
  then have fresh: "member_key own \<notin> observed_keys t2"
    using r2 member_key_unique [OF disjoint] in_infos by auto
  obtain content points chars where c: "member_content lib bytes limits own None t2 = Inr content" "utf8_decode content = Some points"
    "text_of_points points = Some chars"
    "record_rows limits (member_key own) members (csv_rows RECORD_FIELD_BYTES csv_start (csv_lines chars)) 0 [] = Inr rows"
    "tracker_finish lib own (member_key own) content t2 = Inr t3"
    using steps(4) by (auto simp: stream_record_def rp map_sum_Inr split: sum.splits option.splits)
  note streams = member_content_Inr [OF c(1)]
  have r3: "tracker_ok lib bytes infos t3"
    using tracker_finish_ok [OF c(5) _ fresh in_infos(3) streams] r2 by blast
  have "\<forall>mem\<in>set members. snd mem \<in> set infos \<and> fst mem = raw_member_name (snd mem)" by (auto simp: members)
  from read_members_ok [OF steps(6) r3 this]
  have r4: "tracker_ok lib bytes infos t4" "observed_keys t4 = observed_keys t3 \<union> member_key ` set infos"
    by (auto simp: members image_image)
  have "observed_keys t4 \<subseteq> member_key ` set infos" using r4(1) by (fastforce simp: tracker_ok_def observed_as_def)
  then have "observed_keys t4 = member_key ` set infos" using r4(2) by blast
  then have total: "tk_actual_total t4 = declared_total infos" by (rule tracker_total [OF r4(1) _ disjoint])
  have files: "member_key i \<in> fst ` set rows" if "i \<in> set infos" "\<not> is_dir i" for i
  proof -
    have "fst ` set rows = portable_key ` fst ` set (filter (\<lambda>(_, info). \<not> is_dir info) members)"
      using steps(5) by (auto simp: validate_record_paths_def Let_def split: if_splits)
    moreover have "(raw_member_name i, i) \<in> set (filter (\<lambda>(_, info). \<not> is_dir info) members)" using that by (simp add: members)
    then have "portable_key (fst (raw_member_name i, i)) \<in> portable_key ` fst ` set (filter (\<lambda>(_, info). \<not> is_dir info) members)"
      by (intro imageI)
    ultimately show ?thesis by (simp add: member_key_def)
  qed
  have verified: "\<forall>e\<in>set rows. row_verified (member_key own) t4 e = Inr ()"
    using steps(7) by (simp add: verify_record_hashes_def rp first_failure_Inr)
  have "info = own \<or> is_dir info \<or> accounted lib bytes chars info" if "info \<in> set infos" for info
    using row_accounted [OF c(4) verified r4(1) disjoint members that in_infos(3)] files [OF that] by blast
  then show ?thesis
    using in_infos(3) paths(3) streams c(2,3) total steps(3,8,9,10) by (auto simp: list_all_iff)
qed

text \<open>C31 A report vouches for the downloaded bytes: they have the digest of the download, no two members meet,
  RECORD is the one that belongs to the wheel, and every file but RECORD itself is accounted for there by its
  exact name, the digest of the content that is read, and its length; sizes add up within the limits, and tags,
  name and version are those of the download.\<close>

theorem archive_report_vouches:
  assumes "archive_limits_ok limits"
    and "validate_wheel_archive_descriptor lib expected limits path_name source setup identity reopened = Inr report"
  shows "\<exists>bytes infos own content points text.
    hexdigest (li_sha256 lib bytes) = map lower (dw_sha256 expected) \<and> validate_zip_end_records bytes = Inr () \<and>
    li_infos lib bytes = Some infos \<and> disjoint_members infos \<and>
    own \<in> set infos \<and> raw_member_name own = core_path lib expected ''RECORD'' \<and>
    streams_as lib bytes own content \<and> utf8_decode content = Some points \<and> text_of_points points = Some text \<and>
    list_all (\<lambda>info. info = own \<or> is_dir info \<or> accounted lib bytes text info) infos \<and>
    rep_total_uncompressed_bytes report = declared_total infos \<and>
    declared_total infos \<le> al_max_total_uncompressed_bytes limits \<and> rep_entry_count report \<le> al_max_entries limits \<and>
    set (rep_tags report) = set (dw_tags expected) \<and>
    wi_name (rep_identity report) = pkg_canonicalize (li_packaging lib) (dw_package expected) \<and>
    same_version (wi_version (rep_identity report)) (dw_version expected)"
proof -
  obtain snapshot bytes where b: "create_bound_snapshot lib source expected setup identity = Inr snapshot"
    "open_snapshot lib snapshot reopened = Inr bytes" "validate_archive_bytes lib bytes expected limits = Inr report"
    using assms(2) by (auto simp: validate_wheel_archive_descriptor_def split: if_splits sum.splits)
  have digest: "hexdigest (li_sha256 lib bytes) = map lower (dw_sha256 expected)"
    using b(1,2) by (auto simp: create_bound_snapshot_def open_snapshot_def Let_def split: if_splits sum.splits option.splits)
  obtain infos members m w own where v: "validate_zip_end_records bytes = Inr ()" "li_infos lib bytes = Some infos"
    "validate_archive_members infos limits = Inr members" "core_infos lib members expected = Inr [m, w, own]"
    "validate_contents lib bytes expected limits infos members m w own = Inr report"
    using b(3) by (auto simp: validate_archive_bytes_def split: sum.splits option.splits list.splits)
  have sound: "disjoint_members infos" "members = map (\<lambda>i. (raw_member_name i, i)) infos"
    "declared_total infos \<le> al_max_total_uncompressed_bytes limits" "int (length infos) \<le> al_max_entries limits"
    "\<forall>i\<in>set infos. portable_name (raw_member_name i) (is_dir i)"
    using v(3) unfolding members_accepted [OF assms(1)] by (auto simp: sound_member_def)
  have "\<not> is_dir own"
    using v(4) by (auto simp: core_infos_def core_names_def map_sum_Inr Let_def split: if_splits option.splits)
  from contents_vouched [OF sound(2,1,5) v(4) this v(5)] obtain content points chars where c:
    "own \<in> set infos" "raw_member_name own = core_path lib expected ''RECORD''"
    "streams_as lib bytes own content" "utf8_decode content = Some points" "text_of_points points = Some chars"
    "list_all (\<lambda>info. info = own \<or> is_dir info \<or> accounted lib bytes chars info) infos"
    "rep_total_uncompressed_bytes report = declared_total infos" "rep_entry_count report = int (length infos)"
    "\<exists>wheel. parse_wheel lib wheel expected = Inr (rep_tags report)"
    "\<exists>metadata. parse_metadata lib metadata expected = Inr (rep_identity report)" by blast
  have "set (rep_tags report) = set (dw_tags expected)"
    using c(9) parse_wheel_Inr by blast
  moreover have "wi_name (rep_identity report) = pkg_canonicalize (li_packaging lib) (dw_package expected)"
    "same_version (wi_version (rep_identity report)) (dw_version expected)"
    using c(10) parse_metadata_Inr by blast+
  ultimately show ?thesis
    using digest v(1,2) sound(1,3,4) c(1-8)
    by (intro exI [of _ bytes] exI [of _ infos] exI [of _ own] exI [of _ content] exI [of _ points] exI [of _ chars]) simp
qed

end
