(* ===== verification/ArchiveWitness.thy ===== *)
theory ArchiveWitness
  imports ArchiveReport "HOL-Library.Code_Target_Nat"
begin

section \<open>A wheel that validates\<close>

text \<open>
  A small wheel \<open>a-1.0-py3-none-any.whl\<close> with one module, and simple libraries for it: a digest that is the
  length repeated, and a parser of lines \<open>name: value\<close>.
\<close>

definition simple_digest :: "nat list \<Rightarrow> nat list" where
  "simple_digest content = replicate 32 (length content mod 256)"

definition text_bytes :: "string list \<Rightarrow> nat list" where
  "text_bytes ls = utf8_encode (concat (map (\<lambda>l. l @ [CHR 0x0A]) ls))"

definition simple_headers :: "nat list \<Rightarrow> (bool \<times> (string \<times> string) list) option" where
  "simple_headers value = (case Option.bind (utf8_decode value) text_of_points of
     None \<Rightarrow> None
   | Some t \<Rightarrow> Some (False, map (\<lambda>l. (takeWhile (\<lambda>c. c \<noteq> CHR '':'') l, drop (length (takeWhile (\<lambda>c. c \<noteq> CHR '':'') l) + 2) l))
       (splitlines t)))"

definition py3_tag :: Tag where
  "py3_tag = \<lparr>tag_interpreter = ''py3'', tag_abi = ''none'', tag_platform = ''any''\<rparr>"

definition wheel_files :: "(string \<times> nat list) list" where
  "wheel_files =
    (let metadata = text_bytes [''Name: a'', ''Version: 1.0'']; wheel = text_bytes [''Wheel-Version: 1.0'', ''Tag: py3-none-any''];
         module = text_bytes [''x = 1'']
     in [(''a.py'', module), (''a-1.0.dist-info/METADATA'', metadata), (''a-1.0.dist-info/WHEEL'', wheel),
         (''a-1.0.dist-info/RECORD'', text_bytes
           [''a.py,'' @ digest_text (simple_digest module) @ '',6'',
            ''a-1.0.dist-info/METADATA,'' @ digest_text (simple_digest metadata) @ '',21'',
            ''a-1.0.dist-info/WHEEL,'' @ digest_text (simple_digest wheel) @ '',37'',
            ''a-1.0.dist-info/RECORD,,''])])"

definition file_info :: "string \<times> nat list \<Rightarrow> ZipInfo" where
  "file_info = (\<lambda>(name, content). \<lparr>zi_filename = name, zi_orig_filename = name, zi_flag_bits = 0, zi_volume = 0,
     zi_external_attr = 0, zi_file_size = int (length content), zi_compress_size = int (length content)\<rparr>)"

definition sample_library :: "nat archive_library" where
  "sample_library = \<lparr>li_infos = (\<lambda>_. Some (map file_info wheel_files)),
     li_stream = (\<lambda>_ info. (case map_of wheel_files (zi_filename info) of None \<Rightarrow> ([], True) | Some content \<Rightarrow> ([content], False))),
     li_sha256 = simple_digest, li_headers = simple_headers, li_parse_tag = (\<lambda>_. Some [py3_tag]),
     li_packaging = sample_packaging\<rparr>"

text \<open>An end record without members is enough: the members come from the library.\<close>

definition sample_bytes :: "nat list" where
  "sample_bytes = [80, 75, 5, 6] @ replicate 18 0"

definition sample_download :: "nat DownloadedWheel" where
  "sample_download = \<lparr>dw_package = ''a'', dw_version = the (sample_version ''1.0''), dw_filename = ''a-1.0-py3-none-any.whl'',
     dw_path = ''/w/a-1.0-py3-none-any.whl'', dw_source = PYPI, dw_byte_size = 22,
     dw_sha256 = hexdigest (simple_digest sample_bytes), dw_tags = [py3_tag]\<rparr>"

definition sample_view :: descriptor_view where
  "sample_view = \<lparr>dv_regular = True, dv_links = 1, dv_identity = (1, 2), dv_size = 22, dv_offset = 0,
     dv_blocks = [sample_bytes], dv_raises = False\<rparr>"

definition archive_limits :: ArchiveLimits where
  "archive_limits = \<lparr>al_max_entries = 100, al_max_total_uncompressed_bytes = 10000, al_max_entry_uncompressed_bytes = 1000,
     al_max_compression_ratio = 100\<rparr>"

abbreviation sample_validation :: "archive_error + nat ArchiveValidationReport" where
  "sample_validation \<equiv> validate_wheel_archive_descriptor sample_library sample_download archive_limits
     ''a-1.0-py3-none-any.whl'' sample_view None (1, 2) (Some sample_view)"

lemma archive_limits_valid: "archive_limits_ok archive_limits"
  by (simp add: archive_limits_ok_def archive_limits_def)

lemma sample_validates: "case sample_validation of Inl _ \<Rightarrow> False | Inr _ \<Rightarrow> True"
  by code_simp

lemma sample_members: "\<exists>members. validate_archive_members (map file_info wheel_files) archive_limits = Inr members \<and> length members = 4"
proof -
  have "case validate_archive_members (map file_info wheel_files) archive_limits of Inl _ \<Rightarrow> False | Inr members \<Rightarrow> length members = 4"
    by code_simp
  then show ?thesis by (auto split: sum.splits)
qed

theorem members_accepted_iff_witness:
  "disjoint_members (map file_info wheel_files)"
proof -
  obtain members where "validate_archive_members (map file_info wheel_files) archive_limits = Inr members"
    using sample_members by blast
  then show ?thesis using members_accepted_iff [OF archive_limits_valid] by blast
qed

theorem members_extract_safely_witness:
  "\<exists>members place. validate_archive_members (map file_info wheel_files) archive_limits = Inr members \<and> length members = 4 \<and>
     distinct (map (\<lambda>(path, _). map casefold (place path)) members)"
proof -
  obtain members where m: "validate_archive_members (map file_info wheel_files) archive_limits = Inr members" "length members = 4"
    using sample_members by blast
  from members_extract_safely [OF archive_limits_valid m(1)] m show ?thesis by blast
qed

theorem archive_report_vouches_witness:
  "\<exists>report. sample_validation = Inr report \<and> set (rep_tags report) = {py3_tag}"
proof -
  obtain report where r: "sample_validation = Inr report"
    using sample_validates by (auto split: sum.splits)
  have "set (rep_tags report) = set (dw_tags sample_download)"
    using archive_report_vouches [OF archive_limits_valid r] by blast
  with r show ?thesis by (simp add: sample_download_def)
qed

end
