(* ===== verification/Artifact.thy ===== *)
theory Artifact
  imports ArchiveValidation Closure Requirements Uuids
begin

section \<open>The contents of an artifact (\<open>artifact/builder.py\<close>)\<close>

text \<open>
  What the builder checks of its context and the files it puts beside the wheels: the manifest, the pinned
  requirements, the comparison as csv, the report as html, the scripts and the checksums.  \<open>Raised\<close> is an
  exception of another class.  Opening a wheel's snapshot is a parameter of the archive's writer.
\<close>

datatype build_error = ArtifactBuildError string | FileExists string | Raised string

record 'k ValidatedWheel =
  vw_download :: "'k DownloadedWheel"
  vw_report :: "'k ArchiveValidationReport"
  vw_snapshot :: "(string \<times> ValidatedWheelSnapshot) option"

record 'k ArtifactBuildContext =
  ac_build_id :: string
  ac_original_requirements :: string
  ac_resolution :: "'k ResolutionResult"
  ac_version_changes :: "'k VersionChange list"
  ac_target :: TargetProfile
  ac_validation :: StaticValidationReport
  ac_wheels :: "'k ValidatedWheel list"

subsection \<open>Paths of the archive\<close>

text \<open>The parts of \<open>PurePosixPath\<close>; its text joins them, an absolute path keeps its root.\<close>

definition posix_parts :: "string \<Rightarrow> string list" where
  "posix_parts path = filter (\<lambda>p. p \<noteq> [] \<and> p \<noteq> ''.'') (split_on CHR ''/'' path)"

definition safe_zip_path :: "string \<Rightarrow> bool" where
  "safe_zip_path path \<longleftrightarrow>
     path \<noteq> [] \<and> CHR 0x5C \<notin> set path \<and> list_all (\<lambda>c. 32 \<le> code c) path \<and>
     (let parts = posix_parts path in
      \<not> startswith path ''/'' \<and> parts \<noteq> [] \<and> list_all (\<lambda>part. part \<notin> {[], ''.'', ''..''}) parts \<and>
      CHR '':'' \<notin> set (hd parts) \<and> join_with ''/'' parts = path)"

text \<open>\<open>[0-9a-f]{64}\Z\<close> and \<open>[A-Za-z0-9][A-Za-z0-9_.+-]*\.whl\Z\<close>.\<close>

definition lower_hex :: "char \<Rightarrow> bool" where
  "lower_hex c \<longleftrightarrow> is_digit c \<or> (97 \<le> code c \<and> code c \<le> 102)"

definition sha256_text :: "string \<Rightarrow> bool" where
  "sha256_text s \<longleftrightarrow> length s = 64 \<and> list_all lower_hex s"

definition ascii_alnum :: "char \<Rightarrow> bool" where
  "ascii_alnum c \<longleftrightarrow> is_alpha c \<or> is_digit c"

definition safe_wheel :: "string \<Rightarrow> bool" where
  "safe_wheel s \<longleftrightarrow> endswith s ''.whl'' \<and> 4 < length s \<and> ascii_alnum (hd s) \<and>
     list_all (\<lambda>c. ascii_alnum c \<or> c \<in> set ''_.+-'') s"

subsection \<open>The context\<close>

definition validate_pair :: "'k archive_library \<Rightarrow> 'k ValidatedWheel \<Rightarrow> build_error + unit" where
  "validate_pair lib item =
     (let download = vw_download item; identity = rep_identity (vw_report item);
          canonicalize = pkg_canonicalize (li_packaging lib);
          disagree = Inl (ArtifactBuildError ''download and archive validation report disagree'')
      in case vw_snapshot item of
           None \<Rightarrow> Inl (ArtifactBuildError ''validated Wheel snapshot is required'')
         | Some (name, snapshot) \<Rightarrow> (case pkg_wheel (li_packaging lib) (dw_filename download) of
             None \<Rightarrow> disagree
           | Some wheel \<Rightarrow>
               if canonicalize (dw_package download) \<noteq> canonicalize (wi_name identity)
                 \<or> canonicalize (wn_name wheel) \<noteq> canonicalize (dw_package download)
                 \<or> \<not> same_version (dw_version download) (wi_version identity)
                 \<or> \<not> same_version (wn_version wheel) (dw_version download)
                 \<or> set (wn_tags wheel) \<noteq> set (dw_tags download)
                 \<or> dw_filename download \<noteq> name
                 \<or> dw_byte_size download \<noteq> vs_byte_size snapshot
                 \<or> dw_sha256 download \<noteq> vs_sha256 snapshot
                 \<or> set (dw_tags download) \<noteq> set (rep_tags (vw_report item))
                 \<or> \<not> sha256_text (dw_sha256 download)
                 \<or> \<not> safe_wheel (dw_filename download)
               then disagree else Inr ()))"

text \<open>Equality of version changes: versions compare by their keys.\<close>

definition change_identity :: "'k VersionChange \<Rightarrow>
    (string \<times> VersionChangeKind \<times> string) \<times> 'k option \<times> 'k option \<times> string \<times> PackageSource option" where
  "change_identity c = ((vc_package c, vc_kind c, vc_original_constraint c), map_option v_key (vc_original_version c),
     map_option v_key (vc_resolved_version c), vc_reason c, vc_source c)"

fun resolved_by_name ::
  "'k packaging \<Rightarrow> 'k ResolvedPackage list \<Rightarrow> (string \<times> 'k ResolvedPackage) list \<Rightarrow>
     build_error + (string \<times> 'k ResolvedPackage) list" where
  "resolved_by_name P [] resolved = Inr resolved"
| "resolved_by_name P (package # packages) resolved =
     (let name = pkg_canonicalize P (pk_name package) in
      if name \<in> fst ` set resolved
      then Inl (ArtifactBuildError ''resolved package identities must be unique'')
      else resolved_by_name P packages (resolved @ [(name, package)]))"

definition package_path :: "'k ValidatedWheel \<Rightarrow> string" where
  "package_path item = ''packages/'' @ dw_filename (vw_download item)"

text \<open>The loop over the wheels with the names and the folded paths so far.\<close>

fun check_wheels ::
  "'k archive_library \<Rightarrow> (string \<times> 'k ResolvedPackage) list \<Rightarrow> 'k ValidatedWheel list \<Rightarrow> string list \<Rightarrow> string list \<Rightarrow>
     build_error + string list" where
  "check_wheels lib resolved [] packaged_names portable_paths = Inr packaged_names"
| "check_wheels lib resolved (item # items) packaged_names portable_paths =
     (case validate_pair lib item of
        Inl e \<Rightarrow> Inl e
      | Inr _ \<Rightarrow>
          (let name = pkg_canonicalize (li_packaging lib) (dw_package (vw_download item));
               key = ArchiveMembers.casefold (package_path item)
           in if name \<in> set packaged_names then Inl (ArtifactBuildError ''validated package identities are inconsistent'')
              else (case map_of resolved name of
                  None \<Rightarrow> Inl (ArtifactBuildError ''validated package identities are inconsistent'')
                | Some package \<Rightarrow>
                    if \<not> same_version (dw_version (vw_download item)) (pk_version package)
                    then Inl (ArtifactBuildError ''closure validation package version mismatch'')
                    else if dw_filename (vw_download item) \<noteq> pk_wheel_filename package
                    then Inl (ArtifactBuildError ''resolved Wheel filename does not match validation'')
                    else if key \<in> set portable_paths \<or> \<not> safe_zip_path (package_path item)
                    then Inl (ArtifactBuildError ''validated Wheel path is unsafe or duplicate'')
                    else check_wheels lib resolved items (packaged_names @ [name]) (portable_paths @ [key]))))"

definition validate_context ::
  "('k :: linorder) archive_library \<Rightarrow> 'k ArtifactBuildContext \<Rightarrow> build_error + StaticValidationReport" where
  "validate_context lib context =
     (if canonical_uuid (ac_build_id context) \<noteq> Some (ac_build_id context)
      then Inl (ArtifactBuildError ''build identifier must be a canonical UUID'')
      else if tp_os (ac_target context) \<notin> {''LINUX'', ''WINDOWS''}
      then Inl (ArtifactBuildError ''artifact target OS is unsupported'')
      else if map change_identity (ac_version_changes context) \<noteq> map change_identity (rr_changes (ac_resolution context))
      then Inl (ArtifactBuildError ''version comparison does not match resolution changes'')
      else (case resolved_by_name (li_packaging lib) (rr_packages (ac_resolution context)) [] of
          Inl e \<Rightarrow> Inl e
        | Inr resolved \<Rightarrow> (case check_wheels lib resolved (ac_wheels context) [] [] of
            Inl e \<Rightarrow> Inl e
          | Inr packaged_names \<Rightarrow>
              if sv_complete (ac_validation context) \<and> set packaged_names \<noteq> fst ` set resolved
              then Inl (ArtifactBuildError ''complete validation requires every resolved Wheel'')
              else (case validate_closure (li_packaging lib) (ac_resolution context)
                  (map vw_download (ac_wheels context)) (ac_target context) of
                None \<Rightarrow> Inl (Raised ''KeyError'')
              | Some recomputed \<Rightarrow>
                  if recomputed \<noteq> ac_validation context
                  then Inl (ArtifactBuildError ''closure validation report does not match recomputed result'')
                  else Inr recomputed))))"

subsection \<open>What the archive is to hold\<close>

record IntendedPackage =
  ip_name :: string
  ip_version :: string
  ip_sha256 :: string
  ip_packaged :: bool

definition packaged_by_name :: "'k packaging \<Rightarrow> 'k ArtifactBuildContext \<Rightarrow> (string \<times> 'k ValidatedWheel) list" where
  "packaged_by_name P context =
     dict_of (map (\<lambda>item. (pkg_canonicalize P (dw_package (vw_download item)), item)) (ac_wheels context))"

definition resolver_sha256 :: "ArchiveHash list \<Rightarrow> build_error + string" where
  "resolver_sha256 hashes =
     (case remdups (map (\<lambda>item. map lower (ah_value item)) (filter (\<lambda>item.
        map lower (ah_algorithm item) = ''sha256'' \<and> sha256_text (map lower (ah_value item))) hashes)) of
        [v] \<Rightarrow> Inr v
      | _ \<Rightarrow> Inl (ArtifactBuildError ''missing package requires one unambiguous resolver SHA-256''))"

fun intend_packages ::
  "'k packaging \<Rightarrow> (string \<times> 'k ValidatedWheel) list \<Rightarrow> 'k ResolvedPackage list \<Rightarrow> build_error + IntendedPackage list" where
  "intend_packages P packaged [] = Inr []"
| "intend_packages P packaged (package # packages) =
     (let name = pkg_canonicalize P (pk_name package); wheel = map_of packaged name in
      case (case wheel of Some w \<Rightarrow> Inr (dw_sha256 (vw_download w)) | None \<Rightarrow> resolver_sha256 (pk_archive_hashes package)) of
        Inl e \<Rightarrow> Inl e
      | Inr digest \<Rightarrow> map_sum id (Cons \<lparr>ip_name = name, ip_version = v_str (pk_version package), ip_sha256 = digest,
          ip_packaged = (wheel \<noteq> None)\<rparr>) (intend_packages P packaged packages))"

definition intended_packages ::
  "'k packaging \<Rightarrow> 'k ArtifactBuildContext \<Rightarrow> (string \<times> 'k ValidatedWheel) list \<Rightarrow> build_error + IntendedPackage list" where
  "intended_packages P context packaged =
     intend_packages P packaged (sort_key (\<lambda>item. pkg_canonicalize P (pk_name item)) (rr_packages (ac_resolution context)))"

subsection \<open>The manifest\<close>

definition STATIC_VALIDATION_MESSAGE :: string where
  "STATIC_VALIDATION_MESSAGE = ''Static compatibility checks passed; target installation was not verified.''"

definition json_members :: "(string \<times> pyval) list \<Rightarrow> pyval" where
  "json_members kvs = VDict (map (\<lambda>(k, v). (KStr k, v)) kvs)"

definition packaged_value :: "string \<times> 'k ValidatedWheel \<Rightarrow> pyval" where
  "packaged_value = (\<lambda>(name, item). json_members
     [(''name'', VStr name), (''version'', VStr (v_str (dw_version (vw_download item)))),
      (''filename'', VStr (dw_filename (vw_download item))), (''path'', VStr (package_path item)),
      (''size'', VInt (dw_byte_size (vw_download item))), (''sha256'', VStr (dw_sha256 (vw_download item)))])"

definition intended_value :: "IntendedPackage \<Rightarrow> pyval" where
  "intended_value p = json_members
     [(''name'', VStr (ip_name p)), (''version'', VStr (ip_version p)), (''sha256'', VStr (ip_sha256 p)),
      (''packaged'', VBool (ip_packaged p))]"

definition issue_key :: "ValidationIssue \<Rightarrow> string \<times> string \<times> string \<times> nat \<times> string" where
  "issue_key i = (issue_value (vi_code i), vi_package i, vi_detail i,
     (case vi_filename i of None \<Rightarrow> (0, []) | Some filename \<Rightarrow> (1, filename)))"

definition sorted_issues :: "'k ArtifactBuildContext \<Rightarrow> ValidationIssue list" where
  "sorted_issues context = sort_key issue_key (sv_issues (ac_validation context))"

definition issue_json :: "ValidationIssue \<Rightarrow> pyval" where
  "issue_json i = json_members
     [(''code'', VStr (issue_value (vi_code i))), (''package'', VStr (vi_package i)), (''detail'', VStr (vi_detail i)),
      (''filename'', (case vi_filename i of None \<Rightarrow> VNone | Some filename \<Rightarrow> VStr filename))]"

definition manifest_value ::
  "'k ArtifactBuildContext \<Rightarrow> IntendedPackage list \<Rightarrow> (string \<times> 'k ValidatedWheel) list \<Rightarrow> bool \<Rightarrow> pyval" where
  "manifest_value context intended packaged complete = json_members
     [(''buildId'', VStr (ac_build_id context)), (''complete'', VBool complete), (''installVerified'', VBool False),
      (''intendedPackages'', VList (map intended_value intended)),
      (''packagedWheels'', VList (map packaged_value (sort_key fst packaged))),
      (''target'', json_members [(''os'', VStr (tp_os (ac_target context))),
         (''architecture'', VStr (tp_architecture (ac_target context))),
         (''pythonVersion'', VStr (tp_python_version (ac_target context)))]),
      (''validationIssues'', VList (map issue_json (sorted_issues context))),
      (''validationLevel'', VStr ''STATIC''), (''validationMessage'', VStr STATIC_VALIDATION_MESSAGE)]"

text \<open>\<open>json.dumps\<close> with \<open>ensure_ascii=False\<close>, sorted keys and no spaces: only quotes, backslashes and
  controls are escaped.\<close>

definition raw_escape :: "char \<Rightarrow> string" where
  "raw_escape c = (if 126 < code c then [c] else escape_char c)"

definition raw_quoted :: "string \<Rightarrow> string" where
  "raw_quoted s = CHR 0x22 # concat (map raw_escape s) @ [CHR 0x22]"

fun raw_dumps :: "pyval \<Rightarrow> string" where
  "raw_dumps (VStr s) = raw_quoted s"
| "raw_dumps (VList vs) = ''['' @ join_with '','' (map raw_dumps vs) @ '']''"
| "raw_dumps (VDict kvs) = ''{'' @ join_with '','' (map snd (sort_key fst
     (map (\<lambda>(k, v). (key_text k, raw_quoted (key_text k) @ '':'' @ raw_dumps v)) kvs))) @ ''}''"
| "raw_dumps v = dumps_sorted v"

subsection \<open>The texts\<close>

definition text_bytes :: "string \<Rightarrow> nat list" where
  "text_bytes s = utf8_encode (normalize_newlines s)"

definition text_lines :: "string list \<Rightarrow> string" where
  "text_lines ls = concat (map (\<lambda>l. l @ [newline]) ls)"

definition readme :: "bool \<Rightarrow> string" where
  "readme complete = text_lines [''# WheelForge offline artifact'', [],
     ''Status: '' @ (if complete then ''COMPLETE'' else ''PARTIAL - NOT INSTALLABLE''), [], STATIC_VALIDATION_MESSAGE]"

definition requirement_line :: "IntendedPackage \<Rightarrow> string" where
  "requirement_line p = ip_name p @ ''=='' @ ip_version p @ '' --hash=sha256:'' @ ip_sha256 p"

definition version_text :: "'k Version option \<Rightarrow> string" where
  "version_text v = (case v of None \<Rightarrow> [] | Some w \<Rightarrow> v_str w)"

definition source_text :: "PackageSource option \<Rightarrow> string" where
  "source_text s = (case s of None \<Rightarrow> [] | Some p \<Rightarrow> source_value p)"

definition change_row :: "'k packaging \<Rightarrow> 'k VersionChange \<Rightarrow> string list" where
  "change_row P change = [pkg_canonicalize P (vc_package change), vc_original_constraint change,
     version_text (vc_original_version change), version_text (vc_resolved_version change),
     change_value (vc_kind change), source_text (vc_source change), vc_reason change]"

text \<open>\<open>_version_change_key\<close> is the tuple of the row's fields; lists of equal length compare like tuples.\<close>

definition sorted_changes :: "'k packaging \<Rightarrow> 'k ArtifactBuildContext \<Rightarrow> 'k VersionChange list" where
  "sorted_changes P context = sort_key (change_row P) (ac_version_changes context)"

text \<open>\<open>csv.writer\<close> with minimal quoting and the line terminator \<open>\n\<close>.\<close>

definition csv_field :: "string \<Rightarrow> string" where
  "csv_field s =
     (if list_ex (\<lambda>c. c = CHR '','' \<or> c = DQUOTE \<or> c = newline) s
      then [DQUOTE] @ concat (map (\<lambda>c. if c = DQUOTE then [DQUOTE, DQUOTE] else [c]) s) @ [DQUOTE] else s)"

definition csv_row :: "string list \<Rightarrow> string" where
  "csv_row row = join_with '','' (map csv_field row) @ [newline]"

definition comparison_csv :: "'k packaging \<Rightarrow> 'k ArtifactBuildContext \<Rightarrow> nat list" where
  "comparison_csv P context = text_bytes (concat (map csv_row
     ([''package'', ''original_constraint'', ''original_version'', ''resolved_version'', ''change_kind'', ''source'', ''reason'']
      # map (change_row P) (sorted_changes P context))))"

text \<open>\<open>html.escape(quote=True)\<close>\<close>

definition html_char :: "char \<Rightarrow> string" where
  "html_char c = (if c = CHR ''&'' then ''&amp;'' else if c = CHR ''<'' then ''&lt;'' else if c = CHR ''>'' then ''&gt;''
     else if c = DQUOTE then ''&quot;'' else if c = CHR 0x27 then ''&#x27;'' else [c])"

definition html_escape :: "string \<Rightarrow> string" where
  "html_escape s = concat (map html_char s)"

definition html_cells :: "'k packaging \<Rightarrow> 'k VersionChange \<Rightarrow> string list" where
  "html_cells P change = [pkg_canonicalize P (vc_package change), vc_original_constraint change,
     version_text (vc_resolved_version change), change_value (vc_kind change), source_text (vc_source change),
     vc_reason change]"

definition html_row :: "string list \<Rightarrow> string" where
  "html_row cells = ''<tr>'' @ concat (map (\<lambda>v. ''<td>'' @ html_escape v @ ''</td>'') cells) @ ''</tr>''"

definition html_issue :: "ValidationIssue \<Rightarrow> string" where
  "html_issue i = ''<li>'' @ html_escape (issue_value (vi_code i) @ '': '' @ vi_package i @ '': '' @ vi_detail i) @ ''</li>''"

definition html_document :: "string \<Rightarrow> string" where
  "html_document body = ''<!doctype html><html><head><meta charset='' @ [DQUOTE] @ ''utf-8'' @ [DQUOTE] @
     ''><title>WheelForge build report</title></head>'' @ body @ ''</html>'' @ [newline]"

definition html_report :: "'k packaging \<Rightarrow> 'k ArtifactBuildContext \<Rightarrow> bool \<Rightarrow> string" where
  "html_report P context complete =
     (let status = (if complete then ''Complete artifact'' else ''Partial artifact - not installable'');
          changes = concat (map (\<lambda>c. html_row (html_cells P c)) (sorted_changes P context));
          listed = concat (map html_issue (sorted_issues context));
          issues = (if listed = [] then ''<li>None</li>'' else listed);
          body = ''<body><h1>'' @ status @ ''</h1><p>'' @ html_escape STATIC_VALIDATION_MESSAGE @
            ''</p><h2>Dependency version comparison</h2><table><thead><tr><th>Package</th><th>Original</th>'' @
            ''<th>Resolved</th><th>Change</th><th>Source</th><th>Reason</th></tr></thead><tbody>'' @ changes @
            ''</tbody></table><h2>Static validation issues</h2><ul>'' @ issues @ ''</ul></body></html>'' @ [newline]
      in html_document (removesuffix body (''</html>'' @ [newline])))"


subsection \<open>The scripts\<close>

definition MISSING_DIRECTORY :: string where
  "MISSING_DIRECTORY = ''{ echo 'Artifact directory is unavailable' >&2; exit 1; }''"

definition linux_location :: "string list" where
  "linux_location = [''#!/bin/sh'', ''set -eu'',
     ''SCRIPT_DIR=$(CDPATH= cd -P -- \"$(dirname -- \"$0\")\" && pwd) || '' @ MISSING_DIRECTORY,
     ''cd -- \"$SCRIPT_DIR\" || '' @ MISSING_DIRECTORY]"

definition PIP_INSTALL :: string where
  "PIP_INSTALL = ''python -m pip install --no-index --find-links packages --require-hashes -r requirements-resolved.txt''"

definition python_tuple :: "string \<Rightarrow> string" where
  "python_tuple version = concat (map (\<lambda>c. if c = CHR ''.'' then '', '' else [c]) version)"

definition linux_checks :: "string \<Rightarrow> string \<Rightarrow> string list" where
  "linux_checks machine version = linux_location @
    [''[ \"$(uname -s)\" = \"Linux\" ] || { echo 'Target OS mismatch' >&2; exit 1; }'',
     ''[ \"$(uname -m)\" = \"'' @ machine @ ''\" ] || { echo 'Target architecture mismatch' >&2; exit 1; }'',
     ''python -c \"import sys; raise SystemExit(sys.version_info[:2] != ('' @ python_tuple version @
       ''))\" || { echo 'Target Python mismatch' >&2; exit 1; }'']"

text \<open>The install and the verify script.\<close>

definition linux_scripts :: "TargetProfile \<Rightarrow> bool \<Rightarrow> build_error + (string \<times> string)" where
  "linux_scripts target complete =
     (if \<not> complete then
        (let failure = text_lines (linux_location @
           [''echo 'Incomplete artifact: installation is unavailable.' >&2'', ''exit 1''])
         in Inr (failure, failure))
      else (case map_of [(''X86_64'', ''x86_64''), (''AARCH64'', ''aarch64'')] (tp_architecture target) of
          None \<Rightarrow> Inl (Raised ''KeyError'')
        | Some machine \<Rightarrow>
            (let checks = linux_checks machine (tp_python_version target)
             in Inr (text_lines (checks @ [PIP_INSTALL]),
                  text_lines (checks @ [''sha256sum -c checksums.sha256'', ''python -m pip check''])))))"

definition crlf_lines :: "string list \<Rightarrow> string" where
  "crlf_lines ls = concat (map (\<lambda>l. l @ [carriage_return, newline]) ls)"

definition windows_location :: "string list" where
  "windows_location = [''@echo off'', ''setlocal'',
     ''cd /d \"%~dp0\" || (echo Artifact directory is unavailable 1>&2 & exit /b 1)'']"

definition windows_checks :: "string \<Rightarrow> string \<Rightarrow> string \<Rightarrow> string list" where
  "windows_checks machine major minor = windows_location @
    [''if /I not \"%OS%\"==\"Windows_NT\" (echo Target OS mismatch 1>&2 & exit /b 1)'',
     ''python -c \"import platform,sys; raise SystemExit(platform.machine().upper() != '' @ [CHR 0x27] @ machine @ [CHR 0x27] @
       '' or sys.version_info[:2] != ('' @ major @ '', '' @ minor @ ''))\"'',
     ''if errorlevel 1 (echo Target architecture or Python mismatch 1>&2 & exit /b 1)'']"

definition windows_scripts :: "TargetProfile \<Rightarrow> bool \<Rightarrow> build_error + (string \<times> string)" where
  "windows_scripts target complete =
     (if \<not> complete then
        (let failure = crlf_lines (windows_location @
           [''echo Incomplete artifact: installation is unavailable. 1>&2'', ''exit /b 1''])
         in Inr (failure, failure))
      else (case map_of [(''AMD64'', ''AMD64''), (''ARM64'', ''ARM64'')] (tp_architecture target) of
          None \<Rightarrow> Inl (Raised ''KeyError'')
        | Some machine \<Rightarrow> (case major_minor (tp_python_version target) of
            None \<Rightarrow> Inl (Raised ''ValueError'')
          | Some (major, minor) \<Rightarrow>
              (let checks = windows_checks machine major minor
               in Inr (crlf_lines (checks @ [PIP_INSTALL]), crlf_lines (checks @ [''python -m pip check'']))))))"

definition scripts :: "TargetProfile \<Rightarrow> bool \<Rightarrow> build_error + (string \<times> nat list) list" where
  "scripts target complete =
     (if tp_os target = ''LINUX''
      then map_sum id (\<lambda>(install, verify). [(''install.sh'', text_bytes install), (''verify.sh'', text_bytes verify)])
        (linux_scripts target complete)
      else map_sum id (\<lambda>(install, verify). [(''install.bat'', text_bytes install), (''verify.bat'', text_bytes verify)])
        (windows_scripts target complete))"

subsection \<open>The plan of an archive\<close>

definition text_entries ::
  "'k packaging \<Rightarrow> 'k ArtifactBuildContext \<Rightarrow> IntendedPackage list \<Rightarrow> pyval \<Rightarrow> bool \<Rightarrow>
     build_error + (string \<times> nat list) list" where
  "text_entries P context intended manifest complete =
     map_sum id (\<lambda>scripted.
       [(''README.md'', text_bytes (readme complete)),
        (''requirements-original.txt'', text_bytes (ac_original_requirements context)),
        (''requirements-resolved.txt'', text_bytes (text_lines (map requirement_line intended))),
        (''version-comparison.csv'', comparison_csv P context),
        (''build-report.html'', text_bytes (html_report P context complete)),
        (''manifest.json'', text_bytes (raw_dumps manifest @ [newline]))] @ scripted)
       (scripts (ac_target context) complete)"

definition checksum_line :: "string \<times> string \<Rightarrow> string" where
  "checksum_line = (\<lambda>(path, digest). digest @ ''  '' @ path)"

definition checksum_text :: "(string \<times> string) list \<Rightarrow> string" where
  "checksum_text hashes = text_lines (map checksum_line (sort_key fst hashes))"

text \<open>What \<open>_build\<close> prepares: the files with their bytes, the wheels by path, the digest of every path except
  the checksums, and the manifest.\<close>

record 'k artifact_plan =
  pl_complete :: bool
  pl_intended :: "IntendedPackage list"
  pl_entries :: "(string \<times> nat list) list"
  pl_packages :: "(string \<times> 'k ValidatedWheel) list"
  pl_hashes :: "(string \<times> string) list"
  pl_manifest :: pyval

definition plan_hashes ::
  "'k archive_library \<Rightarrow> (string \<times> nat list) list \<Rightarrow> (string \<times> 'k ValidatedWheel) list \<Rightarrow> (string \<times> string) list" where
  "plan_hashes lib entries packages =
     fold (\<lambda>(path, item) d. dict_put path (dw_sha256 (vw_download item)) d) packages
       (map (\<lambda>(path, content). (path, hexdigest (li_sha256 lib content))) entries)"

definition plan_artifact ::
  "('k :: linorder) archive_library \<Rightarrow> 'k ArtifactBuildContext \<Rightarrow> StaticValidationReport \<Rightarrow> build_error + 'k artifact_plan" where
  "plan_artifact lib context validation =
     (let P = li_packaging lib; packaged = packaged_by_name P context in
      case intended_packages P context packaged of
        Inl e \<Rightarrow> Inl e
      | Inr intended \<Rightarrow>
          (let complete = (sv_complete validation \<and> length packaged = length intended);
               manifest = manifest_value context intended packaged complete
           in case text_entries P context intended manifest complete of
                Inl e \<Rightarrow> Inl e
              | Inr entries \<Rightarrow>
                  (let packages = dict_of (map (\<lambda>(_, item). (package_path item, item)) packaged);
                       hashes = plan_hashes lib entries packages
                   in Inr \<lparr>pl_complete = complete, pl_intended = intended,
                        pl_entries = dict_put ''checksums.sha256'' (text_bytes (checksum_text hashes)) entries,
                        pl_packages = packages, pl_hashes = hashes, pl_manifest = manifest\<rparr>)))"


end
