(* ===== verification/ArtifactBuild.thy ===== *)
theory ArtifactBuild
  imports Artifact
begin

section \<open>Building an artifact (\<open>artifact/builder.py\<close>)\<close>

text \<open>
  Writing the archive to a private stage, verifying what the stage holds, and publishing it without
  replacing anything.  The calls of the publication backend and of the file system may raise; what the stage
  holds at a call, the zipfile library and the wheels' snapshots are the record \<open>artifact_world\<close>.
\<close>

subsection \<open>Archives\<close>

record zip_entry =
  ze_name :: string
  ze_date_time :: "nat list"
  ze_create_system :: nat
  ze_compress_type :: nat
  ze_mode :: nat
  ze_content :: "nat list"

definition ZIP_TIMESTAMP :: "nat list" where "ZIP_TIMESTAMP = [1980, 1, 1, 0, 0, 0]"
definition FILE_MODE :: nat where "FILE_MODE = 33188"
definition SCRIPT_MODE :: nat where "SCRIPT_MODE = 33261"
definition ZIP_DEFLATED :: nat where "ZIP_DEFLATED = 8"

definition is_script :: "string \<Rightarrow> bool" where
  "is_script path \<longleftrightarrow> endswith path ''.sh'' \<or> endswith path ''.bat''"

definition entry_mode :: "string \<Rightarrow> nat" where
  "entry_mode path = (if is_script path then SCRIPT_MODE else FILE_MODE)"

text \<open>\<open>_zip_info\<close> with the content that is written under it; \<open>ze_mode\<close> is \<open>external_attr >> 16\<close>.\<close>

definition make_entry :: "string \<Rightarrow> nat list \<Rightarrow> zip_entry" where
  "make_entry path content = \<lparr>ze_name = path, ze_date_time = ZIP_TIMESTAMP, ze_create_system = 3,
     ze_compress_type = ZIP_DEFLATED, ze_mode = entry_mode path, ze_content = content\<rparr>"

fun write_entries ::
  "(string \<times> nat list) list \<Rightarrow> (string \<times> 'k ValidatedWheel) list \<Rightarrow> ('k ValidatedWheel \<Rightarrow> build_error + nat list) \<Rightarrow>
     string list \<Rightarrow> build_error + zip_entry list" where
  "write_entries entries packages copy [] = Inr []"
| "write_entries entries packages copy (path # paths) =
     (if \<not> safe_zip_path path then Inl (ArtifactBuildError ''generated ZIP path is unsafe'')
      else (case (case map_of entries path of
            Some content \<Rightarrow> Inr content
          | None \<Rightarrow> (case map_of packages path of None \<Rightarrow> Inl (Raised ''KeyError'') | Some item \<Rightarrow> copy item)) of
          Inl e \<Rightarrow> Inl e
        | Inr content \<Rightarrow> map_sum id (Cons (make_entry path content)) (write_entries entries packages copy paths)))"

definition write_zip ::
  "(string \<times> nat list) list \<Rightarrow> (string \<times> 'k ValidatedWheel) list \<Rightarrow> ('k ValidatedWheel \<Rightarrow> build_error + nat list) \<Rightarrow>
     build_error + zip_entry list" where
  "write_zip entries packages copy = write_entries entries packages copy (sort (remdups (map fst entries @ map fst packages)))"

subsection \<open>Checking the stage\<close>

text \<open>\<open>line.partition("  ")\<close>: before the first pair of spaces, whether there is one, and the rest.\<close>

fun partition_spaces :: "string \<Rightarrow> string \<times> bool \<times> string" where
  "partition_spaces [] = ([], False, [])"
| "partition_spaces (c # s) =
     (if c = CHR '' '' \<and> take 1 s = '' '' then ([], True, drop 1 s)
      else (case partition_spaces s of (before, found, rest) \<Rightarrow> (c # before, found, rest)))"

fun parse_checksum_lines :: "string list \<Rightarrow> (string \<times> string) list \<Rightarrow> build_error + (string \<times> string) list" where
  "parse_checksum_lines [] result = Inr result"
| "parse_checksum_lines (line # ls) result =
     (case partition_spaces line of (digest, separator, path) \<Rightarrow>
        if \<not> separator \<or> \<not> sha256_text digest \<or> \<not> safe_zip_path path \<or> path \<in> fst ` set result
        then Inl (ArtifactBuildError ''staged ZIP checksum file is invalid'')
        else parse_checksum_lines ls (result @ [(path, digest)]))"

text \<open>A text with characters beyond the strings of the development is the error \<open>Raised\<close> of their name.\<close>

definition parse_checksums :: "nat list \<Rightarrow> build_error + (string \<times> string) list" where
  "parse_checksums content = (case utf8_decode content of
     None \<Rightarrow> Inl (ArtifactBuildError ''staged ZIP verification failed'')
   | Some points \<Rightarrow> (case text_of_points points of
       None \<Rightarrow> Inl (Raised ''OutsideText'')
     | Some text \<Rightarrow> parse_checksum_lines (splitlines text) []))"

text \<open>What zipfile shows of some bytes: the members, the content of a member by name (None when reading
  raises) and whether \<open>testzip\<close> names a bad one.\<close>

record zip_view =
  zv_infos :: "zip_entry list"
  zv_read :: "string \<Rightarrow> nat list option"
  zv_corrupt :: bool

fun verify_digests :: "'k archive_library \<Rightarrow> zip_view \<Rightarrow> (string \<times> string) list \<Rightarrow> build_error + unit" where
  "verify_digests lib view [] = Inr ()"
| "verify_digests lib view ((name, digest) # checksums) = (case zv_read view name of
     None \<Rightarrow> Inl (ArtifactBuildError ''staged ZIP verification failed'')
   | Some content \<Rightarrow>
       if hexdigest (li_sha256 lib content) \<noteq> digest
       then Inl (ArtifactBuildError ''staged ZIP checksum verification failed'')
       else verify_digests lib view checksums)"

definition entry_metadata_ok :: "zip_entry \<Rightarrow> bool" where
  "entry_metadata_ok info \<longleftrightarrow> ze_date_time info = ZIP_TIMESTAMP \<and> ze_create_system info = 3 \<and>
     ze_compress_type info = ZIP_DEFLATED \<and> ze_mode info = entry_mode (ze_name info)"

definition verify_zip ::
  "'k archive_library \<Rightarrow> zip_view option \<Rightarrow> string set \<Rightarrow> (string \<times> string) list \<Rightarrow> build_error + unit" where
  "verify_zip lib opened expected_names expected_hashes = (case opened of
     None \<Rightarrow> Inl (ArtifactBuildError ''staged ZIP verification failed'')
   | Some view \<Rightarrow>
       (let names = map ze_name (zv_infos view) in
        if \<not> distinct names \<or> set names \<noteq> expected_names
        then Inl (ArtifactBuildError ''staged ZIP member contract is invalid'')
        else if names \<noteq> sort names \<or> list_ex (\<lambda>name. \<not> safe_zip_path name) names
        then Inl (ArtifactBuildError ''staged ZIP paths are unsafe or unsorted'')
        else if list_ex (\<lambda>info. \<not> entry_metadata_ok info) (zv_infos view)
        then Inl (ArtifactBuildError ''staged ZIP member metadata is invalid'')
        else (case zv_read view ''checksums.sha256'' of
            None \<Rightarrow> Inl (ArtifactBuildError ''staged ZIP verification failed'')
          | Some content \<Rightarrow> (case parse_checksums content of
              Inl e \<Rightarrow> Inl e
            | Inr checksums \<Rightarrow>
                if fst ` set checksums \<noteq> expected_names - {''checksums.sha256''}
                then Inl (ArtifactBuildError ''staged ZIP checksum coverage is incomplete'')
                else if set checksums \<noteq> set expected_hashes
                then Inl (ArtifactBuildError ''staged ZIP does not contain expected content'')
                else (case verify_digests lib view checksums of
                    Inl e \<Rightarrow> Inl e
                  | Inr _ \<Rightarrow> if zv_corrupt view then Inl (ArtifactBuildError ''staged ZIP contains corrupt data'')
                      else Inr ())))))"

subsection \<open>Stage, verify, publish\<close>

text \<open>The calls of a build outside it, in the order of the code.\<close>

datatype build_call =
    ValidateOutput | FinalExists | OpenBackend | CreateStage | StageIdentity | WriteStage | RequireStage nat
  | VerifyStage | RequireOutput nat | HashStage | PublishStage
  | CleanupUnbound | CleanupStage | CloseDescriptor | CloseBackend | CleanupSnapshot string

record 'k artifact_world =
  aw_raises :: "build_call \<Rightarrow> build_error option"
  aw_exists :: bool
  aw_copy :: "'k ValidatedWheel \<Rightarrow> build_error + nat list"
  aw_zip_bytes :: "zip_entry list \<Rightarrow> nat list"
  aw_stage :: "build_call \<Rightarrow> nat list \<Rightarrow> nat list"
  aw_zip_view :: "nat list \<Rightarrow> zip_view option"

type_synonym 'a build = "build_call list \<Rightarrow> (build_error + 'a) \<times> build_call list"

definition finish :: "'a \<Rightarrow> 'a build" where "finish x calls = (Inr x, calls)"

definition failing :: "build_error + 'a \<Rightarrow> 'a build" where "failing r calls = (r, calls)"

definition and_then :: "'a build \<Rightarrow> ('a \<Rightarrow> 'b build) \<Rightarrow> 'b build" where
  "and_then m f calls = (case m calls of (Inl e, calls) \<Rightarrow> (Inl e, calls) | (Inr x, calls) \<Rightarrow> f x calls)"

definition call :: "'k artifact_world \<Rightarrow> build_call \<Rightarrow> unit build" where
  "call world c calls = ((case aw_raises world c of None \<Rightarrow> Inr () | Some e \<Rightarrow> Inl e), calls @ [c])"

text \<open>\<open>except BaseException: cleanup; raise\<close>, where an error of the cleanup replaces the first one, and
  \<open>finally: _cleanup_preserving_primary\<close>, where it does only when there is no first one.\<close>

definition on_error :: "'a build \<Rightarrow> unit build \<Rightarrow> 'a build" where
  "on_error m cleanup calls = (case m calls of
     (Inr x, calls) \<Rightarrow> (Inr x, calls)
   | (Inl e, calls) \<Rightarrow> (case cleanup calls of (Inl e', calls) \<Rightarrow> (Inl e', calls) | (Inr _, calls) \<Rightarrow> (Inl e, calls)))"

definition finally_preserving :: "'a build \<Rightarrow> unit build \<Rightarrow> 'a build" where
  "finally_preserving m cleanup calls = (case m calls of (r, calls) \<Rightarrow> (case cleanup calls of
     (Inl e', calls) \<Rightarrow> ((case r of Inl e \<Rightarrow> Inl e | Inr _ \<Rightarrow> Inl e'), calls)
   | (Inr _, calls) \<Rightarrow> (r, calls)))"

definition write_stage :: "'k artifact_world \<Rightarrow> 'k artifact_plan \<Rightarrow> nat list build" where
  "write_stage world plan =
     and_then (call world WriteStage) (\<lambda>_.
     and_then (failing (write_zip (pl_entries plan) (pl_packages plan) (aw_copy world))) (\<lambda>written.
       finish (aw_zip_bytes world written)))"

definition expected_names :: "'k artifact_plan \<Rightarrow> string set" where
  "expected_names plan = fst ` set (pl_entries plan) \<union> fst ` set (pl_packages plan)"

definition verify_stage :: "'k archive_library \<Rightarrow> 'k artifact_world \<Rightarrow> 'k artifact_plan \<Rightarrow> nat list \<Rightarrow> unit build" where
  "verify_stage lib world plan written =
     and_then (call world VerifyStage) (\<lambda>_.
       failing (verify_zip lib (aw_zip_view world (aw_stage world VerifyStage written)) (expected_names plan) (pl_hashes plan)))"

definition staged_build :: "'k archive_library \<Rightarrow> 'k artifact_world \<Rightarrow> 'k artifact_plan \<Rightarrow> string build" where
  "staged_build lib world plan =
     and_then (write_stage world plan) (\<lambda>written.
     and_then (call world (RequireStage 0)) (\<lambda>_.
     and_then (verify_stage lib world plan written) (\<lambda>_.
     and_then (call world (RequireStage 1)) (\<lambda>_.
     and_then (call world (RequireOutput 0)) (\<lambda>_.
     and_then (call world HashStage) (\<lambda>_.
       let digest = hexdigest (li_sha256 lib (aw_stage world HashStage written)) in
     and_then (call world (RequireStage 2)) (\<lambda>_.
     and_then (call world (RequireOutput 1)) (\<lambda>_.
     and_then (call world PublishStage) (\<lambda>_. finish digest)))))))))"

definition final_name :: "'k ArtifactBuildContext \<Rightarrow> string" where
  "final_name context = ''wheelforge-'' @ ac_build_id context @ ''.zip''"

text \<open>From the open backend on.\<close>

definition publish_plan :: "'k archive_library \<Rightarrow> 'k artifact_world \<Rightarrow> 'k artifact_plan \<Rightarrow> string build" where
  "publish_plan lib world plan =
     and_then (call world OpenBackend) (\<lambda>_.
     finally_preserving
       (and_then (call world CreateStage) (\<lambda>_.
        finally_preserving
          (and_then (on_error (call world StageIdentity) (call world CleanupUnbound)) (\<lambda>_.
             on_error (staged_build lib world plan) (call world CleanupStage)))
          (call world CloseDescriptor)))
       (call world CloseBackend))"

definition build_inner ::
  "('k :: linorder) archive_library \<Rightarrow> 'k artifact_world \<Rightarrow> 'k ArtifactBuildContext \<Rightarrow> (string \<times> string \<times> pyval) build" where
  "build_inner lib world context =
     and_then (call world ValidateOutput) (\<lambda>_.
     and_then (failing (validate_context lib context)) (\<lambda>validation.
     and_then (call world FinalExists) (\<lambda>_.
       if aw_exists world then failing (Inl (FileExists (''artifact already exists: '' @ final_name context)))
       else
     and_then (failing (plan_artifact lib context validation)) (\<lambda>plan.
     and_then (publish_plan lib world plan) (\<lambda>digest.
       finish (final_name context, digest, pl_manifest plan))))))"

text \<open>The snapshots are cleaned up at the end, each once; the first error counts when there is no other.\<close>

fun cleanup_snapshots :: "'k artifact_world \<Rightarrow> string list \<Rightarrow> build_error option \<Rightarrow> unit build" where
  "cleanup_snapshots world [] failure = failing (case failure of None \<Rightarrow> Inr () | Some e \<Rightarrow> Inl e)"
| "cleanup_snapshots world (name # names) failure = (\<lambda>calls. case call world (CleanupSnapshot name) calls of
     (Inl e, calls) \<Rightarrow> cleanup_snapshots world names (Some (coalesce failure e)) calls
   | (Inr _, calls) \<Rightarrow> cleanup_snapshots world names failure calls)"

definition discover_snapshots :: "'k ArtifactBuildContext \<Rightarrow> string list" where
  "discover_snapshots context = map fst (remdups (concat (map (\<lambda>item.
     case vw_snapshot item of None \<Rightarrow> [] | Some s \<Rightarrow> [s]) (ac_wheels context))))"

definition build_artifact ::
  "('k :: linorder) archive_library \<Rightarrow> 'k artifact_world \<Rightarrow> 'k ArtifactBuildContext \<Rightarrow> (string \<times> string \<times> pyval) build" where
  "build_artifact lib world context =
     finally_preserving (build_inner lib world context) (cleanup_snapshots world (discover_snapshots context) None)"

end
