(* ===== verification/ArtifactFacts.thy ===== *)
theory ArtifactFacts
  imports ArtifactBuild
begin

section \<open>What a built artifact holds\<close>

text \<open>
  A context that is accepted has one wheel for a name and one place for a wheel; the plan hashes every file.
  The checksums are read back as they were written, so that the builder's own archive passes its own check,
  and a complete artifact pins every resolved package to the digest of a wheel it holds.
\<close>

subsection \<open>An accepted context\<close>

definition wheel_name :: "'k archive_library \<Rightarrow> 'k ValidatedWheel \<Rightarrow> string" where
  "wheel_name lib item = pkg_canonicalize (li_packaging lib) (dw_package (vw_download item))"

definition fits_package :: "'k archive_library \<Rightarrow> 'k ValidatedWheel \<Rightarrow> 'k ResolvedPackage \<Rightarrow> bool" where
  "fits_package lib item package \<longleftrightarrow>
     wheel_name lib item = pkg_canonicalize (li_packaging lib) (pk_name package) \<and>
     same_version (dw_version (vw_download item)) (pk_version package) \<and>
     dw_filename (vw_download item) = pk_wheel_filename package"

lemma resolved_by_name_Inr:
  assumes "resolved_by_name P packages resolved = Inr out" "distinct (map fst resolved)"
  shows "out = resolved @ map (\<lambda>p. (pkg_canonicalize P (pk_name p), p)) packages \<and>
    distinct (map fst resolved @ map (\<lambda>p. pkg_canonicalize P (pk_name p)) packages)"
  using assms
proof (induction packages arbitrary: resolved)
  case (Cons p ps)
  then have new: "pkg_canonicalize P (pk_name p) \<notin> fst ` set resolved"
    and rest: "resolved_by_name P ps (resolved @ [(pkg_canonicalize P (pk_name p), p)]) = Inr out"
    by (simp_all add: Let_def split: if_splits)
  have "distinct (map fst (resolved @ [(pkg_canonicalize P (pk_name p), p)]))" using new Cons.prems(2) by simp
  from Cons.IH [OF rest this] show ?case by (simp add: comp_def)
qed simp

lemma check_wheels_Cons:
  assumes "check_wheels lib resolved (item # items) names paths = Inr out"
  obtains package where "validate_pair lib item = Inr ()" "wheel_name lib item \<notin> set names"
    "map_of resolved (wheel_name lib item) = Some package"
    "same_version (dw_version (vw_download item)) (pk_version package)"
    "dw_filename (vw_download item) = pk_wheel_filename package"
    "ArchiveMembers.casefold (package_path item) \<notin> set paths" "safe_zip_path (package_path item)"
    "check_wheels lib resolved items (names @ [wheel_name lib item])
       (paths @ [ArchiveMembers.casefold (package_path item)]) = Inr out"
  using assms
  by (simp add: Let_def flip: wheel_name_def split: sum.splits if_splits option.splits)

lemma check_wheels_Inr:
  assumes "check_wheels lib resolved items names paths = Inr out" "distinct names" "distinct paths"
  shows "out = names @ map (wheel_name lib) items \<and> distinct (names @ map (wheel_name lib) items) \<and>
    distinct (paths @ map (\<lambda>i. ArchiveMembers.casefold (package_path i)) items) \<and>
    (\<forall>item\<in>set items. validate_pair lib item = Inr () \<and> safe_zip_path (package_path item) \<and>
      (\<exists>package. map_of resolved (wheel_name lib item) = Some package \<and>
        same_version (dw_version (vw_download item)) (pk_version package) \<and>
        dw_filename (vw_download item) = pk_wheel_filename package))"
  using assms
proof (induction items arbitrary: names paths)
  case (Cons item items)
  from Cons.prems(1) obtain package where p: "validate_pair lib item = Inr ()" "wheel_name lib item \<notin> set names"
    "map_of resolved (wheel_name lib item) = Some package"
    "same_version (dw_version (vw_download item)) (pk_version package)"
    "dw_filename (vw_download item) = pk_wheel_filename package"
    "ArchiveMembers.casefold (package_path item) \<notin> set paths" "safe_zip_path (package_path item)"
    and rest: "check_wheels lib resolved items (names @ [wheel_name lib item])
       (paths @ [ArchiveMembers.casefold (package_path item)]) = Inr out"
    by (rule check_wheels_Cons)
  have "distinct (names @ [wheel_name lib item])" "distinct (paths @ [ArchiveMembers.casefold (package_path item)])"
    using Cons.prems(2,3) p by simp_all
  from Cons.IH [OF rest this] p show ?case by simp
qed simp

lemma validate_pair_Inr:
  assumes "validate_pair lib item = Inr ()"
  shows "sha256_text (dw_sha256 (vw_download item))" "safe_wheel (dw_filename (vw_download item))"
    "\<exists>name snapshot. vw_snapshot item = Some (name, snapshot) \<and> vs_sha256 snapshot = dw_sha256 (vw_download item)"
proof -
  from assms obtain name snapshot wheel where o: "vw_snapshot item = Some (name, snapshot)"
    "pkg_wheel (li_packaging lib) (dw_filename (vw_download item)) = Some wheel"
    by (simp add: validate_pair_def Let_def split: option.splits prod.splits)
  with assms have "dw_sha256 (vw_download item) = vs_sha256 snapshot \<and> sha256_text (dw_sha256 (vw_download item)) \<and>
      safe_wheel (dw_filename (vw_download item))"
    by (auto simp: validate_pair_def Let_def split: if_splits)
  with o(1) show "sha256_text (dw_sha256 (vw_download item))" "safe_wheel (dw_filename (vw_download item))"
    "\<exists>name snapshot. vw_snapshot item = Some (name, snapshot) \<and> vs_sha256 snapshot = dw_sha256 (vw_download item)"
    by auto
qed

text \<open>What is known of the wheels of an accepted context.\<close>

definition sound_wheels :: "'k archive_library \<Rightarrow> 'k ArtifactBuildContext \<Rightarrow> bool" where
  "sound_wheels lib context \<longleftrightarrow>
     distinct (map (wheel_name lib) (ac_wheels context)) \<and> distinct (map package_path (ac_wheels context)) \<and>
     (\<forall>item\<in>set (ac_wheels context). validate_pair lib item = Inr () \<and> safe_zip_path (package_path item) \<and>
       (\<exists>package\<in>set (rr_packages (ac_resolution context)). fits_package lib item package))"

lemma validate_context_Inr:
  assumes "validate_context lib context = Inr validation"
  shows "sound_wheels lib context"
    and "distinct (map (\<lambda>p. pkg_canonicalize (li_packaging lib) (pk_name p)) (rr_packages (ac_resolution context)))"
    and "validation = ac_validation context"
    and "validate_closure (li_packaging lib) (ac_resolution context) (map vw_download (ac_wheels context)) (ac_target context) =
      Some validation"
    and "sv_complete validation \<Longrightarrow> wheel_name lib ` set (ac_wheels context) =
      (\<lambda>p. pkg_canonicalize (li_packaging lib) (pk_name p)) ` set (rr_packages (ac_resolution context))"
proof -
  let ?P = "li_packaging lib"
  obtain resolved where r: "resolved_by_name ?P (rr_packages (ac_resolution context)) [] = Inr resolved"
    using assms by (cases "resolved_by_name ?P (rr_packages (ac_resolution context)) []")
      (simp_all add: validate_context_def split: if_splits)
  obtain packaged_names where c: "check_wheels lib resolved (ac_wheels context) [] [] = Inr packaged_names"
    using assms by (cases "check_wheels lib resolved (ac_wheels context) [] []")
      (simp_all add: validate_context_def r split: if_splits)
  let ?V = "validate_closure ?P (ac_resolution context) (map vw_download (ac_wheels context)) (ac_target context)"
  have full: "sv_complete (ac_validation context) \<longrightarrow> set packaged_names = fst ` set resolved"
    and v: "?V = Some validation" "validation = ac_validation context"
    using assms by (cases ?V; simp add: validate_context_def r c split: if_splits)+
  have R: "resolved = map (\<lambda>p. (pkg_canonicalize (li_packaging lib) (pk_name p), p)) (rr_packages (ac_resolution context))"
    and D: "distinct (map fst resolved)"
    using resolved_by_name_Inr [OF r] by (simp_all add: comp_def)
  note C = check_wheels_Inr [OF c, simplified]
  show "validation = ac_validation context" "validate_closure (li_packaging lib) (ac_resolution context)
      (map vw_download (ac_wheels context)) (ac_target context) = Some validation" using v by simp_all
  show "distinct (map (\<lambda>p. pkg_canonicalize (li_packaging lib) (pk_name p)) (rr_packages (ac_resolution context)))"
    using D by (simp add: R comp_def)
  have "distinct (map (ArchiveMembers.casefold \<circ> package_path) (ac_wheels context))" using C by (simp add: comp_def)
  then have "distinct (map package_path (ac_wheels context))" by (auto simp: distinct_map inj_on_def)
  moreover have "\<exists>package\<in>set (rr_packages (ac_resolution context)). fits_package lib item package"
    if "item \<in> set (ac_wheels context)" for item
  proof -
    from C that obtain package where "map_of resolved (wheel_name lib item) = Some package"
      "same_version (dw_version (vw_download item)) (pk_version package)"
      "dw_filename (vw_download item) = pk_wheel_filename package" by blast
    then show ?thesis using map_of_SomeD [of resolved "wheel_name lib item" package]
      by (auto simp: R fits_package_def)
  qed
  ultimately show "sound_wheels lib context" using C by (auto simp: sound_wheels_def)
  show "wheel_name lib ` set (ac_wheels context) =
      (\<lambda>p. pkg_canonicalize (li_packaging lib) (pk_name p)) ` set (rr_packages (ac_resolution context))"
    if "sv_complete validation"
    using full that C v(2) by (simp add: R image_image)
qed

subsection \<open>The plan\<close>

lemma dict_of_keyed: "distinct (map f xs) \<Longrightarrow> dict_of (map (\<lambda>x. (f x, g x)) xs) = map (\<lambda>x. (f x, g x)) xs"
  by (rule dict_of_distinct) (simp add: comp_def)

lemma packaged_sound:
  assumes "sound_wheels lib context"
  shows "packaged_by_name (li_packaging lib) context = map (\<lambda>item. (wheel_name lib item, item)) (ac_wheels context)"
  using assms dict_of_keyed [of "wheel_name lib" "ac_wheels context" id]
  by (simp add: packaged_by_name_def sound_wheels_def flip: wheel_name_def)

lemma intend_packages_Inr:
  assumes "intend_packages P packaged packages = Inr intended"
  shows "length intended = length packages \<and> (\<forall>p\<in>set packages. \<forall>w.
    map_of packaged (pkg_canonicalize P (pk_name p)) = Some w \<longrightarrow>
      \<lparr>ip_name = pkg_canonicalize P (pk_name p), ip_version = v_str (pk_version p),
       ip_sha256 = dw_sha256 (vw_download w), ip_packaged = True\<rparr> \<in> set intended)"
  using assms
proof (induction packages arbitrary: intended)
  case (Cons p ps)
  let ?w = "map_of packaged (pkg_canonicalize P (pk_name p))"
  from Cons.prems obtain digest rest where
    d: "(case ?w of Some w \<Rightarrow> Inr (dw_sha256 (vw_download w)) | None \<Rightarrow> resolver_sha256 (pk_archive_hashes p)) = Inr digest"
    and rest: "intend_packages P packaged ps = Inr rest"
    and i: "intended = \<lparr>ip_name = pkg_canonicalize P (pk_name p), ip_version = v_str (pk_version p),
       ip_sha256 = digest, ip_packaged = (?w \<noteq> None)\<rparr> # rest"
    by (cases "intend_packages P packaged ps") (simp_all add: Let_def split: sum.splits)
  show ?case using Cons.IH [OF rest] d by (auto simp: i)
qed simp

lemma fold_dict_put_new:
  "distinct (map fst d @ map f xs) \<Longrightarrow> fold (\<lambda>x d. dict_put (f x) (g x) d) xs d = d @ map (\<lambda>x. (f x, g x)) xs"
proof (induction xs arbitrary: d)
  case (Cons x xs)
  then have "dict_put (f x) (g x) d = d @ [(f x, g x)]" by (intro dict_put_new) auto
  with Cons.IH [of "d @ [(f x, g x)]"] Cons.prems show ?case by simp
qed simp

text \<open>The files of fixed names.\<close>

definition fixed_files :: "TargetProfile \<Rightarrow> string list" where
  "fixed_files target =
     [''README.md'', ''requirements-original.txt'', ''requirements-resolved.txt'', ''version-comparison.csv'',
      ''build-report.html'', ''manifest.json''] @
     (if tp_os target = ''LINUX'' then [''install.sh'', ''verify.sh''] else [''install.bat'', ''verify.bat''])"

definition CHECKSUMS :: string where "CHECKSUMS = ''checksums.sha256''"

lemma fixed_files_facts:
  "distinct (CHECKSUMS # fixed_files target)" "list_all safe_zip_path (CHECKSUMS # fixed_files target)"
  "list_all (\<lambda>f. take 9 f \<noteq> ''packages/'') (CHECKSUMS # fixed_files target)"
  "list_all (list_all (\<lambda>c. \<not> line_boundary c)) (CHECKSUMS # fixed_files target)"
  by (simp_all add: fixed_files_def CHECKSUMS_def; code_simp)+

lemma scripts_files:
  assumes "scripts target complete = Inr entries"
  shows "map fst entries = (if tp_os target = ''LINUX'' then [''install.sh'', ''verify.sh''] else [''install.bat'', ''verify.bat''])"
  using assms by (auto simp: scripts_def map_sum_Inr split: if_splits prod.splits)

lemma text_entries_files:
  assumes "text_entries P context intended manifest complete = Inr entries"
  shows "map fst entries = fixed_files (ac_target context)"
    and "(''requirements-resolved.txt'', text_bytes (text_lines (map requirement_line intended))) \<in> set entries"
  using assms scripts_files [of "ac_target context" complete]
  by (auto simp: text_entries_def map_sum_Inr fixed_files_def)


definition plan_of ::
  "('k :: linorder) archive_library \<Rightarrow> 'k ArtifactBuildContext \<Rightarrow> 'k artifact_plan \<Rightarrow> (string \<times> nat list) list \<Rightarrow> bool" where
  "plan_of lib context plan entries \<longleftrightarrow>
     map fst entries = fixed_files (ac_target context) \<and>
     (''requirements-resolved.txt'', text_bytes (text_lines (map requirement_line (pl_intended plan)))) \<in> set entries \<and>
     intended_packages (li_packaging lib) context (packaged_by_name (li_packaging lib) context) = Inr (pl_intended plan) \<and>
     pl_packages plan = map (\<lambda>item. (package_path item, item)) (ac_wheels context) \<and>
     pl_hashes plan = map (\<lambda>(path, content). (path, hexdigest (li_sha256 lib content))) entries @
       map (\<lambda>item. (package_path item, dw_sha256 (vw_download item))) (ac_wheels context) \<and>
     pl_entries plan = entries @ [(CHECKSUMS, text_bytes (checksum_text (pl_hashes plan)))]"

lemma package_path_apart: "package_path item \<notin> set (CHECKSUMS # fixed_files target)"
proof
  assume "package_path item \<in> set (CHECKSUMS # fixed_files target)"
  then have "take 9 (package_path item) \<noteq> ''packages/''"
    using fixed_files_facts(3) [of target] unfolding list_all_iff by blast
  then show False by (simp add: package_path_def)
qed

lemma plan_artifact_Inr:
  assumes plan: "plan_artifact lib context validation = Inr plan" and sound: "sound_wheels lib context"
  obtains entries where "plan_of lib context plan entries"
    "pl_complete plan \<longleftrightarrow> sv_complete validation \<and>
      length (ac_wheels context) = length (rr_packages (ac_resolution context))"
    "pl_manifest plan = manifest_value context (pl_intended plan)
      (packaged_by_name (li_packaging lib) context) (pl_complete plan)"
proof -
  let ?P = "li_packaging lib"
  let ?packaged = "packaged_by_name ?P context"
  note P = packaged_sound [OF sound]
  obtain intended where i: "intended_packages ?P context ?packaged = Inr intended"
    using plan by (cases "intended_packages ?P context ?packaged") (simp_all add: plan_artifact_def Let_def)
  let ?complete = "sv_complete validation \<and> length ?packaged = length intended"
  let ?manifest = "manifest_value context intended ?packaged ?complete"
  obtain entries where e: "text_entries ?P context intended ?manifest ?complete = Inr entries"
    using plan i by (cases "text_entries ?P context intended ?manifest ?complete") (simp_all add: plan_artifact_def Let_def)
  note files = text_entries_files [OF e]
  have n: "length intended = length (rr_packages (ac_resolution context))"
    using intend_packages_Inr i by (fastforce simp: intended_packages_def)
  have d: "dict_of (map (\<lambda>(_, item). (package_path item, item)) ?packaged) =
      map (\<lambda>item. (package_path item, item)) (ac_wheels context)"
    using sound dict_of_keyed [of package_path "ac_wheels context" id] by (simp add: P comp_def sound_wheels_def)
  let ?hashes = "map (\<lambda>(path, content). (path, hexdigest (li_sha256 lib content))) entries"
  let ?packages = "map (\<lambda>item. (package_path item, item)) (ac_wheels context)"
  have fst_hashes: "map fst ?hashes = fixed_files (ac_target context)" using files(1) by (simp add: comp_def split_def)
  have "plan_hashes lib entries ?packages =
      fold (\<lambda>item d. dict_put (package_path item) (dw_sha256 (vw_download item)) d) (ac_wheels context) ?hashes"
    by (simp add: plan_hashes_def fold_map comp_def)
  also have "\<dots> = ?hashes @ map (\<lambda>item. (package_path item, dw_sha256 (vw_download item))) (ac_wheels context)"
    using fixed_files_facts(1) [of "ac_target context"] sound package_path_apart
    by (intro fold_dict_put_new) (auto simp: fst_hashes sound_wheels_def simp del: map_map)
  finally have h: "plan_hashes lib entries ?packages =
      ?hashes @ map (\<lambda>item. (package_path item, dw_sha256 (vw_download item))) (ac_wheels context)" .
  have "CHECKSUMS \<notin> fst ` set entries"
    using fixed_files_facts(1) [of "ac_target context"] files(1) by (metis distinct.simps(2) set_map)
  then have c: "dict_put ''checksums.sha256'' v entries = entries @ [(CHECKSUMS, v)]" for v
    by (simp add: CHECKSUMS_def dict_put_new)
  have plan_eq: "plan = \<lparr>pl_complete = ?complete, pl_intended = intended,
      pl_entries = entries @ [(CHECKSUMS, text_bytes (checksum_text (plan_hashes lib entries ?packages)))],
      pl_packages = ?packages, pl_hashes = plan_hashes lib entries ?packages, pl_manifest = ?manifest\<rparr>"
    using plan i e by (simp add: plan_artifact_def Let_def d c)
  show ?thesis
    using files i by (intro that [of entries]) (simp_all add: plan_eq plan_of_def P n h)
qed


subsection \<open>The checksums are read back\<close>

lemma replace_crlf_id: "carriage_return \<notin> set s \<Longrightarrow> replace_crlf s = s"
  by (induction s rule: replace_crlf.induct) auto

lemma normalize_newlines_id:
  assumes "carriage_return \<notin> set s"
  shows "normalize_newlines s = s"
proof -
  have "map (\<lambda>c. if c = carriage_return then newline else c) s = s"
    by (rule map_idI) (use assms in auto)
  then show ?thesis by (simp add: normalize_newlines_def replace_crlf_id [OF assms])
qed

lemma splitlines_line:
  "list_all (\<lambda>c. \<not> line_boundary c) l \<Longrightarrow> splitlines (l @ newline # rest) = l # splitlines rest"
proof (induction l)
  case Nil
  have "line_boundary newline" "code newline \<noteq> 13" by (simp_all add: line_boundary_def newline_def code_def)
  then show ?case by (cases rest) simp_all
next
  case (Cons c l)
  have "code c \<noteq> 13" using Cons.prems by (auto simp: line_boundary_def)
  with Cons show ?case by (cases l) simp_all
qed

lemma splitlines_lines:
  "list_all (list_all (\<lambda>c. \<not> line_boundary c)) ls \<Longrightarrow> splitlines (text_lines ls) = ls"
  by (induction ls) (simp_all add: text_lines_def splitlines_line)

lemma partition_spaces_at:
  "CHR '' '' \<notin> set digest \<Longrightarrow> partition_spaces (digest @ ''  '' @ path) = (digest, True, path)"
  by (induction digest) auto

definition plain_name :: "string \<Rightarrow> bool" where
  "plain_name path \<longleftrightarrow> safe_zip_path path \<and> list_all (\<lambda>c. \<not> line_boundary c) path"

lemma lower_hex_plain: "lower_hex c \<Longrightarrow> c \<noteq> CHR '' '' \<and> \<not> line_boundary c"
  by (auto simp: lower_hex_def line_boundary_def is_digit_def code_def)

lemma parse_checksum_lines_written:
  assumes "list_all (\<lambda>(path, digest). safe_zip_path path \<and> sha256_text digest) hashes" "distinct (map fst (result @ hashes))"
  shows "parse_checksum_lines (map checksum_line hashes) result = Inr (result @ hashes)"
  using assms
proof (induction hashes arbitrary: result)
  case (Cons h hashes)
  obtain path digest where h: "h = (path, digest)" by (cases h)
  have "CHR '' '' \<notin> set digest"
    using Cons.prems(1) lower_hex_plain by (auto simp: h sha256_text_def list_all_iff)
  note p = partition_spaces_at [OF this, of path]
  have "path \<notin> fst ` set result" using Cons.prems(2) by (auto simp: h)
  moreover have "parse_checksum_lines (map checksum_line hashes) (result @ [h]) = Inr ((result @ [h]) @ hashes)"
    using Cons.prems by (intro Cons.IH) simp_all
  ultimately show ?case using Cons.prems(1) p by (simp add: h checksum_line_def)
qed simp

lemma checksums_roundtrip:
  assumes clean: "list_all (\<lambda>(path, digest). plain_name path \<and> sha256_text digest) hashes" and d: "distinct (map fst hashes)"
  shows "parse_checksums (text_bytes (checksum_text hashes)) = Inr (sort_key fst hashes)"
proof -
  let ?sorted = "sort_key fst hashes"
  have lines: "list_all (list_all (\<lambda>c. \<not> line_boundary c)) (map checksum_line ?sorted)"
    using clean lower_hex_plain
    by (auto simp: list_all_iff checksum_line_def plain_name_def sha256_text_def line_boundary_def code_def)
  have "carriage_return \<notin> set (checksum_text hashes)"
  proof -
    have "line_boundary carriage_return" "carriage_return \<noteq> newline"
      by (simp_all add: line_boundary_def carriage_return_def newline_def code_def)
    then show ?thesis using lines by (auto simp: checksum_text_def text_lines_def list_all_iff)
  qed
  then have "text_bytes (checksum_text hashes) = utf8_encode (checksum_text hashes)"
    by (simp add: text_bytes_def normalize_newlines_id)
  moreover have "splitlines (checksum_text hashes) = map checksum_line ?sorted"
    using lines by (simp add: checksum_text_def splitlines_lines)
  moreover have "parse_checksum_lines (map checksum_line ?sorted) [] = Inr ([] @ ?sorted)"
  proof (rule parse_checksum_lines_written)
    show "list_all (\<lambda>(path, digest). safe_zip_path path \<and> sha256_text digest) ?sorted"
      using clean by (auto simp: list_all_iff plain_name_def)
    have "mset (map fst ?sorted) = mset (map fst hashes)" by simp
    then show "distinct (map fst ([] @ ?sorted))" using d mset_eq_imp_distinct_iff by (metis append_Nil)
  qed
  ultimately show ?thesis by (simp add: parse_checksums_def utf8_roundtrip)
qed


subsection \<open>The archive passes its own check\<close>

definition sha256_sized :: "'k archive_library \<Rightarrow> bool" where
  "sha256_sized lib \<longleftrightarrow> (\<forall>bytes. length (li_sha256 lib bytes) = 32 \<and> list_all (\<lambda>b. b < 256) (li_sha256 lib bytes))"

lemma hex_digit_lower: "n < 16 \<Longrightarrow> lower_hex (hex_digit n)"
  by (auto simp: lower_hex_def hex_digit_def is_digit_def)

lemma hexdigest_text: "length bytes = 32 \<Longrightarrow> list_all (\<lambda>b. b < 256) bytes \<Longrightarrow> sha256_text (hexdigest bytes)"
proof -
  have "list_all (\<lambda>b. b < 256) bytes \<Longrightarrow> length (hexdigest bytes) = 2 * length bytes \<and> list_all lower_hex (hexdigest bytes)"
    by (induction bytes) (simp_all add: hexdigest_def hex_digit_lower div_less_iff_less_mult)
  then show "length bytes = 32 \<Longrightarrow> list_all (\<lambda>b. b < 256) bytes \<Longrightarrow> sha256_text (hexdigest bytes)"
    by (simp add: sha256_text_def)
qed

lemma safe_wheel_plain: "safe_wheel s \<Longrightarrow> list_all (\<lambda>c. \<not> line_boundary c) s"
  by (auto simp: safe_wheel_def list_all_iff line_boundary_def ascii_alnum_def is_alpha_def is_lower_def is_upper_def
      is_digit_def code_def)

lemma plan_hashes_clean:
  assumes plan: "plan_of lib context plan entries" and sound: "sound_wheels lib context" and "sha256_sized lib"
  shows "list_all (\<lambda>(path, digest). plain_name path \<and> sha256_text digest) (pl_hashes plan)"
    and "distinct (map fst (pl_hashes plan))"
    and "insert CHECKSUMS (fst ` set (pl_hashes plan)) = expected_names plan" and "CHECKSUMS \<notin> fst ` set (pl_hashes plan)"
proof -
  note p = plan [unfolded plan_of_def]
  note fixed = fixed_files_facts [of "ac_target context"]
  have names: "map fst (pl_hashes plan) = fixed_files (ac_target context) @ map package_path (ac_wheels context)"
    using p by (simp add: comp_def split_def)
  have apart: "package_path item \<notin> set (CHECKSUMS # fixed_files (ac_target context))" for item :: "'a ValidatedWheel"
    by (rule package_path_apart)
  show d: "distinct (map fst (pl_hashes plan))"
  proof -
    have "distinct (map package_path (ac_wheels context))" using sound unfolding sound_wheels_def by blast
    moreover have "set (fixed_files (ac_target context)) \<inter> set (map package_path (ac_wheels context)) = {}"
      using apart by (simp only: set_map list.set(2) disjoint_iff image_iff insert_iff) metis
    moreover have "distinct (fixed_files (ac_target context))" using fixed(1) by (rule distinct.simps(2) [THEN iffD1, THEN conjunct2])
    ultimately show ?thesis unfolding names distinct_append by (intro conjI)
  qed
  have paths: "fst ` set (pl_hashes plan) = set (fixed_files (ac_target context)) \<union> package_path ` set (ac_wheels context)"
    using arg_cong [OF names, of set] by (simp only: set_append set_map)
  have "CHECKSUMS \<notin> set (fixed_files (ac_target context))" using fixed(1) by (rule distinct.simps(2) [THEN iffD1, THEN conjunct1])
  moreover have "CHECKSUMS \<noteq> package_path item" for item :: "'a ValidatedWheel" using apart [of item] by auto
  ultimately show "CHECKSUMS \<notin> fst ` set (pl_hashes plan)" by (auto simp: paths)
  have "fst ` set entries = set (fixed_files (ac_target context))" using p by (metis set_map)
  then show "insert CHECKSUMS (fst ` set (pl_hashes plan)) = expected_names plan"
    unfolding paths using p by (simp add: expected_names_def image_image)
  have files: "plain_name path" if "path \<in> set (fixed_files (ac_target context))" for path
    using fixed(2,4) that by (simp add: plain_name_def list_all_iff)
  have wheels: "plain_name (package_path item) \<and> sha256_text (dw_sha256 (vw_download item))"
    if "item \<in> set (ac_wheels context)" for item
  proof -
    have "list_all (\<lambda>c. \<not> line_boundary c) ''packages/''" by code_simp
    moreover have v: "validate_pair lib item = Inr ()" "safe_zip_path (package_path item)"
      using sound that by (simp_all add: sound_wheels_def)
    ultimately show ?thesis
      using validate_pair_Inr(1,2) [OF v(1)] safe_wheel_plain
      by (simp add: plain_name_def package_path_def)
  qed
  have digests: "sha256_text (hexdigest (li_sha256 lib content))" for content
    using assms(3) by (simp add: sha256_sized_def hexdigest_text)
  have "plain_name path \<and> sha256_text digest" if h: "(path, digest) \<in> set (pl_hashes plan)" for path digest
  proof -
    from h p consider c where "(path, c) \<in> set entries" "digest = hexdigest (li_sha256 lib c)"
      | item where "item \<in> set (ac_wheels context)" "path = package_path item" "digest = dw_sha256 (vw_download item)" by auto
    then show ?thesis
    proof cases
      case 1
      then have "path \<in> fst ` set entries" by force
      then have "path \<in> set (fixed_files (ac_target context))" using p by (metis set_map)
      with 1 show ?thesis using files digests by simp
    qed (use wheels in simp)
  qed
  then show "list_all (\<lambda>(path, digest). plain_name path \<and> sha256_text digest) (pl_hashes plan)"
    unfolding list_all_iff by blast
qed

text \<open>What the archive holds under a path.\<close>

definition holds ::
  "'k artifact_plan \<Rightarrow> ('k ValidatedWheel \<Rightarrow> build_error + nat list) \<Rightarrow> string \<Rightarrow> nat list \<Rightarrow> bool" where
  "holds plan copy path content \<longleftrightarrow> (case map_of (pl_entries plan) path of
     Some c \<Rightarrow> content = c
   | None \<Rightarrow> (\<exists>item. map_of (pl_packages plan) path = Some item \<and> copy item = Inr content))"

lemma write_entries_ok:
  assumes "\<forall>path\<in>set paths. safe_zip_path path \<and> holds plan copy path (content path)"
  shows "write_entries (pl_entries plan) (pl_packages plan) copy paths = Inr (map (\<lambda>path. make_entry path (content path)) paths)"
  using assms by (induction paths) (auto simp: holds_def split: option.splits)

text \<open>The zipfile library shows an archive with distinct names as it was written.\<close>

definition read_back :: "zip_entry list \<Rightarrow> zip_view" where
  "read_back zs = \<lparr>zv_infos = zs, zv_read = map_of (map (\<lambda>z. (ze_name z, ze_content z)) zs), zv_corrupt = False\<rparr>"

lemma verify_digests_ok:
  "(\<forall>(name, digest)\<in>set checksums. \<exists>content. zv_read view name = Some content \<and> hexdigest (li_sha256 lib content) = digest)
    \<longleftrightarrow> verify_digests lib view checksums = Inr ()"
  by (induction checksums) (auto split: option.splits if_splits)

lemma map_of_keyed: "x \<in> set xs \<Longrightarrow> distinct xs \<Longrightarrow> map_of (map (\<lambda>x. (x, f x)) xs) x = Some (f x)"
  by (simp add: map_of_map_restrict restrict_map_def)

lemma verify_zip_ok:
  assumes "map ze_name (zv_infos view) = names" "distinct names" "sorted names"
    "\<not> list_ex (\<lambda>name. \<not> safe_zip_path name) names" "\<not> list_ex (\<lambda>info. \<not> entry_metadata_ok info) (zv_infos view)"
    "zv_read view ''checksums.sha256'' = Some content" "parse_checksums content = Inr checksums"
    "fst ` set checksums = set names - {''checksums.sha256''}" "set checksums = set hashes"
    "verify_digests lib view checksums = Inr ()" "\<not> zv_corrupt view"
  shows "verify_zip lib (Some view) (set names) hashes = Inr ()"
proof -
  have "sort names = names" using assms(3) by (simp add: sorted_sort_id)
  then show ?thesis using assms by (simp add: verify_zip_def)
qed

lemma written_archive_verifies:
  assumes clean: "list_all (\<lambda>(path, digest). plain_name path \<and> sha256_text digest) hashes" "distinct (map fst hashes)"
    and names: "set paths = insert CHECKSUMS (fst ` set hashes)" "CHECKSUMS \<notin> fst ` set hashes" "sorted paths" "distinct paths"
    and checksums: "content CHECKSUMS = text_bytes (checksum_text hashes)"
    and digests: "\<forall>(path, digest)\<in>set hashes. hexdigest (li_sha256 lib (content path)) = digest"
  shows "verify_zip lib (Some (read_back (map (\<lambda>path. make_entry path (content path)) paths))) (set paths) hashes = Inr ()"
proof -
  let ?zs = "map (\<lambda>path. make_entry path (content path)) paths"
  have zn: "map ze_name ?zs = paths" by (simp add: make_entry_def comp_def)
  have meta: "\<not> list_ex (\<lambda>info. \<not> entry_metadata_ok info) ?zs"
    by (auto simp: list_ex_iff entry_metadata_ok_def make_entry_def)
  have safe: "\<not> list_ex (\<lambda>name. \<not> safe_zip_path name) paths"
    using clean(1) names(1) fixed_files_facts(2) by (auto simp: list_ex_iff list_all_iff plain_name_def)
  have read: "zv_read (read_back ?zs) path = Some (content path)" if "path \<in> set paths" for path
    using map_of_keyed [OF that names(4), of content] by (simp add: read_back_def make_entry_def comp_def)
  have digest: "verify_digests lib (read_back ?zs) (sort_key fst hashes) = Inr ()"
    unfolding verify_digests_ok [symmetric]
  proof (clarsimp)
    fix path digest
    assume h: "(path, digest) \<in> set hashes"
    then have "path \<in> set paths" unfolding names(1) by force
    then show "\<exists>c. zv_read (read_back ?zs) path = Some c \<and> hexdigest (li_sha256 lib c) = digest"
      using read digests h by auto
  qed
  have "zv_read (read_back ?zs) ''checksums.sha256'' = Some (text_bytes (checksum_text hashes))"
    using read [of CHECKSUMS] names(1) checksums by (simp add: CHECKSUMS_def)
  moreover have "fst ` set (sort_key fst hashes) = set paths - {''checksums.sha256''}"
    using names(1,2) by (simp add: CHECKSUMS_def)
  ultimately show ?thesis
    using names(3,4) safe meta zn digest checksums_roundtrip [OF clean]
    by (intro verify_zip_ok) (simp_all add: read_back_def del: map_map)
qed


text \<open>Writing the planned archive when every snapshot still yields what was validated.\<close>

definition snapshots_yield ::
  "'k archive_library \<Rightarrow> ('k ValidatedWheel \<Rightarrow> build_error + nat list) \<Rightarrow> 'k ArtifactBuildContext \<Rightarrow> bool" where
  "snapshots_yield lib copy context \<longleftrightarrow> (\<forall>item\<in>set (ac_wheels context). \<exists>bytes. copy item = Inr bytes \<and>
     hexdigest (li_sha256 lib bytes) = dw_sha256 (vw_download item))"

lemma plan_lookups:
  assumes plan: "plan_of lib context plan entries" and sound: "sound_wheels lib context"
  shows "map_of (pl_entries plan) CHECKSUMS = Some (text_bytes (checksum_text (pl_hashes plan)))"
    and "(path, c) \<in> set entries \<Longrightarrow> map_of (pl_entries plan) path = Some c"
    and "item \<in> set (ac_wheels context) \<Longrightarrow>
      map_of (pl_entries plan) (package_path item) = None \<and> map_of (pl_packages plan) (package_path item) = Some item"
proof -
  note p = plan [unfolded plan_of_def]
  have names: "map fst (pl_entries plan) = fixed_files (ac_target context) @ [CHECKSUMS]" using p by simp
  then have d: "distinct (map fst (pl_entries plan))" using fixed_files_facts(1) [of "ac_target context"] by auto
  have "(CHECKSUMS, text_bytes (checksum_text (pl_hashes plan))) \<in> set (pl_entries plan)" using p by simp
  with d show "map_of (pl_entries plan) CHECKSUMS = Some (text_bytes (checksum_text (pl_hashes plan)))" by simp
  show "map_of (pl_entries plan) path = Some c" if "(path, c) \<in> set entries"
    using d that p by (intro map_of_is_SomeI) simp_all
  show "map_of (pl_entries plan) (package_path item) = None \<and> map_of (pl_packages plan) (package_path item) = Some item"
    if i: "item \<in> set (ac_wheels context)"
  proof
    have "package_path item \<notin> set (map fst (pl_entries plan))"
      using package_path_apart [of item "ac_target context"] by (simp add: names)
    then show "map_of (pl_entries plan) (package_path item) = None" by (simp add: map_of_eq_None_iff)
    have "distinct (map package_path (ac_wheels context))" using sound unfolding sound_wheels_def by blast
    then have "distinct (map fst (pl_packages plan))" using p by (simp add: comp_def)
    moreover have "(package_path item, item) \<in> set (pl_packages plan)" using p i by auto
    ultimately show "map_of (pl_packages plan) (package_path item) = Some item" by simp
  qed
qed

definition planned ::
  "'k artifact_plan \<Rightarrow> ('k ValidatedWheel \<Rightarrow> build_error + nat list) \<Rightarrow> string \<Rightarrow> nat list" where
  "planned plan copy path = (case map_of (pl_entries plan) path of
     Some c \<Rightarrow> c
   | None \<Rightarrow> (case map_of (pl_packages plan) path of
       None \<Rightarrow> [] | Some item \<Rightarrow> (case copy item of Inl _ \<Rightarrow> [] | Inr content \<Rightarrow> content)))"

lemma planned_content:
  assumes plan: "plan_of lib context plan entries" and sound: "sound_wheels lib context"
    and copies: "snapshots_yield lib copy context"
  shows "holds plan copy CHECKSUMS (planned plan copy CHECKSUMS) \<and>
      planned plan copy CHECKSUMS = text_bytes (checksum_text (pl_hashes plan))"
    and "(path, digest) \<in> set (pl_hashes plan) \<Longrightarrow>
      holds plan copy path (planned plan copy path) \<and> hexdigest (li_sha256 lib (planned plan copy path)) = digest"
proof -
  note p = plan [unfolded plan_of_def] and look = plan_lookups [OF plan sound]
  show "holds plan copy CHECKSUMS (planned plan copy CHECKSUMS) \<and>
      planned plan copy CHECKSUMS = text_bytes (checksum_text (pl_hashes plan))"
    using look(1) by (simp add: holds_def planned_def)
  assume "(path, digest) \<in> set (pl_hashes plan)"
  with p consider c where "(path, c) \<in> set entries" "digest = hexdigest (li_sha256 lib c)"
    | item where "item \<in> set (ac_wheels context)" "path = package_path item" "digest = dw_sha256 (vw_download item)" by auto
  then show "holds plan copy path (planned plan copy path) \<and> hexdigest (li_sha256 lib (planned plan copy path)) = digest"
  proof cases
    case 1
    then show ?thesis using look(2) by (simp add: holds_def planned_def)
  next
    case 2
    with copies obtain bytes where "copy item = Inr bytes" "hexdigest (li_sha256 lib bytes) = digest"
      by (auto simp: snapshots_yield_def)
    then show ?thesis using 2 look(3) [of item] by (simp add: holds_def planned_def)
  qed
qed

lemma planned_archive_verifies:
  assumes plan: "plan_of lib context plan entries" and sound: "sound_wheels lib context"
    and lib: "sha256_sized lib" and copies: "snapshots_yield lib copy context"
  shows "\<exists>zs. write_zip (pl_entries plan) (pl_packages plan) copy = Inr zs \<and> distinct (map ze_name zs) \<and>
    verify_zip lib (Some (read_back zs)) (expected_names plan) (pl_hashes plan) = Inr ()"
proof -
  let ?paths = "sort (remdups (map fst (pl_entries plan) @ map fst (pl_packages plan)))"
  let ?zs = "map (\<lambda>path. make_entry path (planned plan copy path)) ?paths"
  note clean = plan_hashes_clean [OF plan sound lib] and content = planned_content [OF plan sound copies]
  have names: "set ?paths = expected_names plan" by (simp add: expected_names_def)
  have "safe_zip_path path \<and> holds plan copy path (planned plan copy path)" if "path \<in> set ?paths" for path
  proof (cases "path = CHECKSUMS")
    case True
    have "safe_zip_path CHECKSUMS" using fixed_files_facts(2) by (simp add: list_all_iff)
    with True content(1) show ?thesis by blast
  next
    case False
    from that have "path \<in> insert CHECKSUMS (fst ` set (pl_hashes plan))" unfolding names clean(3) .
    with False obtain digest where h: "(path, digest) \<in> set (pl_hashes plan)" by force
    then have "plain_name path" using clean(1) by (auto simp: list_all_iff)
    with content(2) [OF h] show ?thesis by (simp add: plain_name_def)
  qed
  then have "write_zip (pl_entries plan) (pl_packages plan) copy = Inr ?zs"
    unfolding write_zip_def by (intro write_entries_ok) blast
  moreover have "verify_zip lib (Some (read_back ?zs)) (set ?paths) (pl_hashes plan) = Inr ()"
  proof (rule written_archive_verifies [OF clean(1,2)])
    show "set ?paths = insert CHECKSUMS (fst ` set (pl_hashes plan))" using names clean(3) by simp
    show "CHECKSUMS \<notin> fst ` set (pl_hashes plan)" by (rule clean(4))
    show "planned plan copy CHECKSUMS = text_bytes (checksum_text (pl_hashes plan))" using content(1) by blast
    show "\<forall>(path, digest)\<in>set (pl_hashes plan). hexdigest (li_sha256 lib (planned plan copy path)) = digest"
      using content(2) by blast
  qed simp_all
  moreover have "distinct (map ze_name ?zs)" by (simp add: make_entry_def comp_def)
  ultimately show ?thesis unfolding names by blast
qed

subsection \<open>Runs of the builder that return\<close>

lemma and_then_Inr: "and_then m f calls = (Inr y, calls'') \<longleftrightarrow> (\<exists>x calls'. m calls = (Inr x, calls') \<and> f x calls' = (Inr y, calls''))"
  by (auto simp: and_then_def split: prod.splits sum.splits)

lemma call_Inr: "call world c calls = (Inr u, calls') \<longleftrightarrow> aw_raises world c = None \<and> calls' = calls @ [c]"
  by (auto simp: call_def split: option.splits)

lemma failing_Inr: "failing r calls = (Inr x, calls') \<longleftrightarrow> r = Inr x \<and> calls' = calls"
  by (auto simp: failing_def)

lemma finish_Inr: "finish x calls = (Inr y, calls') \<longleftrightarrow> y = x \<and> calls' = calls"
  by (auto simp: finish_def)

lemma on_error_Inr: "on_error m cleanup calls = (Inr x, calls') \<longleftrightarrow> m calls = (Inr x, calls')"
  by (auto simp: on_error_def split: prod.splits sum.splits)

lemma finally_Inr: "finally_preserving m cleanup calls = (Inr x, calls'') \<longleftrightarrow>
    (\<exists>calls'. m calls = (Inr x, calls') \<and> cleanup calls' = (Inr (), calls''))"
  by (auto simp: finally_preserving_def split: prod.splits sum.splits)

lemma cleanup_snapshots_Inr:
  "cleanup_snapshots world names failure calls = (Inr (), calls') \<longleftrightarrow>
    failure = None \<and> (\<forall>name\<in>set names. aw_raises world (CleanupSnapshot name) = None) \<and>
    calls' = calls @ map CleanupSnapshot names"
proof (induction names arbitrary: failure calls)
  case (Cons name names)
  show ?case
    by (cases "aw_raises world (CleanupSnapshot name)") (auto simp: Cons.IH call_def coalesce_def split: option.splits)
qed (auto simp: failing_Inr split: option.splits)

lemmas build_runs = and_then_Inr call_Inr failing_Inr finish_Inr on_error_Inr finally_Inr cleanup_snapshots_Inr

definition build_order :: "build_call list" where
  "build_order = [ValidateOutput, FinalExists, OpenBackend, CreateStage, StageIdentity, WriteStage, RequireStage 0,
     VerifyStage, RequireStage 1, RequireOutput 0, HashStage, RequireStage 2, RequireOutput 1, PublishStage,
     CloseDescriptor, CloseBackend]"

lemma build_artifact_Inr:
  "build_artifact lib world context [] = (Inr (name, digest, manifest), calls) \<longleftrightarrow>
    (\<forall>c\<in>set calls. aw_raises world c = None) \<and> \<not> aw_exists world \<and>
    calls = build_order @ map CleanupSnapshot (discover_snapshots context) \<and>
    (\<exists>validation plan zs. validate_context lib context = Inr validation \<and> plan_artifact lib context validation = Inr plan \<and>
      write_zip (pl_entries plan) (pl_packages plan) (aw_copy world) = Inr zs \<and>
      verify_zip lib (aw_zip_view world (aw_stage world VerifyStage (aw_zip_bytes world zs))) (expected_names plan)
        (pl_hashes plan) = Inr () \<and>
      digest = hexdigest (li_sha256 lib (aw_stage world HashStage (aw_zip_bytes world zs))) \<and>
      name = final_name context \<and> manifest = pl_manifest plan)"
  unfolding build_artifact_def build_inner_def publish_plan_def staged_build_def write_stage_def verify_stage_def Let_def
  by (auto simp: build_runs build_order_def)

lemma verify_zip_Inr:
  assumes "verify_zip lib opened expected hashes = Inr ()"
  obtains view where "opened = Some view" "distinct (map ze_name (zv_infos view))"
    "set (map ze_name (zv_infos view)) = expected" "\<forall>name\<in>expected. safe_zip_path name"
    "\<forall>(name, digest)\<in>set hashes. \<exists>content. zv_read view name = Some content \<and> hexdigest (li_sha256 lib content) = digest"
proof -
  from assms obtain view where v: "opened = Some view" by (auto simp: verify_zip_def split: option.splits)
  note a = assms [unfolded verify_zip_def v Let_def]
  have names: "distinct (map ze_name (zv_infos view))" "set (map ze_name (zv_infos view)) = expected"
    "\<not> list_ex (\<lambda>name. \<not> safe_zip_path name) (map ze_name (zv_infos view))"
    using a by (simp_all split: if_splits)
  from a obtain content checksums where "zv_read view ''checksums.sha256'' = Some content" "parse_checksums content = Inr checksums"
    "set checksums = set hashes" "verify_digests lib view checksums = Inr ()"
    by (simp split: if_splits option.splits sum.splits)
  then have "\<forall>(name, digest)\<in>set hashes. \<exists>content. zv_read view name = Some content \<and> hexdigest (li_sha256 lib content) = digest"
    using verify_digests_ok [of checksums view lib] by simp
  then show ?thesis
    using that [OF v names(1,2)] names(2,3) by (auto simp: list_ex_iff)
qed


lemma sound_wheel_fits:
  assumes "sound_wheels lib context"
    and "distinct (map (\<lambda>p. pkg_canonicalize (li_packaging lib) (pk_name p)) (rr_packages (ac_resolution context)))"
    and "item \<in> set (ac_wheels context)" "wheel_name lib item = pkg_canonicalize (li_packaging lib) (pk_name package)"
    and "package \<in> set (rr_packages (ac_resolution context))"
  shows "fits_package lib item package"
proof -
  obtain p where p: "p \<in> set (rr_packages (ac_resolution context))" "fits_package lib item p"
    using assms(1,3) unfolding sound_wheels_def by blast
  then have "pkg_canonicalize (li_packaging lib) (pk_name p) = pkg_canonicalize (li_packaging lib) (pk_name package)"
    using assms(4) by (simp add: fits_package_def)
  then have "p = package" using assms(2,5) p(1) by (auto simp: distinct_map inj_on_def)
  with p(2) show ?thesis by simp
qed

lemma planned_wheel_hash:
  assumes "plan_of lib context plan entries" "item \<in> set (ac_wheels context)"
  shows "(package_path item, dw_sha256 (vw_download item)) \<in> set (pl_hashes plan)"
  using assms by (auto simp: plan_of_def)

lemma planned_entry_hash:
  assumes "plan_of lib context plan entries" "(path, c) \<in> set (pl_entries plan)" "path \<noteq> CHECKSUMS"
  shows "(path, hexdigest (li_sha256 lib c)) \<in> set (pl_hashes plan)"
  using assms by (force simp: plan_of_def)

lemma build_order_checks:
  "(\<exists>before middle after. build_order @ map CleanupSnapshot names = before @ [VerifyStage] @ middle @ [PublishStage] @ after) \<and>
    CleanupStage \<notin> set (build_order @ map CleanupSnapshot names)"
proof
  have "build_order @ map CleanupSnapshot names =
      [ValidateOutput, FinalExists, OpenBackend, CreateStage, StageIdentity, WriteStage, RequireStage 0] @ [VerifyStage] @
      [RequireStage 1, RequireOutput 0, HashStage, RequireStage 2, RequireOutput 1] @ [PublishStage] @
      ([CloseDescriptor, CloseBackend] @ map CleanupSnapshot names)" by (simp add: build_order_def)
  then show "\<exists>before middle after. build_order @ map CleanupSnapshot names =
      before @ [VerifyStage] @ middle @ [PublishStage] @ after" by blast
qed (auto simp: build_order_def)

lemma artifact_built:
  assumes "validate_context lib context = Inr validation" "plan_artifact lib context validation = Inr plan"
    and "sha256_sized lib" "snapshots_yield lib (aw_copy world) context"
    and "\<forall>c. aw_raises world c = None" "\<not> aw_exists world" "\<forall>c bytes. aw_stage world c bytes = bytes"
    and "\<And>zs. write_zip (pl_entries plan) (pl_packages plan) (aw_copy world) = Inr zs \<Longrightarrow>
      aw_zip_view world (aw_zip_bytes world zs) = Some (read_back zs)"
  shows "\<exists>digest calls. build_artifact lib world context [] = (Inr (final_name context, digest, pl_manifest plan), calls) \<and>
    PublishStage \<in> set calls \<and> CleanupStage \<notin> set calls"
proof -
  note sound = validate_context_Inr(1) [OF assms(1)]
  obtain entries where plan: "plan_of lib context plan entries" using plan_artifact_Inr [OF assms(2) sound] by blast
  obtain zs where zs: "write_zip (pl_entries plan) (pl_packages plan) (aw_copy world) = Inr zs" "distinct (map ze_name zs)"
    "verify_zip lib (Some (read_back zs)) (expected_names plan) (pl_hashes plan) = Inr ()"
    using planned_archive_verifies [OF plan sound assms(3,4)] by blast
  let ?digest = "hexdigest (li_sha256 lib (aw_zip_bytes world zs))"
  let ?calls = "build_order @ map CleanupSnapshot (discover_snapshots context)"
  have "build_artifact lib world context [] = (Inr (final_name context, ?digest, pl_manifest plan), ?calls)"
    using assms(1,2,5-8) zs by (simp add: build_artifact_Inr)
  then show ?thesis by (auto simp: build_order_def)
qed

subsection \<open>What is claimed of the builder\<close>

text \<open>C36 The builder never refuses its own work: for an accepted context whose snapshots still yield what was
  validated, when nothing outside raises, nothing has the artifact's name and the stage is left alone, the build
  ends with a published artifact and cleans no stage up.\<close>

theorem artifact_is_built:
  assumes "validate_context lib context = Inr validation" "plan_artifact lib context validation = Inr plan"
    and "sha256_sized lib" "snapshots_yield lib (aw_copy world) context"
    and "\<forall>c. aw_raises world c = None" "\<not> aw_exists world" "\<forall>c bytes. aw_stage world c bytes = bytes"
    and "\<And>zs. write_zip (pl_entries plan) (pl_packages plan) (aw_copy world) = Inr zs \<Longrightarrow>
      aw_zip_view world (aw_zip_bytes world zs) = Some (read_back zs)"
  shows "\<exists>digest calls. build_artifact lib world context [] = (Inr (final_name context, digest, pl_manifest plan), calls) \<and>
    PublishStage \<in> set calls \<and> CleanupStage \<notin> set calls"
  using assms by (rule artifact_built)

text \<open>C35 What was published had been checked: a build that returns read its stage back, before it published it,
  as an archive of exactly the planned paths, each safe to extract, in which every wheel's content has the digest
  that was validated and every other file the digest of the planned content.\<close>

theorem published_archive_checked:
  assumes "build_artifact lib world context [] = (Inr (name, digest, manifest), calls)"
  shows "\<exists>validation plan view zs. validate_context lib context = Inr validation \<and>
    plan_artifact lib context validation = Inr plan \<and> manifest = pl_manifest plan \<and>
    aw_zip_view world (aw_stage world VerifyStage (aw_zip_bytes world zs)) = Some view \<and>
    (\<exists>before middle after. calls = before @ [VerifyStage] @ middle @ [PublishStage] @ after) \<and> CleanupStage \<notin> set calls \<and>
    distinct (map ze_name (zv_infos view)) \<and> set (map ze_name (zv_infos view)) = expected_names plan \<and>
    (\<forall>path\<in>expected_names plan. safe_zip_path path) \<and>
    (\<forall>item\<in>set (ac_wheels context). \<exists>content snapshot file. zv_read view (package_path item) = Some content \<and>
      vw_snapshot item = Some (file, snapshot) \<and> hexdigest (li_sha256 lib content) = vs_sha256 snapshot) \<and>
    (\<forall>(path, planned)\<in>set (pl_entries plan). path \<noteq> CHECKSUMS \<longrightarrow>
      (\<exists>content. zv_read view path = Some content \<and> hexdigest (li_sha256 lib content) = hexdigest (li_sha256 lib planned)))"
proof -
  obtain validation plan zs where c: "validate_context lib context = Inr validation"
    and p: "plan_artifact lib context validation = Inr plan" and m: "manifest = pl_manifest plan"
    and v: "verify_zip lib (aw_zip_view world (aw_stage world VerifyStage (aw_zip_bytes world zs))) (expected_names plan)
        (pl_hashes plan) = Inr ()"
    and calls: "calls = build_order @ map CleanupSnapshot (discover_snapshots context)"
    using assms unfolding build_artifact_Inr by blast
  note sound = validate_context_Inr(1) [OF c]
  obtain entries where plan: "plan_of lib context plan entries" using plan_artifact_Inr [OF p sound] by blast
  obtain view where view: "aw_zip_view world (aw_stage world VerifyStage (aw_zip_bytes world zs)) = Some view"
    "distinct (map ze_name (zv_infos view))" "set (map ze_name (zv_infos view)) = expected_names plan"
    "\<forall>path\<in>expected_names plan. safe_zip_path path"
    and digests: "\<forall>(path, digest)\<in>set (pl_hashes plan). \<exists>content. zv_read view path = Some content \<and>
      hexdigest (li_sha256 lib content) = digest"
    using verify_zip_Inr [OF v] by blast
  have "\<exists>content snapshot file. zv_read view (package_path item) = Some content \<and>
      vw_snapshot item = Some (file, snapshot) \<and> hexdigest (li_sha256 lib content) = vs_sha256 snapshot"
    if i: "item \<in> set (ac_wheels context)" for item
    using bspec [OF digests planned_wheel_hash [OF plan i]] validate_pair_Inr(3) [of lib item] sound i
    unfolding sound_wheels_def by auto
  moreover have "\<exists>content. zv_read view path = Some content \<and>
      hexdigest (li_sha256 lib content) = hexdigest (li_sha256 lib planned)"
    if "(path, planned) \<in> set (pl_entries plan)" "path \<noteq> CHECKSUMS" for path planned
    using bspec [OF digests planned_entry_hash [OF plan that]] by simp
  ultimately show ?thesis using c p m view build_order_checks [of "discover_snapshots context"]
    unfolding calls by blast
qed

text \<open>C34 A complete artifact pins what it holds: every resolved package has a wheel in it of that version and
  file name, whose digest is the one in the checksums and in the line of the requirements that pip is told to
  install.\<close>

theorem complete_artifact_pins:
  assumes "validate_context lib context = Inr validation" "plan_artifact lib context validation = Inr plan"
    and "pl_complete plan" "package \<in> set (rr_packages (ac_resolution context))"
  shows "\<exists>item\<in>set (ac_wheels context). fits_package lib item package \<and> sha256_text (dw_sha256 (vw_download item)) \<and>
    (package_path item, dw_sha256 (vw_download item)) \<in> set (pl_hashes plan) \<and>
    (\<exists>ls. (''requirements-resolved.txt'', text_bytes (text_lines ls)) \<in> set (pl_entries plan) \<and>
      length ls = length (rr_packages (ac_resolution context)) \<and>
      pkg_canonicalize (li_packaging lib) (pk_name package) @ ''=='' @ v_str (pk_version package) @ '' --hash=sha256:'' @
        dw_sha256 (vw_download item) \<in> set ls)"
proof -
  let ?P = "li_packaging lib" and ?name = "pkg_canonicalize (li_packaging lib) (pk_name package)"
  note valid = validate_context_Inr [OF assms(1)]
  obtain entries where plan: "plan_of lib context plan entries" and "sv_complete validation"
    using plan_artifact_Inr [OF assms(2) valid(1)] assms(3) by blast
  then have "?name \<in> wheel_name lib ` set (ac_wheels context)" using valid(5) assms(4) by blast
  then obtain item where item: "item \<in> set (ac_wheels context)" "wheel_name lib item = ?name" by force
  have fits: "fits_package lib item package"
    using valid(1,2) item assms(4) by (rule sound_wheel_fits)
  have "validate_pair lib item = Inr ()" using valid(1) item(1) unfolding sound_wheels_def by blast
  note digest = validate_pair_Inr(1) [OF this]
  let ?pinned = "\<lparr>ip_name = ?name, ip_version = v_str (pk_version package),
    ip_sha256 = dw_sha256 (vw_download item), ip_packaged = True\<rparr>"
  have "map_of (packaged_by_name ?P context) ?name = Some item"
    using valid(1) item by (simp add: packaged_sound [OF valid(1)] sound_wheels_def comp_def flip: item(2))
  then have "?pinned \<in> set (pl_intended plan)" "length (pl_intended plan) = length (rr_packages (ac_resolution context))"
    using plan assms(4) intend_packages_Inr [of ?P "packaged_by_name ?P context"]
    by (fastforce simp: plan_of_def intended_packages_def)+
  then show ?thesis
    using item fits digest planned_wheel_hash [OF plan item(1)] plan
    by (intro bexI [of _ item] conjI exI [of _ "map requirement_line (pl_intended plan)"])
      (auto simp: plan_of_def requirement_line_def image_iff intro: bexI [of _ ?pinned])
qed


end
