(* ===== verification/ArtifactWitness.thy ===== *)
theory ArtifactWitness
  imports ArtifactFacts ArchiveWitness
begin

section \<open>An artifact that is built\<close>

text \<open>The wheel of \<open>ArchiveWitness\<close> as a complete artifact for a Windows target.\<close>

definition artifact_package :: "nat ResolvedPackage" where
  "artifact_package = \<lparr>pk_name = ''a'', pk_version = dw_version sample_download, pk_requested = True,
     pk_artifact_url = ''https://pypi.org/a'', pk_wheel_filename = ''a-1.0-py3-none-any.whl'',
     pk_requires_dist = [], pk_requires_python = None, pk_archive_hashes = []\<rparr>"

definition artifact_wheel :: "nat ValidatedWheel" where
  "artifact_wheel = \<lparr>vw_download = sample_download,
     vw_report = \<lparr>rep_identity = \<lparr>wi_name = ''a'', wi_version = dw_version sample_download, wi_requires_dist = [],
         wi_requires_python = None\<rparr>,
       rep_tags = [py3_tag], rep_entry_count = 4, rep_total_uncompressed_bytes = 22\<rparr>,
     vw_snapshot = Some (''a-1.0-py3-none-any.whl'', \<lparr>vs_byte_size = 22,
       vs_sha256 = hexdigest (simple_digest sample_bytes), vs_identity = (1, 2)\<rparr>)\<rparr>"

definition artifact_target :: TargetProfile where
  "artifact_target = sample_profile\<lparr>tp_os := ''WINDOWS'', tp_architecture := ''AMD64'', tp_platform_tag := ''win_amd64''\<rparr>"

definition artifact_context :: "nat ArtifactBuildContext" where
  "artifact_context = \<lparr>ac_build_id = uuid_str 7, ac_original_requirements = ''a'',
     ac_resolution = \<lparr>rr_report_version = ''1'', rr_packages = [artifact_package], rr_attempts = [], rr_rejections = [],
       rr_changes = [], rr_source = None, rr_rejections_omitted = 0, rr_observations_truncated = False\<rparr>,
     ac_version_changes = [], ac_target = artifact_target,
     ac_validation = \<lparr>sv_issues = [], sv_complete = True, sv_validation_level = ''STATIC'', sv_install_verified = False\<rparr>,
     ac_wheels = [artifact_wheel]\<rparr>"

lemma artifact_pair: "validate_pair sample_library artifact_wheel = Inr ()"
  by code_simp

lemma artifact_closure:
  "validate_closure sample_packaging (ac_resolution artifact_context) (map vw_download (ac_wheels artifact_context)) artifact_target =
     Some (ac_validation artifact_context)"
  by code_simp

lemma artifact_valid:
  "validate_context sample_library artifact_context = Inr (ac_validation artifact_context)"
proof -
  have "canonical_uuid (ac_build_id artifact_context) = Some (ac_build_id artifact_context)"
    by (simp add: artifact_context_def canonical_uuid_str)
  moreover have "resolved_by_name sample_packaging (rr_packages (ac_resolution artifact_context)) [] =
      Inr [(''a'', artifact_package)]" by code_simp
  moreover have "check_wheels sample_library [(''a'', artifact_package)] (ac_wheels artifact_context) [] [] = Inr [''a'']"
    by code_simp
  ultimately show ?thesis using artifact_closure
    by (simp add: validate_context_def) (simp add: artifact_context_def sample_library_def artifact_target_def)
qed

lemma artifact_planned:
  "\<exists>plan. plan_artifact sample_library artifact_context (ac_validation artifact_context) = Inr plan \<and> pl_complete plan"
proof -
  have "case intended_packages sample_packaging artifact_context (packaged_by_name sample_packaging artifact_context) of
      Inl _ \<Rightarrow> False | Inr i \<Rightarrow> length i = 1" by code_simp
  moreover have "length (packaged_by_name sample_packaging artifact_context) = 1" by code_simp
  moreover have "case scripts (ac_target artifact_context) True of Inl _ \<Rightarrow> False | Inr _ \<Rightarrow> True"
    by (simp add: scripts_def windows_scripts_def major_minor_def artifact_context_def artifact_target_def sample_profile_def Let_def)
  moreover have "sv_complete (ac_validation artifact_context)" "li_packaging sample_library = sample_packaging"
    by (simp_all add: artifact_context_def sample_library_def)
  ultimately show ?thesis by (auto simp: plan_artifact_def text_entries_def Let_def split: sum.splits)
qed

text \<open>Nothing raises, the snapshot yields the wheel and the archive is read back as it was written.\<close>

definition quiet_world :: "nat artifact_plan \<Rightarrow> nat artifact_world" where
  "quiet_world plan = \<lparr>aw_raises = (\<lambda>_. None), aw_exists = False, aw_copy = (\<lambda>_. Inr sample_bytes), aw_zip_bytes = (\<lambda>_. []),
     aw_stage = (\<lambda>_ bytes. bytes),
     aw_zip_view = (\<lambda>_. Some (read_back (projr (write_zip (pl_entries plan) (pl_packages plan) (\<lambda>_. Inr sample_bytes)))))\<rparr>"

lemma sample_sha256: "sha256_sized sample_library"
  by (simp add: sha256_sized_def sample_library_def simple_digest_def list_all_iff)

lemma quiet_snapshots: "snapshots_yield sample_library (aw_copy (quiet_world plan)) artifact_context"
  by (simp add: snapshots_yield_def quiet_world_def artifact_context_def artifact_wheel_def sample_download_def sample_library_def)

lemma quiet_reads:
  "write_zip (pl_entries plan) (pl_packages plan) (aw_copy (quiet_world plan)) = Inr zs \<Longrightarrow>
    aw_zip_view (quiet_world plan) (aw_zip_bytes (quiet_world plan) zs) = Some (read_back zs)"
  by (simp add: quiet_world_def)

lemma quiet_calm:
  "\<forall>c. aw_raises (quiet_world plan) c = None" "\<not> aw_exists (quiet_world plan)"
  "\<forall>c bytes. aw_stage (quiet_world plan) c bytes = bytes"
  by (simp_all add: quiet_world_def)

lemmas quiet_build = sample_sha256 quiet_snapshots quiet_calm quiet_reads

theorem artifact_is_built_witness:
  "\<exists>plan digest calls. build_artifact sample_library (quiet_world plan) artifact_context [] =
    (Inr (final_name artifact_context, digest, pl_manifest plan), calls)"
proof -
  obtain plan where "plan_artifact sample_library artifact_context (ac_validation artifact_context) = Inr plan"
    using artifact_planned by blast
  from artifact_is_built [OF artifact_valid this quiet_build] show ?thesis by blast
qed

theorem published_archive_checked_witness:
  "\<exists>plan built calls (view :: zip_view) content. VerifyStage \<in> set calls \<and>
    build_artifact sample_library (quiet_world plan) artifact_context [] = (Inr built, calls) \<and>
    zv_read view (package_path artifact_wheel) = Some content \<and>
    hexdigest (li_sha256 sample_library content) = hexdigest (simple_digest sample_bytes)"
proof -
  obtain plan where plan: "plan_artifact sample_library artifact_context (ac_validation artifact_context) = Inr plan"
    using artifact_planned by blast
  from artifact_built [OF artifact_valid this quiet_build] obtain digest calls where
    b: "build_artifact sample_library (quiet_world plan) artifact_context [] =
      (Inr (final_name artifact_context, digest, pl_manifest plan), calls)" by blast
  have "artifact_wheel \<in> set (ac_wheels artifact_context)" by (simp add: artifact_context_def)
  moreover from published_archive_checked [OF b] obtain before middle after and view :: zip_view where
    calls: "calls = before @ [VerifyStage] @ middle @ [PublishStage] @ after"
    and "\<forall>item\<in>set (ac_wheels artifact_context). \<exists>content snapshot file. zv_read view (package_path item) = Some content \<and>
      vw_snapshot item = Some (file, snapshot) \<and> hexdigest (li_sha256 sample_library content) = vs_sha256 snapshot"
    by (elim exE conjE) (rule that)
  ultimately obtain content snapshot name where
    "zv_read view (package_path artifact_wheel) = Some content" "vw_snapshot artifact_wheel = Some (name, snapshot)"
    "hexdigest (li_sha256 sample_library content) = vs_sha256 snapshot" by blast
  moreover from this(2) have "vs_sha256 snapshot = hexdigest (simple_digest sample_bytes)"
    by (auto simp: artifact_wheel_def)
  moreover have "VerifyStage \<in> set calls" by (simp add: calls)
  ultimately show ?thesis using b by metis
qed

theorem complete_artifact_pins_witness:
  "\<exists>plan. plan_artifact sample_library artifact_context (ac_validation artifact_context) = Inr plan \<and>
    (''packages/a-1.0-py3-none-any.whl'', hexdigest (simple_digest sample_bytes)) \<in> set (pl_hashes plan)"
proof -
  obtain plan where plan: "plan_artifact sample_library artifact_context (ac_validation artifact_context) = Inr plan"
    "pl_complete plan" using artifact_planned by blast
  have "artifact_package \<in> set (rr_packages (ac_resolution artifact_context))" by (simp add: artifact_context_def)
  from complete_artifact_pins [OF artifact_valid plan this] obtain item where
    "item \<in> set (ac_wheels artifact_context)" "(package_path item, dw_sha256 (vw_download item)) \<in> set (pl_hashes plan)"
    by blast
  with plan(1) show ?thesis
    by (auto simp: artifact_context_def artifact_wheel_def package_path_def sample_download_def)
qed

end
