(* ===== verification/Spec2Isabelle.thy ===== *)
theory Spec2Isabelle
  imports Effects QueueMove SearchWitness PipelineWitness ArchiveWitness ArtifactWitness
begin

text \<open>
  \<^bold>\<open>The wheelforge worker.\<close>  Wheelforge turns an uploaded requirements file into an offline bundle
  of Python wheels for a target machine.  A backend (\<open>src/backend\<close>, Java) stores files, tasks and jobs in a
  database; workers (\<open>src/worker/src/wheelforge_worker\<close>, Python) lease jobs, parse requirements, resolve
  versions, download and validate wheels and publish an artifact.  This development models the worker.

  \<^bold>\<open>Conventions.\<close>  A Python \<open>str\<close> is a HOL string, one character for a code point below 256.
  Times are integers of microseconds.  A raised exception is the \<open>Inl\<close> side of a sum or None.  A table is
  the list of its rows, a transaction a function on the database that keeps the old one when it raises.
  Loops are structural recursions or functions with a termination proof; where the code scans text with
  fuel (\<open>JsonParse\<close>) the fuel is twice the length of the text, which is proved enough for every encoded
  payload.  What the repository does not hold is a parameter: the packaging library (the record
  \<open>packaging\<close>), the table of the gbk codec, the zip reader, the hash and the header parser, the clock, the
  candidate provider and the strict resolver that runs pip.  A small concrete packaging library, \<open>sample_packaging\<close>,
  instantiates the parameter in witnesses.

  \<^bold>\<open>The job database\<close> (\<open>jobs/repository.py\<close>).  \<open>JobDb\<close> has the tables and SQL statements,
  \<open>Repository\<close> claims, leases, heartbeats, retries and failures, \<open>Executions\<close> what an execution does to its
  subject (claim, publish a parse, advance, log, record packages, cancel, publish an artifact), snapshots and
  limits, \<open>AuditRecords\<close> the bounded audits.  \<open>Lifecycle\<close> classifies how each method may change the job
  table and states its fencing as a locale; \<open>Deployment\<close> is a transition system of any number of workers,
  the backend and the clock: the job table's invariant, one owner for a job, and a lost lease that can no
  longer change anything.  \<open>Effects\<close> states what each method does when it is allowed to.

  \<^bold>\<open>JSON, errors, identifiers\<close> (\<open>contracts.py\<close>, \<open>jobs/errors.py\<close>).  \<open>Json\<close> and \<open>JsonParse\<close> are
  the bounded encoding of payloads, its decoder and their round trip; \<open>PyRegex\<close> is Python's backtracking
  matcher and \<open>Errors\<close> the sanitising of error texts with it; \<open>Uuids\<close> canonical identifiers.

  \<^bold>\<open>The maintenance queue\<close> (\<open>jobs/segmented_queue.py\<close>).  \<open>QueueCodec\<close> prints and parses records
  and states, \<open>SegmentedQueue\<close> has every operation on the segment files; \<open>QueueFacts\<close>, \<open>QueueFifo\<close>,
  \<open>QueueRecovery\<close> and \<open>QueueMove\<close> prove the queue invariant, that a lane is a first-in first-out queue,
  that reconciliation repairs any files and that a move between queues survives a crash at any point.

  \<^bold>\<open>Targets and requirements\<close> (\<open>target/\<close>, \<open>parser/\<close>).  \<open>Packaging\<close> declares the library,
  \<open>Target\<close> the validated profile, its marker environment and wheel tags against a declarative description,
  \<open>Utf8\<close> and \<open>Requirements\<close> the requirements parser, \<open>RequirementFacts\<close> what an accepted file satisfies.

  \<^bold>\<open>Resolution\<close> (\<open>resolver/candidates.py\<close>, \<open>resolver/compatible.py\<close>).  \<open>Candidates\<close> orders
  replacement versions, \<open>Observations\<close> turns provider data into bounded candidate options, \<open>Compatible\<close> is
  the whole search with its budgets and clock.  \<open>SearchBounds\<close>, \<open>OptionFacts\<close>, \<open>SearchFacts\<close> and
  \<open>SearchProperties\<close> prove its bounds, the soundness of its results, that it repeats nothing and that it
  gives up only when everything was tried; \<open>SearchWitness\<close> runs it.

  \<^bold>\<open>Validation\<close> (\<open>validation/static.py\<close>).  \<open>Closure\<close> is the report on a resolved set and its
  equivalence with a declarative closed set.

  \<^bold>\<open>Jobs\<close> (\<open>contracts.py\<close>, \<open>jobs/pipeline.py\<close>, \<open>jobs/consumer.py\<close>, \<open>jobs/heartbeat.py\<close>).
  \<open>Payloads\<close> validates the parse and build payloads of a job.  \<open>Programs\<close> lets one worker call the database
  and its stages: a program maps the database, the clock and the queue of what the outside does next to a
  result or an exception, and before every call of the worker the outside may change the database.
  \<open>Pipeline\<close> is the whole of run, the parse, the build with its error paths, its cleanups and its
  heartbeats, and the consumer that claims and runs one job.  \<open>PipelineFacts\<close> relates it to \<open>Deployment\<close>:
  every run is a sequence of steps of the transition system, so the fencing proved there holds of the
  program; a lost lease is given up without a write, a published artifact is the one that was built.
  \<open>PipelineWitness\<close> runs a parse and a build on concrete databases.

  \<^bold>\<open>Wheel archives\<close> (\<open>validation/archive.py\<close>).  \<open>ArchiveMembers\<close> has the member names, the tree of
  files and directories and the member loop; \<open>ArchiveFacts\<close> proves the loop equivalent to a declarative set of
  safe members and that extraction stays inside its directory.  \<open>ArchiveRecord\<close> reads the RECORD of a wheel
  (csv rows, digests in base64), \<open>ArchiveValidation\<close> the end records, the metadata, the contents and the
  private snapshot of a descriptor; \<open>ArchiveReport\<close> states what a report of the validator vouches for and
  \<open>ArchiveWitness\<close> runs it.  The zip reader, the hash and the header parser are the record
  \<open>archive_library\<close>.

  \<^bold>\<open>Artifacts\<close> (\<open>artifact/builder.py\<close>).  \<open>Artifact\<close> has the checks of a build's context and every file of
  the archive: manifest, pinned requirements, comparison, report, scripts, checksums.  \<open>ArtifactBuild\<close> writes
  the archive to a stage, verifies it and publishes it, with the cleanups on every path; the calls of the
  publication backend and the zip library are the record \<open>artifact_world\<close>.  \<open>ArtifactFacts\<close> proves that the
  builder accepts its own archive, that what is published had been checked and that a complete artifact pins
  the wheels it holds; \<open>ArtifactWitness\<close> builds one.

  \<^bold>\<open>Not modelled.\<close>  The object store and workspaces (\<open>jobs/storage.py\<close>), the runner of
  subprocesses and the path variant of the archive validator are operating-system code: descriptors, locks,
  links.  The strict resolver and the downloader drive pip; the default build stages of \<open>jobs/pipeline.py\<close>
  wire them together and are a parameter of the pipeline.  The builder's publication backends are system calls.
  The endless loops of the consumer and of the maintenance service, settings and start-up are not modelled.  Foreign keys,
  column widths and database failures, and characters beyond code point 255 are outside the model; so are
  the backend and the frontend.
\<close>

end
